(* ===== verification/Prelude.thy ===== *)
theory Prelude imports Main "HOL-Library.Word" begin

text \<open>
  Shared material of the development: the named theorem collections the component theories
  extend, lemmas on maps, lists and options that several of them use, and the contract every
  registry of the worker satisfies: an id-keyed table that is written by one operation, cleared by
  another and read by a third.
\<close>

named_theorems frame_simps
  \<open>what an operation leaves unchanged\<close>

named_theorems inv_preserved
  \<open>an operation keeps its component's invariant\<close>

section \<open>Maps and lists\<close>

lemma map_upd_twice_same [simp]: "(m(k \<mapsto> a))(k \<mapsto> b) = m(k \<mapsto> b)"
  by simp

lemma option_case_eq_Some_iff:
  "(case x of None \<Rightarrow> None | Some y \<Rightarrow> f y) = Some z \<longleftrightarrow> (\<exists>y. x = Some y \<and> f y = Some z)"
  by (cases x) auto

lemma takeWhile_dropWhile_pred:
  "dropWhile P xs = y # ys \<Longrightarrow> xs = takeWhile P xs @ y # ys \<and> \<not> P y"
  by (metis dropWhile_eq_Cons_conv takeWhile_dropWhile_id)

lemma sum_list_map_add:
  "(\<Sum>x\<leftarrow>xs. f x + g x) = (\<Sum>x\<leftarrow>xs. f x) + (\<Sum>x\<leftarrow>xs. g x :: 'b::comm_monoid_add)"
  by (rule sum_list_addf)

section \<open>Keyed tables\<close>

text \<open>
  The contract of the registries: \<open>put\<close> stores under a key and shadows what was there,
  \<open>del\<close> removes (and is a no-op for an unknown key), \<open>get\<close> reads. The deployment registry of
  the proxy, the allocation table of the GPU allocator, the metrics collector's buckets and the
  session tables of the shell tunnel provide it.
\<close>

locale keyed_table =
  fixes put :: "'k \<Rightarrow> 'v \<Rightarrow> 't \<Rightarrow> 't"
    and del :: "'k \<Rightarrow> 't \<Rightarrow> 't"
    and get :: "'t \<Rightarrow> 'k \<Rightarrow> 'v option"
  assumes get_put: "get (put k v t) j = (if j = k then Some v else get t j)"
    and get_del: "get (del k t) j = (if j = k then None else get t j)"
begin

lemma get_put_same: "get (put k v t) k = Some v"
  by (simp add: get_put)

lemma get_del_same: "get (del k t) k = None"
  by (simp add: get_del)

lemma get_del_put: "get (del k (put k v t)) j = get (del k t) j"
  by (simp add: get_put get_del)

lemma get_put_del: "get (put k v (del k t)) j = get (put k v t) j"
  by (simp add: get_put get_del)

lemma get_del_idem: "get (del k (del k t)) j = get (del k t) j"
  by (simp add: get_del)

lemma get_put_commute: "k \<noteq> l \<Longrightarrow> get (put k v (put l w t)) j = get (put l w (put k v t)) j"
  by (simp add: get_put)

lemma del_others: "j \<noteq> k \<Longrightarrow> get (del k t) j = get t j"
  by (simp add: get_del)

lemma get_fold_del: "get (fold del ks t) j = (if j \<in> set ks then None else get t j)"
  by (induction ks arbitrary: t) (auto simp: get_del)

end

end
