(* ===== verification/Go_Lib.thy ===== *)
theory Go_Lib imports Prelude begin

text \<open>
  What the worker uses of Go's standard library: the byte-string operations of package strings,
  decimal conversions of package strconv, the verbs of fmt that build error texts, and error
  values. Strings are byte lists (HOL's \<^typ>\<open>string\<close>). Case mapping and white space are the
  ASCII ones; the source applies them to identifiers, header names and /proc text only.
\<close>

section \<open>Package strings\<close>

definition has_prefix :: "string \<Rightarrow> string \<Rightarrow> bool" where
  "has_prefix s p = (take (length p) s = p)"

fun str_index :: "string \<Rightarrow> string \<Rightarrow> nat option" where
  "str_index [] sub = (if sub = [] then Some 0 else None)"
| "str_index (c # cs) sub =
     (if has_prefix (c # cs) sub then Some 0 else map_option Suc (str_index cs sub))"

definition contains_str :: "string \<Rightarrow> string \<Rightarrow> bool" where
  "contains_str s sub = (str_index s sub \<noteq> None)"

definition lower_char :: "char \<Rightarrow> char" where
  "lower_char c =
     (let k = (of_char c :: nat) in if 65 \<le> k \<and> k \<le> 90 then char_of (k + 32) else c)"

definition to_lower :: "string \<Rightarrow> string" where
  "to_lower s = map lower_char s"

definition equal_fold :: "string \<Rightarrow> string \<Rightarrow> bool" where
  "equal_fold a b = (to_lower a = to_lower b)"

definition is_space :: "char \<Rightarrow> bool" where
  "is_space c = (let k = (of_char c :: nat) in k = 32 \<or> (9 \<le> k \<and> k \<le> 13))"

definition trim_space :: "string \<Rightarrow> string" where
  "trim_space s = rev (dropWhile is_space (rev (dropWhile is_space s)))"

definition is_digit :: "char \<Rightarrow> bool" where
  "is_digit c = (let k = (of_char c :: nat) in 48 \<le> k \<and> k \<le> 57)"

definition is_lower_alpha :: "char \<Rightarrow> bool" where
  "is_lower_alpha c = (let k = (of_char c :: nat) in 97 \<le> k \<and> k \<le> 122)"

definition is_upper_alpha :: "char \<Rightarrow> bool" where
  "is_upper_alpha c = (let k = (of_char c :: nat) in 65 \<le> k \<and> k \<le> 90)"

text \<open>\<open>strings.Split\<close> on a one-byte separator.\<close>

fun split_on :: "char \<Rightarrow> string \<Rightarrow> string list" where
  "split_on sep [] = [[]]"
| "split_on sep (c # cs) =
     (if c = sep then [] # split_on sep cs
      else (case split_on sep cs of [] \<Rightarrow> [[c]] | w # ws \<Rightarrow> (c # w) # ws))"

text \<open>\<open>strings.Cut\<close> on a one-byte separator: \<open>None\<close> when it does not occur.\<close>

fun cut_at :: "char \<Rightarrow> string \<Rightarrow> (string \<times> string) option" where
  "cut_at sep [] = None"
| "cut_at sep (c # cs) =
     (if c = sep then Some ([], cs)
      else map_option (\<lambda>(a, b). (c # a, b)) (cut_at sep cs))"

text \<open>\<open>strings.Fields\<close>: the maximal runs of non-space bytes.\<close>

fun fields_acc :: "string \<Rightarrow> string \<Rightarrow> string list" where
  "fields_acc w [] = (if w = [] then [] else [rev w])"
| "fields_acc w (c # cs) =
     (if is_space c then (if w = [] then fields_acc [] cs else rev w # fields_acc [] cs)
      else fields_acc (c # w) cs)"

definition str_fields :: "string \<Rightarrow> string list" where
  "str_fields s = fields_acc [] s"

fun str_join :: "string \<Rightarrow> string list \<Rightarrow> string" where
  "str_join sep [] = []"
| "str_join sep [w] = w"
| "str_join sep (w # v # ws) = w @ sep @ str_join sep (v # ws)"

lemma has_prefix_iff: "has_prefix s p \<longleftrightarrow> (\<exists>t. s = p @ t)"
  by (auto simp: has_prefix_def) (metis append_take_drop_id)

lemma has_prefix_refl [simp]: "has_prefix s s"
  by (simp add: has_prefix_def)

lemma has_prefix_append [simp]: "has_prefix (p @ t) p"
  by (simp add: has_prefix_def)

lemma has_prefix_Nil [simp]: "has_prefix s []"
  by (simp add: has_prefix_def)

lemma has_prefix_length: "has_prefix s p \<Longrightarrow> length p \<le> length s"
  by (auto simp: has_prefix_iff)

text \<open>Two prefixes of one string: the shorter is a prefix of the longer.\<close>

lemma has_prefix_comparable:
  "has_prefix s p \<Longrightarrow> has_prefix s q \<Longrightarrow> length p \<le> length q \<Longrightarrow> has_prefix q p"
  by (auto simp: has_prefix_iff append_eq_append_conv2)

lemma has_prefix_same_length:
  "has_prefix s p \<Longrightarrow> has_prefix s q \<Longrightarrow> length p = length q \<Longrightarrow> p = q"
  by (simp add: has_prefix_def)

lemma str_index_Some:
  "str_index s sub = Some i \<Longrightarrow> s = take i s @ sub @ drop (i + length sub) s"
proof (induction s arbitrary: i)
  case Nil
  then show ?case by (simp split: if_splits)
next
  case (Cons c cs)
  show ?case
  proof (cases "has_prefix (c # cs) sub")
    case True
    with Cons.prems show ?thesis by (auto simp: has_prefix_iff)
  next
    case False
    with Cons.prems obtain k where "str_index cs sub = Some k" "i = Suc k" by auto
    with Cons.IH show ?thesis by simp
  qed
qed

lemma lower_char_idem [simp]: "lower_char (lower_char c) = lower_char c"
  by (simp add: lower_char_def Let_def)

lemma to_lower_idem [simp]: "to_lower (to_lower s) = to_lower s"
  by (simp add: to_lower_def)

lemma split_on_nonempty [simp]: "split_on sep s \<noteq> []"
  by (induction s) (auto split: list.splits)

text \<open>Splitting and joining with the same separator restores the string.\<close>

lemma join_split_on: "str_join [sep] (split_on sep s) = s"
proof (induction s)
  case Nil
  then show ?case by simp
next
  case (Cons c cs)
  obtain w ws where ws: "split_on sep cs = w # ws"
    by (cases "split_on sep cs") auto
  with Cons show ?case by (cases ws) auto
qed

lemma split_on_no_sep: "w \<in> set (split_on sep s) \<Longrightarrow> sep \<notin> set w"
  by (induction s arbitrary: w) (auto split: if_splits list.splits)

section \<open>Package strconv\<close>

definition digit_char :: "nat \<Rightarrow> char" where
  "digit_char d = char_of (48 + d)"

fun nat_str :: "nat \<Rightarrow> string" where
  "nat_str n = (if n < 10 then [digit_char n] else nat_str (n div 10) @ [digit_char (n mod 10)])"

declare nat_str.simps [simp del]

definition itoa :: "int \<Rightarrow> string" where
  "itoa i = (if i < 0 then CHR ''-'' # nat_str (nat (- i)) else nat_str (nat i))"

definition digit_val :: "char \<Rightarrow> nat" where
  "digit_val c = of_char c - 48"

definition digits_val :: "string \<Rightarrow> nat" where
  "digits_val s = foldl (\<lambda>n c. 10 * n + digit_val c) 0 s"

text \<open>\<open>ParseUint(s, 10, 64)\<close>: digits only, and an error past 64 bits.\<close>

definition parse_uint64 :: "string \<Rightarrow> 64 word option" where
  "parse_uint64 s =
     (if s = [] \<or> \<not> list_all is_digit s then None
      else if digits_val s < 2 ^ 64 then Some (of_nat (digits_val s)) else None)"

text \<open>\<open>Atoi\<close>: an optional sign, digits, and an error outside the 64-bit signed range.\<close>

definition atoi :: "string \<Rightarrow> int option" where
  "atoi s =
     (let neg = has_prefix s ''-'';
          ds = (if neg \<or> has_prefix s ''+'' then tl s else s)
      in if ds = [] \<or> \<not> list_all is_digit ds then None
         else let v = (if neg then - int (digits_val ds) else int (digits_val ds))
              in if - (2 ^ 63) \<le> v \<and> v < 2 ^ 63 then Some v else None)"

lemma digit_char_simps:
  "digit_char 0 = CHR ''0''" "digit_char 1 = CHR ''1''" "digit_char (Suc 0) = CHR ''1''" "digit_char 2 = CHR ''2''"
  "digit_char 3 = CHR ''3''" "digit_char 4 = CHR ''4''" "digit_char 5 = CHR ''5''"
  "digit_char 6 = CHR ''6''" "digit_char 7 = CHR ''7''" "digit_char 8 = CHR ''8''"
  "digit_char 9 = CHR ''9''"
  by (simp_all add: digit_char_def char_of_def bit_0)

lemma is_digit_digit_char: "d < 10 \<Longrightarrow> is_digit (digit_char d)"
  by (simp add: is_digit_def digit_char_def Let_def)

lemma digit_val_digit_char: "d < 10 \<Longrightarrow> digit_val (digit_char d) = d"
  by (simp add: digit_val_def digit_char_def)

lemma nat_str_nonempty [simp]: "nat_str n \<noteq> []"
  by (subst nat_str.simps) simp

lemma nat_str_digits: "list_all is_digit (nat_str n)"
proof (induction n rule: nat_str.induct)
  case (1 n)
  then show ?case
    by (subst nat_str.simps) (auto simp: is_digit_digit_char)
qed

lemma digits_val_snoc: "digits_val (s @ [c]) = 10 * digits_val s + digit_val c"
  by (simp add: digits_val_def)

lemma digits_val_nat_str: "digits_val (nat_str n) = n"
proof (induction n rule: nat_str.induct)
  case (1 n)
  show ?case
  proof (cases "n < 10")
    case True
    then show ?thesis
      by (subst nat_str.simps) (simp add: digits_val_def digit_val_digit_char)
  next
    case False
    with 1 have "digits_val (nat_str (n div 10)) = n div 10" by simp
    with False show ?thesis
      by (subst nat_str.simps) (simp add: digits_val_snoc digit_val_digit_char)
  qed
qed

lemma nat_str_inject [simp]: "nat_str m = nat_str n \<longleftrightarrow> m = n"
  by (metis digits_val_nat_str)

lemma minus_not_digit: "\<not> is_digit (CHR ''-'')"
  by (simp add: is_digit_def)

lemma nat_str_not_minus: "nat_str n \<noteq> CHR ''-'' # s"
  using nat_str_digits [of n] minus_not_digit by auto

lemma itoa_inject: "itoa i = itoa j \<longleftrightarrow> i = j"
  using nat_str_not_minus nat_str_not_minus [symmetric]
  by (auto simp: itoa_def split: if_splits)

lemma parse_uint64_nat_str: "n < 2 ^ 64 \<Longrightarrow> parse_uint64 (nat_str n) = Some (of_nat n)"
  by (simp add: parse_uint64_def nat_str_digits digits_val_nat_str)

section \<open>Error values\<close>

text \<open>
  An error is the format string and arguments it was built from; \<open>%w\<close> wraps another error.
  \<open>err_text\<close> is \<open>err.Error()\<close>.
\<close>

datatype go_error = Errorf string "farg list"
  and farg = FStr string | FInt int | FRune char | FErr go_error

definition hex_digit :: "nat \<Rightarrow> char" where
  "hex_digit d = char_of (if d < 10 then 48 + d else 87 + d)"

definition quote_char :: "char \<Rightarrow> string" where
  "quote_char c =
     (let k = (of_char c :: nat) in
      if c = CHR 0x22 then [CHR 0x5C, CHR 0x22]
      else if c = CHR 0x5C then [CHR 0x5C, CHR 0x5C]
      else if k = 7 then [CHR 0x5C, CHR ''a''] else if k = 8 then [CHR 0x5C, CHR ''b'']
      else if k = 9 then [CHR 0x5C, CHR ''t''] else if k = 10 then [CHR 0x5C, CHR ''n'']
      else if k = 11 then [CHR 0x5C, CHR ''v''] else if k = 12 then [CHR 0x5C, CHR ''f'']
      else if k = 13 then [CHR 0x5C, CHR ''r'']
      else if k < 32 \<or> k = 127 then [CHR 0x5C, CHR ''x'', hex_digit (k div 16), hex_digit (k mod 16)]
      else [c])"

definition go_quote :: "string \<Rightarrow> string" where
  "go_quote s = [CHR 0x22] @ concat (map quote_char s) @ [CHR 0x22]"

definition go_quote_rune :: "char \<Rightarrow> string" where
  "go_quote_rune c =
     [CHR 0x27] @ (if c = CHR 0x27 then [CHR 0x5C, CHR 0x27] else if c = CHR 0x22 then [c] else quote_char c) @ [CHR 0x27]"

fun err_text :: "go_error \<Rightarrow> string"
  and go_sprintf :: "string \<Rightarrow> farg list \<Rightarrow> string"
  and farg_text :: "char \<Rightarrow> farg \<Rightarrow> string" where
  "err_text (Errorf f args) = go_sprintf f args"
| "go_sprintf [] args = []"
| "go_sprintf [c] args = [c]"
| "go_sprintf (c # v # f) args =
     (if c = CHR ''%'' then
        (if v = CHR ''%'' then CHR ''%'' # go_sprintf f args
         else (case args of [] \<Rightarrow> c # v # go_sprintf f []
               | a # as \<Rightarrow> farg_text v a @ go_sprintf f as))
      else c # go_sprintf (v # f) args)"
| "farg_text v (FStr s) = (if v = CHR ''q'' then go_quote s else s)"
| "farg_text v (FInt i) = itoa i"
| "farg_text v (FRune c) = go_quote_rune c"
| "farg_text v (FErr e) = err_text e"

abbreviation wrap_err :: "string \<Rightarrow> go_error \<Rightarrow> go_error" where
  "wrap_err pre e \<equiv> Errorf (pre @ '': %w'') [FErr e]"


text \<open>The character U+2026 of several messages, in UTF-8.\<close>

definition ellipsis :: string where
  "ellipsis = [CHR 0xE2, CHR 0x80, CHR 0xA6]"

section \<open>Slices\<close>

text \<open>
  Indexing a slice with a Go int: an index outside the slice panics, which is \<open>None\<close> here. The
  mutable cell behind \<open>xs[i] = v\<close> is the updated list.
\<close>

definition slice_get :: "'a list \<Rightarrow> int \<Rightarrow> 'a option" where
  "slice_get xs i = (if 0 \<le> i \<and> i < int (length xs) then Some (xs ! nat i) else None)"

definition slice_set :: "'a list \<Rightarrow> int \<Rightarrow> 'a \<Rightarrow> 'a list option" where
  "slice_set xs i v = (if 0 \<le> i \<and> i < int (length xs) then Some (xs[nat i := v]) else None)"

lemma slice_get_nat [simp]: "i < length xs \<Longrightarrow> slice_get xs (int i) = Some (xs ! i)"
  by (simp add: slice_get_def)

lemma slice_set_nat [simp]: "i < length xs \<Longrightarrow> slice_set xs (int i) v = Some (xs[i := v])"
  by (simp add: slice_set_def)

lemma slice_get_end [simp]: "slice_get xs (int (length xs)) = None"
  by (simp add: slice_get_def)

section \<open>Decimal floating-point values\<close>

text \<open>
  A finite float64 that enters or leaves the program as decimal text is kept as that decimal,
  \<open>Dec m s\<close> for \<open>m * 10 ^ - s\<close>. \<open>FormatFloat(x, 'f', -1, 64)\<close> prints the shortest decimal of
  a float64; for a value kept as its shortest decimal that is \<open>format_f64\<close>.
\<close>

datatype f64 = Dec int nat

definition pad_left :: "nat \<Rightarrow> string \<Rightarrow> string" where
  "pad_left n s = replicate (n - length s) (CHR ''0'') @ s"

fun format_f64 :: "f64 \<Rightarrow> string" where
  "format_f64 (Dec m s) =
     (let ds = pad_left (Suc s) (nat_str (nat \<bar>m\<bar>)); k = length ds - s
      in (if m < 0 then ''-'' else []) @ take k ds @ (if s = 0 then [] else CHR ''.'' # drop k ds))"

text \<open>\<open>ParseFloat\<close> on unsigned decimal text; a syntax error yields the value 0.\<close>

definition parse_f64 :: "string \<Rightarrow> f64 option" where
  "parse_f64 s =
     (let (a, b) = (case cut_at (CHR ''.'') s of None \<Rightarrow> (s, []) | Some (x, y) \<Rightarrow> (x, y))
      in if a @ b \<noteq> [] \<and> list_all is_digit (a @ b) then Some (Dec (int (digits_val (a @ b))) (length b))
         else None)"

section \<open>Dynamically typed values\<close>

text \<open>
  A value of type \<open>any\<close>: the scalar types the code switches over, and what JSON decoding can
  produce beside them.
\<close>

datatype scalar =
    SStr string
  | SBool bool
  | SInt int
  | SInt32 int
  | SInt64 int
  | SF32 f64
  | SF64 f64

datatype go_any =
    AScalar scalar
  | ANil
  | AList "go_any list"
  | AMap "(string \<times> go_any) list"

text \<open>A type assertion \<open>v.(bool)\<close> that succeeds with true.\<close>

definition is_true :: "scalar option \<Rightarrow> bool" where
  "is_true v = (v = Some (SBool True))"

end
