(* ===== verification/Ports.thy ===== *)
theory Ports imports Go_Lib begin

text \<open>
  Host ports (internal/runtime/portalloc.go): the allocator that hands out the smallest free port
  of a range, the contract its clients rely on, and that the allocator keeps it.
\<close>

record port_allocator =
  pa_lo :: int
  pa_hi :: int
  pa_used :: "int set"

definition new_port_allocator :: "int \<Rightarrow> int \<Rightarrow> port_allocator" where
  "new_port_allocator l h = \<lparr>pa_lo = l, pa_hi = h, pa_used = {}\<rparr>"

text \<open>The scan of \<open>Next\<close>: the first port from \<open>p\<close> up to \<open>hi\<close> that is not in use.\<close>

function scan_ports :: "int set \<Rightarrow> int \<Rightarrow> int \<Rightarrow> int option" where
  "scan_ports used p hi =
     (if p \<le> hi then (if p \<notin> used then Some p else scan_ports used (p + 1) hi) else None)"
  by pat_completeness auto
termination
  by (relation "measure (\<lambda>(used, p, hi). nat (hi - p + 1))") auto

declare scan_ports.simps [simp del]

definition port_next :: "port_allocator \<Rightarrow> (go_error + int) \<times> port_allocator" where
  "port_next a =
     (case scan_ports (pa_used a) (pa_lo a) (pa_hi a) of
        Some p \<Rightarrow> (Inr p, a\<lparr>pa_used := insert p (pa_used a)\<rparr>)
      | None \<Rightarrow> (Inl (Errorf ''port range exhausted'' []), a))"

definition port_release :: "int \<Rightarrow> port_allocator \<Rightarrow> port_allocator" where
  "port_release p a = a\<lparr>pa_used := pa_used a - {p}\<rparr>"

section \<open>The scan\<close>

lemma scan_ports_Some:
  "scan_ports used p hi = Some q \<Longrightarrow>
     p \<le> q \<and> q \<le> hi \<and> q \<notin> used \<and> (\<forall>r. p \<le> r \<longrightarrow> r < q \<longrightarrow> r \<in> used)"
proof (induction used p hi rule: scan_ports.induct)
  case (1 used p hi)
  show ?case
  proof (cases "p \<le> hi \<and> p \<in> used")
    case True
    with 1 have h: "p + 1 \<le> q \<and> q \<le> hi \<and> q \<notin> used \<and> (\<forall>r. p + 1 \<le> r \<longrightarrow> r < q \<longrightarrow> r \<in> used)"
      by (simp add: scan_ports.simps [of used p hi])
    have "r \<in> used" if "p \<le> r" "r < q" for r
      using True h that by (cases "r = p") auto
    with h show ?thesis by auto
  next
    case False
    with "1.prems" show ?thesis
      by (auto simp: scan_ports.simps [of used p hi] split: if_splits)
  qed
qed

lemma scan_ports_None:
  "scan_ports used p hi = None \<longleftrightarrow> (\<forall>r. p \<le> r \<longrightarrow> r \<le> hi \<longrightarrow> r \<in> used)"
proof (induction used p hi rule: scan_ports.induct)
  case (1 used p hi)
  show ?case
  proof (cases "p \<le> hi \<and> p \<in> used")
    case True
    with 1 have h: "scan_ports used p hi = None \<longleftrightarrow> (\<forall>r. p + 1 \<le> r \<longrightarrow> r \<le> hi \<longrightarrow> r \<in> used)"
      by (simp add: scan_ports.simps [of used p hi])
    have "r \<in> used" if "scan_ports used p hi = None" "p \<le> r" "r \<le> hi" for r
      using True h that by (cases "r = p") auto
    with h show ?thesis by auto
  next
    case False
    then show ?thesis
      by (auto simp: scan_ports.simps [of used p hi])
  qed
qed

lemma scan_ports_first: "p \<le> hi \<Longrightarrow> p \<notin> used \<Longrightarrow> scan_ports used p hi = Some p"
  by (simp add: scan_ports.simps)

text \<open>Ports in use below the scan do not matter, and a used block is skipped.\<close>

lemma scan_ports_skip:
  "p + int n \<le> hi + 1 \<Longrightarrow> (\<forall>r. p \<le> r \<longrightarrow> r < p + int n \<longrightarrow> r \<in> used) \<Longrightarrow>
     scan_ports used p hi = scan_ports used (p + int n) hi"
proof (induction n arbitrary: p)
  case 0
  then show ?case by simp
next
  case (Suc n)
  then have "scan_ports used p hi = scan_ports used (p + 1) hi"
    by (simp add: scan_ports.simps [of used p hi])
  also have "\<dots> = scan_ports used (p + 1 + int n) hi"
    using Suc.prems by (intro Suc.IH) auto
  finally show ?case by (simp add: add.assoc)
qed

section \<open>The contract of a port source\<close>

text \<open>
  The runtime draws ports from injected functions (\<open>HostPortAllocator\<close>,
  \<open>PrefillPortAllocator\<close>, \<open>DecodePortAllocator\<close>). What it relies on: a successful draw
  is in range, was free, and is in use from then on; a failed draw changes nothing.
\<close>

fun draw_ports :: "('s \<Rightarrow> (go_error + int) \<times> 's) \<Rightarrow> nat \<Rightarrow> 's \<Rightarrow> (go_error + int) list \<times> 's" where
  "draw_ports nxt 0 s = ([], s)"
| "draw_ports nxt (Suc n) s =
     (let (r, s') = nxt s; (rs, s'') = draw_ports nxt n s' in (r # rs, s''))"

locale port_source =
  fixes nxt :: "'s \<Rightarrow> (go_error + int) \<times> 's"
    and in_use :: "'s \<Rightarrow> int set"
    and in_range :: "'s \<Rightarrow> int \<Rightarrow> bool"
  assumes draw_ok: "nxt s = (Inr p, s') \<Longrightarrow>
      p \<notin> in_use s \<and> in_range s p \<and> in_use s' = insert p (in_use s)"
    and draw_err: "nxt s = (Inl e, s') \<Longrightarrow> s' = s"
    and range_fixed: "in_range (snd (nxt s)) = in_range s"
begin

lemma draw_mono: "in_use s \<subseteq> in_use (snd (nxt s))"
  using draw_ok draw_err by (cases "nxt s"; cases "fst (nxt s)") fastforce+

lemma draw_ports_fresh:
  "draw_ports nxt n s = (rs, s') \<Longrightarrow> Inr p \<in> set rs \<Longrightarrow> p \<notin> in_use s \<and> in_range s p"
proof (induction n arbitrary: s rs s')
  case 0
  then show ?case by simp
next
  case (Suc n)
  obtain r t where rt: "nxt s = (r, t)" by fastforce
  obtain qs u where qs: "draw_ports nxt n t = (qs, u)" by fastforce
  from Suc.prems rt qs have rs: "rs = r # qs" by simp
  show ?case
  proof (cases "r = Inr p")
    case True
    with rt draw_ok show ?thesis by blast
  next
    case False
    with Suc.prems rs have "Inr p \<in> set qs" by simp
    with Suc.IH qs have "p \<notin> in_use t \<and> in_range t p" by blast
    then show ?thesis
      using draw_mono [of s] range_fixed [of s] rt by auto
  qed
qed

text \<open>No port is drawn twice while none is given back.\<close>

lemma draw_ports_distinct:
  "draw_ports nxt n s = (rs, s') \<Longrightarrow> i < j \<Longrightarrow> j < length rs \<Longrightarrow> rs ! i = Inr p \<Longrightarrow> rs ! j \<noteq> Inr p"
proof (induction n arbitrary: s rs s' i j)
  case 0
  then show ?case by simp
next
  case (Suc n)
  obtain r t where rt: "nxt s = (r, t)" by fastforce
  obtain qs u where qs: "draw_ports nxt n t = (qs, u)" by fastforce
  from Suc.prems rt qs have rs: "rs = r # qs" by simp
  show ?case
  proof (cases i)
    case 0
    with Suc.prems rs have "r = Inr p" by simp
    with rt draw_ok have "p \<in> in_use t" by blast
    then have "Inr p \<notin> set qs" using draw_ports_fresh [OF qs] by blast
    then show ?thesis using Suc.prems rs 0 by (cases j) (auto simp: in_set_conv_nth)
  next
    case (Suc i')
    with Suc.prems rs qs show ?thesis by (cases j) (auto dest: Suc.IH)
  qed
qed

end

lemma port_next_ok:
  "port_next a = (Inr p, a') \<Longrightarrow>
     p \<notin> pa_used a \<and> (pa_lo a \<le> p \<and> p \<le> pa_hi a) \<and> pa_used a' = insert p (pa_used a)"
  by (auto simp: port_next_def dest: scan_ports_Some split: option.splits)

interpretation host_ports: port_source port_next pa_used "\<lambda>a p. pa_lo a \<le> p \<and> p \<le> pa_hi a"
proof unfold_locales
  fix a p a'
  assume "port_next a = (Inr p, a')"
  then show "p \<notin> pa_used a \<and> (pa_lo a \<le> p \<and> p \<le> pa_hi a) \<and> pa_used a' = insert p (pa_used a)"
    by (rule port_next_ok)
qed (auto simp: port_next_def split: option.splits)

lemma port_next_range [frame_simps]: "pa_lo (snd (port_next a)) = pa_lo a" "pa_hi (snd (port_next a)) = pa_hi a"
  by (simp_all add: port_next_def split: option.splits)

text \<open>From a fresh allocator the draws walk up the range.\<close>

lemma draw_ports_ascending:
  "pa_used a = {pa_lo a ..< p} \<Longrightarrow> pa_lo a \<le> p \<Longrightarrow> p + int n \<le> pa_hi a + 1 \<Longrightarrow>
     fst (draw_ports port_next n a) = map Inr [p .. p + int n - 1] \<and>
     snd (draw_ports port_next n a) = a\<lparr>pa_used := {pa_lo a ..< p + int n}\<rparr>"
proof (induction n arbitrary: a p)
  case 0
  then show ?case by simp
next
  case (Suc n)
  define b where "b = a\<lparr>pa_used := {pa_lo a ..< p + 1}\<rparr>"
  have "scan_ports (pa_used a) (pa_lo a) (pa_hi a) = scan_ports (pa_used a) p (pa_hi a)"
    using scan_ports_skip [of "pa_lo a" "nat (p - pa_lo a)" "pa_hi a" "pa_used a"] Suc.prems
    by auto
  also have "\<dots> = Some p" using Suc.prems by (intro scan_ports_first) auto
  finally have next_p: "scan_ports (pa_used a) (pa_lo a) (pa_hi a) = Some p" .
  have "insert p (pa_used a) = {pa_lo a ..< p + 1}" using Suc.prems by auto
  with next_p have "port_next a = (Inr p, b)" by (simp add: port_next_def b_def)
  moreover have "fst (draw_ports port_next n b) = map Inr [p + 1 .. p + 1 + int n - 1] \<and>
      snd (draw_ports port_next n b) = b\<lparr>pa_used := {pa_lo b ..< p + 1 + int n}\<rparr>"
    using Suc.prems by (intro Suc.IH) (auto simp: b_def)
  ultimately show ?case
    using Suc.prems by (auto simp: b_def upto_rec1 [of p] add.commute add.left_commute split: prod.splits)
qed

text \<open>
  (functional). \<open>Next\<close> returns the smallest unused port of the range and marks exactly it as
  used; it fails only when every port of the range is in use, and then changes nothing.
\<close>

theorem port_next_smallest_free:
  "case port_next a of
     (Inr p, a') \<Rightarrow> pa_lo a \<le> p \<and> p \<le> pa_hi a \<and> p \<notin> pa_used a \<and>
        {pa_lo a ..< p} \<subseteq> pa_used a \<and> a' = a\<lparr>pa_used := insert p (pa_used a)\<rparr>
   | (Inl e, a') \<Rightarrow> {pa_lo a .. pa_hi a} \<subseteq> pa_used a \<and> a' = a"
  by (auto simp: port_next_def scan_ports_None dest: scan_ports_Some split: option.splits)

text \<open>
  (bounds). A fresh allocator serves its range once, in order, and nothing beyond it: as many
  draws as the range has ports return these ports, and the next one reports exhaustion. The
  runtime never calls \<open>Release\<close>, so this bounds the loads of a worker's lifetime.
\<close>

theorem port_range_served_once:
  "draw_ports port_next (nat (h - l + 1)) (new_port_allocator l h) =
     (map Inr [l .. h], \<lparr>pa_lo = l, pa_hi = h, pa_used = {l .. h}\<rparr>) \<and>
   fst (port_next \<lparr>pa_lo = l, pa_hi = h, pa_used = {l .. h}\<rparr>) =
     Inl (Errorf ''port range exhausted'' [])"
proof
  show "draw_ports port_next (nat (h - l + 1)) (new_port_allocator l h) =
      (map Inr [l .. h], \<lparr>pa_lo = l, pa_hi = h, pa_used = {l .. h}\<rparr>)"
    using draw_ports_ascending [of "new_port_allocator l h" l "nat (h - l + 1)"]
    by (cases "l \<le> h") (auto simp: new_port_allocator_def prod_eq_iff)
  have "scan_ports {l .. h} l h = None" by (simp add: scan_ports_None)
  then show "fst (port_next \<lparr>pa_lo = l, pa_hi = h, pa_used = {l .. h}\<rparr>) =
      Inl (Errorf ''port range exhausted'' [])"
    by (simp add: port_next_def)
qed

end
