(* ===== verification/Histogram.thy ===== *)
theory Histogram imports Go_Lib "HOL-Library.Monad_Syntax" begin

text \<open>
  The latency histogram (internal/metrics/histogram.go): a ring buffer of the last samples with a
  count per latency bucket, and the percentile snapshot taken from the counts. A panic of the code
  is \<open>None\<close>.
\<close>

record peak_histogram =
  ph_buckets :: "int list"
  ph_limits :: "int list"
  ph_buffer :: "int list"
  ph_head :: int
  ph_cur :: int

definition new_peak_histogram :: "nat \<Rightarrow> int list \<Rightarrow> peak_histogram" where
  "new_peak_histogram maxSamples limits =
     \<lparr>ph_buckets = replicate (length limits) 0, ph_limits = limits,
      ph_buffer = replicate maxSamples 0, ph_head = 0, ph_cur = 0\<rparr>"

text \<open>The loop over the limits: the index of the first limit that is not exceeded.\<close>

fun limit_index :: "int list \<Rightarrow> int \<Rightarrow> nat option" where
  "limit_index [] v = None"
| "limit_index (l # ls) v = (if v \<le> l then Some 0 else map_option Suc (limit_index ls v))"

definition bucket_index :: "peak_histogram \<Rightarrow> int \<Rightarrow> int" where
  "bucket_index h v =
     (case limit_index (ph_limits h) v of Some i \<Rightarrow> int i | None \<Rightarrow> int (length (ph_limits h)) - 1)"

text \<open>\<open>h.buckets[i] += d\<close>.\<close>

definition bump_bucket :: "int list \<Rightarrow> int \<Rightarrow> int \<Rightarrow> int list option" where
  "bump_bucket bs i d = do { n \<leftarrow> slice_get bs i; slice_set bs i (n + d) }"

definition hist_observe :: "int \<Rightarrow> peak_histogram \<Rightarrow> peak_histogram option" where
  "hist_observe v h =
     (let idx = bucket_index h v in
      if ph_cur h < int (length (ph_buffer h)) then do {
        buf \<leftarrow> slice_set (ph_buffer h) (ph_head h) v;
        bs \<leftarrow> bump_bucket (ph_buckets h) idx 1;
        Some (h\<lparr>ph_buffer := buf, ph_buckets := bs, ph_head := ph_head h + 1, ph_cur := ph_cur h + 1\<rparr>)
      } else do {
        old \<leftarrow> slice_get (ph_buffer h) (ph_head h);
        bs \<leftarrow> bump_bucket (ph_buckets h) (bucket_index h old) (- 1);
        buf \<leftarrow> slice_set (ph_buffer h) (ph_head h) v;
        bs' \<leftarrow> bump_bucket bs idx 1;
        Some (h\<lparr>ph_buffer := buf, ph_buckets := bs',
                ph_head := (ph_head h + 1) mod int (length (ph_buffer h))\<rparr>)
      })"

text \<open>The cumulative scan of \<open>Snapshot\<close>: the first bucket where the running sum reaches a target.\<close>

fun reach_index :: "int list \<Rightarrow> int \<Rightarrow> int \<Rightarrow> nat option" where
  "reach_index [] acc target = None"
| "reach_index (c # cs) acc target =
     (if acc + c \<ge> target then Some 0 else map_option Suc (reach_index cs (acc + c) target))"

definition limit_at :: "peak_histogram \<Rightarrow> nat option \<Rightarrow> int" where
  "limit_at h i = (case i of None \<Rightarrow> 0 | Some k \<Rightarrow> ph_limits h ! k)"

definition hist_snapshot :: "peak_histogram \<Rightarrow> int \<times> int" where
  "hist_snapshot h =
     (let total = ph_cur h in
      if total = 0 then (0, 0)
      else (limit_at h (reach_index (ph_buckets h) 0 ((total * 95 + 99) div 100)),
            limit_at h (reach_index (ph_buckets h) 0 ((total * 98 + 99) div 100))))"

definition hist_reset :: "peak_histogram \<Rightarrow> peak_histogram" where
  "hist_reset h = h\<lparr>ph_buckets := map (\<lambda>_. 0) (ph_buckets h), ph_head := 0, ph_cur := 0\<rparr>"

fun observe_all :: "int list \<Rightarrow> peak_histogram \<Rightarrow> peak_histogram option" where
  "observe_all [] h = Some h"
| "observe_all (v # vs) h = hist_observe v h \<bind> observe_all vs"

section \<open>The invariant\<close>

text \<open>The samples held, and the count of those that fall into a bucket.\<close>

definition hist_samples :: "peak_histogram \<Rightarrow> int list" where
  "hist_samples h = take (nat (ph_cur h)) (ph_buffer h)"

definition hist_inv :: "peak_histogram \<Rightarrow> bool" where
  "hist_inv h \<longleftrightarrow>
     ph_limits h \<noteq> [] \<and> length (ph_buckets h) = length (ph_limits h) \<and>
     0 \<le> ph_cur h \<and> ph_cur h \<le> int (length (ph_buffer h)) \<and> ph_head h = ph_cur h \<and>
     (\<forall>i < length (ph_limits h).
        ph_buckets h ! i = int (length (filter (\<lambda>v. bucket_index h v = int i) (hist_samples h))))"

lemma limit_index_bound: "limit_index ls v = Some i \<Longrightarrow> i < length ls"
  by (induction ls arbitrary: i) (auto split: if_splits)

lemma bucket_index_range:
  "ph_limits h \<noteq> [] \<Longrightarrow> 0 \<le> bucket_index h v \<and> bucket_index h v < int (length (ph_limits h))"
  by (auto simp: bucket_index_def dest: limit_index_bound split: option.splits)

lemma bucket_index_nat:
  "ph_limits h \<noteq> [] \<Longrightarrow> \<exists>i < length (ph_limits h). bucket_index h v = int i"
  using bucket_index_range [of h v] by (metis nat_0_le nat_less_iff)

lemma bump_bucket_nat [simp]: "i < length bs \<Longrightarrow> bump_bucket bs (int i) d = Some (bs[i := bs ! i + d])"
  by (simp add: bump_bucket_def)

lemma bucket_index_limits: "ph_limits h = ph_limits h' \<Longrightarrow> bucket_index h v = bucket_index h' v"
  by (simp add: bucket_index_def split: option.split)

lemma hist_inv_new: "limits \<noteq> [] \<Longrightarrow> hist_inv (new_peak_histogram n limits)"
  by (simp add: hist_inv_def new_peak_histogram_def hist_samples_def)

lemma hist_inv_reset [inv_preserved]: "hist_inv h \<Longrightarrow> hist_inv (hist_reset h)"
  by (auto simp: hist_inv_def hist_reset_def hist_samples_def)

text \<open>While there is room a sample is appended and its bucket counted.\<close>

lemma hist_observe_filling:
  assumes inv: "hist_inv h" and room: "ph_cur h < int (length (ph_buffer h))"
  obtains h' where "hist_observe v h = Some h'" "hist_inv h'"
    "ph_cur h' = ph_cur h + 1" "length (ph_buffer h') = length (ph_buffer h)"
    "ph_limits h' = ph_limits h" "hist_samples h' = hist_samples h @ [v]"
proof -
  obtain c where c: "ph_cur h = int c" "c < length (ph_buffer h)" "ph_head h = int c"
    using inv room by (metis hist_inv_def nat_0_le nat_less_iff)
  obtain i where i: "i < length (ph_limits h)" "bucket_index h v = int i"
    using inv bucket_index_nat by (metis hist_inv_def)
  define h' where "h' = h\<lparr>ph_buffer := (ph_buffer h)[c := v],
     ph_buckets := (ph_buckets h)[i := ph_buckets h ! i + 1], ph_head := int c + 1, ph_cur := int c + 1\<rparr>"
  have len: "length (ph_buckets h) = length (ph_limits h)" using inv by (simp add: hist_inv_def)
  have obs: "hist_observe v h = Some h'"
    using c i len by (simp add: hist_observe_def h'_def Let_def)
  have samples: "hist_samples h' = hist_samples h @ [v]"
    using c by (simp add: hist_samples_def h'_def nat_add_distrib take_Suc_conv_app_nth)
  have "hist_inv h'"
    unfolding hist_inv_def samples
    using inv c i len bucket_index_limits [of h' h]
    by (auto simp: hist_inv_def h'_def nth_list_update)
  with obs samples c that show thesis by (simp add: h'_def)
qed

text \<open>
  The code leaves \<open>head\<close> at the end of the buffer once it is full: the first sample past the
  capacity indexes out of range.
\<close>

lemma hist_observe_full:
  "hist_inv h \<Longrightarrow> ph_cur h = int (length (ph_buffer h)) \<Longrightarrow> hist_observe v h = None"
  by (simp add: hist_observe_def hist_inv_def Let_def)

lemma observe_all_inv:
  "hist_inv h \<Longrightarrow> observe_all vs h = Some h' \<Longrightarrow>
     hist_inv h' \<and> ph_limits h' = ph_limits h \<and> hist_samples h' = hist_samples h @ vs"
proof (induction vs arbitrary: h)
  case Nil
  then show ?case by simp
next
  case (Cons v vs)
  show ?case
  proof (cases "ph_cur h < int (length (ph_buffer h))")
    case True
    with Cons.prems(1) obtain k where "hist_observe v h = Some k" "hist_inv k"
      "ph_limits k = ph_limits h" "hist_samples k = hist_samples h @ [v]"
      by (rule hist_observe_filling [where v = v])
    with Cons show ?thesis by fastforce
  next
    case False
    with Cons.prems show ?thesis using hist_observe_full by (fastforce simp: hist_inv_def)
  qed
qed

lemma observe_all_ok_iff:
  "hist_inv h \<Longrightarrow>
     observe_all vs h \<noteq> None \<longleftrightarrow> ph_cur h + int (length vs) \<le> int (length (ph_buffer h))"
proof (induction vs arbitrary: h)
  case Nil
  then show ?case by (simp add: hist_inv_def)
next
  case (Cons v vs)
  show ?case
  proof (cases "ph_cur h < int (length (ph_buffer h))")
    case True
    with Cons.prems(1) obtain k where "hist_observe v h = Some k" "hist_inv k"
      "ph_cur k = ph_cur h + 1" "length (ph_buffer k) = length (ph_buffer h)"
      by (rule hist_observe_filling [where v = v])
    with Cons.IH [of k] show ?thesis by (simp add: algebra_simps)
  next
    case False
    then have "ph_cur h = int (length (ph_buffer h))" using Cons.prems by (simp add: hist_inv_def)
    with Cons.prems show ?thesis by (simp add: hist_observe_full)
  qed
qed

section \<open>Percentiles\<close>

lemma limit_index_Some: "limit_index ls v = Some i \<Longrightarrow> v \<le> ls ! i \<and> (\<forall>j < i. ls ! j < v)"
proof (induction ls arbitrary: i)
  case (Cons l ls)
  then show ?case by (auto simp: less_Suc_eq_0_disj split: if_splits)
qed simp

lemma limit_index_None: "limit_index ls v = None \<longleftrightarrow> (\<forall>l \<in> set ls. l < v)"
  by (induction ls) auto

lemma limit_index_le_nth: "j < length ls \<Longrightarrow> v \<le> ls ! j \<Longrightarrow> \<exists>i \<le> j. limit_index ls v = Some i"
proof (induction ls arbitrary: j)
  case (Cons l ls)
  show ?case
  proof (cases "v \<le> l")
    case False
    then obtain j' where j: "j = Suc j'" using Cons.prems by (cases j) auto
    with Cons.prems Cons.IH [of j'] obtain i where "i \<le> j'" "limit_index ls v = Some i" by auto
    with False j show ?thesis by auto
  qed simp
qed simp

text \<open>Below the last bucket, falling into a bucket is not exceeding its limit.\<close>

lemma bucket_index_le_iff:
  assumes "sorted (ph_limits h)" "j + 1 < length (ph_limits h)"
  shows "bucket_index h v \<le> int j \<longleftrightarrow> v \<le> ph_limits h ! j"
proof
  assume le: "bucket_index h v \<le> int j"
  then obtain i where i: "limit_index (ph_limits h) v = Some i" "i \<le> j"
    using assms(2) by (auto simp: bucket_index_def split: option.splits)
  then have "v \<le> ph_limits h ! i" by (simp add: limit_index_Some)
  also have "\<dots> \<le> ph_limits h ! j" using assms i by (simp add: sorted_nth_mono)
  finally show "v \<le> ph_limits h ! j" .
next
  assume "v \<le> ph_limits h ! j"
  then show "bucket_index h v \<le> int j"
    using limit_index_le_nth [of j "ph_limits h" v] assms(2) by (auto simp: bucket_index_def)
qed

text \<open>The running sum over the buckets counts the samples up to that bucket.\<close>

definition samples_upto :: "peak_histogram \<Rightarrow> nat \<Rightarrow> int" where
  "samples_upto h i = int (length (filter (\<lambda>v. bucket_index h v \<le> int i) (hist_samples h)))"

lemma length_filter_split:
  "(\<And>x. x \<in> set xs \<Longrightarrow> R x \<longleftrightarrow> P x \<or> Q x) \<Longrightarrow> (\<And>x. \<not> (P x \<and> Q x)) \<Longrightarrow>
     length (filter R xs) = length (filter P xs) + length (filter Q xs)"
  by (induction xs) auto

lemma cumulative_counts:
  "hist_inv h \<Longrightarrow> i < length (ph_limits h) \<Longrightarrow>
     sum_list (take (Suc i) (ph_buckets h)) = samples_upto h i"
proof (induction i)
  case 0
  then have "take (Suc 0) (ph_buckets h) = [ph_buckets h ! 0]"
    by (simp add: hist_inv_def take_Suc_conv_app_nth)
  moreover have "(bucket_index h v = 0) = (bucket_index h v \<le> 0)" for v
    using bucket_index_range [of h v] 0 by (auto simp: hist_inv_def)
  ultimately show ?case using 0 by (simp add: hist_inv_def samples_upto_def)
next
  case (Suc i)
  have "take (Suc (Suc i)) (ph_buckets h) = take (Suc i) (ph_buckets h) @ [ph_buckets h ! Suc i]"
    using Suc.prems by (simp add: hist_inv_def take_Suc_conv_app_nth)
  moreover have "length (filter (\<lambda>v. bucket_index h v \<le> int (Suc i)) (hist_samples h)) =
      length (filter (\<lambda>v. bucket_index h v \<le> int i) (hist_samples h)) +
      length (filter (\<lambda>v. bucket_index h v = int (Suc i)) (hist_samples h))"
    by (rule length_filter_split) auto
  ultimately show ?case
    using Suc by (simp add: hist_inv_def samples_upto_def)
qed

lemma length_hist_samples: "hist_inv h \<Longrightarrow> int (length (hist_samples h)) = ph_cur h"
  by (auto simp: hist_inv_def hist_samples_def min_def)

lemma samples_upto_last:
  "hist_inv h \<Longrightarrow> samples_upto h (length (ph_limits h) - 1) = ph_cur h"
  using bucket_index_range [of h] length_hist_samples [of h]
  by (simp add: samples_upto_def hist_inv_def filter_id_conv of_nat_diff Suc_leI flip: zle_diff1_eq)

lemma reach_index_Some:
  "reach_index bs acc t = Some i \<Longrightarrow> acc < t \<Longrightarrow>
     i < length bs \<and> t \<le> acc + sum_list (take (Suc i) bs) \<and> acc + sum_list (take i bs) < t"
proof (induction bs arbitrary: acc i)
  case (Cons c cs)
  show ?case
  proof (cases "acc + c \<ge> t")
    case True
    with Cons.prems show ?thesis by auto
  next
    case False
    with Cons.prems obtain k where k: "reach_index cs (acc + c) t = Some k" "i = Suc k" by auto
    with Cons.IH [OF k(1)] False show ?thesis by (simp add: add.assoc)
  qed
qed simp

lemma reach_index_ex: "t \<le> acc + sum_list bs \<Longrightarrow> acc < t \<Longrightarrow> \<exists>i. reach_index bs acc t = Some i"
proof (induction bs arbitrary: acc)
  case (Cons c cs)
  then show ?case
    by (cases "acc + c \<ge> t") (auto simp: add.assoc)
qed simp

text \<open>What the scan finds for a target share \<open>q\<close> percent, in terms of the samples.\<close>

lemma percentile_bucket:
  assumes inv: "hist_inv h" and n: "0 < ph_cur h" and q: "0 < q" "q \<le> 100"
  obtains i where "reach_index (ph_buckets h) 0 ((ph_cur h * q + 99) div 100) = Some i"
    "i < length (ph_limits h)" "ph_cur h * q \<le> 100 * samples_upto h i"
    "0 < i \<Longrightarrow> 100 * samples_upto h (i - 1) < ph_cur h * q"
proof -
  let ?t = "(ph_cur h * q + 99) div 100"
  have pos: "0 < ph_cur h * q" using n q by simp
  have le: "ph_cur h * q \<le> ph_cur h * 100" using n q by (intro mult_left_mono) auto
  have len: "length (ph_buckets h) = length (ph_limits h)" "ph_limits h \<noteq> []"
    using inv by (auto simp: hist_inv_def)
  have "sum_list (ph_buckets h) = ph_cur h"
    using cumulative_counts [OF inv, of "length (ph_limits h) - 1"] samples_upto_last [OF inv] len
    by simp
  moreover have "?t \<le> ph_cur h" using le by linarith
  moreover have pos_t: "0 < ?t" using pos by linarith
  ultimately obtain i where i: "reach_index (ph_buckets h) 0 ?t = Some i"
    using reach_index_ex [of ?t 0 "ph_buckets h"] by auto
  note at_i = reach_index_Some [OF i pos_t]
  have "?t \<le> samples_upto h i" using at_i cumulative_counts [OF inv, of i] len by simp
  moreover have "samples_upto h (i - 1) < ?t" if "0 < i"
    using at_i cumulative_counts [OF inv, of "i - 1"] len that by auto
  ultimately show thesis using i at_i len that by fastforce
qed

text \<open>The share of the samples that do not exceed a value.\<close>

definition count_upto :: "peak_histogram \<Rightarrow> int \<Rightarrow> int" where
  "count_upto h x = int (length (filter (\<lambda>v. v \<le> x) (hist_samples h)))"

lemma count_upto_limit:
  "sorted (ph_limits h) \<Longrightarrow> j + 1 < length (ph_limits h) \<Longrightarrow>
     count_upto h (ph_limits h ! j) = samples_upto h j"
  by (simp add: count_upto_def samples_upto_def bucket_index_le_iff)

lemma samples_upto_mono: "i \<le> j \<Longrightarrow> samples_upto h i \<le> samples_upto h j"
proof -
  assume "i \<le> j"
  then have "length (filter (\<lambda>v. bucket_index h v \<le> int i) xs) \<le>
      length (filter (\<lambda>v. bucket_index h v \<le> int j) xs)" for xs
    by (induction xs) auto
  then show ?thesis by (simp add: samples_upto_def)
qed

text \<open>
  A percentile in terms of the recorded values: at least the share \<open>q\<close> lies at or below the
  reported limit, and every smaller limit covers less.
\<close>

definition is_percentile :: "peak_histogram \<Rightarrow> int \<Rightarrow> int \<Rightarrow> bool" where
  "is_percentile h q x \<longleftrightarrow>
     x \<in> set (ph_limits h) \<and>
     (x < last (ph_limits h) \<longrightarrow> ph_cur h * q \<le> 100 * count_upto h x) \<and>
     (\<forall>l \<in> set (ph_limits h). l < x \<longrightarrow> 100 * count_upto h l < ph_cur h * q)"

lemma reach_is_percentile:
  assumes inv: "hist_inv h" and n: "0 < ph_cur h" and q: "0 < q" "q \<le> 100"
    and srt: "sorted (ph_limits h)"
  shows "is_percentile h q (limit_at h (reach_index (ph_buckets h) 0 ((ph_cur h * q + 99) div 100)))"
proof -
  obtain i where i: "reach_index (ph_buckets h) 0 ((ph_cur h * q + 99) div 100) = Some i"
    "i < length (ph_limits h)" "ph_cur h * q \<le> 100 * samples_upto h i"
    "0 < i \<Longrightarrow> 100 * samples_upto h (i - 1) < ph_cur h * q"
    using percentile_bucket [OF inv n q] by metis
  let ?x = "ph_limits h ! i"
  have covered: "ph_cur h * q \<le> 100 * count_upto h ?x" if "?x < last (ph_limits h)"
  proof -
    have "i \<noteq> length (ph_limits h) - 1" using that i(2) by (cases "ph_limits h = []") (auto simp: last_conv_nth)
    with i(2,3) srt show ?thesis by (subst count_upto_limit) auto
  qed
  have below: "100 * count_upto h l < ph_cur h * q" if l: "l \<in> set (ph_limits h)" "l < ?x" for l
  proof -
    obtain j where j: "j < length (ph_limits h)" "l = ph_limits h ! j"
      using l(1) by (auto simp: in_set_conv_nth)
    have "j < i" using l(2) j sorted_nth_mono [OF srt, of i j] i(2) by (metis leI not_le)
    then have "count_upto h l = samples_upto h j" using j i(2) srt by (simp add: count_upto_limit)
    also have "\<dots> \<le> samples_upto h (i - 1)" using \<open>j < i\<close> by (intro samples_upto_mono) simp
    finally show ?thesis using i(4) \<open>j < i\<close> by simp
  qed
  show ?thesis using i(1,2) covered below by (simp add: is_percentile_def limit_at_def)
qed

section \<open>Properties\<close>

text \<open>
  (safety). A histogram made for \<open>n\<close> samples records exactly \<open>n\<close> of them: a sequence of
  observations succeeds if and only if it is no longer than \<open>n\<close>, and one more panics with an
  index out of range. The write position is only wrapped in the branch that is taken once the
  buffer is full, and it has already passed the end by then.
\<close>

theorem histogram_capacity_panics:
  assumes "limits \<noteq> []"
  shows "observe_all vs (new_peak_histogram n limits) \<noteq> None \<longleftrightarrow> length vs \<le> n"
  using observe_all_ok_iff [OF hist_inv_new [OF assms, of n], of vs]
  by (simp add: new_peak_histogram_def)

theorem histogram_capacity_panics_witness:
  "observe_all [7, 12] (new_peak_histogram 2 [10, 25]) \<noteq> None \<and>
   observe_all [7, 12, 3] (new_peak_histogram 2 [10, 25]) = None"
  using histogram_capacity_panics [of "[10, 25]" "[7, 12]" 2]
    histogram_capacity_panics [of "[10, 25]" "[7, 12, 3]" 2] by simp

text \<open>
  (functional). What \<open>Snapshot\<close> reports under the names p50 and p95 are the 95th and the 98th
  percentile of the samples held: the limit of the first bucket that covers 95 (98) percent of
  them. Holds after any successful sequence of observations.
\<close>

theorem snapshot_percentiles:
  assumes "limits \<noteq> []" "sorted limits" "vs \<noteq> []"
    and "observe_all vs (new_peak_histogram n limits) = Some h"
  shows "hist_samples h = vs \<and> is_percentile h 95 (fst (hist_snapshot h)) \<and>
    is_percentile h 98 (snd (hist_snapshot h))"
proof -
  from observe_all_inv [OF hist_inv_new [OF assms(1)] assms(4)]
  have inv: "hist_inv h" and lim: "ph_limits h = limits" and sam: "hist_samples h = vs"
    by (simp_all add: new_peak_histogram_def hist_samples_def)
  have cur: "0 < ph_cur h"
    using length_hist_samples [OF inv] sam assms(3) by (metis length_greater_0_conv of_nat_0_less_iff)
  show ?thesis
    using reach_is_percentile [OF inv cur] lim sam cur assms(2) by (simp add: hist_snapshot_def Let_def)
qed

text \<open>Ten requests, nine of them fast: the reported p50 is the slow one's bucket.\<close>

theorem snapshot_percentiles_witness:
  "\<exists>h. observe_all [5, 5, 5, 5, 5, 5, 5, 5, 5, 900] (new_peak_histogram 10 [10, 100, 1000]) = Some h \<and>
     fst (hist_snapshot h) = 1000 \<and> is_percentile h 95 1000"
proof -
  obtain h where h: "observe_all [5, 5, 5, 5, 5, 5, 5, 5, 5, 900] (new_peak_histogram 10 [10, 100, 1000]) = Some h"
    "fst (hist_snapshot h) = 1000"
    by (simp add: new_peak_histogram_def hist_observe_def Let_def bucket_index_def slice_set_def
        slice_get_def bump_bucket_def nth_Cons' hist_snapshot_def limit_at_def eval_nat_numeral)
  with snapshot_percentiles [OF _ _ _ h(1)] show ?thesis by auto
qed

end
