(* ===== verification/Protocol.thy ===== *)
theory Protocol imports Go_Lib Complex_Main begin

text \<open>
  The wire protocol with the control plane (internal/control/protocol.go): the catalogue of
  message types, the envelope and the bodies. Field names are those of the Go structs with a
  prefix per struct. Times are nanoseconds.
\<close>

section \<open>Message types\<close>

datatype message_type =
    MsgHello | MsgHeartbeat | MsgLoadModel | MsgUnloadModel | MsgCommandResult | MsgPing
  | MsgShellOpen | MsgShellInput | MsgShellResize | MsgShellClose | MsgLogsOpen | MsgLogsClose
  | MsgShellOutput | MsgShellExit | MsgShellError | MsgLogsLine | MsgLogsEnd
  | MsgOther string

text \<open>
  The constants of the catalogue; any other string is a value of \<open>MessageType\<close> that matches no
  case.
\<close>

definition message_catalogue :: "(message_type \<times> string) list" where
  "message_catalogue =
     [(MsgHello, ''Hello''), (MsgHeartbeat, ''Heartbeat''), (MsgLoadModel, ''LoadModel''),
      (MsgUnloadModel, ''UnloadModel''), (MsgCommandResult, ''CommandResult''), (MsgPing, ''Ping''),
      (MsgShellOpen, ''ShellOpen''), (MsgShellInput, ''ShellInput''), (MsgShellResize, ''ShellResize''),
      (MsgShellClose, ''ShellClose''), (MsgLogsOpen, ''LogsOpen''), (MsgLogsClose, ''LogsClose''),
      (MsgShellOutput, ''ShellOutput''), (MsgShellExit, ''ShellExit''), (MsgShellError, ''ShellError''),
      (MsgLogsLine, ''LogsLine''), (MsgLogsEnd, ''LogsEnd'')]"

definition message_type_text :: "message_type \<Rightarrow> string" where
  "message_type_text t =
     (case map_of message_catalogue t of Some s \<Rightarrow> s
      | None \<Rightarrow> (case t of MsgOther s \<Rightarrow> s | _ \<Rightarrow> []))"

definition message_type_of :: "string \<Rightarrow> message_type" where
  "message_type_of s =
     (case map_of (map prod.swap message_catalogue) s of Some t \<Rightarrow> t | None \<Rightarrow> MsgOther s)"

record 'b envelope =
  env_type :: message_type
  env_id :: string
  env_ts :: int
  env_body :: 'b

section \<open>Registration, hello and heartbeat\<close>

record register_request =
  rr_node_name :: string
  rr_pool_id :: string
  rr_advertise_url :: string
  rr_allocatable :: "string \<rightharpoonup> string"
  rr_runtime_env :: string
  rr_instance_id :: string
  rr_region :: string
  rr_availability_zone :: string
  rr_bootstrap_token :: string

record register_response =
  rs_node_id :: string
  rs_worker_jwt :: string

record hello_body =
  hb_server_time :: "int option"
  hb_channel_id :: string
  hb_runtime_env :: string
  hb_instance_id :: string
  hb_region :: string
  hb_availability_zone :: string

record deployment_metric =
  dm_deployment_id :: string
  dm_recipe :: string
  dm_model :: string
  dm_requests_total :: int
  dm_active_requests :: int
  dm_latency_p50_ms :: int
  dm_latency_p95_ms :: int
  dm_pull_duration_ms :: int
  dm_start_duration_ms :: int
  dm_phase :: string
  dm_engine_metrics :: "(string \<rightharpoonup> f64) option"

record heartbeat_event =
  he_type :: string
  he_deployment_id :: string
  he_exit_code :: int
  he_reason :: string

record gpu_sample =
  gs_index :: nat
  gs_name :: string
  gs_util_pct :: f64
  gs_mem_used_mib :: "64 word"
  gs_mem_total_mib :: "64 word"

record metrics_sample =
  ms_ts :: int
  ms_cpu_pct :: rat
  ms_mem_used_bytes :: "64 word"
  ms_mem_total_bytes :: "64 word"
  ms_net_rx_bps :: rat
  ms_net_tx_bps :: rat
  ms_disk_read_bps :: rat
  ms_disk_write_bps :: rat
  ms_gpus :: "gpu_sample list"

record heartbeat_body =
  hbt_used :: "string \<rightharpoonup> string"
  hbt_loaded_models :: "string list"
  hbt_events :: "heartbeat_event list"
  hbt_deploy_metrics :: "string \<rightharpoonup> deployment_metric"
  hbt_metrics :: "metrics_sample option"

section \<open>Commands\<close>

record model_ref =
  mr_artifact_uri :: string
  mr_format :: string
  mr_backend :: string

record load_model_body =
  lm_deployment_id :: string
  lm_recipe :: string
  lm_model :: model_ref
  lm_config :: "(string \<times> go_any) list"
  lm_gpu_indices :: "int list"
  lm_port :: int
  lm_env :: "string \<rightharpoonup> string"
  lm_prefill_replicas :: int
  lm_decode_replicas :: int
  lm_prefill_gpu_indices :: "int list"
  lm_decode_gpu_indices :: "int list"

record unload_model_body =
  um_deployment_id :: string

record command_result_body =
  cr_in_reply_to :: string
  cr_status :: string
  cr_detail :: string
  cr_endpoint_url :: string

section \<open>Shell and log streams\<close>

record shell_open_body =
  so_stream_id :: string
  so_shell :: string
  so_user :: string
  so_deployment_id :: string
  so_container_id :: string
  so_cols :: int
  so_rows :: int

record shell_input_body =
  si_stream_id :: string
  si_data :: string

record shell_resize_body =
  sr_stream_id :: string
  sr_cols :: int
  sr_rows :: int

record shell_close_body =
  sc_stream_id :: string

record shell_output_body =
  sout_stream_id :: string
  sout_data :: string

record shell_exit_body =
  sx_stream_id :: string
  sx_exit_code :: int
  sx_reason :: string

record shell_error_body =
  se_stream_id :: string
  se_message :: string

record logs_open_body =
  lo_stream_id :: string
  lo_deployment_id :: string
  lo_container_id :: string

record logs_line_body =
  ll_stream_id :: string
  ll_stream :: string
  ll_data :: string

record logs_end_body =
  le_stream_id :: string
  le_reason :: string

record logs_close_body =
  lc_stream_id :: string

text \<open>The bodies the worker sends.\<close>

datatype out_body =
    BHello hello_body
  | BHeartbeat heartbeat_body
  | BCommandResult command_result_body
  | BShellOutput shell_output_body
  | BShellExit shell_exit_body
  | BShellError shell_error_body
  | BLogsLine logs_line_body
  | BLogsEnd logs_end_body

lemma catalogue_keys: "distinct (map fst message_catalogue)" "distinct (map snd message_catalogue)"
  by (simp_all add: message_catalogue_def)

text \<open>
  (roundtrip). Reading the text of a message type gives the message type back, for the whole
  catalogue and for every string outside it: no two types of the catalogue share a name.
\<close>

theorem message_type_roundtrip:
  "list_all (\<lambda>(t, s). message_type_of (message_type_text t) = t \<and> message_type_text t = s) message_catalogue \<and>
   message_type_text (message_type_of u) = u"
proof
  show "list_all (\<lambda>(t, s). message_type_of (message_type_text t) = t \<and> message_type_text t = s) message_catalogue"
    by (simp add: message_catalogue_def message_type_of_def message_type_text_def)
  show "message_type_text (message_type_of u) = u"
    by (auto simp: message_catalogue_def message_type_of_def message_type_text_def)
qed

end
