(* ===== verification/Collector.thy ===== *)
theory Collector imports Histogram Protocol begin

text \<open>
  The metrics collector (internal/metrics/collector.go): per deployment a request counter, an
  active-request gauge, the latency histogram and the scraped engine metrics. Every operation is
  one step on the table; the panic of a full histogram is \<open>None\<close>.
\<close>

record metrics_bucket =
  mb_requests :: int
  mb_active :: int
  mb_hist :: peak_histogram
  mb_recipe :: string
  mb_model :: string
  mb_engine :: "(string \<rightharpoonup> f64) option"

type_synonym collector = "string \<rightharpoonup> metrics_bucket"

definition collector_limits :: "int list" where
  "collector_limits = [10, 25, 50, 100, 250, 500, 1000, 2500, 5000, 10000, 30000, 60000]"

definition new_bucket :: "string \<Rightarrow> string \<Rightarrow> metrics_bucket" where
  "new_bucket recipe model =
     \<lparr>mb_requests = 0, mb_active = 0, mb_hist = new_peak_histogram 1000 collector_limits,
      mb_recipe = recipe, mb_model = model, mb_engine = None\<rparr>"

definition new_collector :: collector where
  "new_collector = (\<lambda>_. None)"

text \<open>An existing bucket takes over a non-empty recipe and model; a missing one is created.\<close>

definition get_bucket :: "string \<Rightarrow> string \<Rightarrow> string \<Rightarrow> collector \<Rightarrow> metrics_bucket" where
  "get_bucket dep recipe model c =
     (case c dep of
        Some b \<Rightarrow> b\<lparr>mb_recipe := (if recipe \<noteq> [] then recipe else mb_recipe b),
                    mb_model := (if model \<noteq> [] then model else mb_model b)\<rparr>
      | None \<Rightarrow> new_bucket recipe model)"

definition record_request :: "string \<Rightarrow> string \<Rightarrow> string \<Rightarrow> int \<Rightarrow> collector \<Rightarrow> collector option" where
  "record_request dep recipe model lat c =
     (let b = get_bucket dep recipe model c in do {
        h \<leftarrow> hist_observe lat (mb_hist b);
        Some (c(dep \<mapsto> b\<lparr>mb_requests := mb_requests b + 1, mb_hist := h\<rparr>))
      })"

definition inc_active :: "string \<Rightarrow> collector \<Rightarrow> collector" where
  "inc_active dep c = (let b = get_bucket dep [] [] c in c(dep \<mapsto> b\<lparr>mb_active := mb_active b + 1\<rparr>))"

definition dec_active :: "string \<Rightarrow> collector \<Rightarrow> collector" where
  "dec_active dep c = (let b = get_bucket dep [] [] c in c(dep \<mapsto> b\<lparr>mb_active := mb_active b - 1\<rparr>))"

definition remove_deployment :: "string \<Rightarrow> collector \<Rightarrow> collector" where
  "remove_deployment dep c = c(dep := None)"

section \<open>Scraping\<close>

definition word_char :: "char \<Rightarrow> bool" where
  "word_char ch = (is_digit ch \<or> is_lower_alpha ch \<or> is_upper_alpha ch \<or> ch = CHR ''_'')"

text \<open>The class \<open>\s\<close> of the regular expression: no vertical tab.\<close>

definition re_space :: "char \<Rightarrow> bool" where
  "re_space ch = (is_space ch \<and> (of_char ch :: nat) \<noteq> 11)"

definition number_char :: "char \<Rightarrow> bool" where
  "number_char ch = (is_digit ch \<or> ch = CHR ''.'')"

text \<open>
  \<open>^(vllm:\w+)\s+([\d.]+)$\<close>. The three classes are disjoint, so the greedy runs are the only
  match.
\<close>

definition parse_metric_line :: "string \<Rightarrow> (string \<times> string) option" where
  "parse_metric_line line =
     (if has_prefix line ''vllm:'' then
        let w = takeWhile word_char (drop 5 line);
            r1 = dropWhile word_char (drop 5 line);
            sp = takeWhile re_space r1;
            v = dropWhile re_space r1
        in if w \<noteq> [] \<and> sp \<noteq> [] \<and> v \<noteq> [] \<and> list_all number_char v
           then Some (''vllm:'' @ w, v) else None
      else None)"

definition is_vllm_recipe :: "string \<Rightarrow> bool" where
  "is_vllm_recipe r = (r = ''vllm'' \<or> contains_str r ''vllm-openai'' \<or> contains_str r ''vllm-omni'')"

fun scrape_lines :: "string list \<Rightarrow> (string \<rightharpoonup> f64) \<Rightarrow> (string \<rightharpoonup> f64)" where
  "scrape_lines [] m = m"
| "scrape_lines (l # ls) m =
     (case parse_metric_line l of
        None \<Rightarrow> scrape_lines ls m
      | Some (k, v) \<Rightarrow> scrape_lines ls (m(k \<mapsto> (case parse_f64 v of Some x \<Rightarrow> x | None \<Rightarrow> Dec 0 0))))"

text \<open>\<open>http_get\<close> is the HTTP client: the body's lines, or an error.\<close>

definition scrape_vllm ::
  "(string \<Rightarrow> go_error + string list) \<Rightarrow> string \<Rightarrow> string \<Rightarrow> collector \<Rightarrow> go_error option \<times> collector" where
  "scrape_vllm http_get dep url c =
     (let b = get_bucket dep [] [] c; c' = c(dep \<mapsto> b) in
      if \<not> is_vllm_recipe (mb_recipe b) then (None, c')
      else (case http_get (url @ ''/metrics'') of
              Inl e \<Rightarrow> (Some e, c')
            | Inr ls \<Rightarrow>
                (None, c'(dep \<mapsto> b\<lparr>mb_engine :=
                   Some (scrape_lines ls (case mb_engine b of None \<Rightarrow> Map.empty | Some m \<Rightarrow> m))\<rparr>))))"

definition get_vllm_metrics :: "string \<Rightarrow> collector \<Rightarrow> (string \<rightharpoonup> f64) option" where
  "get_vllm_metrics dep c = (case c dep of Some b \<Rightarrow> mb_engine b | None \<Rightarrow> None)"

section \<open>Snapshot\<close>

text \<open>Durations are nanoseconds; \<open>Milliseconds\<close> truncates them toward zero.\<close>

record runtime_info =
  ri_recipe :: string
  ri_model :: string
  ri_phase :: string
  ri_pull :: int
  ri_start :: int

definition duration_ms :: "int \<Rightarrow> int" where
  "duration_ms d = sgn d * (\<bar>d\<bar> div 1000000)"

definition bucket_metric :: "runtime_info option \<Rightarrow> string \<Rightarrow> metrics_bucket \<Rightarrow> deployment_metric" where
  "bucket_metric info dep b =
     \<lparr>dm_deployment_id = dep,
      dm_recipe = (case info of Some i \<Rightarrow> ri_recipe i | None \<Rightarrow> mb_recipe b),
      dm_model = (case info of Some i \<Rightarrow> ri_model i | None \<Rightarrow> mb_model b),
      dm_requests_total = mb_requests b,
      dm_active_requests = mb_active b,
      dm_latency_p50_ms = fst (hist_snapshot (mb_hist b)),
      dm_latency_p95_ms = snd (hist_snapshot (mb_hist b)),
      dm_pull_duration_ms = (case info of Some i \<Rightarrow> duration_ms (ri_pull i) | None \<Rightarrow> 0),
      dm_start_duration_ms = (case info of Some i \<Rightarrow> duration_ms (ri_start i) | None \<Rightarrow> 0),
      dm_phase = (case info of Some i \<Rightarrow> ri_phase i | None \<Rightarrow> ''unknown''),
      dm_engine_metrics = mb_engine b\<rparr>"

text \<open>
  The slice \<open>Snapshot\<close> builds holds one element per bucket, in the unspecified order of a map
  iteration: here the elements by deployment id.
\<close>

definition metrics_snapshot :: "(string \<rightharpoonup> runtime_info) \<Rightarrow> collector \<Rightarrow> (string \<rightharpoonup> deployment_metric)" where
  "metrics_snapshot infos c = (\<lambda>dep. map_option (bucket_metric (infos dep) dep) (c dep))"

section \<open>Runs of the collector\<close>

datatype metrics_event =
    EvInc string
  | EvDec string
  | EvRecord string string string int
  | EvRemove string

fun metrics_step :: "metrics_event \<Rightarrow> collector \<Rightarrow> collector option" where
  "metrics_step (EvInc dep) c = Some (inc_active dep c)"
| "metrics_step (EvDec dep) c = Some (dec_active dep c)"
| "metrics_step (EvRecord dep r m lat) c = record_request dep r m lat c"
| "metrics_step (EvRemove dep) c = Some (remove_deployment dep c)"

fun metrics_run :: "metrics_event list \<Rightarrow> collector \<Rightarrow> collector option" where
  "metrics_run [] c = Some c"
| "metrics_run (e # es) c = metrics_step e c \<bind> metrics_run es"

text \<open>What the events about one deployment add up to since it was last removed.\<close>

fun active_delta :: "string \<Rightarrow> metrics_event list \<Rightarrow> int \<Rightarrow> int" where
  "active_delta dep [] n = n"
| "active_delta dep (EvInc i # es) n = active_delta dep es (if i = dep then n + 1 else n)"
| "active_delta dep (EvDec i # es) n = active_delta dep es (if i = dep then n - 1 else n)"
| "active_delta dep (EvRecord i r m l # es) n = active_delta dep es n"
| "active_delta dep (EvRemove i # es) n = active_delta dep es (if i = dep then 0 else n)"

definition active_of :: "collector \<Rightarrow> string \<Rightarrow> int" where
  "active_of c dep = (case c dep of Some b \<Rightarrow> mb_active b | None \<Rightarrow> 0)"

lemma active_of_get_bucket: "mb_active (get_bucket dep r m c) = active_of c dep"
  by (simp add: get_bucket_def active_of_def new_bucket_def split: option.split)

lemma active_of_step:
  "metrics_step e c = Some c' \<Longrightarrow> active_of c' dep = active_delta dep [e] (active_of c dep)"
  using active_of_get_bucket [of dep]
  by (cases e)
    (auto simp: inc_active_def dec_active_def record_request_def remove_deployment_def Let_def
      active_of_def active_of_get_bucket split: bind_splits)

lemma active_delta_append: "active_delta dep (xs @ ys) n = active_delta dep ys (active_delta dep xs n)"
  by (induction dep xs n rule: active_delta.induct) auto

text \<open>
  The collector's table of buckets is a keyed table: written by a bucket update, cleared by
  \<open>RemoveDeployment\<close>, read by the map lookup of \<open>GetVLLMMetrics\<close> and \<open>Snapshot\<close>.
\<close>

definition put_bucket :: "string \<Rightarrow> metrics_bucket \<Rightarrow> collector \<Rightarrow> collector" where
  "put_bucket dep b c = c(dep \<mapsto> b)"

interpretation buckets: keyed_table put_bucket remove_deployment "\<lambda>c. c"
  by unfold_locales (auto simp: put_bucket_def remove_deployment_def)

lemma collector_ops_put:
  "inc_active dep c = put_bucket dep (let b = get_bucket dep [] [] c in b\<lparr>mb_active := mb_active b + 1\<rparr>) c"
  "dec_active dep c = put_bucket dep (let b = get_bucket dep [] [] c in b\<lparr>mb_active := mb_active b - 1\<rparr>) c"
  by (simp_all add: inc_active_def dec_active_def put_bucket_def Let_def)

section \<open>Properties\<close>

text \<open>
  (invariant). After any run of the collector the active-request gauge of every deployment is
  the number of its \<open>IncActive\<close> calls minus the number of its \<open>DecActive\<close> calls since its last
  removal.
\<close>

theorem active_gauge_counts:
  assumes "metrics_run es c = Some c'"
  shows "active_of c' dep = active_delta dep es (active_of c dep)"
  using assms
proof (induction es arbitrary: c)
  case Nil
  then show ?case by simp
next
  case (Cons e es)
  then obtain d where d: "metrics_step e c = Some d" "metrics_run es d = Some c'"
    by (auto split: bind_splits)
  then have "active_of c' dep = active_delta dep es (active_delta dep [e] (active_of c dep))"
    using Cons.IH active_of_step by simp
  then show ?case using active_delta_append [of dep "[e]" es] by simp
qed

theorem active_gauge_counts_witness:
  "\<exists>c'. metrics_run [EvInc ''a'', EvInc ''b'', EvInc ''a'', EvDec ''a''] new_collector = Some c' \<and>
     active_of c' ''a'' = 1"
proof -
  obtain c' where c': "metrics_run [EvInc ''a'', EvInc ''b'', EvInc ''a'', EvDec ''a''] new_collector = Some c'"
    by simp
  show ?thesis
    using active_gauge_counts [OF c', of "''a''"] c' by (simp add: active_of_def new_collector_def)
qed

text \<open>
  (error). A deployment that is unloaded while one of its requests is in flight comes back:
  the deferred \<open>DecActive\<close> of that request re-creates the bucket \<open>RemoveDeployment\<close> deleted, with
  minus one active requests, and every later snapshot reports it.
\<close>

theorem unload_in_flight_leaves_ghost:
  "\<exists>c'. metrics_run [EvInc dep, EvRemove dep, EvDec dep] new_collector = Some c' \<and>
     (\<exists>m. metrics_snapshot infos c' dep = Some m \<and> dm_active_requests m = - 1)"
  by (simp add: inc_active_def dec_active_def remove_deployment_def get_bucket_def new_bucket_def
      new_collector_def metrics_snapshot_def bucket_metric_def Let_def)

end
