(* ===== verification/Float64.thy ===== *)
theory Float64 imports Complex_Main "HOL-Library.Log_Nat" begin

text \<open>
  Go's float64 as exact rationals that are rounded after every operation: \<open>f64 x\<close> is the value of 53
  significant bits nearest to x, ties to the even one (IEEE 754 round-to-nearest, which Go
  prescribes for float64). The range of the exponent is left open: overflow to infinity and the
  subnormal numbers below \<open>2 powi (-1022)\<close> are outside the model, and so are NaN and infinities as
  inputs. Shown here: rounding is monotone, leaves values of 53 bits alone, and changes any other
  value by at most one part in \<open>2 ^ 53\<close>.
\<close>

section \<open>Rounding to an integer\<close>

definition round_even :: "rat \<Rightarrow> int" where
  "round_even x = (let n = \<lfloor>x\<rfloor>; d = x - of_int n in
     if d < 1 / 2 \<or> (d = 1 / 2 \<and> even n) then n else n + 1)"

lemma round_even_of_int [simp]: "round_even (of_int n) = n"
  by (simp add: round_even_def)

lemma round_even_bounds: "\<lfloor>x\<rfloor> \<le> round_even x" "round_even x \<le> \<lfloor>x\<rfloor> + 1"
  by (simp_all add: round_even_def Let_def)

lemma round_even_mono: "x \<le> y \<Longrightarrow> round_even x \<le> round_even y"
proof (cases "\<lfloor>x\<rfloor> = \<lfloor>y\<rfloor>")
  case True
  assume "x \<le> y"
  then show ?thesis by (auto simp: round_even_def Let_def True)
next
  case False
  assume "x \<le> y"
  with False have "\<lfloor>x\<rfloor> + 1 \<le> \<lfloor>y\<rfloor>" using floor_mono [of x y] by simp
  then show ?thesis using round_even_bounds [of x] round_even_bounds [of y] by linarith
qed

lemma round_even_error: "\<bar>of_int (round_even x) - x\<bar> \<le> 1 / 2"
proof -
  have "0 \<le> x - of_int \<lfloor>x\<rfloor>" "x - of_int \<lfloor>x\<rfloor> < 1" by linarith+
  then show ?thesis by (simp add: round_even_def Let_def abs_if) linarith
qed

section \<open>The binary exponent\<close>

definition exponent_of :: "rat \<Rightarrow> int" where
  "exponent_of x = (case quotient_of x of (p, q) \<Rightarrow>
     let d = bitlen p - bitlen q in if 2 powi d \<le> x then d else d - 1)"

lemma bitlen_powi:
  assumes "0 < p"
  shows "2 powi (bitlen p - 1) \<le> (of_int p :: rat)" and "(of_int p :: rat) < 2 powi bitlen p"
proof -
  have b: "1 \<le> bitlen p" using assms bitlen_nonneg [of p] bitlen_eq_zero_iff [of p] by linarith
  have "of_int (2 ^ nat (bitlen p - 1)) \<le> (of_int p :: rat)"
    using bitlen_bounds [OF assms] by (simp only: of_int_le_iff)
  with b show "2 powi (bitlen p - 1) \<le> (of_int p :: rat)" by (simp add: power_int_nonneg_exp)
  have "(of_int p :: rat) < of_int (2 ^ nat (bitlen p))"
    using bitlen_bounds [OF assms] by (simp only: of_int_less_iff)
  with b show "(of_int p :: rat) < 2 powi bitlen p" by (simp add: power_int_nonneg_exp)
qed

lemma powi_pos [simp]: "0 < (2 :: rat) powi k"
  by (simp add: zero_less_power_int)

lemma exponent_bounds:
  assumes "0 < x"
  shows "2 powi exponent_of x \<le> x" and "x < 2 powi (exponent_of x + 1)"
proof -
  obtain p q where pq: "quotient_of x = (p, q)" by (cases "quotient_of x") auto
  have q: "0 < q" using pq by (rule quotient_of_denom_pos)
  have x: "x = of_int p / of_int q" using pq by (rule quotient_of_div)
  with assms q have p: "0 < p" by (simp add: zero_less_divide_iff)
  let ?d = "bitlen p - bitlen q"
  have "2 powi (?d - 1) = 2 powi (bitlen p - 1) / (2 powi bitlen q :: rat)"
    by (simp add: power_int_diff)
  also have "\<dots> < of_int p / of_int q"
    using bitlen_powi [OF p] bitlen_powi [OF q] q
    by (intro frac_less2) auto
  finally have lo: "2 powi (?d - 1) < x" by (simp add: x)
  have "of_int p / of_int q < 2 powi bitlen p / (2 powi (bitlen q - 1) :: rat)"
    using bitlen_powi [OF p] bitlen_powi [OF q] q p
    by (intro frac_less) auto
  also have "\<dots> = 2 powi (?d + 1)" by (simp add: power_int_diff power_int_add)
  finally have hi: "x < 2 powi (?d + 1)" by (simp add: x)
  show "2 powi exponent_of x \<le> x" "x < 2 powi (exponent_of x + 1)"
    using lo hi by (auto simp: exponent_of_def pq Let_def)
qed

lemma exponent_less: "0 < x \<Longrightarrow> x < 2 powi k \<Longrightarrow> exponent_of x < k"
  using exponent_bounds(1) [of x] power_int_increasing [of k "exponent_of x" "2 :: rat"]
  by (meson le_less_trans leI less_le_trans not_less one_le_numeral)

lemma exponent_ge: "2 powi k \<le> x \<Longrightarrow> k \<le> exponent_of x"
proof (rule ccontr)
  assume k: "2 powi k \<le> x" "\<not> k \<le> exponent_of x"
  then have "0 < x" using powi_pos [of k] by linarith
  from k have "(2 :: rat) powi (exponent_of x + 1) \<le> 2 powi k" by (intro power_int_increasing) auto
  with exponent_bounds(2) [OF \<open>0 < x\<close>] k show False by linarith
qed

lemma exponent_mono: "0 < x \<Longrightarrow> x \<le> y \<Longrightarrow> exponent_of x \<le> exponent_of y"
  using exponent_bounds(1) [of x] by (intro exponent_ge) linarith

section \<open>Rounding to 53 bits\<close>

definition ulp_of :: "rat \<Rightarrow> rat" where
  "ulp_of x = 2 powi (exponent_of x - 52)"

definition f64_pos :: "rat \<Rightarrow> rat" where
  "f64_pos x = of_int (round_even (x / ulp_of x)) * ulp_of x"

definition f64 :: "rat \<Rightarrow> rat" where
  "f64 x = (if x = 0 then 0 else if x < 0 then - f64_pos (- x) else f64_pos x)"

lemma ulp_pos [simp]: "0 < ulp_of x"
  by (simp add: ulp_of_def)

lemma ulp_nonzero [simp]: "ulp_of x \<noteq> 0"
  using ulp_pos [of x] by linarith

lemma ulp_scale: "2 powi exponent_of x = 2 ^ 52 * ulp_of x"
    "2 powi (exponent_of x + 1) = 2 ^ 53 * ulp_of x"
  using power_int_add [of "2 :: rat" 52 "exponent_of x - 52"]
    power_int_add [of "2 :: rat" 53 "exponent_of x - 52"]
  by (simp_all add: ulp_of_def add.commute)

lemma scaled_bounds:
  assumes "0 < x"
  shows "2 ^ 52 \<le> x / ulp_of x" and "x / ulp_of x < 2 ^ 53"
  using exponent_bounds [OF assms] by (simp_all add: ulp_scale pos_le_divide_eq pos_divide_less_eq)

lemma significand_bounds:
  assumes "0 < x"
  shows "2 ^ 52 \<le> round_even (x / ulp_of x)" and "round_even (x / ulp_of x) \<le> 2 ^ 53"
proof -
  have "round_even (of_int (2 ^ 52)) \<le> round_even (x / ulp_of x)"
    using scaled_bounds(1) [OF assms] by (intro round_even_mono) simp
  then show "2 ^ 52 \<le> round_even (x / ulp_of x)" by (simp only: round_even_of_int)
  have "round_even (x / ulp_of x) \<le> round_even (of_int (2 ^ 53))"
    using scaled_bounds(2) [OF assms] by (intro round_even_mono) simp
  then show "round_even (x / ulp_of x) \<le> 2 ^ 53" by (simp only: round_even_of_int)
qed

lemma f64_pos_range:
  assumes "0 < x"
  shows "2 powi exponent_of x \<le> f64_pos x" and "f64_pos x \<le> 2 powi (exponent_of x + 1)"
proof -
  let ?r = "round_even (x / ulp_of x)"
  have lo: "2 powi exponent_of x = of_int (2 ^ 52) * ulp_of x"
    by (simp add: ulp_scale)
  have hi: "2 powi (exponent_of x + 1) = of_int (2 ^ 53) * ulp_of x"
    by (simp add: ulp_scale)
  show "2 powi exponent_of x \<le> f64_pos x"
    unfolding lo f64_pos_def using significand_bounds(1) [OF assms]
    by (intro mult_right_mono) (simp_all only: of_int_le_iff less_imp_le ulp_pos)
  show "f64_pos x \<le> 2 powi (exponent_of x + 1)"
    unfolding hi f64_pos_def using significand_bounds(2) [OF assms]
    by (intro mult_right_mono) (simp_all only: of_int_le_iff less_imp_le ulp_pos)
qed

lemma f64_pos_pos: "0 < x \<Longrightarrow> 0 < f64_pos x"
  using f64_pos_range(1) [of x] powi_pos [of "exponent_of x"] by linarith

lemma f64_pos_mono:
  assumes "0 < x" "x \<le> y"
  shows "f64_pos x \<le> f64_pos y"
proof (cases "exponent_of x = exponent_of y")
  case True
  then have u: "ulp_of x = ulp_of y" by (simp add: ulp_of_def)
  have "x / ulp_of y \<le> y / ulp_of y" using assms by (intro divide_right_mono) (simp_all add: less_imp_le)
  then show ?thesis
    by (simp add: f64_pos_def u round_even_mono mult_right_mono less_imp_le)
next
  case False
  with exponent_mono [OF assms] have "exponent_of x + 1 \<le> exponent_of y" by simp
  then have "(2 :: rat) powi (exponent_of x + 1) \<le> 2 powi exponent_of y"
    by (intro power_int_increasing) auto
  moreover from assms have "0 < y" by linarith
  ultimately show ?thesis using f64_pos_range(2) [OF \<open>0 < x\<close>] f64_pos_range(1) [OF \<open>0 < y\<close>] by linarith
qed

lemma f64_zero [simp]: "f64 0 = 0"
  by (simp add: f64_def)

lemma f64_mono: "x \<le> y \<Longrightarrow> f64 x \<le> f64 y"
  using f64_pos_mono [of x y] f64_pos_mono [of "- y" "- x"] f64_pos_pos [of y] f64_pos_pos [of "- x"]
  by (auto simp: f64_def not_less)

lemma f64_nonneg: "0 \<le> x \<Longrightarrow> 0 \<le> f64 x"
  using f64_mono [of 0 x] by simp

text \<open>A value with 53 significant bits is left alone.\<close>

lemma f64_pos_exact:
  assumes "0 < x" and "x = of_int m * ulp_of x"
  shows "f64_pos x = x"
proof -
  have "x / ulp_of x = of_int m" using assms(2) ulp_nonzero [of x]
    by (metis nonzero_mult_div_cancel_right)
  then show ?thesis using assms(2) by (simp add: f64_pos_def)
qed

lemma f64_pos_idem:
  assumes "0 < x"
  shows "f64_pos (f64_pos x) = f64_pos x"
proof -
  let ?r = "round_even (x / ulp_of x)" and ?y = "f64_pos x"
  have y: "0 < ?y" using assms by (rule f64_pos_pos)
  show ?thesis
  proof (cases "?r = 2 ^ 53")
    case True
    have top: "?y = 2 powi (exponent_of x + 1)"
      using True by (simp add: f64_pos_def ulp_scale)
    have "exponent_of x + 1 \<le> exponent_of ?y" by (rule exponent_ge) (simp add: top)
    moreover have "exponent_of ?y < exponent_of x + 2"
      using y by (rule exponent_less) (simp add: top power_int_add)
    ultimately have "exponent_of ?y = exponent_of x + 1" by simp
    then have "?y = of_int (2 ^ 52) * ulp_of ?y"
      using ulp_scale(1) [of ?y] by (simp add: top)
    with y show ?thesis by (rule f64_pos_exact)
  next
    case False
    with significand_bounds(2) [OF assms] have "?r < 2 ^ 53" by simp
    then have "of_int ?r < (of_int (2 ^ 53) :: rat)" by (simp only: of_int_less_iff)
    then have "?y < of_int (2 ^ 53) * ulp_of x" by (simp add: f64_pos_def)
    also have "\<dots> = 2 powi (exponent_of x + 1)"
      by (simp add: ulp_scale)
    finally have "exponent_of ?y < exponent_of x + 1" by (rule exponent_less [OF y])
    moreover have "exponent_of x \<le> exponent_of ?y"
      using f64_pos_range(1) [OF assms] by (rule exponent_ge)
    ultimately have "exponent_of ?y = exponent_of x" by simp
    then have "?y = of_int ?r * ulp_of ?y" by (simp add: f64_pos_def ulp_of_def)
    with y show ?thesis by (rule f64_pos_exact)
  qed
qed

lemma f64_idem [simp]: "f64 (f64 x) = f64 x"
  using f64_pos_idem [of x] f64_pos_idem [of "- x"] f64_pos_pos [of x] f64_pos_pos [of "- x"]
  by (auto simp: f64_def)

lemma f64_pos_int:
  assumes "0 < n" "n \<le> 2 ^ 53"
  shows "f64_pos (of_int n) = of_int n"
proof (cases "n = 2 ^ 53")
  case True
  have "exponent_of (2 ^ 53) = 53"
    using exponent_ge [of 53 "2 ^ 53"] exponent_less [of "2 ^ 53" 54] by simp
  with True have "of_int n = of_int (2 ^ 52) * ulp_of (of_int n)" by (simp add: ulp_of_def)
  with assms(1) show ?thesis by (intro f64_pos_exact [of _ "2 ^ 52"]) simp_all
next
  case False
  with assms have "of_int n < (of_int (2 ^ 53) :: rat)" by (simp only: of_int_less_iff)
  then have "exponent_of (of_int n) < 53" using assms(1) by (intro exponent_less) simp_all
  then have "(1 :: rat) = of_int (2 ^ nat (52 - exponent_of (of_int n))) * ulp_of (of_int n)"
    by (simp add: ulp_of_def power_int_diff power_int_nonneg_exp [symmetric])
  then have "of_int n = of_int (n * 2 ^ nat (52 - exponent_of (of_int n))) * ulp_of (of_int n)"
    by (simp add: mult.assoc)
  with assms(1) show ?thesis
    by (intro f64_pos_exact [of _ "n * 2 ^ nat (52 - exponent_of (of_int n))"]) simp_all
qed

lemma f64_nat: "n \<le> 2 ^ 53 \<Longrightarrow> f64 (of_nat n) = of_nat n"
  using f64_pos_int [of "int n"] by (auto simp: f64_def simp flip: of_nat_power_eq_of_nat_cancel_iff)

text \<open>The error is at most one part in \<open>2 ^ 53\<close>.\<close>

lemma f64_pos_error:
  assumes "0 < x"
  shows "\<bar>f64_pos x - x\<bar> \<le> x / 2 ^ 53"
proof -
  let ?u = "ulp_of x"
  have "f64_pos x - x = (of_int (round_even (x / ?u)) - x / ?u) * ?u"
    by (simp add: f64_pos_def left_diff_distrib)
  then have "\<bar>f64_pos x - x\<bar> = \<bar>of_int (round_even (x / ?u)) - x / ?u\<bar> * ?u"
    by (simp add: abs_mult less_imp_le)
  also have "\<dots> \<le> 1 / 2 * ?u"
    by (intro mult_right_mono round_even_error) (simp add: less_imp_le)
  also have "\<dots> \<le> x / 2 ^ 53"
    using scaled_bounds(1) [OF assms] ulp_pos [of x] by (simp add: field_simps)
  finally show ?thesis .
qed

lemma f64_upper: "0 \<le> x \<Longrightarrow> f64 x \<le> x * (1 + 1 / 2 ^ 53)"
  using f64_pos_error [of x] by (auto simp: f64_def abs_if field_simps split: if_splits)

lemma f64_lower: "0 \<le> x \<Longrightarrow> x * (1 - 1 / 2 ^ 53) \<le> f64 x"
  using f64_pos_error [of x] by (auto simp: f64_def abs_if field_simps split: if_splits)

text \<open>The value of a rounding is checked by the half unit around it.\<close>

lemma round_evenI:
  assumes "\<bar>x - of_int r\<bar> < 1 / 2 \<or> (\<bar>x - of_int r\<bar> = 1 / 2 \<and> even r)"
  shows "round_even x = r"
proof (cases "of_int r \<le> x")
  case True
  with assms have "\<lfloor>x\<rfloor> = r" by (auto simp: floor_eq_iff abs_if split: if_splits)
  with True assms show ?thesis by (auto simp: round_even_def Let_def)
next
  case False
  with assms have "\<lfloor>x\<rfloor> = r - 1" by (auto simp: floor_eq_iff abs_if split: if_splits)
  with False assms show ?thesis by (auto simp: round_even_def Let_def)
qed

lemma f64_eqI:
  assumes "2 powi e \<le> x" "x < 2 powi (e + 1)" and "u = 2 powi (e - 52)"
    and "\<bar>x / u - of_int r\<bar> < 1 / 2 \<or> (\<bar>x / u - of_int r\<bar> = 1 / 2 \<and> even r)"
  shows "f64 x = of_int r * u"
proof -
  have x: "0 < x" using assms(1) powi_pos [of e] by linarith
  have "exponent_of x = e" using exponent_ge [OF assms(1)] exponent_less [OF x assms(2)] by simp
  with assms(3) have "ulp_of x = u" by (simp add: ulp_of_def)
  with x round_evenI [OF assms(4)] show ?thesis by (simp add: f64_def f64_pos_def)
qed

end
