(* ===== verification/GPU_Allocator.thy ===== *)
theory GPU_Allocator imports Go_Lib Float64 Complex_Main "HOL-Library.Multiset" begin

text \<open>
  GPU assignment (internal/dispatcher/gpuallocator.go). The allocation table is an association list
  of deployment ids: its order is the order in which Go iterates over the map, so a statement for
  every list holds for every iteration order. The shares are float64: every sum, difference and
  quotient is rounded by \<open>f64\<close> (Float64), and sums run from left to right as the loops do.
  \<open>sort.Slice\<close> is \<open>sort_key\<close>; what is proved of the result only depends on it being an ascending
  permutation.
\<close>

record agent =
  ag_name :: string
  ag_min :: rat

record static_plan =
  sp_allocations :: "string \<rightharpoonup> rat"
  sp_total_used :: rat

section \<open>The static split\<close>

definition float_sum :: "('a \<Rightarrow> rat) \<Rightarrow> rat \<Rightarrow> 'a list \<Rightarrow> rat" where
  "float_sum v = foldl (\<lambda>s a. f64 (s + v a))"

definition min_sum :: "agent list \<Rightarrow> rat" where
  "min_sum agents = float_sum ag_min 0 agents"

definition equal_share :: "agent list \<Rightarrow> rat \<Rightarrow> rat" where
  "equal_share agents cap = f64 (cap / f64 (of_nat (length agents)))"

definition slack_receivers :: "agent list \<Rightarrow> rat \<Rightarrow> nat" where
  "slack_receivers agents share = length (filter (\<lambda>a. share > ag_min a) agents)"

definition slack_amount :: "agent list \<Rightarrow> rat \<Rightarrow> agent \<Rightarrow> rat" where
  "slack_amount agents cap a =
     (let share = equal_share agents cap; remaining = f64 (cap - min_sum agents);
          k = slack_receivers agents share;
          slack = (if k > 0 then f64 (remaining / f64 (of_nat k)) else 0)
      in if share > ag_min a then f64 (ag_min a + slack) else ag_min a)"

text \<open>\<open>allocations[agent.Name] = v\<close> in a loop: a later agent of the same name overwrites.\<close>

definition alloc_map :: "(agent \<Rightarrow> rat) \<Rightarrow> agent list \<Rightarrow> string \<rightharpoonup> rat" where
  "alloc_map v agents = fold (\<lambda>a m. m(ag_name a \<mapsto> v a)) agents Map.empty"

definition allocate_static :: "agent list \<Rightarrow> rat \<Rightarrow> (rat \<times> rat) + static_plan" where
  "allocate_static agents cap =
     (if agents = [] then Inr \<lparr>sp_allocations = Map.empty, sp_total_used = 0\<rparr>
      else if min_sum agents > cap then Inl (min_sum agents, cap)
      else let share = equal_share agents cap;
               temp = (\<lambda>a. max share (ag_min a));
               used = float_sum temp 0 agents
           in if used > cap then
                Inr \<lparr>sp_allocations = alloc_map (slack_amount agents cap) agents,
                     sp_total_used = float_sum (slack_amount agents cap) 0 agents\<rparr>
              else Inr \<lparr>sp_allocations = alloc_map temp agents, sp_total_used = used\<rparr>)"

lemma alloc_map_dom: "alloc_map v agents n = None \<longleftrightarrow> n \<notin> ag_name ` set agents"
proof -
  have "fold (\<lambda>a m. m(ag_name a \<mapsto> v a)) agents m n = None \<longleftrightarrow> m n = None \<and> n \<notin> ag_name ` set agents"
    for m by (induction agents arbitrary: m) auto
  then show ?thesis by (simp add: alloc_map_def)
qed

lemma fold_upd_other:
  "n \<notin> ag_name ` set agents \<Longrightarrow> fold (\<lambda>a m. m(ag_name a \<mapsto> v a)) agents m n = m n"
  by (induction agents arbitrary: m) auto

lemma alloc_map_distinct:
  assumes "distinct (map ag_name agents)" "a \<in> set agents"
  shows "alloc_map v agents (ag_name a) = Some (v a)"
proof -
  have "fold (\<lambda>a m. m(ag_name a \<mapsto> v a)) agents m (ag_name a) = Some (v a)" for m
    using assms
  proof (induction agents arbitrary: m)
    case Nil
    then show ?case by simp
  next
    case (Cons b agents)
    show ?case
    proof (cases "a \<in> set agents")
      case True
      with Cons show ?thesis by simp
    next
      case False
      with Cons.prems have "b = a" "ag_name a \<notin> ag_name ` set agents" by auto
      from this(2) have "fold (\<lambda>a m. m(ag_name a \<mapsto> v a)) agents (m(ag_name a \<mapsto> v a)) (ag_name a) =
          (m(ag_name a \<mapsto> v a)) (ag_name a)"
        by (rule fold_upd_other)
      with \<open>b = a\<close> show ?thesis by (simp only: fold_simps) simp
    qed
  qed
  then show ?thesis by (simp add: alloc_map_def)
qed

text \<open>A sum of non-negative values, rounded at every step, stays within a factor per step.\<close>

lemma float_sum_nonneg: "0 \<le> s \<Longrightarrow> \<forall>a \<in> set xs. 0 \<le> v a \<Longrightarrow> 0 \<le> float_sum v s xs"
  by (induction xs arbitrary: s) (auto simp: float_sum_def f64_nonneg)

lemma float_sum_upper:
  "0 \<le> s \<Longrightarrow> \<forall>a \<in> set xs. 0 \<le> v a \<Longrightarrow>
   float_sum v s xs \<le> (s + (\<Sum>a\<leftarrow>xs. v a)) * (1 + 1 / 2 ^ 53) ^ length xs"
proof (induction xs arbitrary: s)
  case Nil
  then show ?case by (simp add: float_sum_def)
next
  case (Cons x xs)
  define U :: rat where "U = 1 + 1 / 2 ^ 53"
  have U: "1 \<le> U" by (simp add: U_def)
  have sum: "0 \<le> (\<Sum>a\<leftarrow>xs. v a)" using Cons.prems by (intro sum_list_nonneg) auto
  have "float_sum v (f64 (s + v x)) xs \<le> (f64 (s + v x) + (\<Sum>a\<leftarrow>xs. v a)) * U ^ length xs"
    using Cons by (simp add: U_def f64_nonneg)
  also have "\<dots> \<le> ((s + v x) * U + (\<Sum>a\<leftarrow>xs. v a) * U) * U ^ length xs"
  proof (intro mult_right_mono add_mono)
    show "f64 (s + v x) \<le> (s + v x) * U" unfolding U_def using Cons.prems by (intro f64_upper) simp
    show "(\<Sum>a\<leftarrow>xs. v a) \<le> (\<Sum>a\<leftarrow>xs. v a) * U" using sum U by (simp add: mult_le_cancel_left1)
  qed (use U in simp)
  also have "\<dots> = (s + (\<Sum>a\<leftarrow>x # xs. v a)) * U ^ length (x # xs)" by (simp add: algebra_simps)
  finally show ?case by (simp only: U_def float_sum_def foldl.simps)
qed

lemma float_sum_lower:
  "0 \<le> s \<Longrightarrow> \<forall>a \<in> set xs. 0 \<le> v a \<Longrightarrow>
   (s + (\<Sum>a\<leftarrow>xs. v a)) * (1 - 1 / 2 ^ 53) ^ length xs \<le> float_sum v s xs"
proof (induction xs arbitrary: s)
  case Nil
  then show ?case by (simp add: float_sum_def)
next
  case (Cons x xs)
  define L :: rat where "L = 1 - 1 / 2 ^ 53"
  have L: "0 \<le> L" "L \<le> 1" by (simp_all add: L_def)
  have sum: "0 \<le> (\<Sum>a\<leftarrow>xs. v a)" using Cons.prems by (intro sum_list_nonneg) auto
  have "(s + (\<Sum>a\<leftarrow>x # xs. v a)) * L ^ length (x # xs) =
      ((s + v x) * L + (\<Sum>a\<leftarrow>xs. v a) * L) * L ^ length xs" by (simp add: algebra_simps)
  also have "\<dots> \<le>
      (f64 (s + v x) + (\<Sum>a\<leftarrow>xs. v a)) * L ^ length xs"
  proof (intro mult_right_mono add_mono)
    show "(s + v x) * L \<le> f64 (s + v x)" unfolding L_def using Cons.prems by (intro f64_lower) simp
    show "(\<Sum>a\<leftarrow>xs. v a) * L \<le> (\<Sum>a\<leftarrow>xs. v a)" using sum L by (simp add: mult_left_le)
  qed (use L in simp)
  also have "\<dots> \<le> float_sum v (f64 (s + v x)) xs" using Cons by (simp add: L_def f64_nonneg)
  finally show ?case by (simp only: L_def float_sum_def foldl.simps)
qed

text \<open>Whole numbers up to \<open>2 ^ 53\<close>, as the GPU counts are, are summed exactly.\<close>

lemma float_sum_nat:
  "s + (\<Sum>a\<leftarrow>xs. n a) \<le> 2 ^ 53 \<Longrightarrow>
   float_sum (\<lambda>a. of_nat (n a)) (of_nat s) xs = of_nat (s + (\<Sum>a\<leftarrow>xs. n a))"
proof (induction xs arbitrary: s)
  case Nil
  then show ?case by (simp add: float_sum_def)
next
  case (Cons x xs)
  have "f64 (of_nat s + of_nat (n x)) = of_nat (s + n x)"
    using f64_nat [of "s + n x"] Cons.prems by simp
  with Cons.IH [of "s + n x"] Cons.prems show ?case by (simp add: float_sum_def add.assoc)
qed

lemma float_sum_cong: "(\<And>a. a \<in> set xs \<Longrightarrow> v a = w a) \<Longrightarrow> float_sum v s xs = float_sum w s xs"
  by (induction xs arbitrary: s) (auto simp: float_sum_def)

lemma slack_nonneg:
  assumes "min_sum agents \<le> cap"
  shows "0 \<le> f64 (f64 (cap - min_sum agents) / f64 (of_nat k))"
  using assms by (intro f64_nonneg divide_nonneg_nonneg) simp_all

lemma slack_amount_ge:
  assumes "min_sum agents \<le> cap" "f64 (ag_min a) = ag_min a"
  shows "ag_min a \<le> slack_amount agents cap a"
proof -
  have "f64 (ag_min a) \<le> f64 (ag_min a + f64 (f64 (cap - min_sum agents) / f64 (of_nat k)))" for k
    using slack_nonneg [OF assms(1)] by (intro f64_mono) simp
  then show ?thesis using assms(2) by (simp add: slack_amount_def Let_def)
qed

lemma rounding_cancels: "(1 :: rat) \<le> ((1 - 1 / 2 ^ 53) * (1 + 1 / 2 ^ 53) ^ 2) ^ n"
  by (rule one_le_power) (simp add: power2_eq_square)

lemma exact_min_sum:
  assumes "\<forall>a \<in> set agents. 0 \<le> ag_min a"
  shows "(\<Sum>a\<leftarrow>agents. ag_min a) \<le> min_sum agents * (1 + 1 / 2 ^ 53) ^ (2 * length agents)"
proof -
  define U :: rat where "U = 1 + 1 / 2 ^ 53"
  define L :: rat where "L = 1 - 1 / 2 ^ 53"
  let ?M = "\<Sum>a\<leftarrow>agents. ag_min a" and ?n = "length agents"
  have M: "0 \<le> ?M" using assms by (intro sum_list_nonneg) auto
  have "?M * 1 \<le> ?M * (L * U ^ 2) ^ ?n"
    using rounding_cancels [of ?n] M by (intro mult_left_mono) (simp_all add: U_def L_def)
  also have "\<dots> = ?M * L ^ ?n * U ^ (2 * ?n)" by (simp add: power_mult_distrib power_mult mult.assoc)
  also have "\<dots> \<le> min_sum agents * U ^ (2 * ?n)"
    using float_sum_lower [of 0 agents ag_min] assms
    by (intro mult_right_mono) (simp_all add: L_def U_def min_sum_def)
  finally show ?thesis by (simp add: U_def)
qed

lemma f64_count: "0 < k \<Longrightarrow> of_nat k * (1 - 1 / 2 ^ 53) \<le> f64 (of_nat k)"
  using f64_lower [of "of_nat k"] by simp

lemma slack_share_bound:
  assumes "0 \<le> r" "0 < k"
  shows "of_nat k * f64 (f64 r / f64 (of_nat k)) \<le> r * (1 + 1 / 2 ^ 53) ^ 4"
proof -
  define U :: rat where "U = 1 + 1 / 2 ^ 53"
  define L :: rat where "L = 1 - 1 / 2 ^ 53"
  have L: "0 < L" and U: "0 < U" by (simp_all add: L_def U_def)
  have k: "0 < of_nat k * L" using assms L by simp
  have "f64 r / f64 (of_nat k) \<le> f64 r / (of_nat k * L)"
    using f64_count [OF assms(2)] k f64_nonneg [OF assms(1)] by (intro divide_left_mono) (auto simp: L_def)
  also have "\<dots> \<le> r * U / (of_nat k * L)"
    using f64_upper [OF assms(1)] k by (intro divide_right_mono) (simp_all add: U_def less_imp_le)
  finally have q: "f64 r / f64 (of_nat k) \<le> r * U / (of_nat k * L)" .
  have "f64 (f64 r / f64 (of_nat k)) \<le> f64 r / f64 (of_nat k) * U"
    unfolding U_def using assms f64_nonneg by (intro f64_upper divide_nonneg_nonneg) simp_all
  also have "\<dots> \<le> r * U / (of_nat k * L) * U" using q U by (intro mult_right_mono) simp_all
  finally have "of_nat k * f64 (f64 r / f64 (of_nat k)) \<le> of_nat k * (r * U / (of_nat k * L) * U)"
    by (intro mult_left_mono) simp_all
  also have "\<dots> = r * U ^ 2 * (1 / L)" using assms L by (simp add: power2_eq_square)
  also have "\<dots> \<le> r * U ^ 2 * U ^ 2"
  proof (intro mult_left_mono)
    show "1 / L \<le> U ^ 2" by (simp add: L_def U_def power2_eq_square)
  qed (use assms in simp)
  also have "\<dots> = r * U ^ 4" by (simp add: numeral_eq_Suc)
  finally show ?thesis by (simp only: U_def)
qed

lemma slack_sum:
  "(\<Sum>a\<leftarrow>xs. if share > ag_min a then ag_min a + c else ag_min a) =
    (\<Sum>a\<leftarrow>xs. ag_min a) + of_nat (length (filter (\<lambda>a. share > ag_min a) xs)) * c"
  by (induction xs) (auto simp: algebra_simps)

lemma slack_total:
  assumes "min_sum agents \<le> cap" and nonneg: "\<forall>a \<in> set agents. 0 \<le> ag_min a"
  shows "float_sum (slack_amount agents cap) 0 agents \<le> cap * (1 + 1 / 2 ^ 53) ^ (3 * length agents + 5)"
proof -
  define U :: rat where "U = 1 + 1 / 2 ^ 53"
  have U: "1 \<le> U" by (simp add: U_def)
  let ?share = "equal_share agents cap" and ?n = "length agents" and ?m = "min_sum agents"
  let ?k = "slack_receivers agents ?share"
  define c where "c = (if ?k > 0 then f64 (f64 (cap - ?m) / f64 (of_nat ?k)) else 0)"
  let ?e = "\<lambda>a. if ?share > ag_min a then ag_min a + c else ag_min a"
  have m: "0 \<le> ?m" using nonneg by (simp add: min_sum_def float_sum_nonneg)
  have c: "0 \<le> c" using slack_nonneg [OF assms(1)] by (simp add: c_def)
  have def: "slack_amount agents cap a = (if ?share > ag_min a then f64 (ag_min a + c) else ag_min a)" for a
    by (simp add: slack_amount_def Let_def c_def)
  have each: "0 \<le> slack_amount agents cap a" "slack_amount agents cap a \<le> ?e a * U" if "a \<in> set agents" for a
    using that nonneg c U f64_upper [of "ag_min a + c"]
    by (auto simp: def U_def f64_nonneg mult_le_cancel_left1 intro: order_trans)
  have kc: "of_nat ?k * c \<le> (cap - ?m) * U ^ 4"
    using slack_share_bound [of "cap - ?m" ?k] assms(1) U by (auto simp: c_def U_def)
  have "(\<Sum>a\<leftarrow>agents. slack_amount agents cap a) \<le> (\<Sum>a\<leftarrow>agents. ?e a * U)"
    using each by (intro sum_list_mono) auto
  also have "\<dots> = ((\<Sum>a\<leftarrow>agents. ag_min a) + of_nat ?k * c) * U"
    by (simp only: sum_list_mult_const slack_sum slack_receivers_def)
  also have "\<dots> \<le> (?m * U ^ (2 * ?n + 4) + (cap - ?m) * U ^ (2 * ?n + 4)) * U"
  proof (intro mult_right_mono add_mono)
    have "?m * U ^ (2 * ?n) \<le> ?m * U ^ (2 * ?n + 4)"
      using U m by (intro mult_left_mono power_increasing) simp_all
    then show "(\<Sum>a\<leftarrow>agents. ag_min a) \<le> ?m * U ^ (2 * ?n + 4)"
      using exact_min_sum [OF nonneg] by (simp add: U_def)
    have "(cap - ?m) * U ^ 4 \<le> (cap - ?m) * U ^ (2 * ?n + 4)"
      using U assms(1) by (intro mult_left_mono power_increasing) simp_all
    with kc show "of_nat ?k * c \<le> (cap - ?m) * U ^ (2 * ?n + 4)" by simp
  qed (use U in simp)
  also have "\<dots> = cap * U ^ (2 * ?n + 5)" by (simp add: algebra_simps power_add numeral_eq_Suc)
  finally have sum: "(\<Sum>a\<leftarrow>agents. slack_amount agents cap a) \<le> cap * U ^ (2 * ?n + 5)" .
  have "float_sum (slack_amount agents cap) 0 agents \<le> (\<Sum>a\<leftarrow>agents. slack_amount agents cap a) * U ^ ?n"
    using float_sum_upper [of 0 agents "slack_amount agents cap"] each by (simp add: U_def)
  also have "\<dots> \<le> cap * U ^ (2 * ?n + 5) * U ^ ?n" using sum U by (intro mult_right_mono) simp_all
  also have "\<dots> = cap * U ^ (3 * ?n + 5)" by (simp add: mult.assoc flip: power_add)
  finally show ?thesis by (simp add: U_def)
qed

lemma min_sum_whole:
  assumes "\<forall>a \<in> set agents. ag_min a = of_nat (n a)" "(\<Sum>a\<leftarrow>agents. n a) \<le> 2 ^ 53"
  shows "min_sum agents = of_nat (\<Sum>a\<leftarrow>agents. n a)"
  using float_sum_nat [of 0 n agents] assms
    float_sum_cong [of agents ag_min "\<lambda>a. of_nat (n a)" 0] by (simp add: min_sum_def)

section \<open>The allocator\<close>

type_synonym alloc_table = "(string \<times> int list) list"

record gpu_allocator =
  ga_allocated :: alloc_table
  ga_total_gpus :: int

definition new_gpu_allocator :: "int \<Rightarrow> gpu_allocator" where
  "new_gpu_allocator n = \<lparr>ga_allocated = [], ga_total_gpus = n\<rparr>"

definition make_range :: "int \<Rightarrow> int \<Rightarrow> int list" where
  "make_range a b = map (\<lambda>i. a + int i) [0..<nat (b - a + 1)]"

definition held :: "gpu_allocator \<Rightarrow> string \<Rightarrow> int list option" where
  "held a dep = map_of (ga_allocated a) dep"

definition set_held :: "string \<Rightarrow> int list \<Rightarrow> gpu_allocator \<Rightarrow> gpu_allocator" where
  "set_held dep gs a =
     a\<lparr>ga_allocated := (dep, gs) # filter (\<lambda>(k, _). k \<noteq> dep) (ga_allocated a)\<rparr>"

definition gpu_release :: "string \<Rightarrow> gpu_allocator \<Rightarrow> gpu_allocator" where
  "gpu_release dep a = a\<lparr>ga_allocated := filter (\<lambda>(k, _). k \<noteq> dep) (ga_allocated a)\<rparr>"

definition gpus_used :: "gpu_allocator \<Rightarrow> int list" where
  "gpus_used a = sorted_list_of_set (set (concat (map snd (ga_allocated a))))"

definition alloc_agents :: "string \<Rightarrow> int list \<Rightarrow> alloc_table \<Rightarrow> agent list" where
  "alloc_agents dep desirable t =
     map (\<lambda>(k, gs). \<lparr>ag_name = k, ag_min = f64 (of_nat (length gs))\<rparr>) (filter (\<lambda>(k, _). k \<noteq> dep) t)
     @ [\<lparr>ag_name = dep, ag_min = f64 (of_nat (length desirable))\<rparr>]"

definition pool_capacity :: "int list \<Rightarrow> alloc_table \<Rightarrow> rat" where
  "pool_capacity desirable t =
     (let m = foldl max 0 (desirable @ concat (map snd t)) in max 1 (f64 (of_int (m + 1))))"

definition gpu_load :: "static_plan \<Rightarrow> string \<Rightarrow> alloc_table \<Rightarrow> int \<Rightarrow> rat" where
  "gpu_load p dep t g =
     foldl (\<lambda>load (k, gs).
        let share = (case sp_allocations p k of None \<Rightarrow> 0 | Some s \<Rightarrow> s);
            gpu_share = f64 (share / f64 (of_nat (length gs)))
        in ((\<lambda>l. f64 (l + gpu_share)) ^^ count_list gs g) load)
      0 (filter (\<lambda>(k, _). k \<noteq> dep) t)"

definition allocate_gpus :: "string \<Rightarrow> int list \<Rightarrow> gpu_allocator \<Rightarrow> int list \<times> gpu_allocator" where
  "allocate_gpus dep desirable0 a =
     (if desirable0 = [] \<and> ga_total_gpus a \<le> 0 then (desirable0, a)
      else let desirable = (if desirable0 = [] then make_range 0 (ga_total_gpus a - 1) else desirable0);
               t = ga_allocated a
           in case allocate_static (alloc_agents dep desirable t) (pool_capacity desirable t) of
                Inl e \<Rightarrow> (desirable, set_held dep desirable a)
              | Inr p \<Rightarrow> let sel = sort_key (gpu_load p dep t) desirable in (sel, set_held dep sel a))"

lemma held_release: "held (gpu_release k a) j = (if j = k then None else held a j)"
proof (cases "j = k")
  case True
  then show ?thesis by (auto simp: held_def gpu_release_def map_of_eq_None_iff)
next
  case False
  have "map_of (filter (\<lambda>(k', _). k' \<noteq> k) xs) j = map_of xs j" for xs :: alloc_table
    using False by (induction xs) auto
  with False show ?thesis by (simp add: held_def gpu_release_def)
qed

text \<open>The allocation table is a keyed table.\<close>

interpretation gpu_table: keyed_table set_held gpu_release held
proof
  show "held (set_held k v t) j = (if j = k then Some v else held t j)" for k v t j
  proof (cases "j = k")
    case True
    then show ?thesis by (simp add: held_def set_held_def)
  next
    case False
    have "held (set_held k v t) j = held (gpu_release k t) j"
      using False by (simp add: held_def set_held_def gpu_release_def)
    with False show ?thesis by (simp add: held_release)
  qed
qed (rule held_release)

definition allocator_inv :: "gpu_allocator \<Rightarrow> bool" where
  "allocator_inv a \<longleftrightarrow> distinct (map fst (ga_allocated a))"

lemma set_held_inv [inv_preserved]: "allocator_inv a \<Longrightarrow> allocator_inv (set_held dep gs a)"
  by (auto simp: allocator_inv_def set_held_def distinct_map_filter)

lemma release_inv [inv_preserved]: "allocator_inv a \<Longrightarrow> allocator_inv (gpu_release dep a)"
  by (auto simp: allocator_inv_def gpu_release_def distinct_map_filter)

lemma allocate_inv [inv_preserved]: "allocator_inv a \<Longrightarrow> allocator_inv (snd (allocate_gpus dep gs a))"
  by (auto simp: allocate_gpus_def Let_def inv_preserved split: sum.splits)

definition wanted_gpus :: "int list \<Rightarrow> gpu_allocator \<Rightarrow> int list" where
  "wanted_gpus desirable a =
     (if desirable = [] \<and> 0 < ga_total_gpus a then make_range 0 (ga_total_gpus a - 1) else desirable)"

lemma make_range_set: "set (make_range a b) = {a..b}"
proof -
  have "i \<in> set (make_range a b)" if "a \<le> i" "i \<le> b" for i
    using that by (auto simp: make_range_def image_iff intro!: bexI [of _ "nat (i - a)"])
  then show ?thesis by (auto simp: make_range_def)
qed

lemma make_range_distinct: "distinct (make_range a b)"
  by (simp add: make_range_def distinct_map inj_on_def)

lemma allocate_stores: "wanted_gpus gs a \<noteq> [] \<Longrightarrow>
    held (snd (allocate_gpus dep gs a)) dep = Some (fst (allocate_gpus dep gs a))"
  by (auto simp: allocate_gpus_def wanted_gpus_def Let_def gpu_table.get_put split: sum.splits if_splits)

lemma allocate_mset: "mset (fst (allocate_gpus dep gs a)) = mset (wanted_gpus gs a)"
  by (auto simp: allocate_gpus_def wanted_gpus_def Let_def split: sum.splits)

lemma allocate_others: "j \<noteq> dep \<Longrightarrow> held (snd (allocate_gpus dep gs a)) j = held a j"
  by (auto simp: allocate_gpus_def Let_def gpu_table.get_put split: sum.splits)

section \<open>Properties\<close>



text \<open>
  The capacity can be exceeded: six agents with a minimum of 1 and a capacity of 7 are given 7/6
  each, which adds up to more than 7 in float64.
\<close>

lemma rounded_sevenths:
  "f64 (7 / 6) = 5254199565265579 / 4503599627370496"
  "f64 (1 / 6) = 6004799503160661 / 36028797018963968"
  "f64 (42033596522124629 / 36028797018963968) = 5254199565265579 / 4503599627370496"
  "f64 (5254199565265579 / 4503599627370496) = 5254199565265579 / 4503599627370496"
  "f64 (5254199565265579 / 2251799813685248) = 5254199565265579 / 2251799813685248"
  "f64 (15762598695796737 / 4503599627370496) = 7 / 2"
  "f64 (21016798261062315 / 4503599627370496) = 5254199565265579 / 1125899906842624"
  "f64 (26270997826327895 / 4503599627370496) = 3283874728290987 / 562949953421312"
  "f64 (31525197391593475 / 4503599627370496) = 7881299347898369 / 1125899906842624"
  using f64_eqI [of "0" "7 / 6" _ 5254199565265579, OF _ _ refl]
    f64_eqI [of "-3" "1 / 6" _ 6004799503160661, OF _ _ refl]
    f64_eqI [of "0" "42033596522124629 / 36028797018963968" _ 5254199565265579, OF _ _ refl]
    f64_eqI [of "0" "5254199565265579 / 4503599627370496" _ 5254199565265579, OF _ _ refl]
    f64_eqI [of "1" "5254199565265579 / 2251799813685248" _ 5254199565265579, OF _ _ refl]
    f64_eqI [of "1" "15762598695796737 / 4503599627370496" _ 7881299347898368, OF _ _ refl]
    f64_eqI [of "2" "21016798261062315 / 4503599627370496" _ 5254199565265579, OF _ _ refl]
    f64_eqI [of "2" "26270997826327895 / 4503599627370496" _ 6567749456581974, OF _ _ refl]
    f64_eqI [of "2" "31525197391593475 / 4503599627370496" _ 7881299347898369, OF _ _ refl]
  by simp_all

lemma static_split_overshoots:
  "case allocate_static (map (\<lambda>n. \<lparr>ag_name = n, ag_min = 1\<rparr>) [''a'', ''b'', ''c'', ''d'', ''e'', ''f'']) 7 of
     Inl _ \<Rightarrow> False
   | Inr p \<Rightarrow> sp_total_used p = 7 + 1 / 2 ^ 50"
proof -
  have small: "f64 1 = 1" "f64 2 = 2" "f64 3 = 3" "f64 4 = 4" "f64 5 = 5" "f64 6 = 6"
    using f64_nat [of 1] f64_nat [of 2] f64_nat [of 3] f64_nat [of 4] f64_nat [of 5] f64_nat [of 6] by simp_all
  show ?thesis
    by (simp add: allocate_static_def min_sum_def equal_share_def slack_amount_def slack_receivers_def
        float_sum_def Let_def small rounded_sevenths)
qed

text \<open>
  (functional). Allocate never refuses and never narrows the request: the GPUs handed out are a
  permutation of the wanted set (all GPUs of the host for an empty request), whatever the other
  deployments hold; the table records them and no other entry changes.
\<close>

theorem allocation_is_whole_request:
  "mset (fst (allocate_gpus dep gs a)) = mset (wanted_gpus gs a) \<and>
   (\<forall>j. held (snd (allocate_gpus dep gs a)) j =
     (if j = dep \<and> wanted_gpus gs a \<noteq> [] then Some (fst (allocate_gpus dep gs a)) else held a j)) \<and>
   (gs = [] \<longrightarrow> 0 < ga_total_gpus a \<longrightarrow> set (fst (allocate_gpus dep gs a)) = {0..<ga_total_gpus a})"
proof (intro conjI allI impI)
  fix j
  show "held (snd (allocate_gpus dep gs a)) j =
     (if j = dep \<and> wanted_gpus gs a \<noteq> [] then Some (fst (allocate_gpus dep gs a)) else held a j)"
  proof (cases "wanted_gpus gs a = []")
    case True
    then have "snd (allocate_gpus dep gs a) = a"
      by (auto simp: wanted_gpus_def allocate_gpus_def make_range_def split: if_splits)
    with True show ?thesis by simp
  qed (auto simp: allocate_stores allocate_others)
next
  assume "gs = []" "0 < ga_total_gpus a"
  then have "wanted_gpus gs a = make_range 0 (ga_total_gpus a - 1)" by (simp add: wanted_gpus_def)
  then have "set (fst (allocate_gpus dep gs a)) = {0..ga_total_gpus a - 1}"
    using arg_cong [OF allocate_mset [of dep gs a], of set_mset] by (simp add: make_range_set)
  moreover have "{0..n - 1} = {0..<n}" for n :: int by auto
  ultimately show "set (fst (allocate_gpus dep gs a)) = {0..<ga_total_gpus a}" by (simp only:)
qed (rule allocate_mset)

theorem allocation_is_whole_request_witness:
  "set (fst (allocate_gpus ''d'' [] (new_gpu_allocator 2))) = {0..<2}"
  using allocation_is_whole_request [of "''d''" "[]" "new_gpu_allocator 2"]
  by (simp add: new_gpu_allocator_def)

end
