(* ===== verification/Dedup.thy ===== *)
theory Dedup imports Protocol begin

text \<open>
  The command window (internal/control/dedup.go). \<open>Run\<close> holds its mutex for the lookup and for the
  store but not while the command executes, so a run is two atomic steps, \<open>run_begin\<close> and
  \<open>run_end\<close>, between which other runs take theirs. Times are nanoseconds; the time of a run is the
  one read on entry.
\<close>

record dedup_entry =
  de_result :: command_result_body
  de_expires :: int

record dedup =
  dd_ttl :: int
  dd_entries :: "string \<rightharpoonup> dedup_entry"

definition new_dedup :: "int \<Rightarrow> dedup" where
  "new_dedup ttl = \<lparr>dd_ttl = ttl, dd_entries = Map.empty\<rparr>"

definition dedup_find :: "int \<Rightarrow> string \<Rightarrow> dedup \<Rightarrow> command_result_body option" where
  "dedup_find now k d =
     (case dd_entries d k of
        Some e \<Rightarrow> if now < de_expires e then Some (de_result e) else None
      | None \<Rightarrow> None)"

definition dedup_gc :: "int \<Rightarrow> dedup \<Rightarrow> dedup" where
  "dedup_gc now d = d\<lparr>dd_entries := (\<lambda>k. case dd_entries d k of
       Some e \<Rightarrow> if now > de_expires e + dd_ttl d then None else Some e
     | None \<Rightarrow> None)\<rparr>"

definition dedup_store :: "int \<Rightarrow> string \<Rightarrow> command_result_body \<Rightarrow> dedup \<Rightarrow> dedup" where
  "dedup_store now k r d =
     dedup_gc now (d\<lparr>dd_entries := (dd_entries d)(k \<mapsto> \<lparr>de_result = r, de_expires = now + dd_ttl d\<rparr>)\<rparr>)"

text \<open>\<open>Run\<close> when nothing else runs meanwhile; the command threads a state of its own.\<close>

definition dedup_run ::
  "int \<Rightarrow> string \<Rightarrow> ('s \<Rightarrow> command_result_body \<times> 's) \<Rightarrow> dedup \<times> 's \<Rightarrow> (command_result_body \<times> bool) \<times> dedup \<times> 's" where
  "dedup_run now k fn ds =
     (let (d, s) = ds in
      if k = [] then (let (r, s') = fn s in ((r, False), d, s'))
      else case dedup_find now k d of
             Some r \<Rightarrow> ((r, True), d, s)
           | None \<Rightarrow> (let (r, s') = fn s in ((r, False), dedup_store now k r d, s')))"

section \<open>Interleaved runs\<close>

text \<open>
  Calls are numbered. \<open>ds_running\<close> holds the id and entry time of each call whose command is
  executing; \<open>ds_executed\<close> records the ids whose command was started, \<open>ds_replies\<close> what each call
  returned, with the hit flag.
\<close>

record dedup_sys =
  ds_dedup :: dedup
  ds_running :: "nat \<rightharpoonup> string \<times> int"
  ds_executed :: "string list"
  ds_replies :: "(nat \<times> string \<times> command_result_body \<times> bool) list"

definition run_begin :: "nat \<Rightarrow> string \<Rightarrow> int \<Rightarrow> dedup_sys \<Rightarrow> dedup_sys" where
  "run_begin c k now s =
     (case (if k = [] then None else dedup_find now k (ds_dedup s)) of
        Some r \<Rightarrow> s\<lparr>ds_replies := ds_replies s @ [(c, k, r, True)]\<rparr>
      | None \<Rightarrow> s\<lparr>ds_running := (ds_running s)(c \<mapsto> (k, now)), ds_executed := ds_executed s @ [k]\<rparr>)"

definition run_end :: "nat \<Rightarrow> command_result_body \<Rightarrow> dedup_sys \<Rightarrow> dedup_sys" where
  "run_end c r s =
     (case ds_running s c of
        None \<Rightarrow> s
      | Some (k, now) \<Rightarrow>
          s\<lparr>ds_dedup := (if k = [] then ds_dedup s else dedup_store now k r (ds_dedup s)),
            ds_running := (ds_running s)(c := None),
            ds_replies := ds_replies s @ [(c, k, r, False)]\<rparr>)"

datatype dedup_event = RunBegin nat string int | RunEnd nat command_result_body

fun dedup_step :: "dedup_event \<Rightarrow> dedup_sys \<Rightarrow> dedup_sys" where
  "dedup_step (RunBegin c k now) s = run_begin c k now s"
| "dedup_step (RunEnd c r) s = run_end c r s"

definition dedup_trace :: "dedup_event list \<Rightarrow> dedup_sys \<Rightarrow> dedup_sys" where
  "dedup_trace es s = fold dedup_step es s"

fun begins_by :: "int \<Rightarrow> dedup_event \<Rightarrow> bool" where
  "begins_by t (RunBegin c k now) = (now \<le> t)"
| "begins_by t (RunEnd c r) = True"

lemma run_is_begin_end:
  assumes "ds_running s c = None"
  shows "let ((r, hit), d', w') = dedup_run now k fn (ds_dedup s, w);
             s' = (if hit then run_begin c k now s else run_end c r (run_begin c k now s))
         in ds_dedup s' = d' \<and> ds_running s' = ds_running s \<and> ds_replies s' = ds_replies s @ [(c, k, r, hit)]"
  using assms
  by (auto simp: dedup_run_def run_begin_def run_end_def split_def Let_def split: option.splits)

text \<open>While \<open>k\<close> is answered from the window: the state between two events of such a trace.\<close>

definition answered :: "string \<Rightarrow> command_result_body \<Rightarrow> int \<Rightarrow> int \<Rightarrow> dedup_sys \<Rightarrow> bool" where
  "answered k r t x s \<longleftrightarrow>
     dd_entries (ds_dedup s) k = Some \<lparr>de_result = r, de_expires = x\<rparr> \<and> 0 \<le> dd_ttl (ds_dedup s) \<and>
     (\<forall>c j now. ds_running s c = Some (j, now) \<longrightarrow> j \<noteq> k \<and> now \<le> t)"

lemma store_other:
  assumes "dd_entries d k = Some e" "j \<noteq> k" "now \<le> de_expires e" "0 \<le> dd_ttl d"
  shows "dd_entries (dedup_store now j r d) k = Some e"
  using assms by (simp add: dedup_store_def dedup_gc_def)

lemma store_ttl [simp]: "dd_ttl (dedup_store now j r d) = dd_ttl d"
  by (simp add: dedup_store_def dedup_gc_def)

lemma store_same: "0 \<le> dd_ttl d \<Longrightarrow>
    dd_entries (dedup_store now k r d) k = Some \<lparr>de_result = r, de_expires = now + dd_ttl d\<rparr>"
  by (simp add: dedup_store_def dedup_gc_def)

lemma answered_step:
  assumes "answered k r t x s" "t < x" "begins_by t e" "k \<noteq> []"
  shows "answered k r t x (dedup_step e s) \<and>
    count_list (ds_executed (dedup_step e s)) k = count_list (ds_executed s) k \<and>
    (\<exists>new. ds_replies (dedup_step e s) = ds_replies s @ new \<and>
       (\<forall>(c, j, r', hit) \<in> set new. j = k \<longrightarrow> r' = r \<and> hit))"
proof (cases e)
  case (RunBegin c j now)
  with assms have "now \<le> t" by simp
  with RunBegin assms show ?thesis
    by (auto simp: answered_def run_begin_def dedup_find_def split: option.splits if_splits)
next
  case (RunEnd c r')
  show ?thesis
  proof (cases "ds_running s c")
    case None
    with RunEnd assms show ?thesis by (simp add: run_end_def)
  next
    case (Some p)
    obtain j now where p: "p = (j, now)" by fastforce
    with Some assms have j: "j \<noteq> k" "now \<le> t" by (auto simp: answered_def)
    moreover have "dd_entries (dedup_store now j r' (ds_dedup s)) k = Some \<lparr>de_result = r, de_expires = x\<rparr>"
      using assms j by (intro store_other) (auto simp: answered_def)
    ultimately show ?thesis
      using RunEnd Some p assms by (auto simp: run_end_def answered_def)
  qed
qed

lemma answered_trace:
  assumes "answered k r t x s" "t < x" "list_all (begins_by t) es" "k \<noteq> []"
  shows "answered k r t x (dedup_trace es s) \<and>
    count_list (ds_executed (dedup_trace es s)) k = count_list (ds_executed s) k \<and>
    (\<exists>new. ds_replies (dedup_trace es s) = ds_replies s @ new \<and>
       (\<forall>(c, j, r', hit) \<in> set new. j = k \<longrightarrow> r' = r \<and> hit))"
  using assms
proof (induction es arbitrary: s)
  case Nil
  then show ?case by (auto simp: dedup_trace_def)
next
  case (Cons e es)
  let ?s = "dedup_step e s"
  from Cons.prems have "begins_by t e" by simp
  with answered_step [of k r t x s e] Cons.prems obtain n1 where
    1: "answered k r t x ?s" "count_list (ds_executed ?s) k = count_list (ds_executed s) k"
    "ds_replies ?s = ds_replies s @ n1" "\<forall>(c, j, r', hit) \<in> set n1. j = k \<longrightarrow> r' = r \<and> hit"
    by blast
  with Cons.IH [of ?s] Cons.prems obtain n2 where
    2: "answered k r t x (dedup_trace es ?s)"
    "count_list (ds_executed (dedup_trace es ?s)) k = count_list (ds_executed ?s) k"
    "ds_replies (dedup_trace es ?s) = ds_replies ?s @ n2"
    "\<forall>(c, j, r', hit) \<in> set n2. j = k \<longrightarrow> r' = r \<and> hit"
    by auto
  have "dedup_trace (e # es) s = dedup_trace es ?s" by (simp add: dedup_trace_def)
  with 1 2 show ?case by (auto intro!: exI [of _ "n1 @ n2"])
qed

section \<open>Properties\<close>


definition idle_sys :: "int \<Rightarrow> dedup_sys" where
  "idle_sys ttl =
     \<lparr>ds_dedup = new_dedup ttl, ds_running = Map.empty, ds_executed = [], ds_replies = []\<rparr>"


text \<open>
  (safety). The window is measured from the moment the first call began, not from the moment
  its result became known: when the command takes at least the time to live, a retry sent after it
  ended executes it a second time. So does a retry sent while it is still executing.
\<close>

theorem slow_command_executes_twice:
  assumes "k \<noteq> []" and "0 \<le> ttl" and "t0 + ttl \<le> t1"
  shows "ds_executed (dedup_trace [RunBegin 0 k t0, RunEnd 0 r, RunBegin 1 k t1] (idle_sys ttl)) = [k, k] \<and>
    ds_executed (dedup_trace [RunBegin 0 k t0, RunBegin 1 k t', RunEnd 0 r, RunEnd 1 r'] (idle_sys ttl)) = [k, k]"
  using assms
  by (simp add: dedup_trace_def idle_sys_def new_dedup_def run_begin_def run_end_def dedup_find_def
      dedup_store_def dedup_gc_def)

theorem slow_command_executes_twice_witness:
  "ds_executed (dedup_trace [RunBegin 0 ''1'' 0, RunEnd 0 \<lparr>cr_in_reply_to = ''1'', cr_status = ''ok'', cr_detail = [], cr_endpoint_url = []\<rparr>,
      RunBegin 1 ''1'' 301] (idle_sys 300)) = [''1'', ''1'']"
  (is "ds_executed (dedup_trace [_, RunEnd 0 ?r, _] _) = _")
  using slow_command_executes_twice [of "''1''" 300 0 301 ?r] by simp

end
