(* ===== verification/Plans.thy ===== *)
theory Plans imports Go_Lib begin

text \<open>
  The data exchanged between the recipes and the runtime (internal/runtime/recipes/recipes.go and
  plan.go): the input a plan is built from, the plan of one container, and the plan of a
  prefill/decode group. Durations are nanoseconds; a nil slice and an empty one are both \<open>[]\<close>. The
  configuration is the list of its entries, in the order Go iterates over the map.
\<close>

record mount =
  mnt_type :: string
  mnt_source :: string
  mnt_target :: string
  mnt_read_only :: bool

record plan =
  pl_image :: string
  pl_container_name :: string
  pl_cmd :: "string list"
  pl_entrypoint :: "string list"
  pl_env :: "string \<rightharpoonup> string"
  pl_mounts :: "mount list"
  pl_container_port :: int
  pl_host_port :: int
  pl_gpu_indices :: "int list"
  pl_shm_size :: int
  pl_ready_path :: string
  pl_readiness_timeout :: int

record build_input =
  bi_deployment_id :: string
  bi_artifact_uri :: string
  bi_config :: "(string \<times> go_any) list"
  bi_gpu_indices :: "int list"
  bi_host_port :: int
  bi_env :: "string \<rightharpoonup> string"
  bi_gpu_name :: string
  bi_gpu_memory_mib :: "64 word"
  bi_prefill_replicas :: int
  bi_decode_replicas :: int
  bi_prefill_gpu_indices :: "int list"
  bi_decode_gpu_indices :: "int list"
  bi_shm_size :: int

text \<open>\<open>KvRole\<close> is a string type; \<open>KvRoleUnset\<close> is its zero value.\<close>

datatype kv_role = KvRoleUnset | KvRoleProducer | KvRoleConsumer

record container_plan =
  cp_image :: string
  cp_cmd :: "string list"
  cp_entrypoint :: "string list"
  cp_env :: "string \<rightharpoonup> string"
  cp_mounts :: "mount list"
  cp_container_port :: int
  cp_gpu_indices :: "int list"
  cp_shm_size :: int
  cp_ready_path :: string
  cp_role :: kv_role
  cp_replica_idx :: nat

record deployment_plan =
  dp_deployment_id :: string
  dp_model :: string
  dp_prefill :: "container_plan list"
  dp_decode :: "container_plan list"
  dp_container_prefix :: string

definition to_plan :: "container_plan \<Rightarrow> string \<Rightarrow> int \<Rightarrow> plan" where
  "to_plan cp containerName hostPort =
     \<lparr>pl_image = cp_image cp, pl_container_name = containerName, pl_cmd = cp_cmd cp,
      pl_entrypoint = cp_entrypoint cp, pl_env = cp_env cp, pl_mounts = cp_mounts cp,
      pl_container_port = cp_container_port cp, pl_host_port = hostPort,
      pl_gpu_indices = cp_gpu_indices cp, pl_shm_size = cp_shm_size cp,
      pl_ready_path = cp_ready_path cp, pl_readiness_timeout = 0\<rparr>"

end
