(* ===== verification/GPU_Profiles.thy ===== *)
theory GPU_Profiles imports Go_Lib begin

text \<open>
  Engine defaults per GPU (internal/config/vllm, internal/config/vllm/omni and
  internal/config/sglang). The tables of the packages are association lists; the configuration a
  recipe turns into flags is a map from keys to scalars. The process environment is a function
  \<open>getenv\<close> that gives the empty string for an unset variable.
\<close>

type_synonym engine_config = "string \<rightharpoonup> scalar"
type_synonym env_map = "string \<rightharpoonup> string"
type_synonym environment = "string \<Rightarrow> string"

section \<open>Longest-prefix lookup\<close>

text \<open>
  \<open>sortedProfileKeys\<close>: the keys of a table, longest first. The code sorts the keys in the order
  the map yields them, so keys of equal length come in any order.
\<close>

definition profile_order :: "string list \<Rightarrow> bool" where
  "profile_order ks \<longleftrightarrow> sorted_wrt (\<lambda>a b. length b \<le> length a) ks"

definition sorted_profile_keys :: "(string \<times> 'p) list \<Rightarrow> string list" where
  "sorted_profile_keys t = sort_key (\<lambda>k. - int (length k)) (map fst t)"

definition matching_key :: "string list \<Rightarrow> string \<Rightarrow> string option" where
  "matching_key ks name = find (has_prefix name) ks"

definition lookup_profile :: "(string \<times> 'p) list \<Rightarrow> string \<Rightarrow> 'p option" where
  "lookup_profile t name =
     (case matching_key (sorted_profile_keys t) name of None \<Rightarrow> None | Some k \<Rightarrow> map_of t k)"

lemma find_longest:
  assumes "profile_order ks" "k \<in> set ks" "has_prefix name k"
  shows "\<exists>m. matching_key ks name = Some m \<and> m \<in> set ks \<and> has_prefix name m \<and> length k \<le> length m"
  using assms
  by (induction ks) (auto simp: profile_order_def matching_key_def)

lemma matching_key_None: "matching_key ks name = None \<longleftrightarrow> (\<forall>k \<in> set ks. \<not> has_prefix name k)"
  by (auto simp: matching_key_def find_None_iff)

lemma matching_key_Some: "matching_key ks name = Some k \<Longrightarrow> k \<in> set ks \<and> has_prefix name k"
  by (auto simp: matching_key_def find_Some_iff)

lemma sorted_profile_keys_order: "profile_order (sorted_profile_keys t)"
proof -
  have "sorted (map (\<lambda>k. - int (length k)) (sorted_profile_keys t))"
    by (simp add: sorted_profile_keys_def)
  then have "sorted_wrt (\<lambda>a b. - int (length a) \<le> - int (length b)) (sorted_profile_keys t)"
    by (simp add: sorted_wrt_map)
  then show ?thesis by (simp add: profile_order_def)
qed

lemma sorted_profile_keys_set [simp]: "set (sorted_profile_keys t) = fst ` set t"
  by (simp add: sorted_profile_keys_def)

lemma matching_key_order_irrelevant:
  assumes "profile_order ks" "profile_order ks'" "set ks = set ks'"
  shows "matching_key ks name = matching_key ks' name"
proof (cases "matching_key ks name")
  case None
  with assms(3) matching_key_None [of ks name] matching_key_None [of ks' name] show ?thesis by simp
next
  case (Some k)
  note k = matching_key_Some [OF Some]
  with find_longest [of ks' k name] assms obtain m where m: "matching_key ks' name = Some m"
    "m \<in> set ks" "has_prefix name m" "length k \<le> length m" by auto
  with find_longest [of ks m name] assms Some have "length m \<le> length k" by auto
  with m k have "m = k" by (intro has_prefix_same_length [of name]) auto
  with m Some show ?thesis by simp
qed

section \<open>vLLM\<close>

record gpu_profile =
  gp_name :: string
  gp_memory_mib :: "64 word"
  gp_sm_version :: int

definition sm_table :: "(string \<times> int) list" where
  "sm_table =
     [(''Tesla T4'', 75), (''Tesla V100'', 70), (''NVIDIA A10G'', 86), (''NVIDIA L4'', 89),
      (''NVIDIA L40S'', 89), (''NVIDIA A100'', 80), (''NVIDIA H100'', 90), (''NVIDIA H200'', 90),
      (''NVIDIA GH200'', 90)]"

definition sm_for_gpu :: "string \<Rightarrow> int" where
  "sm_for_gpu name = (case find (\<lambda>(p, _). has_prefix name p) sm_table of Some (_, sm) \<Rightarrow> sm | None \<Rightarrow> 0)"

record vllm_profile =
  vp_dtype :: string
  vp_kv_dtype :: string
  vp_quant :: string
  vp_eager :: bool
  vp_env :: "(string \<times> string) list"

record vllm_sizing =
  vs_gmu :: f64
  vs_mml :: int
  vs_mns :: int
  vs_mbt :: int

definition vllm_profile_of :: "string \<Rightarrow> string \<Rightarrow> string \<Rightarrow> vllm_profile" where
  "vllm_profile_of dt kv q = \<lparr>vp_dtype = dt, vp_kv_dtype = kv, vp_quant = q, vp_eager = False, vp_env = []\<rparr>"

definition older_profile :: vllm_profile where
  "older_profile = (vllm_profile_of ''float16'' ''int8'' [])
     \<lparr>vp_eager := True, vp_env := [(''VLLM_ATTENTION_BACKEND'', ''XFORMERS'')]\<rparr>"

definition vllm_gpu_profiles :: "(string \<times> vllm_profile) list" where
  "vllm_gpu_profiles =
     [(''Tesla T4'', older_profile),
      (''Tesla V100'', older_profile),
      (''NVIDIA A10G'', vllm_profile_of ''bfloat16'' ''auto'' []),
      (''NVIDIA L4'', vllm_profile_of ''bfloat16'' ''auto'' ''fp8''),
      (''NVIDIA L40S'', vllm_profile_of ''bfloat16'' ''auto'' ''fp8''),
      (''NVIDIA A100'', vllm_profile_of ''bfloat16'' ''auto'' []),
      (''NVIDIA H100'', vllm_profile_of ''bfloat16'' ''fp8'' ''fp8''),
      (''NVIDIA H200'', vllm_profile_of ''bfloat16'' ''fp8'' ''fp8''),
      (''NVIDIA GH200'', vllm_profile_of ''bfloat16'' ''fp8'' ''fp8'')]"

definition sizing_of :: "int \<Rightarrow> nat \<Rightarrow> int \<Rightarrow> int \<Rightarrow> int \<Rightarrow> vllm_sizing" where
  "sizing_of g d mml mns mbt = \<lparr>vs_gmu = Dec g d, vs_mml = mml, vs_mns = mns, vs_mbt = mbt\<rparr>"

definition default_sizing :: vllm_sizing where
  "default_sizing = sizing_of 9 1 4096 32 8192"

definition vllm_sizing_table :: "(string \<times> vllm_sizing) list" where
  "vllm_sizing_table =
     [(''Tesla T4'', sizing_of 92 2 4096 16 4096),
      (''Tesla V100'', sizing_of 9 1 3072 12 3072),
      (''NVIDIA A10G'', sizing_of 9 1 8192 32 8192),
      (''NVIDIA L4'', sizing_of 92 2 12288 48 12288),
      (''NVIDIA L40S'', sizing_of 9 1 16384 64 16384),
      (''NVIDIA A100'', sizing_of 92 2 8192 32 8192),
      (''NVIDIA H100'', sizing_of 95 2 65536 512 16384),
      (''NVIDIA H200'', sizing_of 93 2 65536 512 16384),
      (''NVIDIA GH200'', sizing_of 93 2 65536 512 16384),
      (''NVIDIA A10G:4'', sizing_of 9 1 8192 64 16384),
      (''NVIDIA A10G:8'', sizing_of 88 2 16384 128 16384),
      (''NVIDIA L4:4'', sizing_of 92 2 12288 64 16384),
      (''NVIDIA A100:8'', sizing_of 92 2 16384 128 16384),
      (''NVIDIA H100:8'', sizing_of 95 2 65536 512 16384),
      (''NVIDIA H200:8'', sizing_of 93 2 65536 512 16384)]"

definition vllm_sizing_by_vram :: "(string \<times> vllm_sizing) list" where
  "vllm_sizing_by_vram =
     [(''NVIDIA A100:8:40960'', sizing_of 92 2 16384 128 16384),
      (''NVIDIA A100:8:81920'', sizing_of 92 2 32768 256 16384),
      (''NVIDIA A100:1:40960'', sizing_of 92 2 16384 64 16384),
      (''NVIDIA A100:1:81920'', sizing_of 92 2 32768 128 16384)]"

text \<open>
  The size of a deployment: the entry for the exact memory size, else the one for the GPU count,
  else the single-GPU one. \<open>first_some\<close> is the sequence of early returns.
\<close>

fun first_some :: "'a option list \<Rightarrow> 'a option" where
  "first_some [] = None"
| "first_some (Some x # _) = Some x"
| "first_some (None # xs) = first_some xs"

definition vram_key :: "string \<Rightarrow> int \<Rightarrow> 64 word \<Rightarrow> string" where
  "vram_key prefix n vram = prefix @ '':'' @ itoa n @ '':'' @ nat_str (unat vram)"

definition vllm_lookup_sizing :: "gpu_profile \<Rightarrow> int \<Rightarrow> vllm_sizing" where
  "vllm_lookup_sizing gpu numGPUs =
     (case matching_key (sorted_profile_keys vllm_gpu_profiles) (gp_name gpu) of
        None \<Rightarrow> default_sizing
      | Some prefix \<Rightarrow>
          (case first_some
             [if gp_memory_mib gpu > 0 then map_of vllm_sizing_by_vram (vram_key prefix numGPUs (gp_memory_mib gpu)) else None,
              if numGPUs > 1 then map_of vllm_sizing_table (prefix @ '':'' @ itoa numGPUs) else None,
              map_of vllm_sizing_table prefix] of
             Some s \<Rightarrow> s | None \<Rightarrow> default_sizing))"

definition set_nonempty :: "string \<Rightarrow> string \<Rightarrow> engine_config \<Rightarrow> engine_config" where
  "set_nonempty k v cfg = (if v = [] then cfg else cfg(k \<mapsto> SStr v))"

definition vllm_gpu_optimal_config :: "string \<Rightarrow> 64 word \<Rightarrow> int \<Rightarrow> engine_config \<times> env_map" where
  "vllm_gpu_optimal_config name mem numGPUs =
     (if name = [] then
        ([''gpu_memory_utilization'' \<mapsto> SF64 (Dec 9 1), ''max_model_len'' \<mapsto> SInt 4096,
          ''max_num_seqs'' \<mapsto> SInt 32, ''max_num_batched_tokens'' \<mapsto> SInt 8192,
          ''enable_prefix_caching'' \<mapsto> SBool True], Map.empty)
      else
        let (cfg, env) = (case lookup_profile vllm_gpu_profiles name of
               None \<Rightarrow> (Map.empty, Map.empty)
             | Some p \<Rightarrow>
                 ((if vp_eager p then (\<lambda>c. c(''enforce_eager'' \<mapsto> SBool True)) else (\<lambda>c. c))
                    (set_nonempty ''quantization'' (vp_quant p)
                      (set_nonempty ''kv_cache_dtype'' (vp_kv_dtype p)
                        (set_nonempty ''dtype'' (vp_dtype p) Map.empty))),
                  map_of (vp_env p)));
            s = vllm_lookup_sizing \<lparr>gp_name = name, gp_memory_mib = mem, gp_sm_version = sm_for_gpu name\<rparr> numGPUs;
            cfg = cfg(''gpu_memory_utilization'' \<mapsto> SF64 (vs_gmu s), ''max_model_len'' \<mapsto> SInt (vs_mml s),
                      ''max_num_seqs'' \<mapsto> SInt (vs_mns s), ''max_num_batched_tokens'' \<mapsto> SInt (vs_mbt s),
                      ''enable_prefix_caching'' \<mapsto> SBool True);
            cfg = (if numGPUs > 1 then cfg(''tensor_parallel_size'' \<mapsto> SInt numGPUs) else cfg)
        in (cfg, env))"

subsection \<open>Mooncake\<close>

definition mooncake_enabled :: "environment \<Rightarrow> bool" where
  "mooncake_enabled getenv = (getenv ''MOONCAKE_KV_ENABLED'' = ''true'')"

definition mooncake_config_volume :: "environment \<Rightarrow> string" where
  "mooncake_config_volume getenv =
     (let v = getenv ''MOONCAKE_CONFIG_VOLUME'' in if v \<noteq> [] then v else ''mooncake-config'')"

definition mooncake_config_mount_path :: "environment \<Rightarrow> string" where
  "mooncake_config_mount_path getenv =
     (let v = getenv ''MOONCAKE_CONFIG_MOUNT_PATH'' in if v \<noteq> [] then v else ''/etc/mooncake'')"

definition mooncake_entrypoint :: "string list" where
  \<open>mooncake_entrypoint =
     [''/bin/sh'', ''-c'', ''pip install --no-cache-dir mooncake-transfer-engine && exec "$@"'', ''entrypoint'']\<close>

definition apply_mooncake_role ::
  "string \<Rightarrow> environment \<Rightarrow> engine_config \<times> env_map \<times> string list \<Rightarrow> engine_config \<times> env_map \<times> string list" where
  \<open>apply_mooncake_role role getenv st =
     (case st of (cfg, env, cmd) \<Rightarrow>
       (cfg(''enable_prefix_caching'' \<mapsto> SBool True),
        env(''MOONCAKE_CONFIG_PATH'' \<mapsto> mooncake_config_mount_path getenv @ ''/mooncake_config.json'',
            ''PYTHONHASHSEED'' \<mapsto> ''0''),
        cmd @ [''--kv-transfer-config'',
               ''{"kv_connector":"MooncakeStoreConnector","kv_role":"'' @ role @ ''"}'']))\<close>

definition apply_mooncake_flags ::
  "environment \<Rightarrow> engine_config \<times> env_map \<times> string list \<Rightarrow> engine_config \<times> env_map \<times> string list" where
  "apply_mooncake_flags = apply_mooncake_role ''kv_both''"

definition apply_mooncake_prefill_flags ::
  "environment \<Rightarrow> engine_config \<times> env_map \<times> string list \<Rightarrow> engine_config \<times> env_map \<times> string list" where
  "apply_mooncake_prefill_flags = apply_mooncake_role ''kv_producer''"

definition apply_mooncake_decode_flags ::
  "environment \<Rightarrow> engine_config \<times> env_map \<times> string list \<Rightarrow> engine_config \<times> env_map \<times> string list" where
  "apply_mooncake_decode_flags = apply_mooncake_role ''kv_consumer''"

section \<open>vLLM-Omni\<close>

datatype model_family =
    FamilyUnknown | FamilyQwenImage | FamilyQwenImageEdit | FamilyWan | FamilyLTX | FamilyFLUX
  | FamilyHunyuan | FamilyZImage | FamilySDXL

definition detect_family :: "string \<Rightarrow> model_family" where
  "detect_family modelID =
     (let has = contains_str (to_lower modelID)
      in if has ''qwen-image-edit'' \<or> has ''qwen-image-layered'' then FamilyQwenImageEdit
         else if has ''qwen-image'' then FamilyQwenImage
         else if has ''wan-ai/wan'' \<or> has ''wan2.'' then FamilyWan
         else if has ''ltx'' then FamilyLTX
         else if has ''flux'' then FamilyFLUX
         else if has ''hunyuanimage'' \<or> has ''hunyuan-image'' \<or> has ''tencent/hunyuan'' then FamilyHunyuan
         else if has ''z-image'' \<or> has ''tongyi-mai'' then FamilyZImage
         else if has ''stable-diffusion-xl'' \<or> has ''sdxl'' then FamilySDXL
         else FamilyUnknown)"

definition is_ampere_or_newer :: "string \<Rightarrow> bool" where
  "is_ampere_or_newer name =
     list_ex (has_prefix name)
       [''NVIDIA A10'', ''NVIDIA A30'', ''NVIDIA A40'', ''NVIDIA A100'', ''NVIDIA L4'', ''NVIDIA L40'',
        ''NVIDIA H100'', ''NVIDIA H200'', ''NVIDIA GH200'']"

definition is_older_gpu :: "string \<Rightarrow> bool" where
  "is_older_gpu name = list_ex (has_prefix name) [''Tesla T4'', ''Tesla V100'', ''NVIDIA V100'']"

definition gpu_mem_util :: "string \<Rightarrow> f64" where
  "gpu_mem_util name =
     (if list_ex (has_prefix name) [''NVIDIA H100'', ''NVIDIA H200'', ''NVIDIA GH200''] then Dec 95 2
      else if list_ex (has_prefix name) [''NVIDIA A100'', ''NVIDIA L4'', ''NVIDIA L40S''] then Dec 92 2
      else Dec 9 1)"

definition apply_family_defaults :: "model_family \<Rightarrow> bool \<Rightarrow> 64 word \<Rightarrow> engine_config \<Rightarrow> engine_config" where
  "apply_family_defaults family ampere totalVRAM cfg =
     (case family of
        FamilyQwenImage \<Rightarrow>
          if ampere \<or> totalVRAM < 49152
          then cfg(''quantization'' \<mapsto> SStr ''fp8'', ''ignored_layers'' \<mapsto> SStr ''img_mlp'') else cfg
      | FamilyQwenImageEdit \<Rightarrow> if ampere then cfg(''quantization'' \<mapsto> SStr ''fp8'') else cfg
      | FamilyFLUX \<Rightarrow> if ampere then cfg(''quantization'' \<mapsto> SStr ''fp8'') else cfg
      | FamilyHunyuan \<Rightarrow> if ampere then cfg(''quantization'' \<mapsto> SStr ''fp8'') else cfg
      | FamilyZImage \<Rightarrow> if ampere then cfg(''quantization'' \<mapsto> SStr ''fp8'') else cfg
      | FamilyWan \<Rightarrow> cfg(''enforce_eager'' \<mapsto> SBool True)
      | FamilyLTX \<Rightarrow> cfg(''enforce_eager'' \<mapsto> SBool True, ''cache_backend'' \<mapsto> SStr ''cache_dit'')
      | _ \<Rightarrow> cfg)"

definition omni_defaults :: "string \<Rightarrow> 64 word \<Rightarrow> int \<Rightarrow> string \<Rightarrow> engine_config \<times> env_map" where
  "omni_defaults gpuName mem numGPUs modelID =
     (let cfg = [''dtype'' \<mapsto> SStr (if is_older_gpu gpuName then ''float16'' else ''bfloat16''),
                 ''gpu_memory_utilization'' \<mapsto> SF64 (gpu_mem_util gpuName)];
          cfg = (if numGPUs > 1 then cfg(''tensor_parallel_size'' \<mapsto> SInt numGPUs) else cfg)
      in (apply_family_defaults (detect_family modelID) (is_ampere_or_newer gpuName)
            (mem * of_int numGPUs) cfg, Map.empty))"

section \<open>SGLang\<close>

record sglang_profile =
  sp_dtype :: string
  sp_kv_dtype :: string
  sp_attention_backend :: string
  sp_sampling_backend :: string
  sp_quant :: string

record sglang_sizing =
  sz_mem_fraction :: f64
  sz_chunked_prefill :: int

definition sglang_profile_of :: "string \<Rightarrow> string \<Rightarrow> string \<Rightarrow> string \<Rightarrow> string \<Rightarrow> sglang_profile" where
  "sglang_profile_of dt kv ab sb q =
     \<lparr>sp_dtype = dt, sp_kv_dtype = kv, sp_attention_backend = ab, sp_sampling_backend = sb, sp_quant = q\<rparr>"

definition sglang_gpu_profiles :: "(string \<times> sglang_profile) list" where
  "sglang_gpu_profiles =
     [(''Tesla T4'', sglang_profile_of ''float16'' ''auto'' ''triton'' ''pytorch'' []),
      (''Tesla V100'', sglang_profile_of ''float16'' ''auto'' ''triton'' ''pytorch'' []),
      (''NVIDIA A10G'', sglang_profile_of ''bfloat16'' ''auto'' [] [] []),
      (''NVIDIA L4'', sglang_profile_of ''bfloat16'' ''fp8_e4m3'' [] [] ''fp8''),
      (''NVIDIA L40S'', sglang_profile_of ''bfloat16'' ''fp8_e4m3'' [] [] ''fp8''),
      (''NVIDIA A100'', sglang_profile_of ''bfloat16'' ''fp8_e4m3'' [] [] []),
      (''NVIDIA H100'', sglang_profile_of ''bfloat16'' ''fp8_e4m3'' [] [] ''fp8''),
      (''NVIDIA H200'', sglang_profile_of ''bfloat16'' ''fp8_e4m3'' [] [] ''fp8''),
      (''NVIDIA GH200'', sglang_profile_of ''bfloat16'' ''fp8_e4m3'' [] [] ''fp8'')]"

definition sglang_sizing_of :: "int \<Rightarrow> nat \<Rightarrow> int \<Rightarrow> sglang_sizing" where
  "sglang_sizing_of m d c = \<lparr>sz_mem_fraction = Dec m d, sz_chunked_prefill = c\<rparr>"

definition sglang_sizing_table :: "(string \<times> sglang_sizing) list" where
  "sglang_sizing_table =
     [(''Tesla T4'', sglang_sizing_of 88 2 4096), (''Tesla V100'', sglang_sizing_of 88 2 3072),
      (''NVIDIA A10G'', sglang_sizing_of 9 1 8192), (''NVIDIA L4'', sglang_sizing_of 92 2 8192),
      (''NVIDIA L40S'', sglang_sizing_of 9 1 8192), (''NVIDIA A100'', sglang_sizing_of 9 1 8192),
      (''NVIDIA H100'', sglang_sizing_of 92 2 8192), (''NVIDIA H200'', sglang_sizing_of 93 2 8192),
      (''NVIDIA GH200'', sglang_sizing_of 93 2 8192)]"

definition sglang_sizing_by_vram :: "(string \<times> sglang_sizing) list" where
  "sglang_sizing_by_vram =
     [(''NVIDIA A100:1:40960'', sglang_sizing_of 88 2 8192), (''NVIDIA A100:1:81920'', sglang_sizing_of 9 1 8192)]"

definition sglang_lookup_sizing :: "gpu_profile \<Rightarrow> int \<Rightarrow> sglang_sizing" where
  "sglang_lookup_sizing gpu numGPUs =
     (case matching_key (sorted_profile_keys sglang_gpu_profiles) (gp_name gpu) of
        None \<Rightarrow> sglang_sizing_of 9 1 8192
      | Some prefix \<Rightarrow>
          (case first_some
             [if gp_memory_mib gpu > 0 then map_of sglang_sizing_by_vram (vram_key prefix numGPUs (gp_memory_mib gpu)) else None,
              map_of sglang_sizing_table prefix] of
             Some s \<Rightarrow> s | None \<Rightarrow> sglang_sizing_of 9 1 8192))"

definition sglang_gpu_optimal_config :: "string \<Rightarrow> 64 word \<Rightarrow> int \<Rightarrow> engine_config \<times> env_map" where
  "sglang_gpu_optimal_config name mem numGPUs =
     (if name = [] then
        ([''mem_fraction_static'' \<mapsto> SF64 (Dec 9 1), ''chunked_prefill_size'' \<mapsto> SInt 8192,
          ''enable_prefix_caching'' \<mapsto> SBool True], Map.empty)
      else
        let cfg = (case lookup_profile sglang_gpu_profiles name of
               None \<Rightarrow> Map.empty
             | Some p \<Rightarrow>
                 set_nonempty ''quantization'' (sp_quant p)
                   (set_nonempty ''sampling_backend'' (sp_sampling_backend p)
                     (set_nonempty ''attention_backend'' (sp_attention_backend p)
                       (set_nonempty ''kv_cache_dtype'' (sp_kv_dtype p)
                         (set_nonempty ''dtype'' (sp_dtype p) Map.empty)))));
            s = sglang_lookup_sizing \<lparr>gp_name = name, gp_memory_mib = mem, gp_sm_version = sm_for_gpu name\<rparr> numGPUs;
            cfg = cfg(''mem_fraction_static'' \<mapsto> SF64 (sz_mem_fraction s),
                      ''chunked_prefill_size'' \<mapsto> SInt (sz_chunked_prefill s),
                      ''enable_prefix_caching'' \<mapsto> SBool True);
            cfg = (if numGPUs > 1 then cfg(''tensor_parallel_size'' \<mapsto> SInt numGPUs) else cfg)
        in (cfg, Map.empty))"

definition forward_env_vars :: "environment \<Rightarrow> string list \<Rightarrow> env_map \<Rightarrow> env_map" where
  "forward_env_vars getenv ks dst = fold (\<lambda>k m. if getenv k \<noteq> [] then m(k \<mapsto> getenv k) else m) ks dst"

definition apply_sglang_mooncake ::
  "string \<Rightarrow> string list \<Rightarrow> environment \<Rightarrow> engine_config \<times> env_map \<times> string list \<Rightarrow> engine_config \<times> env_map \<times> string list" where
  "apply_sglang_mooncake mode vars getenv st =
     (case st of (cfg, env, cmd) \<Rightarrow>
       (cfg(''enable_prefix_caching'' \<mapsto> SBool True),
        forward_env_vars getenv vars (env(''PYTHONHASHSEED'' \<mapsto> ''0'')),
        cmd @ [''--disaggregation-mode'', mode] @
        (let dev = getenv ''SGLANG_DISAGG_IB_DEVICE''
         in if dev \<noteq> [] then [''--disaggregation-ib-device'', dev] else [])))"

definition apply_sglang_prefill_flags ::
  "environment \<Rightarrow> engine_config \<times> env_map \<times> string list \<Rightarrow> engine_config \<times> env_map \<times> string list" where
  "apply_sglang_prefill_flags = apply_sglang_mooncake ''prefill''
     [''SGLANG_MOONCAKE_CUSTOM_MEM_POOL'', ''MC_INTRANODE_NVLINK'', ''MC_FORCE_MNNVL'',
      ''SGLANG_DISAGGREGATION_THREAD_POOL_SIZE'', ''SGLANG_DISAGGREGATION_QUEUE_SIZE'',
      ''SGLANG_DISAGGREGATION_BOOTSTRAP_TIMEOUT'']"

definition apply_sglang_decode_flags ::
  "environment \<Rightarrow> engine_config \<times> env_map \<times> string list \<Rightarrow> engine_config \<times> env_map \<times> string list" where
  "apply_sglang_decode_flags = apply_sglang_mooncake ''decode''
     [''SGLANG_MOONCAKE_CUSTOM_MEM_POOL'', ''MC_INTRANODE_NVLINK'', ''MC_FORCE_MNNVL'',
      ''SGLANG_DISAGGREGATION_HEARTBEAT_INTERVAL'', ''SGLANG_DISAGGREGATION_HEARTBEAT_MAX_FAILURE'',
      ''SGLANG_DISAGGREGATION_WAITING_TIMEOUT'']"

section \<open>What the defaults promise\<close>

lemma first_some_in: "first_some xs = Some x \<Longrightarrow> Some x \<in> set xs"
  by (induction xs rule: first_some.induct) auto

lemma vllm_tables_mbt:
  "(k, s) \<in> set (vllm_sizing_table @ vllm_sizing_by_vram) \<Longrightarrow> 0 < vs_mbt s \<and> vs_mbt s \<le> 16384"
  by (auto simp: vllm_sizing_table_def vllm_sizing_by_vram_def sizing_of_def)

lemma vllm_lookup_sizing_mbt:
  "0 < vs_mbt (vllm_lookup_sizing gpu n) \<and> vs_mbt (vllm_lookup_sizing gpu n) \<le> 16384"
proof -
  have d: "vs_mbt default_sizing = 8192" by (simp add: default_sizing_def sizing_of_def)
  have tab: "Some s = map_of t k \<Longrightarrow> t = vllm_sizing_table \<or> t = vllm_sizing_by_vram \<Longrightarrow>
      0 < vs_mbt s \<and> vs_mbt s \<le> 16384" for t k s
    using vllm_tables_mbt [of k s] map_of_SomeD [of t k s] by auto
  have in_tables: "0 < vs_mbt s \<and> vs_mbt s \<le> 16384"
    if "first_some [if b then map_of vllm_sizing_by_vram k1 else None,
          if b' then map_of vllm_sizing_table k2 else None, map_of vllm_sizing_table k3] = Some s" for b b' k1 k2 k3 s
    using first_some_in [OF that] by (auto dest: tab split: if_splits)
  then show ?thesis
    unfolding vllm_lookup_sizing_def by (auto simp: d in_tables [THEN conjunct1] in_tables [THEN conjunct2] simp del: first_some.simps
        split: option.split split del: if_split)
qed

text \<open>
  (bounds). For every GPU name, memory size and count the vLLM defaults set a positive
  max_num_batched_tokens of at most 16384, and prefix caching is always on.
\<close>

theorem vllm_batched_tokens_capped:
  "\<exists>n. fst (vllm_gpu_optimal_config name mem numGPUs) ''max_num_batched_tokens'' = Some (SInt n) \<and>
     0 < n \<and> n \<le> 16384 \<and>
   is_true (fst (vllm_gpu_optimal_config name mem numGPUs) ''enable_prefix_caching'')"
  using vllm_lookup_sizing_mbt
  by (auto simp: vllm_gpu_optimal_config_def is_true_def Let_def split: option.splits)

text \<open>
  (functional). The profile chosen for a GPU does not depend on the order in which the keys of
  equal length come out of the Go map: whatever the order, it is the longest key that is a prefix
  of the name, and none when no key is.
\<close>

theorem profile_is_longest_prefix:
  assumes "profile_order ks" and "set ks = fst ` set t"
  shows "matching_key ks name = matching_key (sorted_profile_keys t) name \<and>
    (case matching_key ks name of
       None \<Rightarrow> \<forall>k \<in> fst ` set t. \<not> has_prefix name k
     | Some m \<Rightarrow> m \<in> fst ` set t \<and> has_prefix name m \<and>
         (\<forall>k \<in> fst ` set t. has_prefix name k \<longrightarrow> length k \<le> length m))"
proof
  show "matching_key ks name = matching_key (sorted_profile_keys t) name"
    using assms by (intro matching_key_order_irrelevant sorted_profile_keys_order) simp_all
  show "case matching_key ks name of
       None \<Rightarrow> \<forall>k \<in> fst ` set t. \<not> has_prefix name k
     | Some m \<Rightarrow> m \<in> fst ` set t \<and> has_prefix name m \<and>
         (\<forall>k \<in> fst ` set t. has_prefix name k \<longrightarrow> length k \<le> length m)"
  proof (cases "matching_key ks name")
    case None
    with assms(2) matching_key_None [of ks name] show ?thesis by simp
  next
    case (Some m)
    have "length k \<le> length m" if "k \<in> set ks" "has_prefix name k" for k
      using find_longest [OF assms(1) that] Some by auto
    with Some matching_key_Some [OF Some] assms(2) show ?thesis by auto
  qed
qed

theorem profile_is_longest_prefix_witness:
  "matching_key [''NVIDIA GH200'', ''NVIDIA H200'', ''NVIDIA H100'', ''NVIDIA A100'', ''NVIDIA L40S'',
                 ''NVIDIA A10G'', ''Tesla V100'', ''NVIDIA L4'', ''Tesla T4''] ''NVIDIA L40S-48Q'' =
     matching_key (sorted_profile_keys vllm_gpu_profiles) ''NVIDIA L40S-48Q''"
  by (rule profile_is_longest_prefix [THEN conjunct1])
    (simp add: profile_order_def, auto simp: vllm_gpu_profiles_def)

end
