(* ===== verification/Recipes.thy ===== *)
theory Recipes imports Plans GPU_Profiles begin

text \<open>
  The recipes (internal/runtime/recipes): what the worker checks of a request, and the container
  each engine is started with. A recipe that is refused returns the error, \<open>Inl\<close>. The contract the
  dispatcher and the runtime rely on is the locale \<open>recipe\<close>; every registered recipe provides it.
\<close>

section \<open>Input checks\<close>

definition scheme_char :: "char \<Rightarrow> bool" where
  "scheme_char c \<longleftrightarrow> is_lower_alpha c \<or> is_digit c \<or> c \<in> {CHR ''+'', CHR ''-'', CHR ''.''}"

definition uri_char :: "char \<Rightarrow> bool" where
  "uri_char c \<longleftrightarrow> 32 \<le> (of_char c :: nat) \<and>
     c \<notin> {CHR 0x60, CHR ''$'', CHR '';'', CHR ''|'', CHR ''&'', CHR ''>'', CHR ''<'', CHR ''('', CHR '')''}"

text \<open>
  \<open>uriPattern\<close>: the scheme class has no colon, so a match must split the text at its first
  \<open>://\<close>.
\<close>

definition uri_pattern :: "string \<Rightarrow> bool" where
  "uri_pattern uri =
     (case str_index uri ''://'' of
        None \<Rightarrow> False
      | Some i \<Rightarrow> (case take i uri of [] \<Rightarrow> False | c # cs \<Rightarrow> is_lower_alpha c \<and> list_all scheme_char cs) \<and>
          drop (i + 3) uri \<noteq> [] \<and> list_all uri_char (drop (i + 3) uri))"

definition allowed_uri_schemes :: "string list" where
  "allowed_uri_schemes = [''s3'', ''gs'', ''hf'', ''http'', ''https'', ''oci'']"

definition uri_scheme :: "string \<Rightarrow> string" where
  "uri_scheme uri = (case str_index uri ''://'' of None \<Rightarrow> uri | Some i \<Rightarrow> take i uri)"

definition validate_artifact_uri :: "string \<Rightarrow> go_error option" where
  "validate_artifact_uri uri =
     (if uri = [] \<or> trim_space uri = [] then Some (Errorf ''artifact URI required'' [])
      else if \<not> uri_pattern uri then
        Some (Errorf ''artifact URI contains invalid characters: %q'' [FStr uri])
      else if to_lower (uri_scheme uri) \<notin> set allowed_uri_schemes then
        Some (Errorf ''artifact URI scheme %q not allowed'' [FStr (uri_scheme uri)])
      else None)"

definition max_config_keys :: nat where "max_config_keys = 64"
definition max_config_key :: nat where "max_config_key = 128"

definition validate_input :: "build_input \<Rightarrow> go_error option" where
  "validate_input i =
     (if bi_deployment_id i = [] then Some (Errorf ''DeploymentID is required'' [])
      else case validate_artifact_uri (bi_artifact_uri i) of
        Some e \<Rightarrow> Some e
      | None \<Rightarrow>
        (case find (\<lambda>g. g < 0) (bi_gpu_indices i) of
           Some g \<Rightarrow> Some (Errorf (''GPU index must be '' @ [CHR 0xE2, CHR 0x89, CHR 0xA5] @ '' 0, got %d'') [FInt g])
         | None \<Rightarrow>
           if bi_host_port i < 1 \<or> bi_host_port i > 65535 then
             Some (Errorf ''HostPort %d out of range [1, 65535]'' [FInt (bi_host_port i)])
           else if length (bi_config i) > max_config_keys then
             Some (Errorf ''config has %d keys, max %d'' [FInt (int (length (bi_config i))), FInt (int max_config_keys)])
           else (case find (\<lambda>(k, _). length k > max_config_key) (bi_config i) of
                   Some (k, _) \<Rightarrow>
                     Some (Errorf ''config key length %d exceeds max %d'' [FInt (int (length k)), FInt (int max_config_key)])
                 | None \<Rightarrow> None)))"

definition require_gpu :: "build_input \<Rightarrow> go_error option" where
  "require_gpu i =
     (if bi_gpu_indices i = [] then Some (Errorf ''at least one GPU index is required'' []) else None)"

definition strip_scheme :: "string \<Rightarrow> string" where
  "strip_scheme uri = (case str_index uri ''://'' of None \<Rightarrow> uri | Some i \<Rightarrow> drop (i + 3) uri)"

section \<open>Configuration, names and flags\<close>

definition allowed_config_keys :: "string list" where
  "allowed_config_keys =
     [''tensor_parallel_size'', ''pipeline_parallel_size'', ''dtype'', ''max_model_len'', ''max_num_seqs'',
      ''gpu_memory_utilization'', ''quantization'', ''enforce_eager'', ''trust_remote_code'', ''max_batch_size'',
      ''max_input_length'', ''max_total_tokens'',
      ''attention_backend'', ''sampling_backend'', ''mem_fraction_static'', ''chunked_prefill_size'',
      ''max_running_requests'',
      ''model_type'', ''model_offload'', ''group_offload'',
      ''vae_use_slicing'', ''vae_use_tiling'', ''vae_patch_parallel_size'', ''usp'', ''ring'', ''use_hsdp'',
      ''hsdp_shard_size'', ''flow_shift'', ''boundary_ratio'', ''cache_backend'', ''ignored_layers'']"

fun kept_entry :: "string \<times> go_any \<Rightarrow> bool" where
  "kept_entry (k, AScalar v) = (k \<in> set allowed_config_keys)"
| "kept_entry (k, _) = False"

fun scalar_of :: "go_any \<Rightarrow> scalar option" where
  "scalar_of (AScalar v) = Some v"
| "scalar_of _ = None"

definition sanitise_config :: "(string \<times> go_any) list \<Rightarrow> engine_config" where
  "sanitise_config cfg = (\<lambda>k. case map_of (filter kept_entry cfg) k of Some v \<Rightarrow> scalar_of v | None \<Rightarrow> None)"

fun safe_name :: "string \<Rightarrow> string" where
  "safe_name [] = []"
| "safe_name [c] = (if c = CHR ''/'' \<or> c = CHR '':'' then ''-'' else [c])"
| "safe_name (c # d # cs) =
     (if c = CHR ''/'' \<or> c = CHR '':'' then CHR ''-'' # safe_name (d # cs)
      else if c = CHR ''.'' \<and> d = CHR ''.'' then CHR ''-'' # safe_name cs
      else c # safe_name (d # cs))"

definition container_name :: "string \<Rightarrow> string \<Rightarrow> string" where
  "container_name prefix deploymentID = prefix @ ''-'' @ safe_name deploymentID"

fun cli_arg :: "scalar \<Rightarrow> string" where
  "cli_arg (SStr s) = s"
| "cli_arg (SBool b) = (if b then ''true'' else ''false'')"
| "cli_arg (SInt i) = itoa i"
| "cli_arg (SInt32 i) = itoa i"
| "cli_arg (SInt64 i) = itoa i"
| "cli_arg (SF32 x) = format_f64 x"
| "cli_arg (SF64 x) = format_f64 x"

definition dashed :: "string \<Rightarrow> string" where
  "dashed k = ''--'' @ map (\<lambda>c. if c = CHR ''_'' then CHR ''-'' else c) k"

definition config_flags :: "string list \<Rightarrow> engine_config \<Rightarrow> string list" where
  "config_flags ks cfg = concat (map (\<lambda>k. case cfg k of Some v \<Rightarrow> [dashed k, cli_arg v] | None \<Rightarrow> []) ks)"

definition bool_flag :: "string \<Rightarrow> string \<Rightarrow> engine_config \<Rightarrow> string list" where
  "bool_flag k flag cfg = (if is_true (cfg k) then [flag] else [])"

text \<open>Defaults fill in the keys the user left out.\<close>

definition fill_defaults :: "engine_config \<Rightarrow> engine_config \<Rightarrow> engine_config" where
  "fill_defaults cfg defaults = defaults ++ cfg"

definition merge_env :: "env_map \<Rightarrow> env_map \<Rightarrow> env_map" where
  "merge_env user defaults = defaults ++ user"

text \<open>An early return of the first error.\<close>

definition unless_error :: "go_error option \<Rightarrow> (go_error + 'a) \<Rightarrow> go_error + 'a" where
  "unless_error e k = (case e of Some err \<Rightarrow> Inl err | None \<Rightarrow> k)"

lemma unless_error_simps [simp]:
  "unless_error None k = k" "unless_error (Some e) k = Inl e"
  by (simp_all add: unless_error_def)

lemma unless_error_Inr: "unless_error e k = Inr p \<longleftrightarrow> e = None \<and> k = Inr p"
  by (cases e) simp_all

section \<open>The recipes\<close>

record engine_image =
  ei_image :: string
  ei_port :: int
  ei_ready_path :: string

definition engine :: "string \<Rightarrow> int \<Rightarrow> string \<Rightarrow> engine_image" where
  "engine img port ready = \<lparr>ei_image = img, ei_port = port, ei_ready_path = ready\<rparr>"

definition gib :: int where "gib = 1024 * 1024 * 1024"

definition sglang_shm_size :: int where "sglang_shm_size = 32 * gib"

text \<open>The fields every recipe fills the same way.\<close>

definition base_plan :: "engine_image \<Rightarrow> string \<Rightarrow> build_input \<Rightarrow> string list \<Rightarrow> env_map \<Rightarrow> plan" where
  "base_plan r prefix i cmd env =
     \<lparr>pl_image = ei_image r, pl_container_name = container_name prefix (bi_deployment_id i), pl_cmd = cmd,
      pl_entrypoint = [], pl_env = env, pl_mounts = [], pl_container_port = ei_port r,
      pl_host_port = bi_host_port i, pl_gpu_indices = bi_gpu_indices i, pl_shm_size = 0,
      pl_ready_path = ei_ready_path r, pl_readiness_timeout = 0\<rparr>"

definition mooncake_mount :: "environment \<Rightarrow> mount" where
  "mooncake_mount getenv =
     \<lparr>mnt_type = ''volume'', mnt_source = mooncake_config_volume getenv,
      mnt_target = mooncake_config_mount_path getenv, mnt_read_only = True\<rparr>"

definition vllm_flag_keys :: "string list" where
  "vllm_flag_keys =
     [''tensor_parallel_size'', ''pipeline_parallel_size'', ''dtype'', ''max_model_len'', ''max_num_seqs'',
      ''gpu_memory_utilization'', ''quantization'', ''max_batch_size'', ''max_input_length'', ''max_total_tokens'',
      ''kv_cache_dtype'', ''max_num_batched_tokens'']"

definition vllm_config :: "build_input \<Rightarrow> engine_config \<times> env_map" where
  "vllm_config i =
     (let (gpuCfg, gpuEnv) = vllm_gpu_optimal_config (bi_gpu_name i) (bi_gpu_memory_mib i) (int (length (bi_gpu_indices i)))
      in (fill_defaults (sanitise_config (bi_config i)) gpuCfg,
          ([''CUDA_MODULE_LOADING'' \<mapsto> ''LAZY''] ++ gpuEnv)
            (''LD_LIBRARY_PATH'' \<mapsto> ''/usr/lib/x86_64-linux-gnu:/usr/local/nvidia/lib64:/usr/local/cuda/lib64'')))"

definition vllm_base_cmd :: "engine_image \<Rightarrow> build_input \<Rightarrow> engine_config \<Rightarrow> string list" where
  "vllm_base_cmd r i cfg =
     (let model = strip_scheme (bi_artifact_uri i)
      in [model, ''--served-model-name'', model, ''--host'', ''0.0.0.0'', ''--port'', itoa (ei_port r)] @
         config_flags vllm_flag_keys cfg @
         bool_flag ''enforce_eager'' ''--enforce-eager'' cfg @
         bool_flag ''enable_prefix_caching'' ''--enable-prefix-caching'' cfg @
         bool_flag ''trust_remote_code'' ''--trust-remote-code'' cfg)"

definition vllm_build_plan :: "engine_image \<Rightarrow> environment \<Rightarrow> build_input \<Rightarrow> go_error + plan" where
  "vllm_build_plan r getenv i =
     unless_error (validate_input i) (unless_error (require_gpu i)
       (let (cfg, envDefaults) = vllm_config i; cmd = vllm_base_cmd r i cfg
        in if mooncake_enabled getenv then
             (let (_, envDefaults, cmd) = apply_mooncake_flags getenv (cfg, envDefaults, cmd)
              in Inr ((base_plan r ''inferia-vllm'' i cmd (merge_env (bi_env i) envDefaults))
                   \<lparr>pl_mounts := [mooncake_mount getenv], pl_entrypoint := mooncake_entrypoint\<rparr>))
           else Inr (base_plan r ''inferia-vllm'' i cmd (merge_env (bi_env i) envDefaults))))"

definition omni_flag_keys :: "string list" where
  "omni_flag_keys =
     [''tensor_parallel_size'', ''pipeline_parallel_size'', ''dtype'', ''gpu_memory_utilization'', ''quantization'',
      ''ignored_layers'', ''usp'', ''ring'', ''vae_patch_parallel_size'', ''hsdp_shard_size'', ''flow_shift'',
      ''boundary_ratio'', ''cache_backend'']"

text \<open>A flag whose value is the string \<open>none\<close> is left out.\<close>

definition drop_none :: "engine_config \<Rightarrow> engine_config" where
  "drop_none cfg = (\<lambda>k. if cfg k = Some (SStr ''none'') then None else cfg k)"

definition omni_build_plan :: "engine_image \<Rightarrow> environment \<Rightarrow> build_input \<Rightarrow> go_error + plan" where
  "omni_build_plan r getenv i =
     unless_error (validate_input i) (unless_error (require_gpu i)
       (let model = strip_scheme (bi_artifact_uri i);
            (defaults, envDefaults) = omni_defaults (bi_gpu_name i) (bi_gpu_memory_mib i) (int (length (bi_gpu_indices i))) model;
            cfg = fill_defaults (sanitise_config (bi_config i)) defaults;
            cmd = [''vllm'', ''serve'', model, ''--omni'', ''--served-model-name'', model, ''--host'', ''0.0.0.0'',
                   ''--port'', itoa (ei_port r)] @
                  config_flags omni_flag_keys (drop_none cfg) @
                  bool_flag ''enforce_eager'' ''--enforce-eager'' cfg @
                  bool_flag ''vae_use_slicing'' ''--vae-use-slicing'' cfg @
                  bool_flag ''vae_use_tiling'' ''--vae-use-tiling'' cfg @
                  bool_flag ''use_hsdp'' ''--use-hsdp'' cfg @
                  bool_flag ''trust_remote_code'' ''--trust-remote-code'' cfg
        in Inr (base_plan r ''inferia-vllm-omni'' i cmd
             (merge_env (bi_env i) (envDefaults(''CUDA_MODULE_LOADING'' \<mapsto> ''LAZY''))))))"

definition sglang_flag_keys :: "string list" where
  "sglang_flag_keys =
     [''tensor_parallel_size'', ''dtype'', ''kv_cache_dtype'', ''attention_backend'', ''sampling_backend'',
      ''mem_fraction_static'', ''chunked_prefill_size'', ''quantization'', ''max_model_len'', ''max_running_requests'',
      ''max_total_tokens'']"

definition sglang_config :: "build_input \<Rightarrow> engine_config \<times> env_map" where
  "sglang_config i =
     (let (gpuCfg, gpuEnv) = sglang_gpu_optimal_config (bi_gpu_name i) (bi_gpu_memory_mib i) (int (length (bi_gpu_indices i)))
      in (fill_defaults (sanitise_config (bi_config i)) gpuCfg, gpuEnv))"

definition sglang_base_cmd :: "engine_image \<Rightarrow> build_input \<Rightarrow> engine_config \<Rightarrow> string list" where
  "sglang_base_cmd r i cfg =
     [''python3'', ''-m'', ''sglang.launch_server'', ''--model-path'', strip_scheme (bi_artifact_uri i),
      ''--host'', ''0.0.0.0'', ''--port'', itoa (ei_port r)] @
     config_flags sglang_flag_keys cfg @
     bool_flag ''enable_prefix_caching'' ''--enable-prefix-caching'' cfg @
     bool_flag ''trust_remote_code'' ''--trust-remote-code'' cfg"

definition sglang_build_plan :: "engine_image \<Rightarrow> environment \<Rightarrow> build_input \<Rightarrow> go_error + plan" where
  "sglang_build_plan r getenv i =
     unless_error (validate_input i) (unless_error (require_gpu i)
       (let (cfg, envDefaults) = sglang_config i; cmd = sglang_base_cmd r i cfg
        in if mooncake_enabled getenv then
             (let (_, envDefaults, cmd) = apply_sglang_prefill_flags getenv (cfg, envDefaults, cmd)
              in Inr ((base_plan r ''inferia-sglang'' i cmd (merge_env (bi_env i) envDefaults))
                   \<lparr>pl_entrypoint := mooncake_entrypoint, pl_shm_size := sglang_shm_size\<rparr>))
           else Inr ((base_plan r ''inferia-sglang'' i cmd (merge_env (bi_env i) envDefaults))
                   \<lparr>pl_shm_size := sglang_shm_size\<rparr>)))"

definition ollama_build_plan :: "engine_image \<Rightarrow> environment \<Rightarrow> build_input \<Rightarrow> go_error + plan" where
  "ollama_build_plan r getenv i =
     unless_error (validate_input i)
       (Inr (base_plan r ''inferia-ollama'' i [''serve'']
          (merge_env (bi_env i) [''OLLAMA_HOST'' \<mapsto> ''0.0.0.0:11434'',
             ''INFERIA_OLLAMA_MODEL'' \<mapsto> strip_scheme (bi_artifact_uri i)])))"

definition infinity_build_plan :: "engine_image \<Rightarrow> environment \<Rightarrow> build_input \<Rightarrow> go_error + plan" where
  "infinity_build_plan r getenv i =
     unless_error (validate_input i)
       (let cfg = sanitise_config (bi_config i);
            cmd = [''v2'', ''--model-id'', strip_scheme (bi_artifact_uri i), ''--port'', ''7997'', ''--host'', ''0.0.0.0''] @
                  (case cfg ''max_batch_size'' of Some v \<Rightarrow> [''--batch-size'', cli_arg v] | None \<Rightarrow> []) @
                  (case cfg ''dtype'' of Some v \<Rightarrow> [''--dtype'', cli_arg v] | None \<Rightarrow> [])
        in Inr (base_plan r ''inferia-infinity'' i cmd (merge_env (bi_env i) Map.empty)))"

definition triton_build_plan :: "engine_image \<Rightarrow> environment \<Rightarrow> build_input \<Rightarrow> go_error + plan" where
  "triton_build_plan r getenv i =
     unless_error (validate_input i) (unless_error (require_gpu i)
       (Inr (base_plan r ''inferia-triton'' i
          [''tritonserver'', ''--model-repository=/models'', ''--allow-http=true'', ''--http-port=8000'']
          (merge_env (bi_env i) Map.empty))))"

definition diffusion_readiness_timeout :: int where
  "diffusion_readiness_timeout = 1800 * 1000000000"

definition diffusion_build_plan :: "engine_image \<Rightarrow> environment \<Rightarrow> build_input \<Rightarrow> go_error + plan" where
  "diffusion_build_plan r getenv i =
     unless_error (validate_input i) (unless_error (require_gpu i)
       (let cfg = sanitise_config (bi_config i);
            cmd = [''inferiadiffusion'', ''serve'', ''--model'', strip_scheme (bi_artifact_uri i), ''--host'', ''0.0.0.0'',
                   ''--port'', itoa (ei_port r)] @
                  (if cfg ''model_type'' \<in> {Some (SStr ''image_generation''), Some (SStr ''image'')}
                   then [''--model-type'', ''image'']
                   else if cfg ''model_type'' \<in> {Some (SStr ''video_generation''), Some (SStr ''video'')}
                   then [''--model-type'', ''video''] else []) @
                  bool_flag ''trust_remote_code'' ''--trust-remote-code'' cfg @
                  bool_flag ''model_offload'' ''--model-offload'' cfg @
                  bool_flag ''group_offload'' ''--group-offload'' cfg
        in Inr ((base_plan r ''inferia-diff'' i cmd (merge_env (bi_env i) Map.empty))
             \<lparr>pl_readiness_timeout := diffusion_readiness_timeout\<rparr>)))"

definition vllm_engine :: engine_image where
  "vllm_engine = engine ''docker.io/vllm/vllm-openai:v0.22.1'' 8000 ''/health''"
definition omni_engine :: engine_image where
  "omni_engine = engine ''docker.io/vllm/vllm-omni:latest'' 8091 ''/health''"
definition sglang_engine :: engine_image where
  "sglang_engine = engine ''lmsysorg/sglang:latest-runtime'' 30000 ''/health''"
definition ollama_engine :: engine_image where
  "ollama_engine = engine ''docker.io/ollama/ollama:latest'' 11434 ''/''"
definition infinity_engine :: engine_image where
  "infinity_engine = engine ''michaelf34/infinity:latest'' 7997 ''/health''"
definition triton_engine :: engine_image where
  "triton_engine = engine ''nvcr.io/nvidia/tritonserver:latest'' 8000 ''/v2/health/ready''"
definition diffusion_engine :: engine_image where
  "diffusion_engine = engine ''docker.io/inferiaai/inferiadiffusion:latest'' 8000 ''/health''"

lemmas engine_defs = vllm_engine_def omni_engine_def sglang_engine_def ollama_engine_def
  infinity_engine_def triton_engine_def diffusion_engine_def engine_def

datatype recipe_kind =
    VllmRecipe engine_image | VllmOmniRecipe engine_image | SglangRecipe engine_image | OllamaRecipe engine_image
  | InfinityRecipe engine_image | TritonRecipe engine_image | DiffusionRecipe engine_image

fun build_plan :: "environment \<Rightarrow> recipe_kind \<Rightarrow> build_input \<Rightarrow> go_error + plan" where
  "build_plan getenv (VllmRecipe r) i = vllm_build_plan r getenv i"
| "build_plan getenv (VllmOmniRecipe r) i = omni_build_plan r getenv i"
| "build_plan getenv (SglangRecipe r) i = sglang_build_plan r getenv i"
| "build_plan getenv (OllamaRecipe r) i = ollama_build_plan r getenv i"
| "build_plan getenv (InfinityRecipe r) i = infinity_build_plan r getenv i"
| "build_plan getenv (TritonRecipe r) i = triton_build_plan r getenv i"
| "build_plan getenv (DiffusionRecipe r) i = diffusion_build_plan r getenv i"

definition recipe_registry :: "(string \<times> recipe_kind) list" where
  "recipe_registry =
     [(''vllm'', VllmRecipe vllm_engine), (''vllm-omni'', VllmOmniRecipe omni_engine),
      (''sglang'', SglangRecipe sglang_engine), (''ollama'', OllamaRecipe ollama_engine),
      (''infinity'', InfinityRecipe infinity_engine), (''triton'', TritonRecipe triton_engine),
      (''inferia-diffusion'', DiffusionRecipe diffusion_engine)]"

definition recipe_get :: "string \<Rightarrow> go_error + recipe_kind" where
  "recipe_get name =
     (case map_of recipe_registry name of
        None \<Rightarrow> Inl (Errorf ''unknown recipe: %q'' [FStr name])
      | Some r \<Rightarrow> Inr r)"


section \<open>Accepted artifact URIs\<close>

lemma str_index_scheme:
  "CHR '':'' \<notin> set a \<Longrightarrow> str_index (a @ ''://'' @ r) ''://'' = Some (length a)"
  by (induction a) (auto simp: has_prefix_def)

lemma scheme_char_no_colon: "list_all scheme_char cs \<Longrightarrow> CHR '':'' \<notin> set cs"
  by (induction cs) (auto simp: scheme_char_def is_lower_alpha_def is_digit_def)

lemma lower_alpha_scheme_char: "is_lower_alpha c \<Longrightarrow> scheme_char c"
  by (simp add: scheme_char_def)

lemma uri_pattern_iff:
  "uri_pattern uri \<longleftrightarrow>
     (\<exists>c cs rest. uri = (c # cs) @ ''://'' @ rest \<and> is_lower_alpha c \<and> list_all scheme_char cs \<and>
        rest \<noteq> [] \<and> list_all uri_char rest)"
  (is "_ \<longleftrightarrow> (\<exists>c cs rest. ?shape c cs rest)")
proof
  assume u: "uri_pattern uri"
  then obtain i where i: "str_index uri ''://'' = Some i" by (auto simp: uri_pattern_def split: option.splits)
  with u obtain c cs where c: "take i uri = c # cs" "is_lower_alpha c" "list_all scheme_char cs"
    by (auto simp: uri_pattern_def split: list.splits)
  have "uri = take i uri @ ''://'' @ drop (i + 3) uri"
    using str_index_Some [OF i] by (simp add: eval_nat_numeral)
  with u i c have "?shape c cs (drop (i + 3) uri)" by (simp add: uri_pattern_def)
  then show "\<exists>c cs rest. ?shape c cs rest" by blast
next
  assume "\<exists>c cs rest. ?shape c cs rest"
  then obtain c cs rest where s: "?shape c cs rest" by blast
  then have "list_all scheme_char (c # cs)" by (simp add: lower_alpha_scheme_char)
  then have "str_index ((c # cs) @ ''://'' @ rest) ''://'' = Some (length (c # cs))"
    by (intro str_index_scheme scheme_char_no_colon)
  moreover have "take (length (c # cs)) uri = c # cs" "drop (length (c # cs) + 3) uri = rest"
    using s by (simp_all add: eval_nat_numeral)
  ultimately show "uri_pattern uri" using s by (simp add: uri_pattern_def)
qed

lemma scheme_split:
  assumes "CHR '':'' \<notin> set a"
  shows "uri_scheme (a @ ''://'' @ r) = a" "strip_scheme (a @ ''://'' @ r) = r"
  using str_index_scheme [OF assms, of r] by (simp_all add: uri_scheme_def strip_scheme_def)

lemma trim_space_nonempty: "\<not> is_space c \<Longrightarrow> trim_space (c # s) \<noteq> []"
  by (simp add: trim_space_def dropWhile_eq_Nil_conv)

lemma lower_alpha_not_space: "is_lower_alpha c \<Longrightarrow> \<not> is_space c"
  by (auto simp: is_lower_alpha_def is_space_def Let_def)

lemma lower_scheme_fixed: "list_all scheme_char a \<Longrightarrow> to_lower a = a"
  by (induction a)
    (auto simp: to_lower_def lower_char_def scheme_char_def is_lower_alpha_def is_digit_def Let_def)

lemma allowed_schemes_wf:
  "list_all (\<lambda>a. case a of [] \<Rightarrow> False | c # cs \<Rightarrow> is_lower_alpha c \<and> list_all scheme_char cs) allowed_uri_schemes"
  by (simp add: allowed_uri_schemes_def is_lower_alpha_def scheme_char_def is_digit_def)

lemma allowed_scheme_shape:
  assumes "a \<in> set allowed_uri_schemes"
  shows "\<exists>c cs. a = c # cs \<and> is_lower_alpha c \<and> list_all scheme_char cs" "to_lower a = a"
proof -
  show *: "\<exists>c cs. a = c # cs \<and> is_lower_alpha c \<and> list_all scheme_char cs"
    using bspec [OF allowed_schemes_wf [unfolded list_all_iff] assms] by (auto simp: list_all_iff split: list.splits)
  then have "list_all scheme_char a" by (auto simp: lower_alpha_scheme_char)
  then show "to_lower a = a" by (rule lower_scheme_fixed)
qed

text \<open>
  C22 (functional). An artifact URI is accepted exactly when it is an allowed scheme in lower case,
  \<open>://\<close>, and a non-empty rest free of control characters and of the shell's metacharacters; the
  model name derived from it is that rest.
\<close>

theorem artifact_uri_accepted_iff:
  "validate_artifact_uri uri = None \<longleftrightarrow>
     uri = uri_scheme uri @ ''://'' @ strip_scheme uri \<and> uri_scheme uri \<in> set allowed_uri_schemes \<and>
     strip_scheme uri \<noteq> [] \<and> list_all uri_char (strip_scheme uri)"
proof
  assume ok: "validate_artifact_uri uri = None"
  then have "uri_pattern uri" and al: "to_lower (uri_scheme uri) \<in> set allowed_uri_schemes"
    by (auto simp: validate_artifact_uri_def split: if_splits)
  then obtain c cs rest where u: "uri = (c # cs) @ ''://'' @ rest" "is_lower_alpha c"
    "list_all scheme_char cs" "rest \<noteq> []" "list_all uri_char rest"
    by (auto simp: uri_pattern_iff)
  then have sc: "list_all scheme_char (c # cs)" by (simp add: lower_alpha_scheme_char)
  note sp = scheme_split [OF scheme_char_no_colon [OF sc], of rest, folded u(1)]
  with al u sc show "uri = uri_scheme uri @ ''://'' @ strip_scheme uri \<and> uri_scheme uri \<in> set allowed_uri_schemes \<and>
     strip_scheme uri \<noteq> [] \<and> list_all uri_char (strip_scheme uri)"
    by (simp add: lower_scheme_fixed)
next
  assume r: "uri = uri_scheme uri @ ''://'' @ strip_scheme uri \<and> uri_scheme uri \<in> set allowed_uri_schemes \<and>
     strip_scheme uri \<noteq> [] \<and> list_all uri_char (strip_scheme uri)"
  with allowed_scheme_shape [of "uri_scheme uri"] obtain c cs where
    a: "uri_scheme uri = c # cs" "is_lower_alpha c" "list_all scheme_char cs" "to_lower (uri_scheme uri) = uri_scheme uri"
    by blast
  have "uri_pattern uri" unfolding uri_pattern_iff using r a by metis
  moreover have "trim_space uri \<noteq> []"
    using r a trim_space_nonempty [OF lower_alpha_not_space [OF a(2)], of "cs @ ''://'' @ strip_scheme uri"]
    by (metis append_Cons)
  ultimately show "validate_artifact_uri uri = None"
    using r a(4) by (auto simp: validate_artifact_uri_def)
qed

section \<open>The contract of a recipe\<close>

locale recipe =
  fixes build :: "build_input \<Rightarrow> go_error + plan" and needs_gpu :: bool
  assumes refuses: "build i = Inl e \<longleftrightarrow>
      validate_input i = Some e \<or> validate_input i = None \<and> needs_gpu \<and> require_gpu i = Some e"
    and placement: "build i = Inr p \<Longrightarrow> pl_host_port p = bi_host_port i \<and> pl_gpu_indices p = bi_gpu_indices i"
    and runnable: "build i = Inr p \<Longrightarrow> pl_image p \<noteq> [] \<and> pl_container_name p \<noteq> [] \<and> 0 < pl_container_port p"
    and user_env: "build i = Inr p \<Longrightarrow> bi_env i k = Some v \<Longrightarrow> pl_env p k = Some v"
begin

lemma accepts_iff:
  "(\<exists>p. build i = Inr p) \<longleftrightarrow> validate_input i = None \<and> (needs_gpu \<longrightarrow> bi_gpu_indices i \<noteq> [])"
proof (cases "build i")
  case (Inl e)
  with refuses [of i e] show ?thesis by (auto simp: require_gpu_def split: if_splits)
next
  case (Inr p)
  then have no: "\<not> (validate_input i = Some e \<or> validate_input i = None \<and> needs_gpu \<and> require_gpu i = Some e)" for e
    using refuses [of i e] by simp
  then have "validate_input i = None" by (cases "validate_input i") auto
  with no [of "the (require_gpu i)"] Inr show ?thesis by (auto simp: require_gpu_def)
qed

lemma accepted_valid:
  assumes "build i = Inr p"
  shows "1 \<le> pl_host_port p \<and> pl_host_port p \<le> 65535 \<and> (\<forall>g \<in> set (pl_gpu_indices p). 0 \<le> g)"
proof -
  from assms accepts_iff have "validate_input i = None" by blast
  then show ?thesis
    using placement [OF assms]
    by (auto simp: validate_input_def find_None_iff not_less split: if_splits option.splits)
qed

end

lemma merge_env_user: "user k = Some v \<Longrightarrow> merge_env user d k = Some v"
  by (simp add: merge_env_def)

lemma container_name_nonempty [simp]: "container_name p i \<noteq> []"
  by (simp add: container_name_def)

lemmas base_plan_simps = base_plan_def container_name_nonempty engine_defs merge_env_user

lemma gpu_recipe_refuses:
  "unless_error (validate_input i) (unless_error (require_gpu i) (Inr p)) = Inl e \<longleftrightarrow>
     validate_input i = Some e \<or> validate_input i = None \<and> require_gpu i = Some e"
  by (auto simp: unless_error_def split: option.splits)

interpretation vllm_recipe: recipe "vllm_build_plan vllm_engine getenv" True for getenv
  by unfold_locales
    (auto simp: vllm_build_plan_def split_def Let_def gpu_recipe_refuses unless_error_Inr base_plan_simps
      split: if_splits)

interpretation omni_recipe: recipe "omni_build_plan omni_engine getenv" True for getenv
  by unfold_locales
    (auto simp: omni_build_plan_def split_def Let_def gpu_recipe_refuses unless_error_Inr base_plan_simps)

interpretation sglang_recipe: recipe "sglang_build_plan sglang_engine getenv" True for getenv
  by unfold_locales
    (auto simp: sglang_build_plan_def split_def Let_def gpu_recipe_refuses unless_error_Inr base_plan_simps
      split: if_splits)

interpretation ollama_recipe: recipe "ollama_build_plan ollama_engine getenv" False for getenv
  by unfold_locales
    (auto simp: ollama_build_plan_def unless_error_Inr unless_error_def base_plan_simps split: option.splits)

interpretation infinity_recipe: recipe "infinity_build_plan infinity_engine getenv" False for getenv
  by unfold_locales
    (auto simp: infinity_build_plan_def Let_def unless_error_Inr unless_error_def base_plan_simps split: option.splits)

interpretation triton_recipe: recipe "triton_build_plan triton_engine getenv" True for getenv
  by unfold_locales (auto simp: triton_build_plan_def gpu_recipe_refuses unless_error_Inr base_plan_simps)

interpretation diffusion_recipe: recipe "diffusion_build_plan diffusion_engine getenv" True for getenv
  by unfold_locales
    (auto simp: diffusion_build_plan_def Let_def gpu_recipe_refuses unless_error_Inr base_plan_simps)

fun gpu_only :: "recipe_kind \<Rightarrow> bool" where
  "gpu_only (OllamaRecipe _) = False"
| "gpu_only (InfinityRecipe _) = False"
| "gpu_only _ = True"

lemma build_plan_eta:
  "build_plan getenv (VllmRecipe r) = vllm_build_plan r getenv"
  "build_plan getenv (VllmOmniRecipe r) = omni_build_plan r getenv"
  "build_plan getenv (SglangRecipe r) = sglang_build_plan r getenv"
  "build_plan getenv (OllamaRecipe r) = ollama_build_plan r getenv"
  "build_plan getenv (InfinityRecipe r) = infinity_build_plan r getenv"
  "build_plan getenv (TritonRecipe r) = triton_build_plan r getenv"
  "build_plan getenv (DiffusionRecipe r) = diffusion_build_plan r getenv"
  by (auto intro: ext)

lemma recipe_get_cases:
  "recipe_get name = Inr r \<Longrightarrow>
     r \<in> {VllmRecipe vllm_engine, VllmOmniRecipe omni_engine, SglangRecipe sglang_engine,
        OllamaRecipe ollama_engine, InfinityRecipe infinity_engine, TritonRecipe triton_engine,
        DiffusionRecipe diffusion_engine}"
  by (auto simp: recipe_get_def recipe_registry_def split: if_splits)

text \<open>Every registered recipe provides the contract.\<close>

lemma registered_recipe: "recipe_get name = Inr r \<Longrightarrow> recipe (build_plan getenv r) (gpu_only r)"
  using recipe_get_cases [of name r]
    vllm_recipe.recipe_axioms omni_recipe.recipe_axioms sglang_recipe.recipe_axioms ollama_recipe.recipe_axioms
    infinity_recipe.recipe_axioms triton_recipe.recipe_axioms diffusion_recipe.recipe_axioms
  by (auto simp: build_plan_eta)

text \<open>
  C23 (functional). Every registered recipe accepts a request exactly when the shared checks pass
  and, for the GPU-only engines, at least one GPU is given. An accepted plan keeps the host port,
  which is a valid one, and the GPUs, and every environment variable of the request as it is.
\<close>

theorem registered_recipes_build:
  assumes "recipe_get name = Inr r"
  shows "((\<exists>p. build_plan getenv r i = Inr p) \<longleftrightarrow>
      validate_input i = None \<and> (gpu_only r \<longrightarrow> bi_gpu_indices i \<noteq> [])) \<and>
    (\<forall>p. build_plan getenv r i = Inr p \<longrightarrow>
      pl_host_port p = bi_host_port i \<and> 1 \<le> pl_host_port p \<and> pl_host_port p \<le> 65535 \<and>
      pl_gpu_indices p = bi_gpu_indices i \<and> (\<forall>k v. bi_env i k = Some v \<longrightarrow> pl_env p k = Some v))"
  using registered_recipe [OF assms, of getenv] recipe.accepts_iff [of "build_plan getenv r" "gpu_only r" i]
    recipe.accepted_valid [of "build_plan getenv r" "gpu_only r" i]
    recipe.placement [of "build_plan getenv r" "gpu_only r" i]
    recipe.user_env [of "build_plan getenv r" "gpu_only r" i]
  by blast

definition sample_input :: build_input where
  "sample_input =
     \<lparr>bi_deployment_id = ''d1'', bi_artifact_uri = ''hf://org/model'',
      bi_config = [(''dtype'', AScalar (SStr ''half'')), (''kv_cache_dtype'', AScalar (SStr ''auto'')), (''x'', ANil)],
      bi_gpu_indices = [0], bi_host_port = 19000, bi_env = [''HF_TOKEN'' \<mapsto> ''t''], bi_gpu_name = ''NVIDIA H100 80GB HBM3'',
      bi_gpu_memory_mib = 81559, bi_prefill_replicas = 0, bi_decode_replicas = 0, bi_prefill_gpu_indices = [],
      bi_decode_gpu_indices = [], bi_shm_size = 0\<rparr>"

lemma sample_uri_ok: "validate_artifact_uri ''hf://org/model'' = None"
proof -
  have "uri_scheme (''hf'' @ ''://'' @ ''org/model'') = ''hf''" "strip_scheme (''hf'' @ ''://'' @ ''org/model'') = ''org/model''"
    by (rule scheme_split; simp)+
  then show ?thesis by (simp add: artifact_uri_accepted_iff allowed_uri_schemes_def uri_char_def)
qed

lemma sample_input_ok: "validate_input sample_input = None"
  by (simp add: validate_input_def sample_input_def sample_uri_ok max_config_keys_def max_config_key_def)

theorem registered_recipes_build_witness:
  "\<exists>p. build_plan (\<lambda>_. []) (VllmRecipe vllm_engine) sample_input = Inr p \<and>
     pl_host_port p = 19000 \<and> pl_gpu_indices p = [0] \<and> pl_env p ''HF_TOKEN'' = Some ''t''"
proof -
  have "recipe_get ''vllm'' = Inr (VllmRecipe vllm_engine)"
    by (simp add: recipe_get_def recipe_registry_def)
  from registered_recipes_build [OF this, of "\<lambda>_. []" sample_input] sample_input_ok
  obtain p where "build_plan (\<lambda>_. []) (VllmRecipe vllm_engine) sample_input = Inr p"
    "pl_host_port p = bi_host_port sample_input" "pl_gpu_indices p = bi_gpu_indices sample_input"
    "\<forall>k v. bi_env sample_input k = Some v \<longrightarrow> pl_env p k = Some v"
    by (auto simp: sample_input_def)
  then show ?thesis by (auto simp: sample_input_def)
qed

section \<open>Which configuration reaches the command line\<close>

lemma sanitise_allowed:
  assumes "distinct (map fst cfg)" "(k, AScalar v) \<in> set cfg" "k \<in> set allowed_config_keys"
  shows "sanitise_config cfg k = Some v"
proof -
  have "(k, AScalar v) \<in> set (filter kept_entry cfg)" using assms by simp
  moreover have "distinct (map fst (filter kept_entry cfg))" using assms(1) by (simp add: distinct_map_filter)
  ultimately have "map_of (filter kept_entry cfg) k = Some (AScalar v)" by (simp add: map_of_is_SomeI)
  then show ?thesis by (simp add: sanitise_config_def)
qed

lemma sanitise_dropped: "k \<notin> set allowed_config_keys \<Longrightarrow> sanitise_config cfg k = None"
proof -
  assume k: "k \<notin> set allowed_config_keys"
  have "map_of (filter kept_entry cfg) k = None"
  proof (rule ccontr)
    assume "map_of (filter kept_entry cfg) k \<noteq> None"
    then obtain v where "(k, v) \<in> set (filter kept_entry cfg)" by (auto dest: map_of_SomeD)
    with k show False by (cases v) auto
  qed
  then show ?thesis by (simp add: sanitise_config_def)
qed

text \<open>
  (functional). In a vLLM plan a scalar of the request under an allow-listed key wins over the
  GPU default. The flags kv_cache_dtype and max_num_batched_tokens are written to the command line
  too but are not on the allow list: for them the GPU default is used whatever the request says.
\<close>

theorem vllm_request_overrides_defaults:
  assumes "distinct (map fst (bi_config i))" and "(k, AScalar v) \<in> set (bi_config i)"
  shows "fst (vllm_config i) k =
      (if k \<in> set allowed_config_keys then Some v
       else fst (vllm_gpu_optimal_config (bi_gpu_name i) (bi_gpu_memory_mib i) (int (length (bi_gpu_indices i)))) k) \<and>
    {''kv_cache_dtype'', ''max_num_batched_tokens''} \<subseteq> set vllm_flag_keys - set allowed_config_keys"
proof
  show "fst (vllm_config i) k =
      (if k \<in> set allowed_config_keys then Some v
       else fst (vllm_gpu_optimal_config (bi_gpu_name i) (bi_gpu_memory_mib i) (int (length (bi_gpu_indices i)))) k)"
    using sanitise_allowed [OF assms] sanitise_dropped [of k "bi_config i"]
    by (simp add: vllm_config_def fill_defaults_def split_def map_add_def Let_def)
  show "{''kv_cache_dtype'', ''max_num_batched_tokens''} \<subseteq> set vllm_flag_keys - set allowed_config_keys"
    by (simp add: vllm_flag_keys_def allowed_config_keys_def)
qed

theorem vllm_request_overrides_defaults_witness:
  "fst (vllm_config sample_input) ''dtype'' = Some (SStr ''half'') \<and>
   fst (vllm_config sample_input) ''kv_cache_dtype'' =
     fst (vllm_gpu_optimal_config ''NVIDIA H100 80GB HBM3'' 81559 1) ''kv_cache_dtype''"
proof
  show "fst (vllm_config sample_input) ''dtype'' = Some (SStr ''half'')"
    using vllm_request_overrides_defaults [of sample_input "''dtype''" "SStr ''half''"]
    by (simp add: sample_input_def allowed_config_keys_def)
  show "fst (vllm_config sample_input) ''kv_cache_dtype'' =
     fst (vllm_gpu_optimal_config ''NVIDIA H100 80GB HBM3'' 81559 1) ''kv_cache_dtype''"
    using vllm_request_overrides_defaults [of sample_input "''kv_cache_dtype''" "SStr ''auto''"]
    by (simp add: sample_input_def allowed_config_keys_def)
qed

lemma sglang_prefill_cmd:
  "snd (snd (apply_sglang_prefill_flags getenv (cfg, env, cmd))) =
     cmd @ [''--disaggregation-mode'', ''prefill''] @
       (if getenv ''SGLANG_DISAGG_IB_DEVICE'' \<noteq> [] then [''--disaggregation-ib-device'', getenv ''SGLANG_DISAGG_IB_DEVICE''] else [])"
  by (simp add: apply_sglang_prefill_flags_def apply_sglang_mooncake_def Let_def)

text \<open>
  (functional). With Mooncake enabled, the stand-alone sglang deployment is started in
  disaggregation mode prefill; no decode server exists for it. (The stand-alone vLLM deployment
  gets the role kv_both.)
\<close>

theorem sglang_alone_is_prefill_only:
  assumes "mooncake_enabled getenv" and "sglang_build_plan r getenv i = Inr p"
  shows "\<exists>pre post. pl_cmd p = pre @ [''--disaggregation-mode'', ''prefill''] @ post"
proof -
  from assms have "pl_cmd p = snd (snd (apply_sglang_prefill_flags getenv
      (fst (sglang_config i), snd (sglang_config i), sglang_base_cmd r i (fst (sglang_config i)))))"
    by (auto simp: sglang_build_plan_def unless_error_Inr split_def Let_def base_plan_def)
  then show ?thesis by (auto simp only: sglang_prefill_cmd append_assoc)
qed

theorem sglang_alone_is_prefill_only_witness:
  "\<exists>p pre post. sglang_build_plan sglang_engine (\<lambda>k. if k = ''MOONCAKE_KV_ENABLED'' then ''true'' else []) sample_input = Inr p \<and>
     pl_cmd p = pre @ [''--disaggregation-mode'', ''prefill''] @ post"
proof -
  let ?env = "\<lambda>k. if k = ''MOONCAKE_KV_ENABLED'' then ''true'' else []"
  obtain p where p: "sglang_build_plan sglang_engine ?env sample_input = Inr p"
    using sglang_recipe.accepts_iff [of ?env sample_input] sample_input_ok by (auto simp: sample_input_def)
  from sglang_alone_is_prefill_only [OF _ p]
  obtain pre post where "pl_cmd p = pre @ [''--disaggregation-mode'', ''prefill''] @ post"
    by (auto simp only: mooncake_enabled_def if_True simp_thms)
  with p show ?thesis by blast
qed

end
