(* ===== verification/Group_Recipes.thy ===== *)
theory Group_Recipes imports Recipes begin

text \<open>
  The prefill/decode recipes (internal/runtime/recipes/vllm_prefill_decode.go and
  sglang_prefill_decode.go): a request becomes one container plan per replica of each role. Both
  provide the contract \<open>multi_recipe\<close> of a multi-container builder.
\<close>

definition replica_count :: "int \<Rightarrow> nat" where
  "replica_count n = (if n < 1 then 1 else nat n)"

lemma replica_count_pos [simp]: "0 < replica_count n"
  by (simp add: replica_count_def)

definition role_gpus :: "int list \<Rightarrow> build_input \<Rightarrow> int list" where
  "role_gpus own i = (if own = [] then bi_gpu_indices i else own)"

section \<open>vLLM\<close>

definition vllm_group_shm :: "environment \<Rightarrow> build_input \<Rightarrow> int" where
  "vllm_group_shm getenv i =
     (if bi_shm_size i = 0 \<and> mooncake_enabled getenv then 32 * gib else bi_shm_size i)"

definition vllm_replica ::
  "(environment \<Rightarrow> engine_config \<times> env_map \<times> string list \<Rightarrow> engine_config \<times> env_map \<times> string list)
   \<Rightarrow> kv_role \<Rightarrow> int list \<Rightarrow> engine_image \<Rightarrow> environment \<Rightarrow> build_input \<Rightarrow> nat \<Rightarrow> container_plan" where
  "vllm_replica apply_flags role gpus r getenv i idx =
     (let (cfg, envDefaults) = vllm_config i;
          start = (cfg, merge_env (bi_env i) envDefaults, vllm_base_cmd r i cfg);
          (_, env, cmd) = (if mooncake_enabled getenv then apply_flags getenv start else start)
      in \<lparr>cp_image = ei_image r, cp_cmd = cmd,
          cp_entrypoint = (if mooncake_enabled getenv then mooncake_entrypoint else []),
          cp_env = env,
          cp_mounts = (if mooncake_enabled getenv then [mooncake_mount getenv] else []),
          cp_container_port = ei_port r, cp_gpu_indices = gpus, cp_shm_size = vllm_group_shm getenv i,
          cp_ready_path = ei_ready_path r, cp_role = role, cp_replica_idx = idx\<rparr>)"

definition vllm_build_group :: "engine_image \<Rightarrow> environment \<Rightarrow> build_input \<Rightarrow> go_error + deployment_plan" where
  "vllm_build_group r getenv i =
     unless_error (validate_input i) (unless_error (require_gpu i)
       (Inr \<lparr>dp_deployment_id = bi_deployment_id i, dp_model = strip_scheme (bi_artifact_uri i),
          dp_prefill = map (vllm_replica apply_mooncake_prefill_flags KvRoleProducer
              (role_gpus (bi_prefill_gpu_indices i) i) r getenv i) [0..<replica_count (bi_prefill_replicas i)],
          dp_decode = map (vllm_replica apply_mooncake_decode_flags KvRoleConsumer
              (role_gpus (bi_decode_gpu_indices i) i) r getenv i) [0..<replica_count (bi_decode_replicas i)],
          dp_container_prefix = ''inferia-vllm''\<rparr>))"

section \<open>SGLang\<close>

definition sglang_replica ::
  "(environment \<Rightarrow> engine_config \<times> env_map \<times> string list \<Rightarrow> engine_config \<times> env_map \<times> string list)
   \<Rightarrow> kv_role \<Rightarrow> int list \<Rightarrow> engine_image \<Rightarrow> environment \<Rightarrow> build_input \<Rightarrow> nat \<Rightarrow> container_plan" where
  "sglang_replica apply_flags role gpus r getenv i idx =
     (let (cfg, envDefaults) = sglang_config i;
          start = (cfg, merge_env (bi_env i) envDefaults, sglang_base_cmd r i cfg);
          (_, env, cmd) = (if mooncake_enabled getenv then apply_flags getenv start else start)
      in \<lparr>cp_image = ei_image r, cp_cmd = cmd,
          cp_entrypoint = (if mooncake_enabled getenv then mooncake_entrypoint else []),
          cp_env = env, cp_mounts = [],
          cp_container_port = ei_port r, cp_gpu_indices = gpus,
          cp_shm_size = (if bi_shm_size i = 0 then sglang_shm_size else bi_shm_size i),
          cp_ready_path = ei_ready_path r, cp_role = role, cp_replica_idx = idx\<rparr>)"

definition sglang_build_group :: "engine_image \<Rightarrow> environment \<Rightarrow> build_input \<Rightarrow> go_error + deployment_plan" where
  "sglang_build_group r getenv i =
     unless_error (validate_input i) (unless_error (require_gpu i)
       (Inr \<lparr>dp_deployment_id = bi_deployment_id i, dp_model = strip_scheme (bi_artifact_uri i),
          dp_prefill = map (sglang_replica apply_sglang_prefill_flags KvRoleProducer
              (role_gpus (bi_prefill_gpu_indices i) i) r getenv i) [0..<replica_count (bi_prefill_replicas i)],
          dp_decode = map (sglang_replica apply_sglang_decode_flags KvRoleConsumer
              (role_gpus (bi_decode_gpu_indices i) i) r getenv i) [0..<replica_count (bi_decode_replicas i)],
          dp_container_prefix = ''inferia-sglang''\<rparr>))"

section \<open>The registry\<close>

datatype multi_recipe_kind = VllmPrefillDecode engine_image | SglangPrefillDecode engine_image

fun build_deployment_plan :: "environment \<Rightarrow> multi_recipe_kind \<Rightarrow> build_input \<Rightarrow> go_error + deployment_plan" where
  "build_deployment_plan getenv (VllmPrefillDecode r) i = vllm_build_group r getenv i"
| "build_deployment_plan getenv (SglangPrefillDecode r) i = sglang_build_group r getenv i"

definition multi_registry :: "(string \<times> multi_recipe_kind) list" where
  "multi_registry =
     [(''vllm-prefill-decode'', VllmPrefillDecode vllm_engine),
      (''sglang-prefill-decode'', SglangPrefillDecode sglang_engine)]"

definition multi_get :: "string \<Rightarrow> go_error + multi_recipe_kind" where
  "multi_get name =
     (case map_of multi_registry name of
        None \<Rightarrow> Inl (Errorf ''unknown multi-container recipe: %q'' [FStr name])
      | Some r \<Rightarrow> Inr r)"

section \<open>The contract of a multi-container builder\<close>

definition well_formed_replicas :: "kv_role \<Rightarrow> int list \<Rightarrow> container_plan list \<Rightarrow> bool" where
  "well_formed_replicas role gpus cps \<longleftrightarrow>
     (\<forall>j < length cps. cp_role (cps ! j) = role \<and> cp_replica_idx (cps ! j) = j \<and>
        cp_gpu_indices (cps ! j) = gpus \<and> cp_image (cps ! j) \<noteq> [] \<and> 0 < cp_container_port (cps ! j))"

locale multi_recipe =
  fixes build :: "build_input \<Rightarrow> go_error + deployment_plan"
  assumes group_refuses: "build i = Inl e \<longleftrightarrow>
      validate_input i = Some e \<or> validate_input i = None \<and> require_gpu i = Some e"
    and group_shape: "build i = Inr d \<Longrightarrow>
      dp_deployment_id d = bi_deployment_id i \<and>
      length (dp_prefill d) = replica_count (bi_prefill_replicas i) \<and>
      length (dp_decode d) = replica_count (bi_decode_replicas i)"
    and group_members: "build i = Inr d \<Longrightarrow>
      well_formed_replicas KvRoleProducer (role_gpus (bi_prefill_gpu_indices i) i) (dp_prefill d) \<and>
      well_formed_replicas KvRoleConsumer (role_gpus (bi_decode_gpu_indices i) i) (dp_decode d)"
begin

lemma group_nonempty: "build i = Inr d \<Longrightarrow> dp_prefill d \<noteq> [] \<and> dp_decode d \<noteq> []"
  using group_shape [of i d] replica_count_pos by (metis less_nat_zero_code list.size(3))

lemma group_accepts_iff: "(\<exists>d. build i = Inr d) \<longleftrightarrow> validate_input i = None \<and> bi_gpu_indices i \<noteq> []"
proof (cases "build i")
  case (Inl e)
  with group_refuses [of i e] show ?thesis by (auto simp: require_gpu_def split: if_splits)
next
  case (Inr p)
  then have no: "\<not> (validate_input i = Some e \<or> validate_input i = None \<and> require_gpu i = Some e)" for e
    using group_refuses [of i e] by simp
  then have "validate_input i = None" by (cases "validate_input i") auto
  with no [of "the (require_gpu i)"] Inr show ?thesis by (auto simp: require_gpu_def)
qed

end

interpretation vllm_group: multi_recipe "vllm_build_group vllm_engine getenv" for getenv
  by unfold_locales
    (auto simp: vllm_build_group_def gpu_recipe_refuses unless_error_Inr vllm_replica_def well_formed_replicas_def
      split_def Let_def engine_defs)

interpretation sglang_group: multi_recipe "sglang_build_group sglang_engine getenv" for getenv
  by unfold_locales
    (auto simp: sglang_build_group_def gpu_recipe_refuses unless_error_Inr sglang_replica_def well_formed_replicas_def
      split_def Let_def engine_defs)

lemma registered_multi_recipe: "multi_get name = Inr r \<Longrightarrow> multi_recipe (build_deployment_plan getenv r)"
proof -
  have "build_deployment_plan getenv (VllmPrefillDecode x) = vllm_build_group x getenv"
    "build_deployment_plan getenv (SglangPrefillDecode x) = sglang_build_group x getenv" for x
    by (auto intro: ext)
  moreover assume "multi_get name = Inr r"
  then have "r \<in> {VllmPrefillDecode vllm_engine, SglangPrefillDecode sglang_engine}"
    by (auto simp: multi_get_def multi_registry_def split: if_splits)
  ultimately show ?thesis
    using vllm_group.multi_recipe_axioms sglang_group.multi_recipe_axioms by auto
qed

text \<open>
  (functional). A registered prefill/decode recipe accepts a request exactly when the shared
  checks pass and the request's general GPU list is non-empty. Then each role gets as many
  replicas as asked, at least one, numbered from 0, all on the role's own GPUs or, when it names
  none, on the general list.
\<close>

theorem group_plans_well_formed:
  assumes "multi_get name = Inr r"
  shows "((\<exists>d. build_deployment_plan getenv r i = Inr d) \<longleftrightarrow> validate_input i = None \<and> bi_gpu_indices i \<noteq> []) \<and>
    (\<forall>d. build_deployment_plan getenv r i = Inr d \<longrightarrow>
       length (dp_prefill d) = replica_count (bi_prefill_replicas i) \<and>
       length (dp_decode d) = replica_count (bi_decode_replicas i) \<and>
       dp_prefill d \<noteq> [] \<and> dp_decode d \<noteq> [] \<and>
       well_formed_replicas KvRoleProducer (role_gpus (bi_prefill_gpu_indices i) i) (dp_prefill d) \<and>
       well_formed_replicas KvRoleConsumer (role_gpus (bi_decode_gpu_indices i) i) (dp_decode d))"
  using multi_recipe.group_accepts_iff [OF registered_multi_recipe [OF assms]]
    multi_recipe.group_shape [OF registered_multi_recipe [OF assms]]
    multi_recipe.group_nonempty [OF registered_multi_recipe [OF assms]]
    multi_recipe.group_members [OF registered_multi_recipe [OF assms]]
  by blast

theorem group_plans_well_formed_witness:
  "\<exists>d. build_deployment_plan (\<lambda>_. []) (SglangPrefillDecode sglang_engine)
        (sample_input\<lparr>bi_prefill_replicas := 2, bi_prefill_gpu_indices := [1, 2]\<rparr>) = Inr d \<and>
     length (dp_prefill d) = 2 \<and> length (dp_decode d) = 1 \<and>
     well_formed_replicas KvRoleProducer [1, 2] (dp_prefill d) \<and> well_formed_replicas KvRoleConsumer [0] (dp_decode d)"
proof -
  let ?i = "sample_input\<lparr>bi_prefill_replicas := 2, bi_prefill_gpu_indices := [1, 2]\<rparr>"
  have get: "multi_get ''sglang-prefill-decode'' = Inr (SglangPrefillDecode sglang_engine)"
    by (simp add: multi_get_def multi_registry_def)
  have ok: "validate_input ?i = None"
    by (simp add: validate_input_def sample_input_def sample_uri_ok max_config_keys_def max_config_key_def)
  have f: "bi_gpu_indices ?i = [0]" "replica_count (bi_prefill_replicas ?i) = 2"
    "replica_count (bi_decode_replicas ?i) = 1" "role_gpus (bi_prefill_gpu_indices ?i) ?i = [1, 2]"
    "role_gpus (bi_decode_gpu_indices ?i) ?i = [0]"
    by (simp_all add: sample_input_def replica_count_def role_gpus_def)
  from group_plans_well_formed [OF get, of "\<lambda>_. []" ?i] ok f
  show ?thesis by (metis list.distinct(1))
qed

end
