(* ===== verification/Container_Spec.thy ===== *)
theory Container_Spec imports Recipes begin

text \<open>
  From a plan to what Docker is asked to run (internal/runtime/dockerclient/spec.go).
\<close>

record port_binding =
  pb_host_ip :: string
  pb_host_port :: string
  pb_container_port :: string

record container_spec =
  cs_name :: string
  cs_image :: string
  cs_cmd :: "string list"
  cs_entrypoint :: "string list"
  cs_env :: "string \<rightharpoonup> string"
  cs_mounts :: "mount list"
  cs_port_binding :: port_binding
  cs_network_name :: string
  cs_restart_policy :: string
  cs_labels :: "string \<rightharpoonup> string"
  cs_gpu_device_ids :: "string list"
  cs_gpu_capabilities :: "string list list"
  cs_shm_size :: int

definition label_prefixes :: "string list" where
  "label_prefixes =
     [''inferia-vllm-'', ''inferia-sglang-'', ''inferia-ollama-'', ''inferia-infinity-'', ''inferia-triton-'',
      ''inferia-diff-'']"

definition label_deployment_id :: "string \<Rightarrow> string" where
  "label_deployment_id containerName =
     (case find (\<lambda>p. length containerName > length p \<and> has_prefix containerName p) label_prefixes of
        Some p \<Rightarrow> drop (length p) containerName
      | None \<Rightarrow> containerName)"

definition build_container_spec :: "plan \<Rightarrow> string \<Rightarrow> go_error + container_spec" where
  "build_container_spec p networkName =
     (if pl_image p = [] then Inl (Errorf ''plan.Image is required'' [])
      else if pl_container_name p = [] then Inl (Errorf ''plan.ContainerName is required'' [])
      else if pl_container_port p \<le> 0 then Inl (Errorf ''plan.ContainerPort must be > 0'' [])
      else if pl_host_port p \<le> 0 then Inl (Errorf ''plan.HostPort must be > 0'' [])
      else Inr
        \<lparr>cs_name = pl_container_name p, cs_image = pl_image p, cs_cmd = pl_cmd p,
         cs_entrypoint = pl_entrypoint p, cs_env = pl_env p, cs_mounts = pl_mounts p,
         cs_port_binding = \<lparr>pb_host_ip = ''127.0.0.1'', pb_host_port = itoa (pl_host_port p),
                            pb_container_port = itoa (pl_container_port p) @ ''/tcp''\<rparr>,
         cs_network_name = networkName, cs_restart_policy = ''no'',
         cs_labels = [''inferia.managed_by'' \<mapsto> ''inferia-worker'',
                      ''inferia.deployment_id'' \<mapsto> label_deployment_id (pl_container_name p)],
         cs_gpu_device_ids = map (\<lambda>g. ''nvidia.com/gpu='' @ itoa g) (pl_gpu_indices p),
         cs_gpu_capabilities = [[''gpu'']], cs_shm_size = pl_shm_size p\<rparr>)"

context recipe begin

text \<open>What a recipe builds, the runtime can run: the spec exists and binds the loopback interface only.\<close>

lemma plan_has_spec:
  assumes "build i = Inr p"
  shows "\<exists>s. build_container_spec p net = Inr s \<and> cs_name s = pl_container_name p \<and>
    cs_port_binding s = \<lparr>pb_host_ip = ''127.0.0.1'', pb_host_port = itoa (bi_host_port i),
      pb_container_port = itoa (pl_container_port p) @ ''/tcp''\<rparr> \<and>
    cs_gpu_device_ids s = map (\<lambda>g. ''nvidia.com/gpu='' @ itoa g) (bi_gpu_indices i)"
  using runnable [OF assms] placement [OF assms] accepted_valid [OF assms]
  by (simp add: build_container_spec_def)

end

lemma drop_prefix_append: "drop (length p) (p @ s) = s"
  by simp

lemma label_of_prefix:
  "s \<noteq> [] \<Longrightarrow> label_deployment_id (''inferia-vllm-'' @ s) = s"
  "s \<noteq> [] \<Longrightarrow> label_deployment_id (''inferia-sglang-'' @ s) = s"
  "s \<noteq> [] \<Longrightarrow> label_deployment_id (''inferia-ollama-'' @ s) = s"
  "s \<noteq> [] \<Longrightarrow> label_deployment_id (''inferia-infinity-'' @ s) = s"
  "s \<noteq> [] \<Longrightarrow> label_deployment_id (''inferia-triton-'' @ s) = s"
  "s \<noteq> [] \<Longrightarrow> label_deployment_id (''inferia-diff-'' @ s) = s"
  by (simp_all add: label_deployment_id_def label_prefixes_def has_prefix_def)

lemma safe_name_nonempty: "d \<noteq> [] \<Longrightarrow> safe_name d \<noteq> []"
  by (cases d rule: safe_name.cases) auto

lemma base_plan_name: "pl_container_name (base_plan r prefix i cmd env) = prefix @ ''-'' @ safe_name (bi_deployment_id i)"
  by (simp add: base_plan_def container_name_def)

definition recipe_prefix :: "recipe_kind \<Rightarrow> string" where
  "recipe_prefix r = (case r of
     VllmRecipe _ \<Rightarrow> ''inferia-vllm'' | VllmOmniRecipe _ \<Rightarrow> ''inferia-vllm-omni'' | SglangRecipe _ \<Rightarrow> ''inferia-sglang''
   | OllamaRecipe _ \<Rightarrow> ''inferia-ollama'' | InfinityRecipe _ \<Rightarrow> ''inferia-infinity''
   | TritonRecipe _ \<Rightarrow> ''inferia-triton'' | DiffusionRecipe _ \<Rightarrow> ''inferia-diff'')"

lemma build_plan_name:
  "build_plan getenv r i = Inr p \<Longrightarrow> pl_container_name p = recipe_prefix r @ ''-'' @ safe_name (bi_deployment_id i)"
  by (cases r)
    (auto simp: recipe_prefix_def vllm_build_plan_def omni_build_plan_def sglang_build_plan_def ollama_build_plan_def
      infinity_build_plan_def triton_build_plan_def diffusion_build_plan_def unless_error_Inr split_def Let_def
      base_plan_name split: if_splits)

text \<open>
  (functional). Every plan a registered recipe accepts yields a container spec; it publishes
  the container's port on the loopback interface at the host port asked for and requests exactly
  the GPUs asked for.
\<close>

theorem accepted_plans_have_specs:
  assumes "recipe_get name = Inr r" and "build_plan getenv r i = Inr p"
  shows "\<exists>s. build_container_spec p net = Inr s \<and>
    cs_port_binding s = \<lparr>pb_host_ip = ''127.0.0.1'', pb_host_port = itoa (bi_host_port i),
      pb_container_port = itoa (pl_container_port p) @ ''/tcp''\<rparr> \<and>
    cs_gpu_device_ids s = map (\<lambda>g. ''nvidia.com/gpu='' @ itoa g) (bi_gpu_indices i)"
  using recipe.plan_has_spec [OF registered_recipe [OF assms(1)] assms(2)] by blast

theorem accepted_plans_have_specs_witness:
  "\<exists>p s. build_plan (\<lambda>_. []) (TritonRecipe triton_engine) sample_input = Inr p \<and>
     build_container_spec p ''inferia-models'' = Inr s \<and> pb_host_ip (cs_port_binding s) = ''127.0.0.1'' \<and>
     cs_gpu_device_ids s = [''nvidia.com/gpu='' @ itoa 0]"
proof -
  have get: "recipe_get ''triton'' = Inr (TritonRecipe triton_engine)"
    by (simp add: recipe_get_def recipe_registry_def)
  obtain p where p: "build_plan (\<lambda>_. []) (TritonRecipe triton_engine) sample_input = Inr p"
    using triton_recipe.accepts_iff [of "\<lambda>_. []" sample_input] sample_input_ok by (auto simp: sample_input_def)
  from accepted_plans_have_specs [OF get p, of "''inferia-models''"] p show ?thesis
    by (auto simp: sample_input_def)
qed

text \<open>
  (functional). The deployment label of a container is the sanitised deployment id for every
  recipe but vllm-omni, whose containers are labelled with a leading omni: the label list has no
  entry for its prefix, and the vLLM prefix matches first.
\<close>

theorem container_label_is_deployment_id:
  assumes "build_plan getenv r i = Inr p" and "build_container_spec p net = Inr s"
    and "bi_deployment_id i \<noteq> []"
  shows "cs_labels s ''inferia.deployment_id'' =
    Some (case r of VllmOmniRecipe _ \<Rightarrow> ''omni-'' @ safe_name (bi_deployment_id i) | _ \<Rightarrow> safe_name (bi_deployment_id i))"
proof -
  have "cs_labels s ''inferia.deployment_id'' = Some (label_deployment_id (pl_container_name p))"
    using assms(2) by (auto simp: build_container_spec_def split: if_splits)
  moreover have "label_deployment_id (''inferia-vllm-'' @ ''omni-'' @ t) = ''omni-'' @ t" for t
    by (rule label_of_prefix) simp
  ultimately show ?thesis
    using build_plan_name [OF assms(1)] safe_name_nonempty [OF assms(3)] label_of_prefix
    by (cases r) (simp_all add: recipe_prefix_def)
qed

theorem container_label_is_deployment_id_witness:
  "\<exists>p s. build_plan (\<lambda>_. []) (VllmOmniRecipe omni_engine) sample_input = Inr p \<and>
     build_container_spec p ''n'' = Inr s \<and> cs_labels s ''inferia.deployment_id'' = Some ''omni-d1''"
proof -
  obtain p where p: "build_plan (\<lambda>_. []) (VllmOmniRecipe omni_engine) sample_input = Inr p"
    using omni_recipe.accepts_iff [of "\<lambda>_. []" sample_input] sample_input_ok by (auto simp: sample_input_def)
  obtain s where s: "build_container_spec p ''n'' = Inr s"
    using omni_recipe.plan_has_spec [of "\<lambda>_. []" sample_input p "''n''"] p by auto
  from container_label_is_deployment_id [OF p s] p s show ?thesis
    by (simp add: sample_input_def)
qed

end
