(* ===== verification/Pull_Progress.thy ===== *)
theory Pull_Progress imports Container_Spec "HOL-Library.Signed_Division" begin

text \<open>
  Image pulls (internal/runtime/dockerclient/pull_progress.go and Pull in client.go): Docker's
  per-layer stream is folded into one percentage per phase, reported at most every 2.5 seconds
  unless it moves by five points or reaches 100. Byte counters are int64; \<open>i64\<close> wraps a result.
  Times are nanoseconds; the zero time of a phase that has not reported is \<open>None\<close>.
\<close>

definition i64 :: "int \<Rightarrow> int" where
  "i64 x = signed_take_bit 63 x"

record pull_message =
  pm_status :: string
  pm_id :: string
  pm_current :: int
  pm_total :: int
  pm_error :: string

record layer_progress =
  lp_current :: int
  lp_total :: int

type_synonym layer_table = "(string \<times> layer_progress) list"

record pull_phase =
  ph_layers :: layer_table
  ph_last_pct :: int
  ph_last_emit :: "int option"

record pull_tracker =
  pt_download :: pull_phase
  pt_extract :: pull_phase

definition new_pull_phase :: pull_phase where
  "new_pull_phase = \<lparr>ph_layers = [], ph_last_pct = - 1, ph_last_emit = None\<rparr>"

definition new_pull_tracker :: pull_tracker where
  "new_pull_tracker = \<lparr>pt_download = new_pull_phase, pt_extract = new_pull_phase\<rparr>"

definition min_gap :: int where "min_gap = 2500 * 1000000"

definition set_layer :: "string \<Rightarrow> layer_progress \<Rightarrow> layer_table \<Rightarrow> layer_table" where
  "set_layer k v t = (k, v) # filter (\<lambda>(j, _). j \<noteq> k) t"

definition finalize_layer :: "string \<Rightarrow> pull_phase \<Rightarrow> pull_phase" where
  "finalize_layer lid ph =
     (if lid = [] then ph
      else case map_of (ph_layers ph) lid of
        None \<Rightarrow> ph
      | Some lp \<Rightarrow> if lp_total lp > 0
          then ph\<lparr>ph_layers := set_layer lid (lp\<lparr>lp_current := lp_total lp\<rparr>) (ph_layers ph)\<rparr> else ph)"

subsection \<open>Byte counts\<close>

definition round_half_even :: "nat \<Rightarrow> nat \<Rightarrow> nat" where
  "round_half_even n d =
     (let q = n div d; r = n mod d
      in if 2 * r < d \<or> (2 * r = d \<and> even q) then q else q + 1)"

definition human_bytes :: "int \<Rightarrow> string" where
  "human_bytes b =
     (if b \<ge> 2 ^ 30 then
        (let t = round_half_even (10 * nat b) (2 ^ 30) in nat_str (t div 10) @ ''.'' @ nat_str (t mod 10) @ '' GB'')
      else (if b < 0 then ''-'' else []) @ nat_str (round_half_even (nat \<bar>b\<bar>) (2 ^ 20)) @ '' MB'')"

text \<open>Half-even rounding is the nearest integer: off by at most half a unit.\<close>

lemma round_half_even_near:
  assumes "0 < d"
  shows "2 * n \<le> 2 * d * round_half_even n d + d" "2 * d * round_half_even n d \<le> 2 * n + d"
proof -
  define q r where "q = n div d" and "r = n mod d"
  have n: "n = d * q + r" "r < d" using assms by (simp_all add: q_def r_def)
  have "round_half_even n d = q \<and> 2 * r \<le> d \<or> round_half_even n d = q + 1 \<and> d \<le> 2 * r"
    by (auto simp: round_half_even_def Let_def q_def r_def)
  with n show "2 * n \<le> 2 * d * round_half_even n d + d" "2 * d * round_half_even n d \<le> 2 * n + d"
    by (auto simp: algebra_simps)
qed

subsection \<open>Emission\<close>

definition phase_totals :: "layer_table \<Rightarrow> int \<times> int" where
  "phase_totals t =
     (foldl (\<lambda>a (_, lp). i64 (a + lp_current lp)) 0 t, foldl (\<lambda>a (_, lp). i64 (a + lp_total lp)) 0 t)"

definition phase_pct :: "int \<Rightarrow> int \<Rightarrow> int" where
  "phase_pct cur tot = min 100 (i64 (cur * 100) sdiv tot)"

definition should_emit :: "pull_phase \<Rightarrow> int \<Rightarrow> int \<Rightarrow> bool" where
  "should_emit ph pct now \<longleftrightarrow>
     (pct \<ge> 100 \<and> ph_last_pct ph < 100) \<or>
     (pct - ph_last_pct ph \<ge> 5 \<or> ph_last_pct ph - pct \<ge> 5) \<or>
     (case ph_last_emit ph of None \<Rightarrow> True | Some t \<Rightarrow> now - t \<ge> min_gap)"

definition emit_phase :: "string \<Rightarrow> int \<Rightarrow> pull_phase \<Rightarrow> string option \<times> pull_phase" where
  "emit_phase label now ph =
     (let (cur, tot) = phase_totals (ph_layers ph)
      in if tot = 0 then (None, ph)
         else let pct = phase_pct cur tot
              in if \<not> should_emit ph pct now then (None, ph)
                 else (Some (label @ ellipsis @ '' '' @ itoa pct @ ''% ('' @ human_bytes cur @ '' / '' @ human_bytes tot @ '')''),
                       ph\<lparr>ph_last_pct := pct, ph_last_emit := Some now\<rparr>))"

definition observe_layer :: "pull_message \<Rightarrow> pull_phase \<Rightarrow> pull_phase" where
  "observe_layer m ph =
     (if pm_id m \<noteq> [] \<and> pm_total m > 0
      then ph\<lparr>ph_layers := set_layer (pm_id m) \<lparr>lp_current = pm_current m, lp_total = pm_total m\<rparr> (ph_layers ph)\<rparr>
      else ph)"

definition download_label :: string where "download_label = ''Pulling image''"
definition extract_label :: string where "extract_label = ''Extracting image''"

definition emit_download :: "int \<Rightarrow> pull_tracker \<Rightarrow> string option \<times> pull_tracker" where
  "emit_download now t =
     (let (l, ph) = emit_phase download_label now (pt_download t) in (l, t\<lparr>pt_download := ph\<rparr>))"

definition emit_extract :: "int \<Rightarrow> pull_tracker \<Rightarrow> string option \<times> pull_tracker" where
  "emit_extract now t =
     (let (l, ph) = emit_phase extract_label now (pt_extract t) in (l, t\<lparr>pt_extract := ph\<rparr>))"

definition tracker_update :: "int \<Rightarrow> pull_message \<Rightarrow> pull_tracker \<Rightarrow> string option \<times> pull_tracker" where
  "tracker_update now m t =
     (if pm_status m = ''Downloading'' then
        emit_download now (t\<lparr>pt_download := observe_layer m (pt_download t)\<rparr>)
      else if pm_status m = ''Download complete'' then
        emit_download now (t\<lparr>pt_download := finalize_layer (pm_id m) (pt_download t)\<rparr>)
      else if pm_status m = ''Extracting'' then
        emit_extract now (t\<lparr>pt_extract := observe_layer m (pt_extract t)\<rparr>)
      else if pm_status m = ''Pull complete'' then
        emit_extract now (t\<lparr>pt_download := finalize_layer (pm_id m) (pt_download t),
                            pt_extract := finalize_layer (pm_id m) (pt_extract t)\<rparr>)
      else (None, t))"

section \<open>The pull loop\<close>

text \<open>
  What the decoder yields: a message and the time it is handled, the end of the stream, or a
  malformed frame, after which the rest is drained unread. A stream that just stops is its end.
\<close>

datatype pull_frame = PullMsg pull_message int | PullEOF | PullMalformed

fun pull_loop :: "pull_tracker \<Rightarrow> pull_frame list \<Rightarrow> go_error option \<times> string list" where
  "pull_loop t [] = (None, [])"
| "pull_loop t (PullEOF # fs) = (None, [])"
| "pull_loop t (PullMalformed # fs) = (None, [])"
| "pull_loop t (PullMsg m now # fs) =
     (if pm_error m \<noteq> [] then (Some (Errorf ''pull: %s'' [FStr (pm_error m)]), [])
      else let (l, t') = tracker_update now m t; (e, ls) = pull_loop t' fs
           in (e, (case l of None \<Rightarrow> ls | Some x \<Rightarrow> x # ls)))"

section \<open>Throttling\<close>

text \<open>
  The reports of one phase along a stream: time and percentage of each line emitted, read off the
  phase's own last-report fields.
\<close>

fun phase_reports :: "(pull_tracker \<Rightarrow> pull_phase) \<Rightarrow> pull_tracker \<Rightarrow> (pull_message \<times> int) list \<Rightarrow> (int \<times> int) list" where
  "phase_reports sel t [] = []"
| "phase_reports sel t ((m, now) # ms) =
     (let t' = snd (tracker_update now m t)
      in if sel t' \<noteq> sel t \<and> (ph_last_emit (sel t'), ph_last_pct (sel t')) \<noteq> (ph_last_emit (sel t), ph_last_pct (sel t))
         then (now, ph_last_pct (sel t')) # phase_reports sel t' ms
         else phase_reports sel t' ms)"

definition spaced :: "int \<times> int \<Rightarrow> int \<times> int \<Rightarrow> bool" where
  "spaced a b \<longleftrightarrow> snd b - snd a \<ge> 5 \<or> snd a - snd b \<ge> 5 \<or> (snd b \<ge> 100 \<and> snd a < 100) \<or> fst b - fst a \<ge> min_gap"

fun consecutive :: "('a \<Rightarrow> 'a \<Rightarrow> bool) \<Rightarrow> 'a list \<Rightarrow> bool" where
  "consecutive P [] = True"
| "consecutive P [x] = True"
| "consecutive P (x # y # xs) = (P x y \<and> consecutive P (y # xs))"

lemma observe_layer_last [frame_simps]:
  "ph_last_pct (observe_layer m ph) = ph_last_pct ph" "ph_last_emit (observe_layer m ph) = ph_last_emit ph"
  by (simp_all add: observe_layer_def)

lemma finalize_layer_last [frame_simps]:
  "ph_last_pct (finalize_layer lid ph) = ph_last_pct ph" "ph_last_emit (finalize_layer lid ph) = ph_last_emit ph"
  by (simp_all add: finalize_layer_def split: option.splits)

lemma emit_phase_last:
  "snd (emit_phase label now ph) = ph \<or>
   ph_last_emit (snd (emit_phase label now ph)) = Some now \<and> ph_last_pct (snd (emit_phase label now ph)) \<le> 100 \<and>
   (\<forall>t. ph_last_emit ph = Some t \<longrightarrow> spaced (t, ph_last_pct ph) (now, ph_last_pct (snd (emit_phase label now ph))))"
  by (auto simp: emit_phase_def should_emit_def spaced_def phase_pct_def split_def Let_def split: option.splits)

text \<open>One message, seen from one phase: its last report stays or moves by a spaced step.\<close>

lemma tracker_update_phase:
  assumes "sel = pt_download \<or> sel = pt_extract"
  shows "let t' = snd (tracker_update now m t) in
    (ph_last_emit (sel t') = ph_last_emit (sel t) \<and> ph_last_pct (sel t') = ph_last_pct (sel t)) \<or>
    (ph_last_emit (sel t') = Some now \<and> ph_last_pct (sel t') \<le> 100 \<and>
     (\<forall>s. ph_last_emit (sel t) = Some s \<longrightarrow> spaced (s, ph_last_pct (sel t)) (now, ph_last_pct (sel t'))))"
  using assms
    emit_phase_last [of download_label now "observe_layer m (pt_download t)"]
    emit_phase_last [of download_label now "finalize_layer (pm_id m) (pt_download t)"]
    emit_phase_last [of extract_label now "observe_layer m (pt_extract t)"]
    emit_phase_last [of extract_label now "finalize_layer (pm_id m) (pt_extract t)"]
  unfolding tracker_update_def emit_download_def emit_extract_def split_def Let_def
  by (elim disjE; auto simp: frame_simps)

lemma phase_reports_spaced:
  assumes "sel = pt_download \<or> sel = pt_extract"
  shows "consecutive spaced (phase_reports sel t ms) \<and> (\<forall>(_, p) \<in> set (phase_reports sel t ms). p \<le> 100) \<and>
    (\<forall>s. ph_last_emit (sel t) = Some s \<longrightarrow> consecutive spaced ((s, ph_last_pct (sel t)) # phase_reports sel t ms))"
proof (induction ms arbitrary: t)
  case Nil
  then show ?case by simp
next
  case (Cons x ms)
  obtain m now where x: "x = (m, now)" by fastforce
  let ?t = "snd (tracker_update now m t)"
  note step = tracker_update_phase [OF assms, of now m t, unfolded Let_def]
  note IH = Cons.IH [of ?t]
  show ?case
  proof (cases "ph_last_emit (sel ?t) = ph_last_emit (sel t) \<and> ph_last_pct (sel ?t) = ph_last_pct (sel t)")
    case True
    then have "phase_reports sel t (x # ms) = phase_reports sel ?t ms" by (simp add: x Let_def)
    with IH True show ?thesis by simp
  next
    case False
    then have ne: "sel ?t \<noteq> sel t" by auto
    with False have r: "phase_reports sel t (x # ms) = (now, ph_last_pct (sel ?t)) # phase_reports sel ?t ms"
      by (auto simp: x Let_def)
    from False step have s: "ph_last_emit (sel ?t) = Some now" "ph_last_pct (sel ?t) \<le> 100"
      "\<forall>s. ph_last_emit (sel t) = Some s \<longrightarrow> spaced (s, ph_last_pct (sel t)) (now, ph_last_pct (sel ?t))"
      by auto
    from IH s(1) have "consecutive spaced ((now, ph_last_pct (sel ?t)) # phase_reports sel ?t ms)" by simp
    with r s IH show ?thesis by simp
  qed
qed

text \<open>
  (safety). Along any stream of pull messages the reported percentages of a phase never exceed
  100, and two consecutive reports of the phase are five points apart, or 2.5 seconds apart, or the
  second is the one that reaches 100: the log cannot be flooded by a chatty pull.
\<close>

theorem pull_reports_throttled:
  assumes "sel \<in> {pt_download, pt_extract}"
  shows "consecutive spaced (phase_reports sel new_pull_tracker ms) \<and>
    list_all (\<lambda>(_, p). p \<le> 100) (phase_reports sel new_pull_tracker ms)"
  using phase_reports_spaced [of sel new_pull_tracker ms] assms by (auto simp: list_all_iff)

theorem pull_reports_throttled_witness:
  "consecutive spaced (phase_reports pt_download new_pull_tracker
     [(\<lparr>pm_status = ''Downloading'', pm_id = ''a'', pm_current = 10, pm_total = 100, pm_error = []\<rparr>, 0),
      (\<lparr>pm_status = ''Downloading'', pm_id = ''a'', pm_current = 12, pm_total = 100, pm_error = []\<rparr>, 1),
      (\<lparr>pm_status = ''Download complete'', pm_id = ''a'', pm_current = 0, pm_total = 0, pm_error = []\<rparr>, 2)])"
  by (rule pull_reports_throttled [THEN conjunct1]) simp

end
