(* ===== verification/Ollama_Pull.thy ===== *)
theory Ollama_Pull imports Plans begin

text \<open>
  The model pull of an ollama container (internal/runtime/ollama_pull.go). The HTTP client is a
  function on the world, \<open>post\<close>, given the URL and the fields of the JSON body; \<open>decode\<close> is the
  JSON decoder on the terminal line, giving its status and error fields.
\<close>

datatype post_result =
    PostBuildFailed go_error
  | PostFailed go_error bool \<comment> \<open>transport error, and whether the context has ended\<close>
  | PostReadFailed go_error int string \<comment> \<open>status and what was read of the body\<close>
  | PostResponse int string

type_synonym 'w http_post = "string \<Rightarrow> (string \<times> string) list \<Rightarrow> 'w \<Rightarrow> post_result \<times> 'w"
type_synonym status_decoder = "string \<Rightarrow> go_error + string \<times> string"

definition forbidden_model_chars :: "char list" where
  "forbidden_model_chars =
     [CHR 0x00, CHR '';'', CHR ''|'', CHR ''$'', CHR 0x60, CHR ''<'', CHR ''>'', CHR 0x0A, CHR 0x0D]"

definition validate_ollama_model_name :: "string \<Rightarrow> go_error option" where
  "validate_ollama_model_name name =
     (if name = [] then Some (Errorf ''model name empty'' [])
      else if length name > 256 then Some (Errorf ''model name > 256 chars'' [])
      else case find (\<lambda>c. c \<in> set forbidden_model_chars) name of
        Some c \<Rightarrow> Some (Errorf ''model name has forbidden char %q'' [FRune c])
      | None \<Rightarrow> None)"

definition truncate_body :: "string \<Rightarrow> nat \<Rightarrow> string" where
  "truncate_body b n = (if length b \<le> n then b else take n b @ ellipsis)"

definition terminal_line :: "string \<Rightarrow> string" where
  "terminal_line trimmed =
     (case find (\<lambda>t. t \<noteq> []) (rev (map trim_space (split_on (CHR 0x0A) trimmed))) of Some t \<Rightarrow> t | None \<Rightarrow> [])"

definition check_ollama_pull_response :: "status_decoder \<Rightarrow> string \<Rightarrow> go_error option" where
  "check_ollama_pull_response decode body =
     (let trimmed = trim_space body
      in if trimmed = [] then Some (Errorf ''ollama pull: empty response body'' [])
         else case decode (terminal_line trimmed) of
           Inl e \<Rightarrow> Some (Errorf ''ollama pull: decode terminal line: %w'' [FErr e])
         | Inr (status, error) \<Rightarrow>
             if error \<noteq> [] then Some (Errorf ''ollama pull: server error: %s'' [FStr error])
             else if status \<noteq> ''success'' then Some (Errorf ''ollama pull: terminal status=%q, want success'' [FStr status])
             else None)"

definition trim_right_slash :: "string \<Rightarrow> string" where
  "trim_right_slash s = rev (dropWhile (\<lambda>c. c = CHR ''/'') (rev s))"

definition status_error :: "string \<Rightarrow> int \<Rightarrow> string \<Rightarrow> go_error" where
  "status_error what code raw =
     Errorf (what @ '': status=%d body=%s'') [FInt code, FStr (truncate_body raw 256)]"

text \<open>The retry loop, with the attempts left and the error of the previous one.\<close>

fun pull_attempts ::
  "nat \<Rightarrow> 'w http_post \<Rightarrow> status_decoder \<Rightarrow> string \<Rightarrow> (string \<times> string) list \<Rightarrow> go_error option \<Rightarrow> 'w \<Rightarrow> go_error option \<times> 'w" where
  "pull_attempts 0 post decode url body lastErr w = (lastErr, w)"
| "pull_attempts (Suc n) post decode url body lastErr w =
     (let (res, w) = post url body w
      in case res of
           PostBuildFailed e \<Rightarrow> (Some (Errorf ''ollama pull: build request: %w'' [FErr e]), w)
         | PostFailed e ended \<Rightarrow>
             let err = Errorf ''ollama pull: post: %w'' [FErr e]
             in if ended then (Some err, w) else pull_attempts n post decode url body (Some err) w
         | PostReadFailed e code part \<Rightarrow>
             pull_attempts n post decode url body (Some (Errorf ''ollama pull: read body: %w'' [FErr e])) w
         | PostResponse code raw \<Rightarrow>
             if code \<ge> 500 then pull_attempts n post decode url body (Some (status_error ''ollama pull'' code raw)) w
             else if code \<ge> 400 then (Some (status_error ''ollama pull'' code raw), w)
             else (check_ollama_pull_response decode raw, w))"

definition ollama_pull ::
  "'w http_post \<Rightarrow> status_decoder \<Rightarrow> string \<Rightarrow> string \<Rightarrow> 'w \<Rightarrow> go_error option \<times> 'w" where
  "ollama_pull post decode endpoint model w =
     (case validate_ollama_model_name model of
        Some e \<Rightarrow> (Some (Errorf ''ollama pull: %w'' [FErr e]), w)
      | None \<Rightarrow> pull_attempts 2 post decode (trim_right_slash endpoint @ ''/api/pull'')
                  [(''name'', model), (''stream'', ''false'')] None w)"

definition ollama_copy ::
  "'w http_post \<Rightarrow> string \<Rightarrow> string \<Rightarrow> string \<Rightarrow> 'w \<Rightarrow> go_error option \<times> 'w" where
  "ollama_copy post endpoint source destination w =
     (case validate_ollama_model_name source of
        Some e \<Rightarrow> (Some (Errorf ''ollama copy source: %w'' [FErr e]), w)
      | None \<Rightarrow> (case validate_ollama_model_name destination of
          Some e \<Rightarrow> (Some (Errorf ''ollama copy destination: %w'' [FErr e]), w)
        | None \<Rightarrow>
            let (res, w) = post (trim_right_slash endpoint @ ''/api/copy'') [(''source'', source), (''destination'', destination)] w
            in (case res of
                  PostBuildFailed e \<Rightarrow> Some (Errorf ''ollama copy: build request: %w'' [FErr e])
                | PostFailed e ended \<Rightarrow> Some (Errorf ''ollama copy: post: %w'' [FErr e])
                | PostReadFailed e code part \<Rightarrow> if code \<ge> 400 then Some (status_error ''ollama copy'' code part) else None
                | PostResponse code raw \<Rightarrow> if code \<ge> 400 then Some (status_error ''ollama copy'' code raw) else None, w)))"

definition env_value :: "(string \<rightharpoonup> string) \<Rightarrow> string \<Rightarrow> string" where
  "env_value m k = (case m k of Some v \<Rightarrow> v | None \<Rightarrow> [])"

definition ollama_pull_if_needed ::
  "'w http_post \<Rightarrow> status_decoder \<Rightarrow> plan \<Rightarrow> string \<Rightarrow> 'w \<Rightarrow> go_error option \<times> 'w" where
  "ollama_pull_if_needed post decode p endpoint w =
     (let model = env_value (pl_env p) ''INFERIA_OLLAMA_MODEL''
      in if model = [] then (None, w)
         else let (e, w) = ollama_pull post decode endpoint model w
              in case e of
                   Some err \<Rightarrow> (Some err, w)
                 | None \<Rightarrow>
                     let served = env_value (pl_env p) ''INFERIA_OLLAMA_SERVED_NAME''
                     in if served \<noteq> [] \<and> served \<noteq> model
                        then let (e, w) = ollama_copy post endpoint model served w
                             in (map_option (\<lambda>err. Errorf ''ollama re-tag mirror ref to served name: %w'' [FErr err]) e, w)
                        else (None, w))"

section \<open>Properties\<close>

lemma pull_attempts_frame:
  assumes "\<And>url b w. P w \<Longrightarrow> P (snd (post url b w))" "P w"
  shows "P (snd (pull_attempts n post decode url body e w))"
  using assms(2)
proof (induction n arbitrary: e w)
  case 0
  then show ?case by simp
next
  case (Suc n)
  obtain res w' where r: "post url body w = (res, w')" by fastforce
  with assms(1) [of w url body] Suc.prems have "P w'" by simp
  with Suc.IH r show ?case by (auto simp: Let_def split: post_result.splits)
qed

text \<open>A frame rule: what every request preserves, the whole pull preserves.\<close>

lemma ollama_pull_frame:
  assumes "\<And>url b w. P w \<Longrightarrow> P (snd (post url b w))" "P w"
  shows "P (snd (ollama_pull_if_needed post decode p endpoint w))"
proof -
  have pull: "P (snd (ollama_pull post decode ep m w))" for ep m
    using assms by (auto simp: ollama_pull_def intro: pull_attempts_frame split: option.splits)
  have copy: "P (snd (ollama_copy post ep a b w'))" if "P w'" for ep a b w'
    using assms(1) that by (auto simp: ollama_copy_def Let_def split_def split: option.splits)
  show ?thesis
    using assms(2) pull copy
    by (auto simp: ollama_pull_if_needed_def Let_def split_def split: option.splits)
qed

lemma pull_attempts_success:
  assumes "fst (pull_attempts n post decode url body (Some e) w) = None"
  shows "\<exists>w0 code raw. fst (post url body w0) = PostResponse code raw \<and> code < 400 \<and>
    check_ollama_pull_response decode raw = None"
  using assms
proof (induction n arbitrary: e w)
  case 0
  then show ?case by simp
next
  case (Suc n)
  obtain res w' where r: "post url body w = (res, w')" by fastforce
  show ?case
  proof (cases res)
    case (PostResponse code raw)
    show ?thesis
    proof (cases "code \<ge> 400")
      case True
      with Suc PostResponse r show ?thesis by (auto simp: Let_def split: if_splits)
    next
      case False
      with Suc.prems PostResponse r have "fst (post url body w) = PostResponse code raw \<and> code < 400 \<and>
        check_ollama_pull_response decode raw = None"
        by (simp add: Let_def)
      then show ?thesis by blast
    qed
  qed (use Suc r in \<open>auto simp: Let_def split: if_splits\<close>)
qed

text \<open>
  (safety). A pull is reported as done only if some response to the pull request had a status
  below 400 and its last non-empty line says success without an error; a bad model name sends no
  request at all.
\<close>

theorem ollama_pull_success_means_success:
  assumes "fst (ollama_pull post decode endpoint model w) = None"
  shows "validate_ollama_model_name model = None \<and>
    (\<exists>w0 code raw. fst (post (trim_right_slash endpoint @ ''/api/pull'') [(''name'', model), (''stream'', ''false'')] w0) =
        PostResponse code raw \<and> code < 400 \<and> trim_space raw \<noteq> [] \<and>
        decode (terminal_line (trim_space raw)) = Inr (''success'', []))"
proof -
  let ?url = "trim_right_slash endpoint @ ''/api/pull''" and ?b = "[(''name'', model), (''stream'', ''false'')]"
  from assms have v: "validate_ollama_model_name model = None"
    and f: "fst (pull_attempts 2 post decode ?url ?b None w) = None"
    by (auto simp: ollama_pull_def split: option.splits)
  obtain res w' where r: "post ?url ?b w = (res, w')" by fastforce
  have "\<exists>w0 code raw. fst (post ?url ?b w0) = PostResponse code raw \<and> code < 400 \<and>
      check_ollama_pull_response decode raw = None"
  proof (cases "\<exists>code raw. res = PostResponse code raw \<and> code < 400")
    case True
    with f r show ?thesis by (auto simp: numeral_2_eq_2 Let_def intro!: exI [of _ w])
  next
    case False
    with f r have "\<exists>e. fst (pull_attempts 1 post decode ?url ?b (Some e) w') = None"
      by (auto simp: numeral_2_eq_2 Let_def split: post_result.splits if_splits)
    then obtain e where "fst (pull_attempts 1 post decode ?url ?b (Some e) w') = None" by blast
    then show ?thesis by (rule pull_attempts_success)
  qed
  with v show ?thesis
    by (fastforce simp: check_ollama_pull_response_def Let_def split: if_splits sum.splits prod.splits)
qed

theorem ollama_pull_success_means_success_witness:
  "\<exists>w0 code raw. fst ((\<lambda>url b w. (if w = 0 then PostResponse 503 ''busy'' else PostResponse 200 ''ok'', w + 1))
      (''http://h'' @ ''/api/pull'') [(''name'', ''m''), (''stream'', ''false'')] (w0 :: nat)) = PostResponse code raw \<and>
     code < 400"
  using ollama_pull_success_means_success
    [of "\<lambda>url b w. (if w = 0 then PostResponse 503 ''busy'' else PostResponse 200 ''ok'', w + 1)"
        "\<lambda>_. Inr (''success'', [])" "''http://h''" "''m''" "0 :: nat"]
  by (auto simp: ollama_pull_def validate_ollama_model_name_def forbidden_model_chars_def numeral_2_eq_2 Let_def
      check_ollama_pull_response_def trim_space_def is_space_def trim_right_slash_def)

end
