(* ===== verification/Docker_Client.thy ===== *)
theory Docker_Client imports Container_Spec begin

text \<open>
  The Docker surface the runtime uses (interface Client of internal/runtime/dockerclient/client.go)
  and the in-memory implementation of it that the repository ships
  (internal/runtime/dockerclient/fake/fake.go). An operation takes the world it acts on and returns
  the next one. It runs under the caller's request context, which may have been cancelled, or under
  the fresh one of \<open>cleanupCtx\<close>.

  What the runtime needs of any client is the locale \<open>docker_client\<close>; the real engine, over the calls
  of the Docker SDK, is in \<open>Docker_Engine\<close>.
\<close>

datatype ctx = RequestCtx | CleanupCtx

text \<open>The state of a container, and the interface. The bytes \<open>Logs\<close> returns come with its error.\<close>

record inspect =
  is_id :: string
  is_running :: bool
  is_exit_code :: int
  is_status :: string

record 'w docker_ops =
  dk_ping :: "ctx \<Rightarrow> 'w \<Rightarrow> go_error option \<times> 'w"
  dk_ensure_network :: "ctx \<Rightarrow> string \<Rightarrow> 'w \<Rightarrow> go_error option \<times> 'w"
  dk_pull :: "ctx \<Rightarrow> string \<Rightarrow> 'w \<Rightarrow> (go_error option \<times> string list) \<times> 'w"
  dk_create :: "ctx \<Rightarrow> container_spec \<Rightarrow> 'w \<Rightarrow> (go_error + string) \<times> 'w"
  dk_start :: "ctx \<Rightarrow> string \<Rightarrow> 'w \<Rightarrow> go_error option \<times> 'w"
  dk_stop :: "ctx \<Rightarrow> string \<Rightarrow> int \<Rightarrow> 'w \<Rightarrow> go_error option \<times> 'w"
  dk_remove :: "ctx \<Rightarrow> string \<Rightarrow> 'w \<Rightarrow> go_error option \<times> 'w"
  dk_remove_image :: "ctx \<Rightarrow> string \<Rightarrow> 'w \<Rightarrow> go_error option \<times> 'w"
  dk_remove_by_name :: "ctx \<Rightarrow> string \<Rightarrow> 'w \<Rightarrow> go_error option \<times> 'w"
  dk_inspect :: "ctx \<Rightarrow> string \<Rightarrow> 'w \<Rightarrow> go_error + inspect"
  dk_logs :: "ctx \<Rightarrow> string \<Rightarrow> int \<Rightarrow> 'w \<Rightarrow> string \<times> go_error option"

text \<open>
  \<open>own w\<close> is the set of ids of the containers that exist, \<open>sound w\<close> the condition under which
  a removal on a live context leaves the container gone (no daemon failure), \<open>live c w\<close> whether context \<open>c\<close> is still
  live; a context that has ended stays so. Only Create adds a container: the one whose id it returns,
  and none when it fails on a context that is still live; a Create that is cut off by its context may
  have made one all the same. A removal that reports success has removed the container.
\<close>

locale docker_client =
  fixes dk :: "'w docker_ops"
    and own :: "'w \<Rightarrow> string set"
    and sound :: "'w \<Rightarrow> bool"
    and live :: "ctx \<Rightarrow> 'w \<Rightarrow> bool"
  assumes pull_own: "own (snd (dk_pull dk c img w)) = own w"
    and create_own: "fst (dk_create dk c s w) = Inr cid \<Longrightarrow> own (snd (dk_create dk c s w)) = insert cid (own w)"
    and create_failed: "fst (dk_create dk c s w) = Inl e \<Longrightarrow> live c (snd (dk_create dk c s w)) \<Longrightarrow>
      own (snd (dk_create dk c s w)) = own w"
    and create_one: "\<exists>x. own (snd (dk_create dk c s w)) \<subseteq> insert x (own w)"
    and create_id: "fst (dk_create dk c s w) = Inr cid \<Longrightarrow> cid \<noteq> []"
    and start_own: "own (snd (dk_start dk c cid w)) = own w"
    and stop_own: "own (snd (dk_stop dk c cid n w)) = own w"
    and remove_own: "own (snd (dk_remove dk c cid w)) \<subseteq> own w"
    and remove_done: "fst (dk_remove dk c cid w) = None \<Longrightarrow> cid \<notin> own (snd (dk_remove dk c cid w))"
    and remove_gone: "sound w \<Longrightarrow> live c (snd (dk_remove dk c cid w)) \<Longrightarrow>
      cid \<notin> own (snd (dk_remove dk c cid w))"
    and remove_image_own: "own (snd (dk_remove_image dk c img w)) = own w"
    and remove_by_name_own: "own (snd (dk_remove_by_name dk c nm w)) \<subseteq> own w"
    and cleanup_live: "live CleanupCtx w"
    and sound_kept: "sound (snd (dk_pull dk c img w)) = sound w" "sound (snd (dk_create dk c s w)) = sound w"
      "sound (snd (dk_start dk c cid w)) = sound w" "sound (snd (dk_stop dk c cid n w)) = sound w"
      "sound (snd (dk_remove dk c cid w)) = sound w" "sound (snd (dk_remove_image dk c img w)) = sound w"
      "sound (snd (dk_remove_by_name dk c nm w)) = sound w"
    and live_before: "live c' (snd (dk_pull dk c img w)) \<Longrightarrow> live c' w" "live c' (snd (dk_create dk c s w)) \<Longrightarrow> live c' w"
      "live c' (snd (dk_start dk c cid w)) \<Longrightarrow> live c' w" "live c' (snd (dk_stop dk c cid n w)) \<Longrightarrow> live c' w"
      "live c' (snd (dk_remove dk c cid w)) \<Longrightarrow> live c' w" "live c' (snd (dk_remove_image dk c img w)) \<Longrightarrow> live c' w"
      "live c' (snd (dk_remove_by_name dk c nm w)) \<Longrightarrow> live c' w"
begin

text \<open>Stop, then remove: on a context that is live at the end the container is gone.\<close>

lemma stop_remove_own:
  "own (snd (dk_remove dk c cid (snd (dk_stop dk c cid n w)))) \<subseteq> own w"
  using remove_own [of c cid "snd (dk_stop dk c cid n w)"] by (simp add: stop_own)

lemma stop_remove_sound:
  "sound (snd (dk_remove dk c cid (snd (dk_stop dk c cid n w)))) = sound w"
  by (simp add: sound_kept)

lemma stop_remove_done:
  assumes "fst (dk_remove dk c cid (snd (dk_stop dk c cid n w))) = None"
  shows "own (snd (dk_remove dk c cid (snd (dk_stop dk c cid n w)))) \<subseteq> own w - {cid}"
  using remove_done [OF assms] stop_remove_own [of c cid n w] by auto

lemma stop_remove_gone:
  assumes "sound w" "live c (snd (dk_remove dk c cid (snd (dk_stop dk c cid n w))))"
  shows "own (snd (dk_remove dk c cid (snd (dk_stop dk c cid n w)))) \<subseteq> own w - {cid}"
  using remove_gone [of "snd (dk_stop dk c cid n w)" c cid] stop_remove_own [of c cid n w] assms
  by (auto simp: sound_kept)

end

section \<open>The in-memory client\<close>

text \<open>
  The fields of the fake: what was asked of it, its containers and names, and the injected errors.
  \<open>fk_cancelled\<close> says whether the request context has been cancelled.
\<close>

record fake_errors =
  fe_ping :: "go_error option"
  fe_ensure_network :: "go_error option"
  fe_pull :: "go_error option"
  fe_create :: "go_error option"
  fe_start :: "go_error option"
  fe_stop :: "go_error option"
  fe_remove :: "go_error option"
  fe_remove_image :: "go_error option"
  fe_remove_by_name :: "go_error option"
  fe_inspect :: "go_error option"
  fe_logs :: "go_error option"

definition no_fake_errors :: fake_errors where
  "no_fake_errors = \<lparr>fe_ping = None, fe_ensure_network = None, fe_pull = None, fe_create = None, fe_start = None,
     fe_stop = None, fe_remove = None, fe_remove_image = None, fe_remove_by_name = None,
     fe_inspect = None, fe_logs = None\<rparr>"

record fake_calls =
  fc_pinged :: nat
  fc_networks :: "string list"
  fc_pulled :: "string list"
  fc_images_removed :: "string list"
  fc_created :: "container_spec list"
  fc_started :: "string list"
  fc_stopped :: "string list"
  fc_removed :: "string list"
  fc_removed_by_name :: "string list"

definition no_fake_calls :: fake_calls where
  "no_fake_calls = \<lparr>fc_pinged = 0, fc_networks = [], fc_pulled = [], fc_images_removed = [], fc_created = [],
     fc_started = [], fc_stopped = [], fc_removed = [], fc_removed_by_name = []\<rparr>"

record fake_client =
  fk_calls :: fake_calls
  fk_progress_lines :: "string list"
  fk_containers :: "string \<rightharpoonup> inspect"
  fk_names :: "string \<rightharpoonup> string"
  fk_next_id :: nat
  fk_errors :: fake_errors
  fk_fake_logs :: string
  fk_cancelled :: bool

definition new_fake :: fake_client where
  "new_fake = \<lparr>fk_calls = no_fake_calls, fk_progress_lines = [], fk_containers = Map.empty, fk_names = Map.empty,
     fk_next_id = 0, fk_errors = no_fake_errors, fk_fake_logs = [], fk_cancelled = False\<rparr>"

definition ctx_err :: "ctx \<Rightarrow> 'a fake_client_scheme \<Rightarrow> go_error option" where
  "ctx_err c w = (if c = RequestCtx \<and> fk_cancelled w then Some (Errorf ''context canceled'' []) else None)"

definition log_call :: "(fake_calls \<Rightarrow> fake_calls) \<Rightarrow> 'a fake_client_scheme \<Rightarrow> 'a fake_client_scheme" where
  "log_call f w = w\<lparr>fk_calls := f (fk_calls w)\<rparr>"

definition fake_ping :: "ctx \<Rightarrow> 'a fake_client_scheme \<Rightarrow> go_error option \<times> 'a fake_client_scheme" where
  "fake_ping c w = (fe_ping (fk_errors w), log_call (fc_pinged_update Suc) w)"

definition fake_ensure_network :: "ctx \<Rightarrow> string \<Rightarrow> 'a fake_client_scheme \<Rightarrow> go_error option \<times> 'a fake_client_scheme" where
  "fake_ensure_network c nm w =
     (case fe_ensure_network (fk_errors w) of
        Some e \<Rightarrow> (Some e, w)
      | None \<Rightarrow> (None, log_call (fc_networks_update (\<lambda>xs. xs @ [nm])) w))"

definition fake_pull :: "ctx \<Rightarrow> string \<Rightarrow> 'a fake_client_scheme \<Rightarrow> (go_error option \<times> string list) \<times> 'a fake_client_scheme" where
  "fake_pull c img w =
     (case fe_pull (fk_errors w) of
        Some e \<Rightarrow> ((Some e, []), w)
      | None \<Rightarrow> ((None, fk_progress_lines w), log_call (fc_pulled_update (\<lambda>xs. xs @ [img])) w))"

definition fake_create :: "ctx \<Rightarrow> container_spec \<Rightarrow> 'a fake_client_scheme \<Rightarrow> (go_error + string) \<times> 'a fake_client_scheme" where
  "fake_create c s w =
     (case fe_create (fk_errors w) of
        Some e \<Rightarrow> (Inl e, w)
      | None \<Rightarrow>
          if cs_name s \<noteq> [] \<and> fk_names w (cs_name s) \<noteq> None then
            (Inl (Errorf ''Error response from daemon: Conflict. The container name %q is already in use''
               [FStr (''/'' @ cs_name s)]), w)
          else let cid = ''fake-id-'' @ cs_name s;
                   w = log_call (fc_created_update (\<lambda>xs. xs @ [s])) (w\<lparr>fk_next_id := fk_next_id w + 1\<rparr>)
               in (Inr cid,
                   w\<lparr>fk_containers := (fk_containers w)(cid \<mapsto>
                       \<lparr>is_id = cid, is_running = False, is_exit_code = 0, is_status = ''created''\<rparr>),
                     fk_names := (if cs_name s \<noteq> [] then (fk_names w)(cs_name s \<mapsto> cid) else fk_names w)\<rparr>))"

definition set_inspect :: "string \<Rightarrow> bool \<Rightarrow> string \<Rightarrow> 'a fake_client_scheme \<Rightarrow> 'a fake_client_scheme" where
  "set_inspect cid run st w =
     (case fk_containers w cid of
        None \<Rightarrow> w
      | Some s \<Rightarrow> w\<lparr>fk_containers := (fk_containers w)(cid \<mapsto> s\<lparr>is_running := run, is_status := st\<rparr>)\<rparr>)"

definition fake_start :: "ctx \<Rightarrow> string \<Rightarrow> 'a fake_client_scheme \<Rightarrow> go_error option \<times> 'a fake_client_scheme" where
  "fake_start c cid w =
     (case fe_start (fk_errors w) of
        Some e \<Rightarrow> (Some e, w)
      | None \<Rightarrow> (None, set_inspect cid True ''running'' (log_call (fc_started_update (\<lambda>xs. xs @ [cid])) w)))"

definition fake_stop :: "ctx \<Rightarrow> string \<Rightarrow> int \<Rightarrow> 'a fake_client_scheme \<Rightarrow> go_error option \<times> 'a fake_client_scheme" where
  "fake_stop c cid n w =
     (case fe_stop (fk_errors w) of
        Some e \<Rightarrow> (Some e, w)
      | None \<Rightarrow> (case ctx_err c w of
          Some e \<Rightarrow> (Some e, w)
        | None \<Rightarrow> (None, set_inspect cid False ''exited'' (log_call (fc_stopped_update (\<lambda>xs. xs @ [cid])) w))))"

definition forget_name :: "string \<Rightarrow> (string \<rightharpoonup> string) \<Rightarrow> (string \<rightharpoonup> string)" where
  "forget_name cid m = (\<lambda>n. if m n = Some cid then None else m n)"

definition fake_remove :: "ctx \<Rightarrow> string \<Rightarrow> 'a fake_client_scheme \<Rightarrow> go_error option \<times> 'a fake_client_scheme" where
  "fake_remove c cid w =
     (case fe_remove (fk_errors w) of
        Some e \<Rightarrow> (Some e, w)
      | None \<Rightarrow> (case ctx_err c w of
          Some e \<Rightarrow> (Some e, w)
        | None \<Rightarrow>
            (None, (log_call (fc_removed_update (\<lambda>xs. xs @ [cid])) w)
               \<lparr>fk_containers := (fk_containers w)(cid := None), fk_names := forget_name cid (fk_names w)\<rparr>)))"

definition fake_remove_image :: "ctx \<Rightarrow> string \<Rightarrow> 'a fake_client_scheme \<Rightarrow> go_error option \<times> 'a fake_client_scheme" where
  "fake_remove_image c img w =
     (case fe_remove_image (fk_errors w) of
        Some e \<Rightarrow> (Some e, w)
      | None \<Rightarrow> (None, log_call (fc_images_removed_update (\<lambda>xs. xs @ [img])) w))"

definition fake_remove_by_name :: "ctx \<Rightarrow> string \<Rightarrow> 'a fake_client_scheme \<Rightarrow> go_error option \<times> 'a fake_client_scheme" where
  "fake_remove_by_name c nm w =
     (case fe_remove_by_name (fk_errors w) of
        Some e \<Rightarrow> (Some e, w)
      | None \<Rightarrow>
          let w = log_call (fc_removed_by_name_update (\<lambda>xs. xs @ [nm])) w
          in (None, (case fk_names w nm of
               None \<Rightarrow> w
             | Some cid \<Rightarrow> w\<lparr>fk_containers := (fk_containers w)(cid := None), fk_names := (fk_names w)(nm := None)\<rparr>)))"

definition fake_inspect :: "ctx \<Rightarrow> string \<Rightarrow> 'a fake_client_scheme \<Rightarrow> go_error + inspect" where
  "fake_inspect c cid w =
     (case fe_inspect (fk_errors w) of
        Some e \<Rightarrow> Inl e
      | None \<Rightarrow> (case fk_containers w cid of None \<Rightarrow> Inl (Errorf ''not found'' []) | Some s \<Rightarrow> Inr s))"

definition fake_logs :: "ctx \<Rightarrow> string \<Rightarrow> int \<Rightarrow> 'a fake_client_scheme \<Rightarrow> string \<times> go_error option" where
  "fake_logs c cid n w =
     (case fe_logs (fk_errors w) of Some e \<Rightarrow> ([], Some e) | None \<Rightarrow> (fk_fake_logs w, None))"

definition mark_exited :: "string \<Rightarrow> int \<Rightarrow> 'a fake_client_scheme \<Rightarrow> 'a fake_client_scheme" where
  "mark_exited cid code w =
     (case fk_containers w cid of
        None \<Rightarrow> w
      | Some s \<Rightarrow> w\<lparr>fk_containers := (fk_containers w)(cid \<mapsto>
          s\<lparr>is_running := False, is_status := ''exited'', is_exit_code := code\<rparr>)\<rparr>)"

definition fake_docker :: "'a fake_client_scheme docker_ops" where
  "fake_docker =
     \<lparr>dk_ping = fake_ping, dk_ensure_network = fake_ensure_network, dk_pull = fake_pull, dk_create = fake_create,
      dk_start = fake_start, dk_stop = fake_stop, dk_remove = fake_remove, dk_remove_image = fake_remove_image,
      dk_remove_by_name = fake_remove_by_name, dk_inspect = fake_inspect, dk_logs = fake_logs\<rparr>"

definition fake_own :: "'a fake_client_scheme \<Rightarrow> string set" where
  "fake_own w = dom (fk_containers w)"

definition fake_sound :: "'a fake_client_scheme \<Rightarrow> bool" where
  "fake_sound w \<longleftrightarrow> fe_remove (fk_errors w) = None"

definition fake_live :: "ctx \<Rightarrow> 'a fake_client_scheme \<Rightarrow> bool" where
  "fake_live c w \<longleftrightarrow> c = CleanupCtx \<or> \<not> fk_cancelled w"

lemmas fake_ops_defs = fake_ping_def fake_ensure_network_def fake_pull_def fake_create_def fake_start_def
  fake_stop_def fake_remove_def fake_remove_image_def fake_remove_by_name_def

lemmas fake_state_defs = fake_own_def fake_sound_def fake_live_def ctx_err_def log_call_def set_inspect_def

lemma fake_docker_sel [simp]:
  "dk_ping fake_docker = fake_ping" "dk_ensure_network fake_docker = fake_ensure_network"
  "dk_pull fake_docker = fake_pull" "dk_create fake_docker = fake_create" "dk_start fake_docker = fake_start"
  "dk_stop fake_docker = fake_stop" "dk_remove fake_docker = fake_remove"
  "dk_remove_image fake_docker = fake_remove_image" "dk_remove_by_name fake_docker = fake_remove_by_name"
  by (simp_all add: fake_docker_def)

text \<open>The fake provides the contract; its removals succeed unless it was told to fail them.\<close>

interpretation fake: docker_client "fake_docker :: 'a fake_client_scheme docker_ops" fake_own fake_sound fake_live
  by unfold_locales
    (auto simp: fake_ops_defs fake_state_defs Let_def split: option.splits if_splits)

text \<open>What Docker calls a conflict: a name in use cannot be created again, a cleared one can.\<close>

lemma fake_name_conflict:
  "fk_names w (cs_name s) = Some cid \<Longrightarrow> cs_name s \<noteq> [] \<Longrightarrow> \<exists>e. fst (fake_create c s w) = Inl e"
  by (auto simp: fake_create_def split: option.splits)

lemma fake_cleared_name_creates:
  assumes "fe_remove_by_name (fk_errors w) = None" "fe_create (fk_errors w) = None"
  shows "fst (fake_create c s (snd (fake_remove_by_name c' (cs_name s) w))) = Inr (''fake-id-'' @ cs_name s)"
  using assms by (auto simp: fake_create_def fake_remove_by_name_def log_call_def Let_def split: option.splits)

end
