(* ===== verification/Deploy_Group.thy ===== *)
theory Deploy_Group imports Plans begin

text \<open>
  Deployment groups (internal/runtime/deployment.go): the prefill and decode containers of one
  deployment and the two round-robin counters the proxy draws endpoints with. The counters are
  32-bit and wrap.
\<close>

record container_info =
  ci_container_id :: string
  ci_host_port :: int
  ci_role :: kv_role
  ci_replica_idx :: nat

record deployment_group =
  dg_id :: string
  dg_model :: string
  dg_prefill :: "container_info list"
  dg_decode :: "container_info list"
  dg_prefill_next :: "32 word"
  dg_decode_next :: "32 word"

definition local_endpoint :: "int \<Rightarrow> string" where
  "local_endpoint port = ''http://127.0.0.1:'' @ itoa port"

definition next_prefill :: "deployment_group \<Rightarrow> string \<times> deployment_group" where
  "next_prefill g =
     (if dg_prefill g = [] then ([], g)
      else let i = dg_prefill_next g;
               ci = dg_prefill g ! (unat i mod length (dg_prefill g))
           in (local_endpoint (ci_host_port ci), g\<lparr>dg_prefill_next := i + 1\<rparr>))"

definition next_decode :: "deployment_group \<Rightarrow> string \<times> deployment_group" where
  "next_decode g =
     (if dg_decode g = [] then ([], g)
      else let i = dg_decode_next g;
               ci = dg_decode g ! (unat i mod length (dg_decode g))
           in (local_endpoint (ci_host_port ci), g\<lparr>dg_decode_next := i + 1\<rparr>))"

definition prefill_pool :: "deployment_group \<Rightarrow> string list" where
  "prefill_pool g = map (\<lambda>ci. local_endpoint (ci_host_port ci)) (dg_prefill g)"

definition decode_pool :: "deployment_group \<Rightarrow> string list" where
  "decode_pool g = map (\<lambda>ci. local_endpoint (ci_host_port ci)) (dg_decode g)"

section \<open>The contract of an endpoint source\<close>

fun draw_endpoints :: "('g \<Rightarrow> string \<times> 'g) \<Rightarrow> nat \<Rightarrow> 'g \<Rightarrow> string list \<times> 'g" where
  "draw_endpoints nxt 0 g = ([], g)"
| "draw_endpoints nxt (Suc n) g =
     (let (e, g') = nxt g; (es, g'') = draw_endpoints nxt n g' in (e # es, g''))"

locale endpoint_source =
  fixes nxt :: "'g \<Rightarrow> string \<times> 'g"
    and pool :: "'g \<Rightarrow> string list"
    and ctr :: "'g \<Rightarrow> 32 word"
  assumes nxt_endpoint: "pool g \<noteq> [] \<Longrightarrow> fst (nxt g) = pool g ! (unat (ctr g) mod length (pool g))"
    and nxt_ctr: "pool g \<noteq> [] \<Longrightarrow> ctr (snd (nxt g)) = ctr g + 1"
    and nxt_pool: "pool (snd (nxt g)) = pool g"
    and nxt_empty: "pool g = [] \<Longrightarrow> nxt g = ([], g)"
begin

lemma nxt_in_pool: "pool g \<noteq> [] \<Longrightarrow> fst (nxt g) \<in> set (pool g)"
  by (simp add: nxt_endpoint)

text \<open>The draws follow the counter, which wraps at \<open>2 ^ 32\<close>.\<close>

lemma draw_nth:
  "pool g \<noteq> [] \<Longrightarrow> j < n \<Longrightarrow>
     fst (draw_endpoints nxt n g) ! j = pool g ! (unat (ctr g + of_nat j) mod length (pool g))"
proof (induction n arbitrary: g j)
  case 0
  then show ?case by simp
next
  case (Suc n)
  obtain e g' where e: "nxt g = (e, g')" by fastforce
  have g': "pool g' = pool g" "ctr g' = ctr g + 1" "e = pool g ! (unat (ctr g) mod length (pool g))"
    using nxt_pool [of g] nxt_ctr [of g] nxt_endpoint [of g] Suc.prems(1) e by simp_all
  show ?case
  proof (cases j)
    case 0
    with e g' show ?thesis by (simp add: split_def Let_def)
  next
    case (Suc k)
    with Suc.IH [of g' k] Suc.prems e g' show ?thesis
      by (simp add: split_def Let_def add.assoc)
  qed
qed

lemma length_draw [simp]: "length (fst (draw_endpoints nxt n g)) = n"
  by (induction n arbitrary: g) (auto simp: split_def Let_def)

lemma draw_in_pool: "pool g \<noteq> [] \<Longrightarrow> set (fst (draw_endpoints nxt n g)) \<subseteq> set (pool g)"
proof
  fix x
  assume p: "pool g \<noteq> []" and "x \<in> set (fst (draw_endpoints nxt n g))"
  then obtain j where "j < n" "x = fst (draw_endpoints nxt n g) ! j"
    by (auto simp: in_set_conv_nth [where x = x])
  with p show "x \<in> set (pool g)" by (simp add: draw_nth)
qed

text \<open>Without a wrap in between, as many draws as there are replicas are a rotation of the pool.\<close>

lemma draw_round:
  assumes "pool g \<noteq> []" "unat (ctr g) + length (pool g) \<le> 2 ^ 32"
  shows "fst (draw_endpoints nxt (length (pool g)) g) = rotate (unat (ctr g)) (pool g)"
proof (rule nth_equalityI)
  fix j
  assume "j < length (fst (draw_endpoints nxt (length (pool g)) g))"
  then have j: "j < length (pool g)" by simp
  with assms have "unat (ctr g + of_nat j) = unat (ctr g) + j"
    by (simp add: unat_word_ariths unat_of_nat)
  with assms j show "fst (draw_endpoints nxt (length (pool g)) g) ! j = rotate (unat (ctr g)) (pool g) ! j"
    by (simp add: draw_nth nth_rotate add.commute)
qed simp

end

interpretation prefill_rr: endpoint_source next_prefill prefill_pool dg_prefill_next
  by unfold_locales (auto simp: next_prefill_def prefill_pool_def Let_def)

interpretation decode_rr: endpoint_source next_decode decode_pool dg_decode_next
  by unfold_locales (auto simp: next_decode_def decode_pool_def Let_def)

section \<open>Properties\<close>

text \<open>
  (functional). One round over the prefill replicas uses each of them once, in the order of the
  group starting at the counter, as long as the counter does not wrap within the round.
\<close>

theorem prefill_round_is_fair:
  assumes "dg_prefill g \<noteq> []"
    and "unat (dg_prefill_next g) + length (dg_prefill g) \<le> 2 ^ 32"
  shows "fst (draw_endpoints next_prefill (length (dg_prefill g)) g) =
    rotate (unat (dg_prefill_next g)) (map (\<lambda>ci. local_endpoint (ci_host_port ci)) (dg_prefill g))"
  using prefill_rr.draw_round [of g] assms by (simp add: prefill_pool_def)

theorem prefill_round_is_fair_witness:
  "fst (draw_endpoints next_prefill 2
     \<lparr>dg_id = ''d'', dg_model = ''m'',
      dg_prefill = [\<lparr>ci_container_id = ''c0'', ci_host_port = 19000, ci_role = KvRoleProducer, ci_replica_idx = 0\<rparr>,
                    \<lparr>ci_container_id = ''c1'', ci_host_port = 19001, ci_role = KvRoleProducer, ci_replica_idx = 1\<rparr>],
      dg_decode = [], dg_prefill_next = 1, dg_decode_next = 0\<rparr>) =
   [local_endpoint 19001, local_endpoint 19000]"
  (is "fst (draw_endpoints next_prefill 2 ?g) = _")
proof -
  have "fst (draw_endpoints next_prefill (length (dg_prefill ?g)) ?g) =
    rotate (unat (dg_prefill_next ?g)) (map (\<lambda>ci. local_endpoint (ci_host_port ci)) (dg_prefill ?g))"
    by (rule prefill_round_is_fair) simp_all
  then show ?thesis by (simp add: numeral_2_eq_2 rotate_drop_take)
qed

text \<open>
  (bounds). With three replicas the wrap of the 32-bit counter breaks the rotation: the two
  draws around it hit the same replica.
\<close>

theorem prefill_wrap_repeats_replica:
  assumes "length (dg_prefill g) = 3" and "dg_prefill_next g = - 1"
  shows "fst (draw_endpoints next_prefill 2 g) =
    [local_endpoint (ci_host_port (dg_prefill g ! 0)), local_endpoint (ci_host_port (dg_prefill g ! 0))]"
proof -
  have "dg_prefill g \<noteq> []" using assms(1) by auto
  moreover have "unat (- 1 :: 32 word) mod 3 = 0" by (simp add: unsigned_minus_1_eq_mask mask_eq_exp_minus_1)
  ultimately show ?thesis
    using assms by (simp add: numeral_2_eq_2 next_prefill_def Let_def)
qed

theorem prefill_wrap_repeats_replica_witness:
  "fst (draw_endpoints next_prefill 2
     \<lparr>dg_id = ''d'', dg_model = ''m'',
      dg_prefill = map (\<lambda>i. \<lparr>ci_container_id = ''c'', ci_host_port = 19000 + int i, ci_role = KvRoleProducer,
                              ci_replica_idx = i\<rparr>) [0, 1, 2],
      dg_decode = [], dg_prefill_next = - 1, dg_decode_next = 0\<rparr>) =
   [local_endpoint 19000, local_endpoint 19000]"
  (is "fst (draw_endpoints next_prefill 2 ?g) = _")
  using prefill_wrap_repeats_replica [of ?g] by simp

end
