(* ===== verification/Progress.thy ===== *)
theory Progress imports Go_Lib begin

text \<open>
  The progress log of a deployment (internal/runtime/progress.go): the buffered lifecycle lines,
  the followers' channels, and the terminal mark that closes them. Channels live in a store of
  their own, because followers keep reading a channel after the log has dropped it.
\<close>

record follower_chan =
  fc_buf :: "string list"
  fc_closed :: bool

record progress_log =
  pr_lines :: "string list"
  pr_subs :: "nat set"
  pr_chans :: "nat \<rightharpoonup> follower_chan"
  pr_fresh :: nat
  pr_cid :: string
  pr_failed :: bool
  pr_done :: bool

definition progress_cap :: nat where
  "progress_cap = 1000"

definition follower_cap :: nat where
  "follower_cap = 64"

definition new_progress_log :: progress_log where
  "new_progress_log =
     \<lparr>pr_lines = [], pr_subs = {}, pr_chans = Map.empty, pr_fresh = 0, pr_cid = [], pr_failed = False,
      pr_done = False\<rparr>"

text \<open>The slice expression that keeps the last \<open>n\<close> elements of a list that has more.\<close>

definition keep_last :: "nat \<Rightarrow> 'a list \<Rightarrow> 'a list" where
  "keep_last n xs = (if length xs > n then drop (length xs - n) xs else xs)"

text \<open>A send that would block is dropped.\<close>

definition offer :: "string \<Rightarrow> follower_chan \<Rightarrow> follower_chan" where
  "offer line ch = (if length (fc_buf ch) < follower_cap then ch\<lparr>fc_buf := fc_buf ch @ [line]\<rparr> else ch)"

definition update_subs :: "(follower_chan \<Rightarrow> follower_chan) \<Rightarrow> progress_log \<Rightarrow> (nat \<rightharpoonup> follower_chan)" where
  "update_subs f p = (\<lambda>c. if c \<in> pr_subs p then map_option f (pr_chans p c) else pr_chans p c)"

definition progress_append :: "string \<Rightarrow> progress_log \<Rightarrow> progress_log" where
  "progress_append line p =
     (if pr_done p then p
      else p\<lparr>pr_lines := keep_last progress_cap (pr_lines p @ [line]),
             pr_chans := update_subs (offer line) p\<rparr>)"

definition close_subs :: "progress_log \<Rightarrow> progress_log" where
  "close_subs p = p\<lparr>pr_chans := update_subs (fc_closed_update (\<lambda>_. True)) p, pr_subs := {}\<rparr>"

definition mark_container_started :: "string \<Rightarrow> progress_log \<Rightarrow> progress_log" where
  "mark_container_started cid p =
     (if pr_done p then p else close_subs (p\<lparr>pr_cid := cid, pr_done := True\<rparr>))"

definition mark_failed :: "progress_log \<Rightarrow> progress_log" where
  "mark_failed p = (if pr_done p then p else close_subs (p\<lparr>pr_failed := True, pr_done := True\<rparr>))"

definition subscribe :: "progress_log \<Rightarrow> (string list \<times> nat) \<times> progress_log" where
  "subscribe p =
     (let c = pr_fresh p; p' = p\<lparr>pr_fresh := Suc c\<rparr> in
      if pr_done p
      then ((pr_lines p, c), p'\<lparr>pr_chans := (pr_chans p)(c \<mapsto> \<lparr>fc_buf = [], fc_closed = True\<rparr>)\<rparr>)
      else ((pr_lines p, c), p'\<lparr>pr_chans := (pr_chans p)(c \<mapsto> \<lparr>fc_buf = [], fc_closed = False\<rparr>),
                                pr_subs := insert c (pr_subs p)\<rparr>))"

definition progress_outcome :: "progress_log \<Rightarrow> string \<times> bool" where
  "progress_outcome p = (pr_cid p, pr_failed p)"

text \<open>
  A follower's receive: a buffered line, the closed signal (\<open>Some None\<close>) once the channel is drained
  and closed, or nothing yet (\<open>None\<close>, the receive blocks).
\<close>

definition follower_recv :: "nat \<Rightarrow> progress_log \<Rightarrow> string option option \<times> progress_log" where
  "follower_recv c p =
     (case pr_chans p c of
        None \<Rightarrow> (None, p)
      | Some ch \<Rightarrow>
          (case fc_buf ch of
             l # ls \<Rightarrow> (Some (Some l), p\<lparr>pr_chans := (pr_chans p)(c \<mapsto> ch\<lparr>fc_buf := ls\<rparr>)\<rparr>)
           | [] \<Rightarrow> (if fc_closed ch then Some None else None, p)))"

section \<open>Invariant\<close>

definition progress_inv :: "progress_log \<Rightarrow> bool" where
  "progress_inv p \<longleftrightarrow>
     length (pr_lines p) \<le> progress_cap \<and>
     (\<forall>c ch. pr_chans p c = Some ch \<longrightarrow>
        c < pr_fresh p \<and> length (fc_buf ch) \<le> follower_cap \<and> (fc_closed ch \<longleftrightarrow> c \<notin> pr_subs p)) \<and>
     (\<forall>c \<in> pr_subs p. pr_chans p c \<noteq> None) \<and>
     (pr_done p \<longrightarrow> pr_subs p = {}) \<and>
     (\<not> pr_done p \<longrightarrow> pr_cid p = [] \<and> \<not> pr_failed p) \<and>
     (pr_failed p \<longrightarrow> pr_cid p = [])"

lemma keep_last_length: "length (keep_last n xs) \<le> n"
  by (simp add: keep_last_def)

lemma keep_last_snoc: "0 < n \<Longrightarrow> keep_last n (keep_last n xs @ [x]) = keep_last n (xs @ [x])"
  by (auto simp: keep_last_def Suc_diff_le)

lemma offer_len: "length (fc_buf ch) \<le> follower_cap \<Longrightarrow> length (fc_buf (offer l ch)) \<le> follower_cap"
  by (simp add: offer_def)

lemma offer_closed [simp]: "fc_closed (offer l ch) = fc_closed ch"
  by (simp add: offer_def)

lemma progress_inv_new: "progress_inv new_progress_log"
  by (simp add: progress_inv_def new_progress_log_def progress_cap_def)

lemma progress_inv_append [inv_preserved]: "progress_inv p \<Longrightarrow> progress_inv (progress_append l p)"
  by (auto simp: progress_inv_def progress_append_def update_subs_def keep_last_length offer_len
      split: if_splits)

lemma progress_inv_started [inv_preserved]: "progress_inv p \<Longrightarrow> progress_inv (mark_container_started cid p)"
  by (auto simp: progress_inv_def mark_container_started_def close_subs_def update_subs_def split: if_splits)

lemma progress_inv_failed [inv_preserved]: "progress_inv p \<Longrightarrow> progress_inv (mark_failed p)"
  by (auto simp: progress_inv_def mark_failed_def close_subs_def update_subs_def split: if_splits)

lemma progress_inv_subscribe [inv_preserved]: "progress_inv p \<Longrightarrow> progress_inv (snd (subscribe p))"
  unfolding progress_inv_def subscribe_def Let_def
  by (auto simp: less_Suc_eq split: if_splits)

lemma progress_inv_recv [inv_preserved]: "progress_inv p \<Longrightarrow> progress_inv (snd (follower_recv c p))"
  unfolding progress_inv_def follower_recv_def
  by (auto split: option.splits list.splits) fastforce+

section \<open>Runs of the loader\<close>

datatype progress_event = PAppend string | PStarted string | PFailed

fun progress_step :: "progress_event \<Rightarrow> progress_log \<Rightarrow> progress_log" where
  "progress_step (PAppend l) p = progress_append l p"
| "progress_step (PStarted cid) p = mark_container_started cid p"
| "progress_step PFailed p = mark_failed p"

definition progress_run :: "progress_event list \<Rightarrow> progress_log \<Rightarrow> progress_log" where
  "progress_run es p = fold progress_step es p"

fun appended_line :: "progress_event \<Rightarrow> string option" where
  "appended_line (PAppend l) = Some l"
| "appended_line e = None"

definition is_append :: "progress_event \<Rightarrow> bool" where
  "is_append e = (appended_line e \<noteq> None)"

text \<open>What a run of the loader amounts to: the lines before the first terminal mark, and that mark.\<close>

definition accepted_lines :: "progress_event list \<Rightarrow> string list" where
  "accepted_lines es = map (the \<circ> appended_line) (takeWhile is_append es)"

fun first_outcome :: "progress_event list \<Rightarrow> string \<times> bool" where
  "first_outcome [] = ([], False)"
| "first_outcome (PAppend l # es) = first_outcome es"
| "first_outcome (PStarted cid # es) = (cid, False)"
| "first_outcome (PFailed # es) = ([], True)"

lemma progress_run_done: "pr_done p \<Longrightarrow> progress_run es p = p"
  unfolding progress_run_def
proof (induction es)
  case (Cons e es)
  then show ?case
    by (cases e) (simp_all add: progress_append_def mark_container_started_def mark_failed_def)
qed simp

lemma progress_run_step: "progress_run (e # es) p = progress_run es (progress_step e p)"
  by (simp add: progress_run_def)

lemma progress_run_open:
  assumes "\<not> pr_done p" "pr_lines p = keep_last progress_cap xs" "pr_cid p = []" "\<not> pr_failed p"
  shows "pr_lines (progress_run es p) = keep_last progress_cap (xs @ accepted_lines es) \<and>
    progress_outcome (progress_run es p) = first_outcome es"
  using assms
proof (induction es arbitrary: p xs)
  case Nil
  then show ?case by (simp add: progress_run_def accepted_lines_def progress_outcome_def)
next
  case (Cons e es)
  show ?case
  proof (cases e)
    case (PAppend l)
    with Cons.prems Cons.IH [of "progress_append l p" "xs @ [l]"] show ?thesis
      by (simp add: progress_run_step progress_append_def keep_last_snoc progress_cap_def
          accepted_lines_def is_append_def)
  next
    case (PStarted cid)
    with Cons.prems show ?thesis
      by (simp add: progress_run_step progress_run_done mark_container_started_def close_subs_def
          accepted_lines_def is_append_def progress_outcome_def)
  next
    case PFailed
    with Cons.prems show ?thesis
      by (simp add: progress_run_step progress_run_done mark_failed_def close_subs_def
          accepted_lines_def is_append_def progress_outcome_def)
  qed
qed

section \<open>Followers\<close>

lemma append_to_follower:
  assumes "\<not> pr_done p" "c \<in> pr_subs p" "pr_chans p c = Some ch"
  shows "pr_chans (fold progress_append ls p) c =
    Some (ch\<lparr>fc_buf := fc_buf ch @ take (follower_cap - length (fc_buf ch)) ls\<rparr>) \<and>
    \<not> pr_done (fold progress_append ls p) \<and> c \<in> pr_subs (fold progress_append ls p)"
  using assms
proof (induction ls arbitrary: p ch)
  case Nil
  then show ?case by simp
next
  case (Cons l ls)
  have "pr_chans (progress_append l p) c = Some (offer l ch)"
    using Cons.prems by (simp add: progress_append_def update_subs_def)
  moreover have "\<not> pr_done (progress_append l p)" "c \<in> pr_subs (progress_append l p)"
    using Cons.prems by (simp_all add: progress_append_def)
  ultimately show ?case
    using Cons.IH [of "progress_append l p" "offer l ch"]
    by (cases "length (fc_buf ch) < follower_cap")
      (auto simp: offer_def Suc_diff_Suc [symmetric])
qed

section \<open>Properties\<close>

text \<open>
  (functional). The first terminal mark decides: whatever sequence of lines and marks the loader
  produces, the log holds the last 1000 of the lines before the first mark, and the outcome is
  that mark (a started container with its id, or the failure); everything after it is ignored.
\<close>

theorem progress_first_mark_decides:
  "pr_lines (progress_run es new_progress_log) = keep_last 1000 (accepted_lines es) \<and>
   progress_outcome (progress_run es new_progress_log) = first_outcome es"
  using progress_run_open [of new_progress_log "[]" es]
  by (simp add: new_progress_log_def keep_last_def progress_cap_def)

text \<open>
  C27 (functional). A follower that subscribes gets the buffered lines, then the next 64 lines in
  order while it does not read, and no more; when the container starts its channel is closed with
  these lines still to be read.
\<close>

theorem follower_replay_and_stream:
  assumes "progress_inv p" "\<not> pr_done p" "subscribe p = ((replay, c), p')"
  shows "replay = pr_lines p \<and>
    pr_chans (mark_container_started cid (fold progress_append ls p')) c =
      Some \<lparr>fc_buf = take 64 ls, fc_closed = True\<rparr>"
proof -
  let ?q = "fold progress_append ls p'"
  have "\<not> pr_done p'" "c \<in> pr_subs p'" "pr_chans p' c = Some \<lparr>fc_buf = [], fc_closed = False\<rparr>"
    using assms(2,3) by (auto simp: subscribe_def Let_def split: if_splits)
  from append_to_follower [OF this, of ls]
  have "pr_chans ?q c = Some \<lparr>fc_buf = take 64 ls, fc_closed = False\<rparr>" "\<not> pr_done ?q" "c \<in> pr_subs ?q"
    by (simp_all add: follower_cap_def)
  then show ?thesis
    using assms(2,3)
    by (auto simp: subscribe_def Let_def mark_container_started_def close_subs_def update_subs_def)
qed

theorem follower_replay_and_stream_witness:
  "\<exists>c p'. subscribe (progress_append ''Pulling'' new_progress_log) = (([''Pulling''], c), p') \<and>
     pr_chans (mark_container_started ''c1'' (fold progress_append [''a'', ''b''] p')) c =
       Some \<lparr>fc_buf = [''a'', ''b''], fc_closed = True\<rparr>"
proof -
  let ?p = "progress_append ''Pulling'' new_progress_log"
  obtain replay c p' where s: "subscribe ?p = ((replay, c), p')" by (metis surj_pair)
  have "pr_lines ?p = [''Pulling'']" "\<not> pr_done ?p"
    by (simp_all add: progress_append_def new_progress_log_def keep_last_def progress_cap_def)
  with follower_replay_and_stream [OF progress_inv_append [OF progress_inv_new] _ s, of "''c1''" "[''a'', ''b'']"] s
  show ?thesis by auto
qed

end
