(* ===== verification/Runtime.thy ===== *)
theory Runtime imports Docker_Client Ollama_Pull Deploy_Group Progress Ports begin

text \<open>
  The lifecycle of model containers (internal/runtime/runtime.go and state.go). Deployments are
  objects in a store, reached through the runtime's map: a call holds on to the object it looked up
  even when another call has dropped the entry meanwhile. \<open>load_model\<close> is the lookup
  \<open>get_or_create\<close> followed by \<open>load_locked\<close>, the part that runs under the deployment's lock; two
  calls for one object run their locked parts one after the other.

  The environment \<open>rt_env\<close> collects what the runtime is configured with: the Docker client, the
  clock, the readiness probe, the wait between two probes (True when the request context ended),
  the HTTP client of the ollama pull, and the port allocators.
\<close>

datatype rt_state = StateAbsent | StatePulling | StateStarting | StateRunning | StateStopping | StateFailed

fun state_text :: "rt_state \<Rightarrow> string" where
  "state_text StateAbsent = ''absent''"
| "state_text StatePulling = ''pulling''"
| "state_text StateStarting = ''starting''"
| "state_text StateRunning = ''running''"
| "state_text StateStopping = ''stopping''"
| "state_text StateFailed = ''failed''"

record rt_deployment =
  rd_container_id :: string
  rd_host_port :: int
  rd_endpoint :: string
  rd_state :: rt_state
  rd_plan :: "plan option"
  rd_prog :: progress_log
  rd_entered :: "rt_state \<rightharpoonup> int"

definition new_deployment :: rt_deployment where
  "new_deployment =
     \<lparr>rd_container_id = [], rd_host_port = 0, rd_endpoint = [], rd_state = StateAbsent, rd_plan = None,
      rd_prog = new_progress_log, rd_entered = Map.empty\<rparr>"

record runtime =
  rt_objects :: "nat \<Rightarrow> rt_deployment"
  rt_fresh :: nat
  rt_deployments :: "string \<rightharpoonup> nat"
  rt_groups :: "string \<rightharpoonup> deployment_group"

definition new_runtime :: runtime where
  "new_runtime = \<lparr>rt_objects = (\<lambda>_. new_deployment), rt_fresh = 0, rt_deployments = Map.empty, rt_groups = Map.empty\<rparr>"

record 'w rt_env =
  re_docker :: "'w docker_ops"
  re_network :: string
  re_readiness_timeout :: int
  re_advertise_host :: string
  re_now :: "'w \<Rightarrow> int"
  re_probe :: "string \<Rightarrow> 'w \<Rightarrow> bool \<times> 'w"
  re_poll :: "'w \<Rightarrow> bool \<times> 'w"
  re_post :: "'w http_post"
  re_decode :: status_decoder
  re_port :: "'w \<Rightarrow> (go_error + int) \<times> 'w"
  re_prefill_port :: "'w \<Rightarrow> (go_error + int) \<times> 'w"
  re_decode_port :: "'w \<Rightarrow> (go_error + int) \<times> 'w"

section \<open>Queries and internal mutators\<close>

definition entry :: "runtime \<Rightarrow> string \<Rightarrow> rt_deployment option" where
  "entry s dep = map_option (rt_objects s) (rt_deployments s dep)"

definition status_of :: "runtime \<Rightarrow> string \<Rightarrow> rt_state" where
  "status_of s dep = (case entry s dep of None \<Rightarrow> StateAbsent | Some d \<Rightarrow> rd_state d)"

definition endpoint_url :: "runtime \<Rightarrow> string \<Rightarrow> string" where
  "endpoint_url s dep = (case entry s dep of None \<Rightarrow> [] | Some d \<Rightarrow> rd_endpoint d)"

definition container_for_deployment :: "runtime \<Rightarrow> string \<Rightarrow> string" where
  "container_for_deployment s dep = (case entry s dep of None \<Rightarrow> [] | Some d \<Rightarrow> rd_container_id d)"

definition loaded_deployments :: "runtime \<Rightarrow> string set" where
  "loaded_deployments s = {dep. status_of s dep = StateRunning} \<union> dom (rt_groups s)"

definition duration_between :: "rt_deployment \<Rightarrow> rt_state \<Rightarrow> rt_state \<Rightarrow> int" where
  "duration_between d a b =
     (case (rd_entered d a, rd_entered d b) of (Some t1, Some t2) \<Rightarrow> t2 - t1 | _ \<Rightarrow> 0)"

record deployment_info =
  di_recipe :: string
  di_model :: string
  di_phase :: string
  di_pull_dur :: int
  di_start_dur :: int

definition deployment_info :: "runtime \<Rightarrow> string \<Rightarrow> deployment_info option" where
  "deployment_info s dep =
     (case entry s dep of None \<Rightarrow> None
      | Some d \<Rightarrow> Some
          \<lparr>di_recipe = (case rd_plan d of None \<Rightarrow> [] | Some p \<Rightarrow> pl_image p),
           di_model = (case rd_plan d of None \<Rightarrow> [] | Some p \<Rightarrow> env_value (pl_env p) ''INFERIA_OLLAMA_MODEL''),
           di_phase = state_text (rd_state d),
           di_pull_dur = duration_between d StatePulling StateStarting,
           di_start_dur = duration_between d StateStarting StateRunning\<rparr>)"

definition get_or_create :: "string \<Rightarrow> runtime \<Rightarrow> nat \<times> runtime" where
  "get_or_create dep s =
     (case rt_deployments s dep of
        Some a \<Rightarrow> (a, s)
      | None \<Rightarrow> let a = rt_fresh s
                in (a, s\<lparr>rt_objects := (rt_objects s)(a := new_deployment), rt_fresh := Suc a,
                         rt_deployments := (rt_deployments s)(dep \<mapsto> a)\<rparr>))"

definition upd_obj :: "nat \<Rightarrow> (rt_deployment \<Rightarrow> rt_deployment) \<Rightarrow> runtime \<Rightarrow> runtime" where
  "upd_obj a f s = s\<lparr>rt_objects := (rt_objects s)(a := f (rt_objects s a))\<rparr>"

definition on_entry :: "string \<Rightarrow> (rt_deployment \<Rightarrow> rt_deployment) \<Rightarrow> runtime \<Rightarrow> runtime" where
  "on_entry dep f s = (case rt_deployments s dep of None \<Rightarrow> s | Some a \<Rightarrow> upd_obj a f s)"

definition set_state :: "int \<Rightarrow> string \<Rightarrow> rt_state \<Rightarrow> runtime \<Rightarrow> runtime" where
  "set_state now dep st = on_entry dep (\<lambda>d. d\<lparr>rd_state := st, rd_entered := (rd_entered d)(st \<mapsto> now)\<rparr>)"

definition set_container_id :: "string \<Rightarrow> string \<Rightarrow> runtime \<Rightarrow> runtime" where
  "set_container_id dep cid = on_entry dep (rd_container_id_update (\<lambda>_. cid))"

definition drop_entry :: "string \<Rightarrow> runtime \<Rightarrow> runtime" where
  "drop_entry dep s = s\<lparr>rt_deployments := (rt_deployments s)(dep := None)\<rparr>"

definition log_line :: "nat \<Rightarrow> string \<Rightarrow> runtime \<Rightarrow> runtime" where
  "log_line a line = upd_obj a (rd_prog_update (progress_append line))"

text \<open>What boot asks of the runtime before anything is loaded.\<close>

definition runtime_ping :: "'w rt_env \<Rightarrow> 'w \<Rightarrow> go_error option \<times> 'w" where
  "runtime_ping env w = dk_ping (re_docker env) RequestCtx w"

definition runtime_ensure_network :: "'w rt_env \<Rightarrow> 'w \<Rightarrow> go_error option \<times> 'w" where
  "runtime_ensure_network env w = dk_ensure_network (re_docker env) RequestCtx (re_network env) w"

section \<open>Readiness\<close>

text \<open>The default probe, with the status a GET of the URL yields.\<close>

definition http_probe :: "(string \<Rightarrow> 'w \<Rightarrow> (go_error + int) \<times> 'w) \<Rightarrow> string \<Rightarrow> 'w \<Rightarrow> bool \<times> 'w" where
  "http_probe get url w =
     (case get url w of
        (Inl e, w) \<Rightarrow> (False, w)
      | (Inr code, w) \<Rightarrow> (200 \<le> code \<and> code < 300, w))"

definition readiness_timeout :: "'w rt_env \<Rightarrow> plan \<Rightarrow> int" where
  "readiness_timeout env p = (if pl_readiness_timeout p > 0 then pl_readiness_timeout p else re_readiness_timeout env)"

text \<open>The probing loop, with fuel; \<open>None\<close> when the fuel runs out.\<close>

fun wait_ready_fuel :: "nat \<Rightarrow> 'w rt_env \<Rightarrow> int \<Rightarrow> string \<Rightarrow> 'w \<Rightarrow> bool option \<times> 'w" where
  "wait_ready_fuel 0 env deadline url w = (None, w)"
| "wait_ready_fuel (Suc n) env deadline url w =
     (if \<not> re_now env w < deadline then (Some False, w)
      else let (ok, w) = re_probe env url w
           in if ok then (Some True, w)
              else let (ended, w) = re_poll env w
                   in if ended then (Some False, w) else wait_ready_fuel n env deadline url w)"

definition wait_ready :: "'w rt_env \<Rightarrow> string \<Rightarrow> int \<Rightarrow> 'w \<Rightarrow> bool \<times> 'w" where
  "wait_ready env url timeout w =
     (let (r, w') = wait_ready_fuel (Suc (nat timeout)) env (re_now env w + timeout) url w
      in (r = Some True, w'))"

definition endpoint_of :: "'w rt_env \<Rightarrow> int \<Rightarrow> string" where
  "endpoint_of env port = ''http://'' @ re_advertise_host env @ '':'' @ itoa port"

section \<open>Loading one container\<close>

type_synonym ('w, 'r) rt_result = "(go_error + 'r) \<times> runtime \<times> 'w"

definition fail_load ::
  "'w rt_env \<Rightarrow> string \<Rightarrow> nat \<Rightarrow> string \<Rightarrow> go_error \<Rightarrow> runtime \<Rightarrow> 'w \<Rightarrow> ('w, string) rt_result" where
  "fail_load env dep a stage e s w =
     (let s = log_line a (''Failed: '' @ stage @ '': '' @ err_text e) s;
          s = upd_obj a (rd_prog_update mark_failed) s;
          s = set_state (re_now env w) dep StateFailed s
      in (Inl (wrap_err stage e), drop_entry dep s, w))"

text \<open>Tear a started container down, on the fresh context, and give up.\<close>

definition abandon_load ::
  "'w rt_env \<Rightarrow> string \<Rightarrow> string \<Rightarrow> go_error \<Rightarrow> runtime \<Rightarrow> 'w \<Rightarrow> ('w, string) rt_result" where
  "abandon_load env dep cid e s w =
     (let (_, w) = dk_stop (re_docker env) CleanupCtx cid 5 w;
          (_, w) = dk_remove (re_docker env) CleanupCtx cid w;
          s = set_state (re_now env w) dep StateFailed s
      in (Inl e, drop_entry dep s, w))"

definition load_ready ::
  "'w rt_env \<Rightarrow> string \<Rightarrow> plan \<Rightarrow> nat \<Rightarrow> string \<Rightarrow> runtime \<Rightarrow> 'w \<Rightarrow> ('w, string) rt_result" where
  "load_ready env dep p a cid s w =
     (let endpoint = endpoint_of env (pl_host_port p);
          (ready, w) = wait_ready env (endpoint @ pl_ready_path p) (readiness_timeout env p) w
      in if \<not> ready then abandon_load env dep cid (Errorf ''readiness probe timed out'' []) s w
         else let (e, w) = ollama_pull_if_needed (re_post env) (re_decode env) p endpoint w
              in case e of
                   Some err \<Rightarrow> abandon_load env dep cid (wrap_err ''ollama pull-after-ready'' err) s w
                 | None \<Rightarrow>
                     let (_, w) = dk_remove_image (re_docker env) RequestCtx (pl_image p) w;
                         s = upd_obj a (\<lambda>d. d\<lparr>rd_container_id := cid, rd_host_port := pl_host_port p,
                                              rd_endpoint := endpoint, rd_plan := Some p\<rparr>) s;
                         s = set_state (re_now env w) dep StateRunning s
                     in (Inr endpoint, s, w))"

definition load_start ::
  "'w rt_env \<Rightarrow> string \<Rightarrow> plan \<Rightarrow> nat \<Rightarrow> string \<Rightarrow> runtime \<Rightarrow> 'w \<Rightarrow> ('w, string) rt_result" where
  "load_start env dep p a cid s w =
     (let s = set_state (re_now env w) dep StateStarting s;
          s = log_line a (''Starting container'' @ ellipsis) s;
          (e, w) = dk_start (re_docker env) RequestCtx cid w
      in case e of
           Some err \<Rightarrow>
             let (_, w) = dk_remove (re_docker env) CleanupCtx cid w
             in fail_load env dep a ''start'' err s w
         | None \<Rightarrow>
             let s = log_line a (''Container started. Streaming container logs'' @ ellipsis) s;
                 s = upd_obj a (rd_prog_update (mark_container_started cid)) s
             in load_ready env dep p a cid s w)"

definition load_create ::
  "'w rt_env \<Rightarrow> string \<Rightarrow> plan \<Rightarrow> nat \<Rightarrow> container_spec \<Rightarrow> runtime \<Rightarrow> 'w \<Rightarrow> ('w, string) rt_result" where
  "load_create env dep p a spec s w =
     (let (e, w) = dk_remove_by_name (re_docker env) RequestCtx (cs_name spec) w;
          s = (case e of None \<Rightarrow> s
               | Some err \<Rightarrow> log_line a (''Note: could not clear stale container '' @ cs_name spec @ '': '' @ err_text err) s);
          (r, w) = dk_create (re_docker env) RequestCtx spec w
      in case r of
           Inl err \<Rightarrow> fail_load env dep a ''create'' err s w
         | Inr cid \<Rightarrow> load_start env dep p a cid (set_container_id dep cid s) w)"

definition load_pull ::
  "'w rt_env \<Rightarrow> string \<Rightarrow> plan \<Rightarrow> nat \<Rightarrow> runtime \<Rightarrow> 'w \<Rightarrow> ('w, string) rt_result" where
  "load_pull env dep p a s w =
     (let s = set_state (re_now env w) dep StatePulling s;
          s = log_line a (''Pulling image '' @ pl_image p @ '' '' @ ellipsis) s;
          ((e, ls), w) = dk_pull (re_docker env) RequestCtx (pl_image p) w;
          s = fold (log_line a) ls s
      in case e of
           Some err \<Rightarrow> fail_load env dep a ''pull'' err s w
         | None \<Rightarrow>
             let s = log_line a (''Image ready. Creating container'' @ ellipsis) s
             in case build_container_spec p (re_network env) of
                  Inl err \<Rightarrow> fail_load env dep a ''spec'' err s w
                | Inr spec \<Rightarrow> load_create env dep p a spec s w)"

definition load_locked ::
  "'w rt_env \<Rightarrow> string \<Rightarrow> plan \<Rightarrow> nat \<Rightarrow> runtime \<Rightarrow> 'w \<Rightarrow> ('w, string) rt_result" where
  "load_locked env dep p a s w =
     (if status_of s dep = StateRunning \<and> endpoint_url s dep \<noteq> [] then (Inr (endpoint_url s dep), s, w)
      else if pl_host_port p = 0 then
        (case re_port env w of
           (Inl e, w) \<Rightarrow> (Inl (wrap_err ''port allocation'' e), s, w)
         | (Inr port, w) \<Rightarrow> load_pull env dep (p\<lparr>pl_host_port := port\<rparr>) a s w)
      else load_pull env dep p a s w)"

definition load_model :: "'w rt_env \<Rightarrow> string \<Rightarrow> plan \<Rightarrow> runtime \<Rightarrow> 'w \<Rightarrow> ('w, string) rt_result" where
  "load_model env dep p s w = (let (a, s) = get_or_create dep s in load_locked env dep p a s w)"

section \<open>Unloading\<close>

definition unload_locked ::
  "'w rt_env \<Rightarrow> string \<Rightarrow> nat \<Rightarrow> runtime \<Rightarrow> 'w \<Rightarrow> go_error option \<times> runtime \<times> 'w" where
  "unload_locked env dep a s w =
     (let s = set_state (re_now env w) dep StateStopping s; cid = rd_container_id (rt_objects s a)
      in if cid = [] then (None, drop_entry dep s, w)
         else let (e, w) = dk_stop (re_docker env) RequestCtx cid 10 w
              in case e of
                   Some err \<Rightarrow> (Some (wrap_err ''stop'' err), s, w)
                 | None \<Rightarrow>
                     let (e, w) = dk_remove (re_docker env) RequestCtx cid w
                     in case e of
                          Some err \<Rightarrow> (Some (wrap_err ''remove'' err), s, w)
                        | None \<Rightarrow> (None, drop_entry dep s, w))"

definition unload_model :: "'w rt_env \<Rightarrow> string \<Rightarrow> runtime \<Rightarrow> 'w \<Rightarrow> go_error option \<times> runtime \<times> 'w" where
  "unload_model env dep s w =
     (case rt_deployments s dep of None \<Rightarrow> (None, s, w) | Some a \<Rightarrow> unload_locked env dep a s w)"

section \<open>Groups\<close>

definition create_and_start :: "'w rt_env \<Rightarrow> plan \<Rightarrow> 'w \<Rightarrow> (go_error + string) \<times> 'w" where
  "create_and_start env p w =
     (case build_container_spec p (re_network env) of
        Inl e \<Rightarrow> (Inl (wrap_err ''spec'' e), w)
      | Inr spec \<Rightarrow>
          (case dk_create (re_docker env) RequestCtx spec w of
             (Inl e, w) \<Rightarrow> (Inl (wrap_err ''create'' e), w)
           | (Inr cid, w) \<Rightarrow>
               (case dk_start (re_docker env) RequestCtx cid w of
                  (Some e, w) \<Rightarrow> (Inl (wrap_err ''start'' e), snd (dk_remove (re_docker env) CleanupCtx cid w))
                | (None, w) \<Rightarrow>
                    let (ready, w) = wait_ready env (endpoint_of env (pl_host_port p) @ pl_ready_path p) (re_readiness_timeout env) w
                    in if ready then (Inr cid, w)
                       else let (_, w) = dk_stop (re_docker env) CleanupCtx cid 5 w;
                                (_, w) = dk_remove (re_docker env) CleanupCtx cid w
                            in (Inl (Errorf ''readiness probe timed out'' []), w))))"

text \<open>
  One role's replicas in order: what was launched, and the error that stopped the loop. \<open>role\<close> is
  the name in error texts, \<open>name\<close> gives a replica's container name.
\<close>

fun launch_replicas ::
  "'w rt_env \<Rightarrow> ('w \<Rightarrow> (go_error + int) \<times> 'w) \<Rightarrow> string \<Rightarrow> (nat \<Rightarrow> string) \<Rightarrow> nat \<Rightarrow> container_plan list \<Rightarrow> 'w
   \<Rightarrow> (go_error option \<times> container_info list) \<times> 'w" where
  "launch_replicas env ports role name i [] w = ((None, []), w)"
| "launch_replicas env ports role name i (cp # cps) w =
     (case ports w of
        (Inl e, w) \<Rightarrow> ((Some (Errorf (role @ '' port %d: %w'') [FInt (int i), FErr e]), []), w)
      | (Inr port, w) \<Rightarrow>
          (case create_and_start env (to_plan cp (name i) port) w of
             (Inl e, w) \<Rightarrow> ((Some (Errorf (role @ '' %d: %w'') [FInt (int i), FErr e]), []), w)
           | (Inr cid, w) \<Rightarrow>
               let ((e, infos), w) = launch_replicas env ports role name (Suc i) cps w
               in ((e, \<lparr>ci_container_id = cid, ci_host_port = port, ci_role = cp_role cp,
                        ci_replica_idx = cp_replica_idx cp\<rparr> # infos), w)))"

definition stop_and_remove :: "'w rt_env \<Rightarrow> int \<Rightarrow> container_info \<Rightarrow> 'w \<Rightarrow> 'w" where
  "stop_and_remove env n ci w =
     (if ci_container_id ci = [] then w
      else let (_, w) = dk_stop (re_docker env) RequestCtx (ci_container_id ci) n w;
               (_, w) = dk_remove (re_docker env) RequestCtx (ci_container_id ci) w
           in w)"

definition rollback_group :: "'w rt_env \<Rightarrow> container_info list \<Rightarrow> container_info list \<Rightarrow> 'w \<Rightarrow> 'w" where
  "rollback_group env prefill decode w = fold (stop_and_remove env 5) (prefill @ decode) w"

definition replica_name :: "string \<Rightarrow> string \<Rightarrow> string \<Rightarrow> nat \<Rightarrow> string" where
  "replica_name prefix role dep i = prefix @ ''-'' @ role @ ''-'' @ dep @ ''-'' @ itoa (int i)"

definition group_prefix :: "deployment_plan \<Rightarrow> string" where
  "group_prefix d = (if dp_container_prefix d = [] then ''inferia-vllm'' else dp_container_prefix d)"

text \<open>\<open>None\<close> is the panic on the first prefill plan of a plan without any.\<close>

definition load_deployment_group ::
  "'w rt_env \<Rightarrow> deployment_plan \<Rightarrow> runtime \<Rightarrow> 'w \<Rightarrow> ('w, deployment_group) rt_result option" where
  "load_deployment_group env d s w =
     (case dp_prefill d of
        [] \<Rightarrow> None
      | first # _ \<Rightarrow> Some
          (case dk_pull (re_docker env) RequestCtx (cp_image first) w of
             ((Some e, _), w) \<Rightarrow> (Inl (wrap_err ''pull'' e), s, w)
           | ((None, _), w) \<Rightarrow>
               let ((e, pre), w) = launch_replicas env (re_prefill_port env) ''prefill''
                     (replica_name (group_prefix d) ''p'' (dp_deployment_id d)) 0 (dp_prefill d) w
               in case e of
                    Some err \<Rightarrow> (Inl err, s, rollback_group env pre [] w)
                  | None \<Rightarrow>
                      let ((e, dec), w) = launch_replicas env (re_decode_port env) ''decode''
                            (replica_name (group_prefix d) ''d'' (dp_deployment_id d)) 0 (dp_decode d) w
                      in case e of
                           Some err \<Rightarrow> (Inl err, s, rollback_group env pre dec w)
                         | None \<Rightarrow>
                             let (_, w) = dk_remove_image (re_docker env) RequestCtx (cp_image first) w;
                                 g = \<lparr>dg_id = dp_deployment_id d, dg_model = dp_model d, dg_prefill = pre,
                                      dg_decode = dec, dg_prefill_next = 0, dg_decode_next = 0\<rparr>
                             in (Inr g, s\<lparr>rt_groups := (rt_groups s)(dp_deployment_id d \<mapsto> g)\<rparr>, w)))"

definition unload_deployment_group ::
  "'w rt_env \<Rightarrow> string \<Rightarrow> runtime \<Rightarrow> 'w \<Rightarrow> go_error option \<times> runtime \<times> 'w" where
  "unload_deployment_group env dep s w =
     (let s' = s\<lparr>rt_groups := (rt_groups s)(dep := None)\<rparr>
      in case rt_groups s dep of
           None \<Rightarrow> (None, s', w)
         | Some g \<Rightarrow> (None, s', fold (stop_and_remove env 10) (dg_prefill g @ dg_decode g) w))"

section \<open>Progress of a deployment\<close>

definition append_progress :: "string \<Rightarrow> string \<Rightarrow> runtime \<Rightarrow> runtime" where
  "append_progress dep line = on_entry dep (rd_prog_update (progress_append line))"

definition progress_of :: "string \<Rightarrow> runtime \<Rightarrow> progress_log option" where
  "progress_of dep s = map_option rd_prog (entry s dep)"

definition deployment_known :: "string \<Rightarrow> runtime \<Rightarrow> bool" where
  "deployment_known dep s = (rt_deployments s dep \<noteq> None)"

text \<open>The replayed lines and the channel; \<open>None\<close> when the deployment is unknown.\<close>

definition subscribe_progress :: "string \<Rightarrow> runtime \<Rightarrow> (string list \<times> nat) option \<times> runtime" where
  "subscribe_progress dep s =
     (case progress_of dep s of
        None \<Rightarrow> (None, s)
      | Some p \<Rightarrow> let (r, p') = subscribe p in (Some r, on_entry dep (rd_prog_update (\<lambda>_. p')) s))"

section \<open>Defaults of the configuration\<close>

text \<open>The scalar options of \<open>Config\<close>, nanoseconds for durations; zero or empty means unset.\<close>

record runtime_options =
  ro_pull_timeout :: int
  ro_readiness_timeout :: int
  ro_poll_interval :: int
  ro_advertise_host :: string
  ro_port_range :: "int \<times> int"
  ro_prefill_range :: "int \<times> int"
  ro_decode_range :: "int \<times> int"

definition default_options :: "runtime_options \<Rightarrow> runtime_options" where
  "default_options c = c
     \<lparr>ro_poll_interval := (if ro_poll_interval c = 0 then 500 * 1000000 else ro_poll_interval c),
      ro_readiness_timeout := (if ro_readiness_timeout c = 0 then 180 * 1000000000 else ro_readiness_timeout c),
      ro_pull_timeout := (if ro_pull_timeout c = 0 then 1800 * 1000000000 else ro_pull_timeout c),
      ro_port_range := (if ro_port_range c = (0, 0) then (19000, 19999) else ro_port_range c),
      ro_prefill_range := (if ro_prefill_range c = (0, 0) then (19000, 19499) else ro_prefill_range c),
      ro_decode_range := (if ro_decode_range c = (0, 0) then (19500, 19999) else ro_decode_range c),
      ro_advertise_host := (if ro_advertise_host c = [] then ''127.0.0.1'' else ro_advertise_host c)\<rparr>"

end
