(* ===== verification/Lifecycle.thy ===== *)
theory Lifecycle imports Runtime begin

text \<open>
  What the runtime guarantees. \<open>worker_host\<close> extends the Docker contract to everything the runtime
  is configured with: probing, waiting, the ollama requests and the port allocators leave the
  containers alone. Inside it the lemmas follow the phases of a load; the properties assume the
  contract by name and are witnessed on the in-memory host.
\<close>

section \<open>The readiness loop\<close>

definition clock_progress :: "'w rt_env \<Rightarrow> bool" where
  "clock_progress env \<longleftrightarrow>
     (\<forall>u w. re_now env w \<le> re_now env (snd (re_probe env u w))) \<and>
     (\<forall>w. \<not> fst (re_poll env w) \<longrightarrow> re_now env w < re_now env (snd (re_poll env w)))"

lemma wait_ready_enough_fuel:
  assumes "clock_progress env" "nat (deadline - re_now env w) < n"
  shows "fst (wait_ready_fuel n env deadline url w) \<noteq> None"
  using assms(2)
proof (induction n arbitrary: w)
  case 0
  then show ?case by simp
next
  case (Suc n)
  obtain ok w1 where p: "re_probe env url w = (ok, w1)" by fastforce
  obtain ended w2 where q: "re_poll env w1 = (ended, w2)" by fastforce
  from assms(1) p have 1: "re_now env w \<le> re_now env w1"
    unfolding clock_progress_def by (metis snd_conv)
  from assms(1) q have 2: "\<not> ended \<Longrightarrow> re_now env w1 < re_now env w2"
    unfolding clock_progress_def by (metis fst_conv snd_conv)
  show ?case
    using Suc.IH [of w2] Suc.prems 1 2 p q by (auto simp: Let_def)
qed

text \<open>More fuel changes nothing once there is enough.\<close>

lemma wait_ready_fuel_mono:
  "fst (wait_ready_fuel n env deadline url w) \<noteq> None \<Longrightarrow> n \<le> m \<Longrightarrow>
     wait_ready_fuel m env deadline url w = wait_ready_fuel n env deadline url w"
proof (induction n arbitrary: m w)
  case 0
  then show ?case by simp
next
  case (Suc n)
  then obtain k where k: "m = Suc k" "n \<le> k" by (cases m) auto
  obtain ok w1 where p: "re_probe env url w = (ok, w1)" by fastforce
  obtain ended w2 where q: "re_poll env w1 = (ended, w2)" by fastforce
  show ?case
    using Suc.IH [of w2 k] Suc.prems(1) k p q by (auto simp: Let_def split: if_splits)
qed

text \<open>
  C37 (termination). With a clock that advances by at least a nanosecond between two probes, the
  readiness loop ends within the fuel the model gives it, and any larger fuel gives the same
  result.
\<close>

theorem readiness_loop_ends:
  assumes "clock_progress env" and "0 \<le> timeout" and "nat timeout < n"
  shows "\<exists>r. wait_ready_fuel n env (re_now env w + timeout) url w = (Some r, snd (wait_ready env url timeout w)) \<and>
    r = fst (wait_ready env url timeout w)"
proof -
  let ?d = "re_now env w + timeout"
  have "fst (wait_ready_fuel (Suc (nat timeout)) env ?d url w) \<noteq> None"
    using assms by (intro wait_ready_enough_fuel) auto
  then obtain r w' where r: "wait_ready_fuel (Suc (nat timeout)) env ?d url w = (Some r, w')"
    by (cases "wait_ready_fuel (Suc (nat timeout)) env ?d url w") auto
  then have "wait_ready_fuel n env ?d url w = (Some r, w')"
    using wait_ready_fuel_mono [of "Suc (nat timeout)" env ?d url w n] assms by simp
  with r show ?thesis by (simp add: wait_ready_def)
qed

section \<open>What the operations do to the runtime's tables\<close>

lemma entry_frames [frame_simps]:
  "rt_deployments (upd_obj a f s) = rt_deployments s"
  "rt_deployments (on_entry dep f s) = rt_deployments s"
  "rt_deployments (set_state n dep st s) = rt_deployments s"
  "rt_deployments (set_container_id dep cid s) = rt_deployments s"
  "rt_deployments (log_line a l s) = rt_deployments s"
  "rt_deployments (fold (log_line a) ls s) = rt_deployments s"
proof -
  show 1: "rt_deployments (upd_obj a f s) = rt_deployments s" for a f s by (simp add: upd_obj_def)
  show 2: "rt_deployments (on_entry dep f s) = rt_deployments s" for dep f s
    by (simp add: on_entry_def 1 split: option.split)
  show "rt_deployments (set_state n dep st s) = rt_deployments s"
    "rt_deployments (set_container_id dep cid s) = rt_deployments s"
    by (simp_all add: set_state_def set_container_id_def 2)
  show 3: "rt_deployments (log_line a l s) = rt_deployments s" for l s by (simp add: log_line_def 1)
  show "rt_deployments (fold (log_line a) ls s) = rt_deployments s"
    by (induction ls arbitrary: s) (simp_all add: 3)
qed

lemma drop_entry_deployments [simp]: "rt_deployments (drop_entry dep s) = (rt_deployments s)(dep := None)"
  by (simp add: drop_entry_def)

text \<open>
  A relation between the tables before and after: other deployments keep their objects, an error
  forgets the deployment, success keeps its entry.
\<close>

definition load_effect :: "string \<Rightarrow> runtime \<Rightarrow> (go_error + string) \<Rightarrow> runtime \<Rightarrow> bool" where
  "load_effect dep s r s' \<longleftrightarrow>
     rt_deployments s' = (case r of Inl e \<Rightarrow> (rt_deployments s)(dep := None) | Inr ep \<Rightarrow> rt_deployments s)"

lemma fail_load_effect: "fail_load env dep a stage e s w = (r, s', w') \<Longrightarrow>
    w' = w \<and> r = Inl (wrap_err stage e) \<and> load_effect dep s r s'"
  by (auto simp: fail_load_def Let_def load_effect_def frame_simps)

lemma load_ready_effect: "load_ready env dep p a cid s w = (r, s', w') \<Longrightarrow> load_effect dep s r s'"
  by (auto simp: load_ready_def abandon_load_def Let_def split_def load_effect_def frame_simps
      split: if_splits option.splits)

lemma load_start_effect:
  assumes "load_start env dep p a cid s w = (r, s', w')"
  shows "load_effect dep s r s'"
proof (cases "fst (dk_start (re_docker env) RequestCtx cid w)")
  case None
  with assms show ?thesis
    by (auto simp: load_start_def Let_def split_def load_effect_def frame_simps dest!: load_ready_effect
        split: sum.splits)
next
  case (Some e)
  with assms show ?thesis
    by (auto simp: load_start_def Let_def split_def load_effect_def frame_simps dest!: fail_load_effect)
qed

lemma load_create_effect:
  assumes "load_create env dep p a spec s w = (r, s', w')"
  shows "load_effect dep s r s'"
  using assms
  by (auto simp: load_create_def Let_def split_def load_effect_def frame_simps
      dest!: load_start_effect fail_load_effect split: sum.splits option.splits)

lemma load_pull_effect:
  assumes "load_pull env dep p a s w = (r, s', w')"
  shows "load_effect dep s r s'"
  using assms
  by (auto simp: load_pull_def Let_def split_def load_effect_def frame_simps
      dest!: load_create_effect fail_load_effect split: sum.splits option.splits)

text \<open>Success stores the outcome in the object and marks the entry, if there is one, as running.\<close>

lemma load_ready_success:
  assumes "load_ready env dep p a cid s w = (Inr ep, s', w')" "rt_deployments s dep = Some a"
  shows "ep = endpoint_of env (pl_host_port p) \<and> status_of s' dep = StateRunning \<and> endpoint_url s' dep = ep \<and>
    container_for_deployment s' dep = cid"
  using assms
  by (auto simp: load_ready_def abandon_load_def Let_def split_def status_of_def endpoint_url_def
      container_for_deployment_def entry_def set_state_def on_entry_def upd_obj_def
      split: if_splits option.splits)


definition running_at :: "string \<Rightarrow> string \<Rightarrow> string \<Rightarrow> runtime \<Rightarrow> bool" where
  "running_at dep ep cid s \<longleftrightarrow>
     status_of s dep = StateRunning \<and> endpoint_url s dep = ep \<and> container_for_deployment s dep = cid"

lemma load_start_success:
  assumes "load_start env dep p a cid s w = (Inr ep, s', w')" "rt_deployments s dep = Some a"
  shows "ep = endpoint_of env (pl_host_port p) \<and> running_at dep ep cid s'"
  using assms
  by (auto simp: load_start_def Let_def split_def frame_simps fail_load_def running_at_def
      dest!: load_ready_success split: option.splits)

lemma load_create_success:
  assumes "load_create env dep p a spec s w = (Inr ep, s', w')" "rt_deployments s dep = Some a"
  shows "ep = endpoint_of env (pl_host_port p) \<and> (\<exists>cid. running_at dep ep cid s')"
  using assms
  by (auto simp: load_create_def Let_def split_def frame_simps fail_load_def
      dest!: load_start_success split: option.splits sum.splits)

lemma load_pull_success:
  assumes "load_pull env dep p a s w = (Inr ep, s', w')" "rt_deployments s dep = Some a"
  shows "ep = endpoint_of env (pl_host_port p) \<and> (\<exists>cid. running_at dep ep cid s')"
  using assms
  by (auto simp: load_pull_def Let_def split_def frame_simps fail_load_def
      dest!: load_create_success split: option.splits sum.splits)

lemma endpoint_of_nonempty [simp]: "endpoint_of env port \<noteq> []"
  by (simp add: endpoint_of_def)

lemma load_locked_success:
  assumes "load_locked env dep p a s w = (Inr ep, s', w')" "rt_deployments s dep = Some a"
  shows "ep \<noteq> [] \<and> (\<exists>cid. running_at dep ep cid s')"
  using assms
  by (auto simp: load_locked_def running_at_def dest!: load_pull_success split: if_splits sum.splits prod.splits)

lemma get_or_create_entry:
  "get_or_create dep s = (a, s1) \<Longrightarrow> rt_deployments s1 dep = Some a \<and>
     (\<forall>j. j \<noteq> dep \<longrightarrow> rt_deployments s1 j = rt_deployments s j)"
  by (auto simp: get_or_create_def Let_def split: option.splits)

text \<open>The container of a deployment that has just been loaded is the one created from its plan.\<close>

lemma load_create_creates:
  assumes "load_create env dep p a spec s w = (Inr ep, s', w')" "rt_deployments s dep = Some a"
  shows "\<exists>w1 w2. dk_create (re_docker env) RequestCtx spec w1 = (Inr (container_for_deployment s' dep), w2)"
proof -
  let ?w1 = "snd (dk_remove_by_name (re_docker env) RequestCtx (cs_name spec) w)"
  obtain x w2 where c: "dk_create (re_docker env) RequestCtx spec ?w1 = (x, w2)" by fastforce
  from assms(1) c obtain cid s1 where x: "x = Inr cid" and l: "load_start env dep p a cid s1 w2 = (Inr ep, s', w')"
    and s1: "rt_deployments s1 dep = Some a"
    using assms(2) by (auto simp: load_create_def Let_def split_def fail_load_def frame_simps split: sum.splits option.splits)
  from load_start_success [OF l s1] c x show ?thesis by (auto simp: running_at_def)
qed

lemma load_pull_creates:
  assumes "load_pull env dep p a s w = (Inr ep, s', w')" "rt_deployments s dep = Some a"
  shows "\<exists>spec w1 w2. build_container_spec p (re_network env) = Inr spec \<and>
    dk_create (re_docker env) RequestCtx spec w1 = (Inr (container_for_deployment s' dep), w2)"
  using assms
  by (auto simp: load_pull_def Let_def split_def frame_simps fail_load_def
      dest!: load_create_creates split: option.splits sum.splits)

lemma load_model_creates:
  assumes "load_model env dep p s w = (Inr ep, s', w')" "status_of s dep \<noteq> StateRunning"
  shows "\<exists>port spec w1 w2. build_container_spec (p\<lparr>pl_host_port := port\<rparr>) (re_network env) = Inr spec \<and>
    dk_create (re_docker env) RequestCtx spec w1 = (Inr (container_for_deployment s' dep), w2)"
proof -
  obtain a s1 where g: "get_or_create dep s = (a, s1)" by fastforce
  with assms(1) have l: "load_locked env dep p a s1 w = (Inr ep, s', w')" by (simp add: load_model_def)
  have run: "status_of s1 dep \<noteq> StateRunning"
    using g assms(2) by (auto simp: get_or_create_def status_of_def entry_def new_deployment_def Let_def split: option.splits)
  have "\<exists>port w1. load_pull env dep (p\<lparr>pl_host_port := port\<rparr>) a s1 w1 = (Inr ep, s', w')"
  proof (cases "pl_host_port p = 0")
    case True
    with l run show ?thesis by (auto simp: load_locked_def split: sum.splits prod.splits)
  next
    case False
    with l run have "load_pull env dep (p\<lparr>pl_host_port := pl_host_port p\<rparr>) a s1 w = (Inr ep, s', w')"
      by (simp add: load_locked_def)
    then show ?thesis by blast
  qed
  then obtain port w1 where "load_pull env dep (p\<lparr>pl_host_port := port\<rparr>) a s1 w1 = (Inr ep, s', w')" by blast
  from load_pull_creates [OF this] get_or_create_entry [OF g] show ?thesis by blast
qed

text \<open>
  (functional). A load that returns an endpoint leaves the deployment running with that
  endpoint, so it is reported as loaded and the next load of the same id returns it without
  touching Docker or the tables.
\<close>

theorem successful_load_is_running:
  assumes "load_model env dep p s w = (Inr ep, s', w')"
  shows "status_of s' dep = StateRunning \<and> endpoint_url s' dep = ep \<and> dep \<in> loaded_deployments s' \<and>
    load_model env dep p' s' w'' = (Inr ep, s', w'')"
proof -
  obtain a s1 where g: "get_or_create dep s = (a, s1)" by fastforce
  with assms have l: "load_locked env dep p a s1 w = (Inr ep, s', w')" by (simp add: load_model_def)
  from load_locked_success [OF l] get_or_create_entry [OF g]
  obtain cid where r: "ep \<noteq> []" "running_at dep ep cid s'" by auto
  then obtain b where "rt_deployments s' dep = Some b"
    by (auto simp: running_at_def status_of_def entry_def split: option.splits)
  then have "get_or_create dep s' = (b, s')" by (simp add: get_or_create_def)
  with r show ?thesis
    by (auto simp: load_model_def load_locked_def running_at_def loaded_deployments_def)
qed

section \<open>The contract of a worker host\<close>

text \<open>
  A failed load is cleaned up when no container is left that was not there before. The one exception
  is a Create that its context cut off: one container may have been made whose id nobody was told.
\<close>

definition create_cut_off :: "(ctx \<Rightarrow> 'w \<Rightarrow> bool) \<Rightarrow> go_error \<Rightarrow> 'w \<Rightarrow> bool" where
  "create_cut_off live e w' \<longleftrightarrow> (\<exists>d. e = wrap_err ''create'' d) \<and> \<not> live RequestCtx w'"

definition cleaned_up :: "('w \<Rightarrow> string set) \<Rightarrow> (ctx \<Rightarrow> 'w \<Rightarrow> bool) \<Rightarrow> go_error \<Rightarrow> 'w \<Rightarrow> 'w \<Rightarrow> bool" where
  "cleaned_up own live e w w' \<longleftrightarrow>
     own w' \<subseteq> own w \<or> create_cut_off live e w' \<and> (\<exists>x. own w' \<subseteq> insert x (own w))"

lemma cleaned_upI: "own w' \<subseteq> own w \<Longrightarrow> cleaned_up own live e w w'"
  by (simp add: cleaned_up_def)

lemma cleaned_up_mono: "cleaned_up own live e w1 w' \<Longrightarrow> own w1 \<subseteq> own w \<Longrightarrow> cleaned_up own live e w w'"
  by (auto simp: cleaned_up_def)

locale worker_host = docker_client "re_docker env" own sound live
  for env :: "'w rt_env" and own :: "'w \<Rightarrow> string set" and sound :: "'w \<Rightarrow> bool" and live :: "ctx \<Rightarrow> 'w \<Rightarrow> bool" +
  assumes host_own: "own (snd (re_probe env u w)) = own w" "own (snd (re_poll env w)) = own w"
      "own (snd (re_post env u b w)) = own w" "own (snd (re_port env w)) = own w"
      "own (snd (re_prefill_port env w)) = own w" "own (snd (re_decode_port env w)) = own w"
    and host_sound: "sound (snd (re_probe env u w)) = sound w" "sound (snd (re_poll env w)) = sound w"
      "sound (snd (re_post env u b w)) = sound w" "sound (snd (re_port env w)) = sound w"
      "sound (snd (re_prefill_port env w)) = sound w" "sound (snd (re_decode_port env w)) = sound w"
    and host_live: "live c (snd (re_probe env u w)) \<Longrightarrow> live c w" "live c (snd (re_poll env w)) \<Longrightarrow> live c w"
      "live c (snd (re_post env u b w)) \<Longrightarrow> live c w" "live c (snd (re_port env w)) \<Longrightarrow> live c w"
      "live c (snd (re_prefill_port env w)) \<Longrightarrow> live c w" "live c (snd (re_decode_port env w)) \<Longrightarrow> live c w"
begin

lemma wait_ready_frame: "own (snd (wait_ready env u t w)) = own w" "sound (snd (wait_ready env u t w)) = sound w"
proof -
  have "own (snd (wait_ready_fuel n env d u w)) = own w \<and> sound (snd (wait_ready_fuel n env d u w)) = sound w" for n d w
    by (induction n arbitrary: w) (auto simp: split_def Let_def host_own host_sound)
  then show "own (snd (wait_ready env u t w)) = own w" "sound (snd (wait_ready env u t w)) = sound w"
    by (simp_all add: wait_ready_def split_def Let_def del: wait_ready_fuel.simps)
qed

lemma wait_ready_live: "live c (snd (wait_ready env u t w)) \<Longrightarrow> live c w"
proof -
  have "live c (snd (wait_ready_fuel n env d u w)) \<Longrightarrow> live c w" for n d w
  proof (induction n arbitrary: w)
    case 0
    then show ?case by simp
  next
    case (Suc n)
    let ?w1 = "snd (re_probe env u w)"
    let ?w2 = "snd (re_poll env ?w1)"
    from Suc.prems have "live c w \<or> live c ?w1 \<or> live c ?w2 \<or> live c (snd (wait_ready_fuel n env d u ?w2))"
      by (simp add: split_def Let_def split: if_splits)
    with Suc.IH [of ?w2] host_live(1) [of c u w] host_live(2) [of c ?w1] show ?case by blast
  qed
  then show "live c (snd (wait_ready env u t w)) \<Longrightarrow> live c w"
    by (simp add: wait_ready_def split_def Let_def del: wait_ready_fuel.simps)
qed

lemma ollama_frame:
  "own (snd (ollama_pull_if_needed (re_post env) decode p ep w)) = own w"
  "sound (snd (ollama_pull_if_needed (re_post env) decode p ep w)) = sound w"
  using ollama_pull_frame [of "\<lambda>w'. own w' = own w" "re_post env" w]
    ollama_pull_frame [of "\<lambda>w'. sound w' = sound w" "re_post env" w]
  by (auto simp: host_own host_sound)

lemma cleanup_gone:
  "sound w \<Longrightarrow> own (snd (dk_remove (re_docker env) CleanupCtx cid (snd (dk_stop (re_docker env) CleanupCtx cid n w)))) \<subseteq> own w - {cid}"
  by (rule stop_remove_gone) (simp_all add: cleanup_live)

lemma load_ready_own:
  assumes "load_ready env dep p a cid s w = (r, s', w')" "sound w"
  shows "sound w' \<and> (case r of Inl e \<Rightarrow> own w' \<subseteq> own w - {cid} | Inr ep \<Rightarrow> own w' = own w)"
proof -
  let ?w1 = "snd (wait_ready env (endpoint_of env (pl_host_port p) @ pl_ready_path p) (readiness_timeout env p) w)"
  let ?w2 = "snd (ollama_pull_if_needed (re_post env) (re_decode env) p (endpoint_of env (pl_host_port p)) ?w1)"
  have f: "own ?w1 = own w" "sound ?w1" "own ?w2 = own w" "sound ?w2"
    using assms(2) by (simp_all add: wait_ready_frame ollama_frame)
  show ?thesis
    using assms(1) f cleanup_gone [of ?w1 cid 5] cleanup_gone [of ?w2 cid 5]
    by (auto simp: load_ready_def abandon_load_def Let_def split_def stop_remove_sound remove_image_own sound_kept
        split: if_splits option.splits)
qed

lemma load_start_own:
  assumes "load_start env dep p a cid s w = (r, s', w')" "sound w"
  shows "sound w' \<and> (case r of Inl e \<Rightarrow> own w' \<subseteq> own w - {cid} | Inr ep \<Rightarrow> own w' = own w)"
proof -
  let ?w1 = "snd (dk_start (re_docker env) RequestCtx cid w)"
  let ?w2 = "snd (dk_remove (re_docker env) CleanupCtx cid ?w1)"
  have 1: "own ?w1 = own w" "sound ?w1" using assms(2) by (simp_all add: start_own sound_kept)
  then have 2: "own ?w2 \<subseteq> own w - {cid}" "sound ?w2"
    using remove_gone [of ?w1 CleanupCtx cid] remove_own [of CleanupCtx cid ?w1]
    by (auto simp: sound_kept cleanup_live)
  show ?thesis
  proof (cases "fst (dk_start (re_docker env) RequestCtx cid w)")
    case None
    with assms(1) obtain s1 where "load_ready env dep p a cid s1 ?w1 = (r, s', w')"
      by (auto simp: load_start_def Let_def split_def)
    from load_ready_own [OF this 1(2)] 1(1) show ?thesis by (simp split: sum.splits)
  next
    case (Some e)
    with assms(1) 2 show ?thesis
      by (auto simp: load_start_def Let_def split_def dest!: fail_load_effect)
  qed
qed

lemma load_create_own:
  assumes "load_create env dep p a spec s w = (r, s', w')" "sound w"
  shows "sound w' \<and> (case r of Inl e \<Rightarrow> cleaned_up own live e w w' | Inr ep \<Rightarrow> \<exists>cid. own w' \<subseteq> insert cid (own w))"
proof -
  let ?w1 = "snd (dk_remove_by_name (re_docker env) RequestCtx (cs_name spec) w)"
  let ?w2 = "snd (dk_create (re_docker env) RequestCtx spec ?w1)"
  have 1: "own ?w1 \<subseteq> own w" "sound ?w2" using assms(2) by (simp_all add: remove_by_name_own sound_kept)
  show ?thesis
  proof (cases "fst (dk_create (re_docker env) RequestCtx spec ?w1)")
    case (Inl e)
    with assms(1) have f: "r = Inl (wrap_err ''create'' e)" "w' = ?w2"
      by (auto simp: load_create_def Let_def split_def dest!: fail_load_effect)
    have "cleaned_up own live (wrap_err ''create'' e) ?w1 ?w2"
      using create_failed [OF Inl] create_one [of RequestCtx spec ?w1]
      by (auto simp: cleaned_up_def create_cut_off_def)
    with f 1 show ?thesis by (auto intro: cleaned_up_mono)
  next
    case (Inr cid)
    with assms(1) obtain s1 where l: "load_start env dep p a cid s1 ?w2 = (r, s', w')"
      by (auto simp: load_create_def Let_def split_def)
    have "own ?w2 = insert cid (own ?w1)" using create_own [OF Inr] .
    with load_start_own [OF l 1(2)] 1 show ?thesis by (auto split: sum.splits intro!: cleaned_upI)
  qed
qed

lemma load_pull_own:
  assumes "load_pull env dep p a s w = (r, s', w')" "sound w"
  shows "sound w' \<and> (case r of Inl e \<Rightarrow> cleaned_up own live e w w' | Inr ep \<Rightarrow> \<exists>cid. own w' \<subseteq> insert cid (own w))"
proof -
  let ?q = "dk_pull (re_docker env) RequestCtx (pl_image p) w"
  have 1: "own (snd ?q) = own w" "sound (snd ?q)" using assms(2) by (simp_all add: pull_own sound_kept)
  show ?thesis
  proof (cases "fst (fst ?q) = None \<and> (\<exists>spec. build_container_spec p (re_network env) = Inr spec)")
    case True
    with assms(1) obtain spec s1 where "load_create env dep p a spec s1 (snd ?q) = (r, s', w')"
      by (auto simp: load_pull_def Let_def split_def)
    from load_create_own [OF this 1(2)] 1(1) show ?thesis by (auto simp: cleaned_up_def split: sum.splits)
  next
    case False
    with assms(1) 1 show ?thesis
      by (auto simp: load_pull_def Let_def split_def dest!: fail_load_effect intro!: cleaned_upI
          split: option.splits sum.splits)
  qed
qed

lemma load_locked_own:
  assumes "load_locked env dep p a s w = (r, s', w')" "sound w"
  shows "sound w' \<and> (case r of Inl e \<Rightarrow> cleaned_up own live e w w' | Inr ep \<Rightarrow> \<exists>cid. own w' \<subseteq> insert cid (own w))"
proof (cases "status_of s dep = StateRunning \<and> endpoint_url s dep \<noteq> []")
  case True
  with assms show ?thesis by (auto simp: load_locked_def)
next
  case False
  show ?thesis
  proof (cases "pl_host_port p = 0")
    case True
    have 1: "own (snd (re_port env w)) = own w" "sound (snd (re_port env w))"
      using assms(2) by (simp_all add: host_own host_sound)
    obtain x w1 where x: "re_port env w = (x, w1)" by fastforce
    with 1 have 1: "own w1 = own w" "sound w1" by simp_all
    show ?thesis
    proof (cases x)
      case (Inl e)
      with assms False True x 1 show ?thesis by (auto simp: load_locked_def cleaned_up_def)
    next
      case (Inr port)
      with assms False True x have "load_pull env dep (p\<lparr>pl_host_port := port\<rparr>) a s w1 = (r, s', w')"
        by (simp add: load_locked_def)
      from load_pull_own [OF this 1(2)] 1(1) show ?thesis by (auto simp: cleaned_up_def split: sum.splits)
    qed
  next
    case nz: False
    with assms False have "load_pull env dep p a s w = (r, s', w')" by (auto simp: load_locked_def)
    from load_pull_own [OF this assms(2)] show ?thesis .
  qed
qed

lemma create_and_start_own:
  assumes "create_and_start env p w = (r, w')" "sound w"
  shows "sound w' \<and> (case r of Inl e \<Rightarrow> live RequestCtx w' \<longrightarrow> own w' \<subseteq> own w | Inr cid \<Rightarrow> own w' = insert cid (own w))"
proof (cases "build_container_spec p (re_network env)")
  case (Inl e)
  with assms show ?thesis by (auto simp: create_and_start_def)
next
  case (Inr spec)
  obtain x w1 where c: "dk_create (re_docker env) RequestCtx spec w = (x, w1)" by fastforce
  have w1: "sound w1" "\<And>cid. x = Inr cid \<Longrightarrow> own w1 = insert cid (own w)"
    "\<And>e. x = Inl e \<Longrightarrow> live RequestCtx w1 \<Longrightarrow> own w1 = own w"
    using create_own [of RequestCtx spec w] create_failed [of RequestCtx spec w] sound_kept(2) [of RequestCtx spec w] c assms(2)
    by simp_all
  show ?thesis
  proof (cases x)
    case (Inl e)
    with assms Inr c w1 show ?thesis by (auto simp: create_and_start_def)
  next
    case (Inr cid)
    obtain e w2 where st: "dk_start (re_docker env) RequestCtx cid w1 = (e, w2)" by fastforce
    have w2: "sound w2" "own w2 = insert cid (own w)"
      using start_own [of RequestCtx cid w1] sound_kept(3) [of RequestCtx cid w1] st w1 Inr by simp_all
    let ?w3 = "snd (wait_ready env (endpoint_of env (pl_host_port p) @ pl_ready_path p) (re_readiness_timeout env) w2)"
    have w3: "sound ?w3" "own ?w3 = insert cid (own w)" using w2 by (simp_all add: wait_ready_frame)
    have rm: "sound (snd (dk_remove (re_docker env) CleanupCtx cid w2))"
      "own (snd (dk_remove (re_docker env) CleanupCtx cid w2)) \<subseteq> own w"
      using w2 remove_gone [of w2 CleanupCtx cid] remove_own [of CleanupCtx cid w2]
      by (auto simp: sound_kept cleanup_live)
    show ?thesis
      using assms(1) \<open>build_container_spec p (re_network env) = Inr spec\<close> c Inr st rm w3 cleanup_gone [of ?w3 cid 5]
      by (auto simp: create_and_start_def Let_def split_def stop_remove_sound split: option.splits if_splits)
  qed
qed

lemma create_and_start_live: "live RequestCtx (snd (create_and_start env p w)) \<Longrightarrow> live RequestCtx w"
  by (auto simp: create_and_start_def Let_def split_def dest!: live_before wait_ready_live
      split: sum.splits option.splits if_splits prod.splits)

lemma create_and_start_id: "fst (create_and_start env p w) = Inr cid \<Longrightarrow> cid \<noteq> []"
  by (auto simp: create_and_start_def Let_def split_def create_id dest: create_id
      split: sum.splits option.splits if_splits prod.splits)

text \<open>Launching a role adds at most the containers it reports, and their ids are never empty; only a Create
  that is cut off may add one more.\<close>

lemma launch_replicas_own:
  assumes "launch_replicas env ports role name i cps w = ((e, infos), w')" "sound w"
    and "\<And>w. own (snd (ports w)) = own w" "\<And>w. sound (snd (ports w)) = sound w"
  shows "sound w' \<and> (e = None \<or> live RequestCtx w' \<longrightarrow> own w' \<subseteq> own w \<union> ci_container_id ` set infos) \<and>
    [] \<notin> ci_container_id ` set infos"
  using assms(1,2)
proof (induction cps arbitrary: i w e infos w')
  case Nil
  then show ?case by auto
next
  case (Cons cp cps)
  obtain x w1 where x: "ports w = (x, w1)" by fastforce
  then have w1: "own w1 = own w" "sound w1" using assms(3,4) [of w] Cons.prems(2) by simp_all
  show ?case
  proof (cases x)
    case (Inl err)
    with Cons.prems x w1 show ?thesis by auto
  next
    case (Inr port)
    obtain y w2 where y: "create_and_start env (to_plan cp (name i) port) w1 = (y, w2)" by fastforce
    note w2 = create_and_start_own [OF y w1(2)]
    show ?thesis
    proof (cases y)
      case (Inl err)
      with Cons.prems x \<open>x = Inr port\<close> y w1 w2 show ?thesis by auto
    next
      case (Inr cid)
      obtain e3 infos3 w3 where l: "launch_replicas env ports role name (Suc i) cps w2 = ((e3, infos3), w3)"
        by (metis prod.collapse)
      from w2 Inr have o: "sound w2" "own w2 = insert cid (own w)" using w1 by simp_all
      have "cid \<noteq> []" using create_and_start_id [of _ w1 cid] y Inr by (metis fst_conv)
      with Cons.IH [OF l o(1)] o Cons.prems(1) x \<open>x = Inr port\<close> y Inr l show ?thesis by auto
    qed
  qed
qed

lemma launch_replicas_live:
  assumes "\<And>w. live RequestCtx (snd (ports w)) \<Longrightarrow> live RequestCtx w"
  shows "live RequestCtx (snd (launch_replicas env ports role name i cps w)) \<Longrightarrow> live RequestCtx w"
proof (induction cps arbitrary: i w)
  case Nil
  then show ?case by simp
next
  case (Cons cp cps)
  let ?c = "\<lambda>port. create_and_start env (to_plan cp (name i) port) (snd (ports w))"
  have "live RequestCtx (snd (ports w))"
  proof (cases "fst (ports w)")
    case (Inl e)
    with Cons.prems show ?thesis by (simp add: split_def)
  next
    case (Inr port)
    have "live RequestCtx (snd (?c port))"
      using Cons.prems Cons.IH [of "Suc i" "snd (?c port)"] Inr
      by (auto simp: split_def Let_def split: sum.splits)
    then show ?thesis by (rule create_and_start_live)
  qed
  with assms show ?case by blast
qed

lemma stop_and_remove_own:
  assumes "sound w" "live RequestCtx (stop_and_remove env n ci w)" "ci_container_id ci \<noteq> []"
  shows "own (stop_and_remove env n ci w) \<subseteq> own w - {ci_container_id ci}"
  using assms stop_remove_gone [of w RequestCtx "ci_container_id ci" n]
  by (simp add: stop_and_remove_def Let_def split_def)

lemma stop_and_remove_frame:
  "sound (stop_and_remove env n ci w) = sound w" "own (stop_and_remove env n ci w) \<subseteq> own w"
  "live c (stop_and_remove env n ci w) \<Longrightarrow> live c w"
  using stop_remove_own [of RequestCtx "ci_container_id ci" n w]
  by (auto simp: stop_and_remove_def Let_def split_def stop_remove_sound dest!: live_before split: if_splits)

lemma teardown_live: "live c (fold (stop_and_remove env n) cis w) \<Longrightarrow> live c w"
  by (induction cis arbitrary: w) (auto dest: stop_and_remove_frame(3))

lemma teardown_own:
  assumes "sound w" "live RequestCtx (fold (stop_and_remove env n) cis w)" "[] \<notin> ci_container_id ` set cis"
  shows "own (fold (stop_and_remove env n) cis w) \<subseteq> own w - ci_container_id ` set cis"
  using assms
proof (induction cis arbitrary: w)
  case Nil
  then show ?case by simp
next
  case (Cons ci cis)
  let ?w1 = "stop_and_remove env n ci w"
  from Cons.prems have l: "live RequestCtx (fold (stop_and_remove env n) cis ?w1)" by simp
  have "own ?w1 \<subseteq> own w - {ci_container_id ci}"
    using Cons.prems teardown_live [OF l] by (intro stop_and_remove_own) auto
  with Cons.IH [of ?w1] Cons.prems l show ?case
    by (auto simp: stop_and_remove_frame(1))
qed

lemma group_load_failure_own:
  assumes "load_deployment_group env d s w = Some (Inl e, s', w')" "sound w" "live RequestCtx w'"
  shows "s' = s \<and> own w' \<subseteq> own w"
proof -
  from assms(1) obtain first rest where f: "dp_prefill d = first # rest"
    by (auto simp: load_deployment_group_def split: list.splits)
  let ?q = "dk_pull (re_docker env) RequestCtx (cp_image first) w"
  let ?w1 = "snd ?q"
  have w1: "own ?w1 = own w" "sound ?w1" using assms(2) by (simp_all add: pull_own sound_kept)
  let ?l1 = "launch_replicas env (re_prefill_port env) ''prefill''
      (replica_name (group_prefix d) ''p'' (dp_deployment_id d)) 0 (dp_prefill d) ?w1"
  obtain e1 pre w2 where l1: "?l1 = ((e1, pre), w2)" by (metis prod.collapse)
  note o1 = launch_replicas_own [OF l1 w1(2) host_own(5) host_sound(5)]
  let ?l2 = "launch_replicas env (re_decode_port env) ''decode''
      (replica_name (group_prefix d) ''d'' (dp_deployment_id d)) 0 (dp_decode d) w2"
  obtain e2 dec w3 where l2: "?l2 = ((e2, dec), w3)" by (metis prod.collapse)
  note o2 = launch_replicas_own [OF l2 o1 [THEN conjunct1] host_own(6) host_sound(6)]
  show ?thesis
  proof (cases "fst (fst ?q)")
    case (Some err)
    with assms(1) f w1 show ?thesis by (auto simp: load_deployment_group_def split_def)
  next
    case None
    show ?thesis
    proof (cases e1)
      case (Some err)
      with assms(1) f None l1 have "s' = s" "w' = fold (stop_and_remove env 5) pre w2"
        by (auto simp: load_deployment_group_def rollback_group_def split_def Let_def)
      with teardown_own [of w2 5 pre] teardown_live [of RequestCtx 5 pre w2] o1 w1 assms(3) show ?thesis by auto
    next
      case e1: None
      show ?thesis
      proof (cases e2)
        case (Some err)
        with assms(1) f None l1 e1 l2 have "s' = s" "w' = fold (stop_and_remove env 5) (pre @ dec) w3"
          by (auto simp: load_deployment_group_def rollback_group_def split_def Let_def)
        moreover have "own (fold (stop_and_remove env 5) (pre @ dec) w3) \<subseteq> own w3 - ci_container_id ` set (pre @ dec)"
          using calculation o1 o2 assms(3) by (intro teardown_own) auto
        ultimately have fin: "s' = s" "live RequestCtx (fold (stop_and_remove env 5) (pre @ dec) w3)"
          "own w' \<subseteq> own w3 - ci_container_id ` set (pre @ dec)" using assms(3) by simp_all
        have "live RequestCtx w3" by (rule teardown_live [OF fin(2)])
        then have "own w3 \<subseteq> own w2 \<union> ci_container_id ` set dec" using o2 by simp
        moreover have "own w2 \<subseteq> own w \<union> ci_container_id ` set pre" using o1 w1(1) e1 by simp
        ultimately have "own w3 \<subseteq> own w \<union> ci_container_id ` set (pre @ dec)" by (simp only: set_append image_Un) fast
        with fin(3) have "own w' \<subseteq> own w" by fast
        with fin(1) show ?thesis ..
      next
        case e2: None
        with assms(1) f None l1 e1 l2 show ?thesis by (auto simp: load_deployment_group_def split_def Let_def)
      qed
    qed
  qed
qed

end

section \<open>The in-memory host\<close>

text \<open>
  The environment of the repository's runtime tests: the fake Docker client, a scripted probe, a
  clock that advances half a second per poll, scripted HTTP answers and the port allocators.
\<close>

record fake_host = fake_client +
  fh_probes :: "bool list"
  fh_clock :: int
  fh_posts :: "post_result list"
  fh_ports :: port_allocator
  fh_prefill_ports :: port_allocator
  fh_decode_ports :: port_allocator

definition fake_probe :: "string \<Rightarrow> fake_host \<Rightarrow> bool \<times> fake_host" where
  "fake_probe u w = (case fh_probes w of [] \<Rightarrow> (False, w) | b # bs \<Rightarrow> (b, w\<lparr>fh_probes := bs\<rparr>))"

definition fake_poll :: "fake_host \<Rightarrow> bool \<times> fake_host" where
  "fake_poll w = (fk_cancelled w, w\<lparr>fh_clock := fh_clock w + 500000000\<rparr>)"

definition fake_post :: "fake_host http_post" where
  "fake_post u b w = (case fh_posts w of [] \<Rightarrow> (PostResponse 200 ''success'', w) | r # rs \<Rightarrow> (r, w\<lparr>fh_posts := rs\<rparr>))"

definition fake_env :: "fake_host rt_env" where
  "fake_env =
     \<lparr>re_docker = fake_docker, re_network = ''inferia-models'', re_readiness_timeout = 180000000000,
      re_advertise_host = ''127.0.0.1'', re_now = fh_clock, re_probe = fake_probe, re_poll = fake_poll,
      re_post = fake_post, re_decode = (\<lambda>l. Inr (l, [])),
      re_port = (\<lambda>w. let (r, a) = port_next (fh_ports w) in (r, w\<lparr>fh_ports := a\<rparr>)),
      re_prefill_port = (\<lambda>w. let (r, a) = port_next (fh_prefill_ports w) in (r, w\<lparr>fh_prefill_ports := a\<rparr>)),
      re_decode_port = (\<lambda>w. let (r, a) = port_next (fh_decode_ports w) in (r, w\<lparr>fh_decode_ports := a\<rparr>))\<rparr>"

definition new_fake_host :: "bool list \<Rightarrow> fake_host" where
  "new_fake_host probes = fake_client.extend new_fake
     \<lparr>fh_probes = probes, fh_clock = 0, fh_posts = [], fh_ports = new_port_allocator 19000 19999,
      fh_prefill_ports = new_port_allocator 19000 19499, fh_decode_ports = new_port_allocator 19500 19999\<rparr>"

lemma fake_env_sel [simp]:
  "re_docker fake_env = fake_docker" "re_network fake_env = ''inferia-models''"
  "re_readiness_timeout fake_env = 180000000000" "re_advertise_host fake_env = ''127.0.0.1''"
  "re_now fake_env = fh_clock" "re_probe fake_env = fake_probe" "re_poll fake_env = fake_poll"
  "re_post fake_env = fake_post"
  by (simp_all add: fake_env_def)

lemmas fake_host_defs = fake_probe_def fake_poll_def fake_post_def

interpretation fake_worker: worker_host fake_env fake_own fake_sound fake_live
proof (rule worker_host.intro)
  show "docker_client (re_docker fake_env) fake_own fake_sound fake_live"
    unfolding fake_env_sel by (rule fake.docker_client_axioms)
  show "worker_host_axioms fake_env fake_own fake_sound fake_live"
    by unfold_locales
      (auto simp: fake_host_defs fake_env_def fake_state_defs Let_def split_def split: list.splits)
qed

lemma fake_clock_progress: "clock_progress fake_env"
  by (auto simp: clock_progress_def fake_probe_def fake_poll_def split: list.splits)

theorem readiness_loop_ends_witness:
  "\<exists>r. wait_ready_fuel 1000000001 fake_env (0 + 1000000000) ''u'' (new_fake_host [False, True]) =
     (Some r, snd (wait_ready fake_env ''u'' 1000000000 (new_fake_host [False, True])))"
  using readiness_loop_ends [OF fake_clock_progress, of 1000000000 1000000001 "new_fake_host [False, True]" "''u''"]
  by (auto simp del: wait_ready_fuel.simps simp: new_fake_host_def fake_client.defs)

section \<open>Properties\<close>

definition no_port :: "'w rt_env \<Rightarrow> plan \<Rightarrow> 'w \<Rightarrow> bool" where
  "no_port env p w \<longleftrightarrow> pl_host_port p = 0 \<and> (\<exists>e. fst (re_port env w) = Inl e)"

lemma load_locked_failure:
  assumes "load_locked env dep p a s w = (Inl e, s', w')"
  shows "if no_port env p w then s' = s else rt_deployments s' = (rt_deployments s)(dep := None)"
  using assms
  by (auto simp: load_locked_def load_effect_def no_port_def dest!: load_pull_effect split: if_splits sum.splits prod.splits)

lemma load_locked_effect:
  assumes "load_locked env dep p a s w = (Inl e, s', w')" "pl_host_port p \<noteq> 0"
  shows "rt_deployments s' = (rt_deployments s)(dep := None)"
  using load_locked_failure [OF assms(1)] assms(2) by (simp add: no_port_def)


definition sample_plan :: "int \<Rightarrow> plan" where
  "sample_plan port =
     \<lparr>pl_image = ''img'', pl_container_name = ''inferia-vllm-d'', pl_cmd = [], pl_entrypoint = [], pl_env = Map.empty,
      pl_mounts = [], pl_container_port = port, pl_host_port = 19000, pl_gpu_indices = [0], pl_shm_size = 0,
      pl_ready_path = ''/health'', pl_readiness_timeout = 0\<rparr>"

lemma sample_plan_bad_spec:
  "build_container_spec (sample_plan 0) n = Inl (Errorf ''plan.ContainerPort must be > 0'' [])"
  by (simp add: build_container_spec_def sample_plan_def)

lemma new_fake_host_sel [simp]:
  "fk_errors (new_fake_host ps) = no_fake_errors" "fk_cancelled (new_fake_host ps) = False"
  "fk_containers (new_fake_host ps) = Map.empty" "fk_names (new_fake_host ps) = Map.empty"
  "fh_probes (new_fake_host ps) = ps" "fh_clock (new_fake_host ps) = 0"
  "fk_progress_lines (new_fake_host ps) = []"
  by (simp_all add: new_fake_host_def new_fake_def fake_client.defs)

lemma no_fake_errors_sel [simp]:
  "fe_pull no_fake_errors = None" "fe_create no_fake_errors = None" "fe_start no_fake_errors = None"
  "fe_stop no_fake_errors = None" "fe_remove no_fake_errors = None" "fe_remove_image no_fake_errors = None"
  "fe_remove_by_name no_fake_errors = None"
  by (simp_all add: no_fake_errors_def)

lemma sample_plan_sel [simp]:
  "pl_host_port (sample_plan port) = 19000" "pl_image (sample_plan port) = ''img''"
  "pl_container_name (sample_plan port) = ''inferia-vllm-d''" "pl_ready_path (sample_plan port) = ''/health''"
  "pl_env (sample_plan port) = Map.empty"
  by (simp_all add: sample_plan_def)

text \<open>Two executions on the in-memory host: a plan without a container port fails, a good one runs.\<close>

lemma bad_spec_fails:
  assumes "status_of s dep = StateAbsent" "w = new_fake_host ps"
  shows "\<exists>e s' w'. load_locked fake_env dep (sample_plan 0) a s w = (Inl e, s', w') \<and>
     fk_errors w' = no_fake_errors \<and> fk_names w' = Map.empty \<and> fh_probes w' = ps \<and> fk_progress_lines w' = [] \<and>
     \<not> fk_cancelled w'"
  using assms
  by (auto simp: load_locked_def load_pull_def sample_plan_bad_spec fake_pull_def log_call_def fail_load_def Let_def)

lemma sample_plan_spec: "\<exists>spec. build_container_spec (sample_plan 8000) n = Inr spec \<and> cs_name spec = ''inferia-vllm-d''"
  by (simp add: build_container_spec_def sample_plan_def)

lemma fake_wait_ready:
  "0 < t \<Longrightarrow> fh_probes w = [True] \<Longrightarrow> wait_ready fake_env u t w = (True, w\<lparr>fh_probes := []\<rparr>)"
  by (simp add: wait_ready_def fake_probe_def)

lemma plan_runs:
  assumes "status_of s dep = StateAbsent" "fk_errors w = no_fake_errors" "fk_names w = Map.empty"
    "fh_probes w = [True]" "fk_progress_lines w = []"
    and p: "build_container_spec p ''inferia-models'' = Inr spec" "pl_host_port p \<noteq> 0"
      "env_value (pl_env p) ''INFERIA_OLLAMA_MODEL'' = []"
  shows "\<exists>s' w'. load_locked fake_env dep p a s w = (Inr (endpoint_of fake_env (pl_host_port p)), s', w')"
proof -
  have "0 < readiness_timeout fake_env p" by (simp add: readiness_timeout_def)
  then have ready: "\<exists>s' w'. load_ready fake_env dep p a cid s w = (Inr (endpoint_of fake_env (pl_host_port p)), s', w')"
    if "fh_probes w = [True]" "fk_errors w = no_fake_errors" for cid s w
    using that p(3)
    by (simp add: load_ready_def fake_wait_ready ollama_pull_if_needed_def fake_remove_image_def Let_def)
  have start: "\<exists>s' w'. load_start fake_env dep p a cid s w = (Inr (endpoint_of fake_env (pl_host_port p)), s', w')"
    if "fh_probes w = [True]" "fk_errors w = no_fake_errors" for cid s w
    using that ready by (simp add: load_start_def fake_start_def log_call_def set_inspect_def Let_def split: option.split)
  have create: "\<exists>s' w'. load_create fake_env dep p a spec s w = (Inr (endpoint_of fake_env (pl_host_port p)), s', w')"
    if "fh_probes w = [True]" "fk_errors w = no_fake_errors" "fk_names w = Map.empty" for s w
    using that start by (simp add: load_create_def fake_remove_by_name_def fake_create_def log_call_def Let_def)
  show ?thesis
    using assms(1-5) create p(1,2)
    by (simp add: load_locked_def load_pull_def fake_pull_def log_call_def Let_def)
qed

lemma good_plan_runs:
  assumes "status_of s dep = StateAbsent" "fk_errors w = no_fake_errors" "fk_names w = Map.empty"
    "fh_probes w = [True]" "fk_progress_lines w = []"
  shows "\<exists>s' w'. load_locked fake_env dep (sample_plan 8000) a s w = (Inr (endpoint_of fake_env 19000), s', w')"
  using sample_plan_spec [of "''inferia-models''"] plan_runs [OF assms, of "sample_plan 8000"]
  by (auto simp: env_value_def)


theorem successful_load_is_running_witness:
  "\<exists>ep s' w'. load_model fake_env ''d'' (sample_plan 8000) new_runtime (new_fake_host [True]) = (Inr ep, s', w') \<and>
     status_of s' ''d'' = StateRunning \<and> ''d'' \<in> loaded_deployments s'"
proof -
  obtain a s1 where g: "get_or_create ''d'' new_runtime = (a, s1)" by fastforce
  then have "status_of s1 ''d'' = StateAbsent"
    by (auto simp: get_or_create_def new_runtime_def status_of_def entry_def new_deployment_def Let_def)
  from good_plan_runs [OF this, of "new_fake_host [True]" a] g obtain s' w' where
    l: "load_model fake_env ''d'' (sample_plan 8000) new_runtime (new_fake_host [True]) = (Inr (endpoint_of fake_env 19000), s', w')"
    by (auto simp: load_model_def)
  from successful_load_is_running [OF l] l show ?thesis by blast
qed

text \<open>
  (safety). Two concurrent loads of one deployment share its object. When the first fails, it
  drops the entry; the second, waiting for the lock, then starts a container and returns an
  endpoint for a deployment the runtime no longer knows: it is not reported as loaded and unloading
  it does nothing.
\<close>

theorem second_load_runs_orphaned:
  assumes "get_or_create dep s = (a, s0)" and "pl_host_port p \<noteq> 0"
    and "load_locked env dep p a s0 w0 = (Inl e, s1, w1)"
    and "load_locked env dep p' a s1 w1 = (Inr ep, s2, w2)"
  shows "get_or_create dep s0 = (a, s0) \<and> status_of s2 dep = StateAbsent \<and>
    container_for_deployment s2 dep = [] \<and> unload_model env dep s2 w2 = (None, s2, w2)"
proof -
  have none: "rt_deployments s1 dep = None" using load_locked_effect [OF assms(3,2)] by simp
  then have "status_of s1 dep = StateAbsent" by (simp add: status_of_def entry_def)
  with assms(4) have "\<exists>q w. load_pull env dep q a s1 w = (Inr ep, s2, w2)"
    by (auto simp: load_locked_def split: if_splits sum.splits prod.splits)
  then have "rt_deployments s2 dep = None"
    using none by (auto simp: load_effect_def dest!: load_pull_effect)
  moreover have "rt_deployments s0 dep = Some a" using get_or_create_entry [OF assms(1)] by simp
  ultimately show ?thesis
    by (simp add: get_or_create_def status_of_def container_for_deployment_def entry_def unload_model_def)
qed

theorem second_load_runs_orphaned_witness:
  "\<exists>a s0 e s1 w1 ep s2 w2. get_or_create ''d'' new_runtime = (a, s0) \<and>
     load_locked fake_env ''d'' (sample_plan 0) a s0 (new_fake_host [True]) = (Inl e, s1, w1) \<and>
     load_locked fake_env ''d'' (sample_plan 8000) a s1 w1 = (Inr ep, s2, w2) \<and>
     status_of s2 ''d'' = StateAbsent \<and> unload_model fake_env ''d'' s2 w2 = (None, s2, w2)"
proof -
  obtain a s0 where g: "get_or_create ''d'' new_runtime = (a, s0)" by fastforce
  then have "status_of s0 ''d'' = StateAbsent"
    by (auto simp: get_or_create_def new_runtime_def status_of_def entry_def new_deployment_def Let_def)
  from bad_spec_fails [OF this refl, of a "[True]"] obtain e s1 w1 where
    l1: "load_locked fake_env ''d'' (sample_plan 0) a s0 (new_fake_host [True]) = (Inl e, s1, w1)"
    and w1: "fk_errors w1 = no_fake_errors" "fk_names w1 = Map.empty" "fh_probes w1 = [True]" "fk_progress_lines w1 = []"
    by blast
  have "status_of s1 ''d'' = StateAbsent"
    using load_locked_effect [OF l1] by (simp add: status_of_def entry_def)
  from good_plan_runs [OF this w1] obtain ep s2 w2 where
    l2: "load_locked fake_env ''d'' (sample_plan 8000) a s1 w1 = (Inr ep, s2, w2)" by blast
  from second_load_runs_orphaned [OF g _ l1 l2] g l1 l2 show ?thesis by auto
qed

end
