(* ===== verification/Group_Lifecycle.thy ===== *)
theory Group_Lifecycle imports Lifecycle begin

text \<open>
  Unloading, and the lifecycle of prefill/decode groups: what a successful group load registers,
  what a failed one leaves behind, and how its teardown differs from that of a single deployment.
\<close>

section \<open>Unloading one deployment\<close>

lemma unload_locked_success:
  assumes "unload_locked env dep a s w = (None, s', w')"
  shows "rt_deployments s' = (rt_deployments s)(dep := None) \<and>
    (let cid = rd_container_id (rt_objects s a)
     in w' = (if cid = [] then w
              else snd (dk_remove (re_docker env) RequestCtx cid (snd (dk_stop (re_docker env) RequestCtx cid 10 w)))))"
proof -
  have "rd_container_id (rt_objects (set_state n dep st s) a) = rd_container_id (rt_objects s a)" for n st
    by (simp add: set_state_def on_entry_def upd_obj_def split: option.split)
  with assms show ?thesis
    by (auto simp: unload_locked_def Let_def split_def frame_simps split: if_splits option.splits)
qed

text \<open>
  (functional). An unload that reports success has removed the deployment's container and
  forgotten the deployment, provided the request was still live; other deployments keep their
  state. Unloading an unknown deployment succeeds and changes nothing.
\<close>

theorem unload_removes_container:
  assumes "worker_host env own sound live" and "sound w" and "live RequestCtx w'"
    and "unload_model env dep s w = (None, s', w')"
  shows "status_of s' dep = StateAbsent \<and> own w' \<subseteq> own w \<and>
    (container_for_deployment s dep \<noteq> [] \<longrightarrow> container_for_deployment s dep \<notin> own w') \<and>
    (\<forall>j. j \<noteq> dep \<longrightarrow> rt_deployments s' j = rt_deployments s j) \<and>
    (rt_deployments s dep = None \<longrightarrow> s' = s \<and> w' = w)"
proof (cases "rt_deployments s dep")
  case None
  with assms(4) show ?thesis by (simp add: unload_model_def status_of_def container_for_deployment_def entry_def)
next
  case (Some a)
  let ?cid = "rd_container_id (rt_objects s a)"
  from Some assms(4) have "unload_locked env dep a s w = (None, s', w')" by (simp add: unload_model_def)
  from unload_locked_success [OF this]
  have u: "rt_deployments s' = (rt_deployments s)(dep := None)"
    "w' = (if ?cid = [] then w
       else snd (dk_remove (re_docker env) RequestCtx ?cid (snd (dk_stop (re_docker env) RequestCtx ?cid 10 w))))"
    by (simp_all add: Let_def)
  have "docker_client (re_docker env) own sound live" using assms(1) by (simp add: worker_host_def)
  from docker_client.stop_remove_gone [OF this assms(2), of RequestCtx ?cid 10] assms(3) u(2)
  have "own w' \<subseteq> own w \<and> (?cid \<noteq> [] \<longrightarrow> ?cid \<notin> own w')" by auto
  with u(1) Some show ?thesis by (auto simp: status_of_def container_for_deployment_def entry_def)
qed

theorem unload_removes_container_witness:
  "\<exists>s' w'. unload_model fake_env ''d'' (snd (get_or_create ''d'' new_runtime)) (new_fake_host []) = (None, s', w') \<and>
     status_of s' ''d'' = StateAbsent"
proof -
  let ?s = "snd (get_or_create ''d'' new_runtime)"
  obtain s' w' where u: "unload_model fake_env ''d'' ?s (new_fake_host []) = (None, s', w')" "w' = new_fake_host []"
    by (simp add: unload_model_def unload_locked_def get_or_create_def new_runtime_def new_deployment_def
        set_state_def on_entry_def upd_obj_def Let_def)
  from unload_removes_container [OF fake_worker.worker_host_axioms _ _ u(1)] u show ?thesis
    by (auto simp: fake_sound_def fake_live_def)
qed

section \<open>Group loads\<close>

definition launched_as :: "container_plan \<Rightarrow> container_info \<Rightarrow> bool" where
  "launched_as cp ci \<longleftrightarrow> ci_role ci = cp_role cp \<and> ci_replica_idx ci = cp_replica_idx cp"

lemma launch_replicas_infos:
  "launch_replicas env ports role name i cps w = ((None, infos), w') \<Longrightarrow> list_all2 launched_as cps infos"
proof (induction cps arbitrary: i w infos w')
  case Nil
  then show ?case by simp
next
  case (Cons cp cps)
  obtain x w1 where x: "ports w = (x, w1)" by fastforce
  with Cons.prems obtain port where p: "x = Inr port" by (cases x) auto
  obtain y w2 where y: "create_and_start env (to_plan cp (name i) port) w1 = (y, w2)" by fastforce
  with Cons.prems x p obtain cid where c: "y = Inr cid" by (cases y) auto
  obtain e3 infos3 w3 where l: "launch_replicas env ports role name (Suc i) cps w2 = ((e3, infos3), w3)"
    by (metis prod.collapse)
  from Cons.prems x p y c l have "e3 = None" "infos = \<lparr>ci_container_id = cid, ci_host_port = port,
      ci_role = cp_role cp, ci_replica_idx = cp_replica_idx cp\<rparr> # infos3" by auto
  with Cons.IH l show ?case by (auto simp: launched_as_def)
qed

lemma group_load_effect:
  assumes "load_deployment_group env d s w = Some (Inr g, s', w')"
  shows "rt_groups s' = (rt_groups s)(dp_deployment_id d \<mapsto> g) \<and> rt_deployments s' = rt_deployments s \<and>
    dg_id g = dp_deployment_id d \<and> list_all2 launched_as (dp_prefill d) (dg_prefill g) \<and>
    list_all2 launched_as (dp_decode d) (dg_decode g) \<and> dg_prefill_next g = 0 \<and> dg_decode_next g = 0 \<and>
    dp_deployment_id d \<in> loaded_deployments s'"
proof -
  from assms obtain first rest where f: "dp_prefill d = first # rest"
    by (auto simp: load_deployment_group_def split: list.splits)
  let ?q = "dk_pull (re_docker env) RequestCtx (cp_image first) w"
  let ?l1 = "launch_replicas env (re_prefill_port env) ''prefill''
      (replica_name (group_prefix d) ''p'' (dp_deployment_id d)) 0 (dp_prefill d) (snd ?q)"
  obtain e1 pre w2 where l1: "?l1 = ((e1, pre), w2)" by (metis prod.collapse)
  let ?l2 = "launch_replicas env (re_decode_port env) ''decode''
      (replica_name (group_prefix d) ''d'' (dp_deployment_id d)) 0 (dp_decode d) w2"
  obtain e2 dec w3 where l2: "?l2 = ((e2, dec), w3)" by (metis prod.collapse)
  from assms f l1 l2 have n: "e1 = None" "e2 = None"
    and g: "g = \<lparr>dg_id = dp_deployment_id d, dg_model = dp_model d, dg_prefill = pre,
                 dg_decode = dec, dg_prefill_next = 0, dg_decode_next = 0\<rparr>"
      "s' = s\<lparr>rt_groups := (rt_groups s)(dp_deployment_id d \<mapsto> g)\<rparr>"
    by (auto simp: load_deployment_group_def split_def Let_def split: option.splits)
  from launch_replicas_infos [OF l1 [unfolded n]] launch_replicas_infos [OF l2 [unfolded n]] g
  show ?thesis by (auto simp: loaded_deployments_def)
qed

text \<open>
  (functional). A group load that succeeds registers a group with one container per replica of
  the plan, in the plan's order and roles, with both round-robin counters at zero; it replaces any
  group registered under the id and touches no other entry.
\<close>

theorem group_load_registers:
  assumes "load_deployment_group env d s w = Some (Inr g, s', w')"
  shows "rt_groups s' = (rt_groups s)(dp_deployment_id d \<mapsto> g) \<and> rt_deployments s' = rt_deployments s \<and>
    dg_id g = dp_deployment_id d \<and> list_all2 launched_as (dp_prefill d) (dg_prefill g) \<and>
    list_all2 launched_as (dp_decode d) (dg_decode g) \<and> dg_prefill_next g = 0 \<and> dg_decode_next g = 0 \<and>
    dp_deployment_id d \<in> loaded_deployments s'"
  using assms by (rule group_load_effect)

definition sample_group :: "string \<Rightarrow> deployment_plan" where
  "sample_group dep =
     \<lparr>dp_deployment_id = dep, dp_model = ''m'', dp_prefill =
        [\<lparr>cp_image = ''i'', cp_cmd = [], cp_entrypoint = [], cp_env = Map.empty, cp_mounts = [], cp_container_port = 8000,
          cp_gpu_indices = [], cp_shm_size = 0, cp_ready_path = [], cp_role = KvRoleProducer, cp_replica_idx = 0\<rparr>],
      dp_decode = [], dp_container_prefix = []\<rparr>"

lemma sample_group_loads:
  "\<exists>g s' w'. load_deployment_group fake_env (sample_group dep) s (new_fake_host [True]) = Some (Inr g, s', w')"
proof -
  have port: "port_next (new_port_allocator 19000 19499) = (Inr 19000, \<lparr>pa_lo = 19000, pa_hi = 19499, pa_used = {19000}\<rparr>)"
    by (simp add: port_next_def new_port_allocator_def scan_ports_first)
  have "fh_prefill_ports (new_fake_host [True]) = new_port_allocator 19000 19499"
    by (simp add: new_fake_host_def fake_client.defs)
  with port show ?thesis
    by (simp add: load_deployment_group_def sample_group_def fake_pull_def log_call_def fake_env_def [THEN arg_cong, of re_prefill_port]
        create_and_start_def build_container_spec_def to_plan_def replica_name_def fake_create_def fake_start_def set_inspect_def
        fake_wait_ready fake_remove_image_def Let_def)
qed

theorem group_load_registers_witness:
  "\<exists>g s' w'. load_deployment_group fake_env (sample_group ''d'') new_runtime (new_fake_host [True]) = Some (Inr g, s', w') \<and>
     rt_groups s' ''d'' = Some g \<and> length (dg_prefill g) = 1 \<and> dg_decode g = []"
proof -
  obtain g s' w' where l: "load_deployment_group fake_env (sample_group ''d'') new_runtime (new_fake_host [True]) = Some (Inr g, s', w')"
    using sample_group_loads by blast
  note r = group_load_registers [OF l]
  then have "length (dg_prefill g) = 1" "dg_decode g = []"
    by (auto simp: sample_group_def dest!: list_all2_lengthD)
  with l r show ?thesis by (auto simp: sample_group_def)
qed

text \<open>
  (safety). A group load that fails while its request is still live leaves no container it
  created and registers nothing.
\<close>

theorem failed_group_load_cleans_up:
  assumes "worker_host env own sound live" and "sound w" and "live RequestCtx w'"
    and "load_deployment_group env d s w = Some (Inl e, s', w')"
  shows "s' = s \<and> own w' \<subseteq> own w"
  by (rule worker_host.group_load_failure_own [OF assms(1,4,2,3)])

lemma fake_teardown_cancelled: "fk_cancelled w \<Longrightarrow> fold (stop_and_remove fake_env n) cis w = w"
proof (induction cis)
  case (Cons ci cis)
  then have "stop_and_remove fake_env n ci w = w"
    by (auto simp: stop_and_remove_def fake_stop_def fake_remove_def ctx_err_def split: option.splits)
  with Cons show ?case by simp
qed simp

text \<open>
  (safety). The group's rollback runs on the request context. On the in-memory client, once the
  request is cancelled, it stops and removes nothing: every container launched so far survives,
  where a single deployment's teardown, on the fresh context, removes it.
\<close>

theorem cancelled_rollback_leaks:
  assumes "fk_cancelled w" and "fake_sound w" and "cid \<in> fake_own w"
  shows "fake_own (rollback_group fake_env pre dec w) = fake_own w \<and>
    (\<exists>e s' w'. abandon_load fake_env dep cid err s w = (Inl e, s', w') \<and> cid \<notin> fake_own w')"
proof
  show "fake_own (rollback_group fake_env pre dec w) = fake_own w"
    by (simp only: rollback_group_def fake_teardown_cancelled [OF assms(1)])
  show "\<exists>e s' w'. abandon_load fake_env dep cid err s w = (Inl e, s', w') \<and> cid \<notin> fake_own w'"
    using fake_worker.cleanup_gone [OF assms(2), of cid 5]
    by (auto simp: abandon_load_def Let_def split_def)
qed

definition leaky_host :: fake_host where
  "leaky_host = (new_fake_host [])\<lparr>fk_cancelled := True,
     fk_containers := [''c'' \<mapsto> \<lparr>is_id = ''c'', is_running = True, is_exit_code = 0, is_status = ''running''\<rparr>]\<rparr>"

theorem cancelled_rollback_leaks_witness:
  "''c'' \<in> fake_own (rollback_group fake_env
     [\<lparr>ci_container_id = ''c'', ci_host_port = 19000, ci_role = KvRoleProducer, ci_replica_idx = 0\<rparr>] [] leaky_host)"
proof -
  have "''c'' \<in> fake_own leaky_host" "fk_cancelled leaky_host" "fake_sound leaky_host"
    by (simp_all add: leaky_host_def fake_own_def fake_sound_def)
  with cancelled_rollback_leaks [of leaky_host "''c''"] show ?thesis by blast
qed

theorem failed_group_load_cleans_up_witness:
  "\<exists>e s' w'. load_deployment_group fake_env
      \<lparr>dp_deployment_id = ''d'', dp_model = ''m'', dp_prefill =
         [\<lparr>cp_image = ''i'', cp_cmd = [], cp_entrypoint = [], cp_env = Map.empty, cp_mounts = [], cp_container_port = 0,
           cp_gpu_indices = [], cp_shm_size = 0, cp_ready_path = [], cp_role = KvRoleProducer, cp_replica_idx = 0\<rparr>],
       dp_decode = [], dp_container_prefix = []\<rparr> new_runtime (new_fake_host []) = Some (Inl e, s', w') \<and>
     fake_own w' = {} \<and> s' = new_runtime"
  (is "\<exists>e s' w'. load_deployment_group fake_env ?d _ _ = _ \<and> _")
proof -
  have "\<exists>e s' w'. load_deployment_group fake_env ?d new_runtime (new_fake_host []) = Some (Inl e, s', w') \<and>
      fk_cancelled w' = False"
    by (auto simp: load_deployment_group_def fake_pull_def log_call_def fake_env_def [THEN arg_cong, of re_prefill_port]
        create_and_start_def build_container_spec_def to_plan_def rollback_group_def Let_def split_def split: sum.splits)
  then obtain e s' w' where l: "load_deployment_group fake_env ?d new_runtime (new_fake_host []) = Some (Inl e, s', w')"
    and c: "fk_cancelled w' = False" by blast
  have "s' = new_runtime \<and> fake_own w' \<subseteq> fake_own (new_fake_host [])"
    by (rule failed_group_load_cleans_up [OF fake_worker.worker_host_axioms _ _ l])
      (simp_all add: fake_sound_def fake_live_def c)
  with l show ?thesis by (auto simp: fake_own_def)
qed

section \<open>Stale containers\<close>

text \<open>
  (safety). A container left over under the name of a replica blocks every later load of the
  group: creating the replica fails with the name conflict. The load of a single deployment clears
  the name first and creates its container.
\<close>

theorem stale_name_blocks_group:
  assumes "build_container_spec p ''inferia-models'' = Inr spec" and "cs_name spec \<noteq> []"
    and "fk_names w (cs_name spec) = Some old" and "fk_errors w = no_fake_errors"
  shows "(\<exists>e. create_and_start fake_env p w = (Inl e, w)) \<and>
    fst (dk_create fake_docker RequestCtx spec (snd (dk_remove_by_name fake_docker RequestCtx (cs_name spec) w))) =
      Inr (''fake-id-'' @ cs_name spec)"
proof
  show "\<exists>e. create_and_start fake_env p w = (Inl e, w)"
    using assms by (simp add: create_and_start_def fake_create_def)
  show "fst (dk_create fake_docker RequestCtx spec (snd (dk_remove_by_name fake_docker RequestCtx (cs_name spec) w))) =
      Inr (''fake-id-'' @ cs_name spec)"
    using assms(4) by (simp add: fake_cleared_name_creates)
qed

theorem stale_name_blocks_group_witness:
  "\<exists>e. create_and_start fake_env (sample_plan 8000) ((new_fake_host [])\<lparr>fk_names := [''inferia-vllm-d'' \<mapsto> ''old'']\<rparr>) =
     (Inl e, (new_fake_host [])\<lparr>fk_names := [''inferia-vllm-d'' \<mapsto> ''old'']\<rparr>)"
proof -
  obtain spec where "build_container_spec (sample_plan 8000) ''inferia-models'' = Inr spec"
    "cs_name spec = ''inferia-vllm-d''" using sample_plan_spec by blast
  with stale_name_blocks_group [of "sample_plan 8000" spec "(new_fake_host [])\<lparr>fk_names := [''inferia-vllm-d'' \<mapsto> ''old'']\<rparr>" "''old''"]
  show ?thesis by simp
qed

end
