(* ===== verification/Registry.thy ===== *)
theory Registry imports Deploy_Group begin

text \<open>
  The proxy's registry of prefill/decode deployments (internal/inference/registry.go): a keyed
  table the dispatcher writes and the proxy reads. The group of an entry carries the round-robin
  counters the proxy advances.
\<close>

datatype deployment_mode = ModeSingle | ModeDisagg

record deployment_entry =
  dn_mode :: deployment_mode
  dn_deployment_id :: string
  dn_model :: string
  dn_group :: deployment_group

type_synonym deployment_registry = "string \<rightharpoonup> deployment_entry"

definition new_registry :: deployment_registry where
  "new_registry = Map.empty"

definition disagg_entry :: "string \<Rightarrow> string \<Rightarrow> deployment_group \<Rightarrow> deployment_entry" where
  "disagg_entry dep model g = \<lparr>dn_mode = ModeDisagg, dn_deployment_id = dep, dn_model = model, dn_group = g\<rparr>"

definition register_disagg :: "string \<Rightarrow> string \<Rightarrow> deployment_group \<Rightarrow> deployment_registry \<Rightarrow> deployment_registry" where
  "register_disagg dep model g r = r(dep \<mapsto> disagg_entry dep model g)"

definition deregister :: "string \<Rightarrow> deployment_registry \<Rightarrow> deployment_registry" where
  "deregister dep r = r(dep := None)"

definition lookup_by_id :: "deployment_registry \<Rightarrow> string \<Rightarrow> deployment_entry option" where
  "lookup_by_id r dep = r dep"

interpretation registry: keyed_table "\<lambda>dep (model, g). register_disagg dep model g" deregister
    "\<lambda>r dep. map_option (\<lambda>e. (dn_model e, dn_group e)) (lookup_by_id r dep)"
  by unfold_locales
    (auto simp: register_disagg_def deregister_def lookup_by_id_def disagg_entry_def)

end
