(* ===== verification/Dispatcher.thy ===== *)
theory Dispatcher imports Group_Lifecycle GPU_Allocator Registry Collector Group_Recipes begin

text \<open>
  The dispatcher (internal/dispatcher/dispatcher.go): it turns the commands of the control plane
  into recipe plans, asks the runtime to run them, and keeps the GPU allocator, the proxy's
  registry and the metrics in step. Its state is the state of those components; the registry, the
  allocator and the collector are optional, as in the code.
\<close>

record dispatcher_config =
  dc_gpu_name :: string
  dc_gpu_mem_mib :: "64 word"
  dc_total_gpus :: int

record dispatcher =
  ds_rt :: runtime
  ds_registry :: "deployment_registry option"
  ds_allocator :: "gpu_allocator option"
  ds_metrics :: "collector option"

definition new_dispatcher :: "runtime \<Rightarrow> collector option \<Rightarrow> dispatcher_config \<Rightarrow> dispatcher" where
  "new_dispatcher rt mc cfg =
     \<lparr>ds_rt = rt, ds_registry = None, ds_allocator = Some (new_gpu_allocator (dc_total_gpus cfg)), ds_metrics = mc\<rparr>"

definition validate_gpu_indices :: "int list \<Rightarrow> int \<Rightarrow> go_error option" where
  "validate_gpu_indices indices totalGPUs =
     (if totalGPUs \<le> 0 then None
      else case find (\<lambda>g. g < 0 \<or> g \<ge> totalGPUs) indices of
        Some g \<Rightarrow> Some (Errorf ''GPU index %d out of range [0, %d)'' [FInt g, FInt totalGPUs])
      | None \<Rightarrow> None)"

text \<open>Allocation, when there is an allocator.\<close>

definition allocate_for :: "string \<Rightarrow> int list \<Rightarrow> dispatcher \<Rightarrow> int list \<times> dispatcher" where
  "allocate_for key gpus d =
     (case ds_allocator d of
        None \<Rightarrow> (gpus, d)
      | Some al \<Rightarrow> let (sel, al') = allocate_gpus key gpus al in (sel, d\<lparr>ds_allocator := Some al'\<rparr>))"

type_synonym ('w, 'r) dispatch_result = "(go_error + 'r) \<times> dispatcher \<times> 'w"

section \<open>Loading\<close>

definition single_input :: "dispatcher_config \<Rightarrow> load_model_body \<Rightarrow> int list \<Rightarrow> build_input" where
  "single_input cfg body gpus =
     \<lparr>bi_deployment_id = lm_deployment_id body, bi_artifact_uri = mr_artifact_uri (lm_model body),
      bi_config = lm_config body, bi_gpu_indices = gpus,
      bi_host_port = (if lm_port body = 0 then 1 else lm_port body),
      bi_env = lm_env body, bi_gpu_name = dc_gpu_name cfg, bi_gpu_memory_mib = dc_gpu_mem_mib cfg,
      bi_prefill_replicas = 0, bi_decode_replicas = 0, bi_prefill_gpu_indices = [], bi_decode_gpu_indices = [],
      bi_shm_size = 0\<rparr>"

definition dispatch_single ::
  "'w rt_env \<Rightarrow> environment \<Rightarrow> dispatcher_config \<Rightarrow> load_model_body \<Rightarrow> dispatcher \<Rightarrow> 'w \<Rightarrow> ('w, string) dispatch_result" where
  "dispatch_single env getenv cfg body d w =
     (case recipe_get (lm_recipe body) of
        Inl e \<Rightarrow> (Inl e, d, w)
      | Inr r \<Rightarrow>
          (case validate_gpu_indices (lm_gpu_indices body) (dc_total_gpus cfg) of
             Some e \<Rightarrow> (Inl e, d, w)
           | None \<Rightarrow>
               let (gpus, d) = allocate_for (lm_deployment_id body) (lm_gpu_indices body) d
               in case build_plan getenv r (single_input cfg body gpus) of
                    Inl e \<Rightarrow> (Inl e, d, w)
                  | Inr p \<Rightarrow>
                      let p = (if lm_port body = 0 then p\<lparr>pl_host_port := 0\<rparr> else p);
                          (res, rt, w) = load_model env (lm_deployment_id body) p (ds_rt d) w
                      in (res, d\<lparr>ds_rt := rt\<rparr>, w)))"

definition own_or_general :: "int list \<Rightarrow> load_model_body \<Rightarrow> int list" where
  "own_or_general own body = (if own = [] then lm_gpu_indices body else own)"

definition group_input :: "dispatcher_config \<Rightarrow> load_model_body \<Rightarrow> int list \<Rightarrow> int list \<Rightarrow> build_input" where
  "group_input cfg body prefillGPUs decodeGPUs =
     \<lparr>bi_deployment_id = lm_deployment_id body, bi_artifact_uri = mr_artifact_uri (lm_model body),
      bi_config = lm_config body, bi_gpu_indices = lm_gpu_indices body, bi_host_port = 1,
      bi_env = lm_env body, bi_gpu_name = dc_gpu_name cfg, bi_gpu_memory_mib = dc_gpu_mem_mib cfg,
      bi_prefill_replicas = lm_prefill_replicas body, bi_decode_replicas = lm_decode_replicas body,
      bi_prefill_gpu_indices = prefillGPUs, bi_decode_gpu_indices = decodeGPUs, bi_shm_size = 0\<rparr>"

definition prefill_key :: "string \<Rightarrow> string" where "prefill_key dep = dep @ ''/prefill''"
definition decode_key :: "string \<Rightarrow> string" where "decode_key dep = dep @ ''/decode''"

text \<open>The GPUs of both roles; they are checked only when there is an allocator.\<close>

definition group_gpus ::
  "dispatcher_config \<Rightarrow> load_model_body \<Rightarrow> dispatcher \<Rightarrow> (go_error + int list \<times> int list) \<times> dispatcher" where
  "group_gpus cfg body d =
     (let pre = own_or_general (lm_prefill_gpu_indices body) body;
          dec = own_or_general (lm_decode_gpu_indices body) body
      in if ds_allocator d = None then (Inr (pre, dec), d)
         else case validate_gpu_indices pre (dc_total_gpus cfg) of
                Some e \<Rightarrow> (Inl (wrap_err ''prefill'' e), d)
              | None \<Rightarrow> (case validate_gpu_indices dec (dc_total_gpus cfg) of
                  Some e \<Rightarrow> (Inl (wrap_err ''decode'' e), d)
                | None \<Rightarrow>
                    let (pre, d) = allocate_for (prefill_key (lm_deployment_id body)) pre d;
                        (dec, d) = allocate_for (decode_key (lm_deployment_id body)) dec d
                    in (Inr (pre, dec), d)))"

text \<open>\<open>None\<close> is the panic of \<open>load_deployment_group\<close>.\<close>

definition dispatch_group ::
  "'w rt_env \<Rightarrow> environment \<Rightarrow> dispatcher_config \<Rightarrow> multi_recipe_kind \<Rightarrow> load_model_body \<Rightarrow> dispatcher \<Rightarrow> 'w
   \<Rightarrow> ('w, string) dispatch_result option" where
  "dispatch_group env getenv cfg mc body d w =
     (case group_gpus cfg body d of
        (Inl e, d) \<Rightarrow> Some (Inl e, d, w)
      | (Inr (pre, dec), d) \<Rightarrow>
          (case build_deployment_plan getenv mc (group_input cfg body pre dec) of
             Inl e \<Rightarrow> Some (Inl e, d, w)
           | Inr dp \<Rightarrow>
               (case load_deployment_group env dp (ds_rt d) w of
                  None \<Rightarrow> None
                | Some (Inl e, rt, w) \<Rightarrow> Some (Inl e, d\<lparr>ds_rt := rt\<rparr>, w)
                | Some (Inr g, rt, w) \<Rightarrow>
                    let d = d\<lparr>ds_rt := rt,
                              ds_registry := map_option (register_disagg (lm_deployment_id body) (dp_model dp) g) (ds_registry d)\<rparr>
                    in (case dg_prefill g of
                          [] \<Rightarrow> Some (Inl (Errorf ''deployment %s: no prefill containers started'' [FStr (dp_deployment_id dp)]), d, w)
                        | ci # _ \<Rightarrow> Some (Inr (local_endpoint (ci_host_port ci)), d, w)))))"

definition dispatch_load ::
  "'w rt_env \<Rightarrow> environment \<Rightarrow> dispatcher_config \<Rightarrow> load_model_body \<Rightarrow> dispatcher \<Rightarrow> 'w \<Rightarrow> ('w, string) dispatch_result option" where
  "dispatch_load env getenv cfg body d w =
     (if lm_prefill_replicas body > 0 then
        (case multi_get (lm_recipe body) of
           Inl e \<Rightarrow> Some (Inl e, d, w)
         | Inr mc \<Rightarrow> dispatch_group env getenv cfg mc body d w)
      else Some (dispatch_single env getenv cfg body d w))"

section \<open>Unloading\<close>

definition release_all :: "string \<Rightarrow> gpu_allocator \<Rightarrow> gpu_allocator" where
  "release_all dep a = gpu_release (decode_key dep) (gpu_release (prefill_key dep) (gpu_release dep a))"

definition dispatch_unload ::
  "'w rt_env \<Rightarrow> unload_model_body \<Rightarrow> dispatcher \<Rightarrow> 'w \<Rightarrow> go_error option \<times> dispatcher \<times> 'w" where
  "dispatch_unload env body d w =
     (let dep = um_deployment_id body;
          d = d\<lparr>ds_registry := map_option (deregister dep) (ds_registry d),
                ds_allocator := map_option (release_all dep) (ds_allocator d)\<rparr>;
          (disaggErr, rt, w) = unload_deployment_group env dep (ds_rt d) w;
          (singleErr, rt, w) = unload_model env dep rt w;
          d = d\<lparr>ds_rt := rt\<rparr>
      in if disaggErr \<noteq> None \<and> singleErr \<noteq> None then (singleErr, d, w)
         else (None, d\<lparr>ds_metrics := map_option (remove_deployment dep) (ds_metrics d)\<rparr>, w))"

section \<open>Heartbeat and scraping\<close>

definition info_of :: "runtime \<Rightarrow> string \<Rightarrow> runtime_info option" where
  "info_of rt dep = map_option (\<lambda>i. \<lparr>ri_recipe = di_recipe i, ri_model = di_model i, ri_phase = di_phase i,
     ri_pull = di_pull_dur i, ri_start = di_start_dur i\<rparr>) (deployment_info rt dep)"

text \<open>\<open>models\<close> lists the loaded deployments in the order the runtime's maps yield them.\<close>

definition heartbeat_snapshot ::
  "((string \<rightharpoonup> string) \<times> metrics_sample option) option \<Rightarrow> string list \<Rightarrow> dispatcher \<Rightarrow> heartbeat_body" where
  "heartbeat_snapshot telemetry models d =
     (let (used, sample) = (case telemetry of Some t \<Rightarrow> t | None \<Rightarrow> (Map.empty, None));
          infos = (\<lambda>dep. if dep \<in> set models then info_of (ds_rt d) dep else None)
      in \<lparr>hbt_used = used, hbt_loaded_models = models, hbt_events = [],
          hbt_deploy_metrics = (case ds_metrics d of None \<Rightarrow> Map.empty | Some c \<Rightarrow> metrics_snapshot infos c),
          hbt_metrics = sample\<rparr>)"

definition scraped_recipe :: "string \<Rightarrow> bool" where
  "scraped_recipe img =
     (img = ''vllm'' \<or> contains_str img ''vllm-openai'' \<or> contains_str img ''vllm-omni'')"

definition scrape_one :: "(string \<Rightarrow> go_error + string list) \<Rightarrow> runtime \<Rightarrow> string \<Rightarrow> collector \<Rightarrow> collector" where
  "scrape_one fetch rt dep c =
     (case deployment_info rt dep of
        None \<Rightarrow> c
      | Some i \<Rightarrow> if scraped_recipe (di_recipe i) \<and> endpoint_url rt dep \<noteq> []
                 then snd (scrape_vllm fetch dep (endpoint_url rt dep) c) else c)"

definition scrape_tick :: "(string \<Rightarrow> go_error + string list) \<Rightarrow> string list \<Rightarrow> dispatcher \<Rightarrow> dispatcher" where
  "scrape_tick fetch models d =
     d\<lparr>ds_metrics := map_option (fold (scrape_one fetch (ds_rt d)) models) (ds_metrics d)\<rparr>"

section \<open>Properties\<close>

lemma validate_gpu_indices_None:
  "0 < n \<Longrightarrow> validate_gpu_indices gs n = None \<longleftrightarrow> (\<forall>g \<in> set gs. 0 \<le> g \<and> g < n)"
proof -
  assume "0 < n"
  then have "validate_gpu_indices gs n = None \<longleftrightarrow> find (\<lambda>g. g < 0 \<or> g \<ge> n) gs = None"
    by (simp add: validate_gpu_indices_def split: option.split)
  then show ?thesis by (auto simp: find_None_iff not_less not_le)
qed

lemma group_plan_prefill_nonempty:
  "multi_get name = Inr mc \<Longrightarrow> build_deployment_plan getenv mc i = Inr dp \<Longrightarrow> dp_prefill dp \<noteq> []"
  using multi_recipe.group_nonempty [OF registered_multi_recipe] by blast

lemma load_group_no_panic: "dp_prefill dp \<noteq> [] \<Longrightarrow> load_deployment_group env dp s w \<noteq> None"
  by (cases "dp_prefill dp") (simp_all add: load_deployment_group_def del: not_None_eq)

lemma dispatch_group_no_panic:
  assumes "multi_get name = Inr mc"
  shows "dispatch_group env getenv cfg mc body d w \<noteq> None"
proof -
  obtain x d1 where g: "group_gpus cfg body d = (x, d1)" by fastforce
  show ?thesis
  proof (cases x)
    case (Inl e)
    with g show ?thesis by (simp add: dispatch_group_def)
  next
    case (Inr pd)
    obtain pre dec where pd: "pd = (pre, dec)" by fastforce
    show ?thesis
    proof (cases "build_deployment_plan getenv mc (group_input cfg body pre dec)")
      case (Inl e)
      with g Inr pd show ?thesis by (simp add: dispatch_group_def)
    next
      case (Inr dp)
      have "load_deployment_group env dp (ds_rt d1) w \<noteq> None"
        by (rule load_group_no_panic [OF group_plan_prefill_nonempty [OF assms Inr]])
      then obtain y rt w1 where "load_deployment_group env dp (ds_rt d1) w = Some (y, rt, w1)"
        by (metis option.exhaust prod.collapse)
      with g \<open>x = Inr pd\<close> pd Inr show ?thesis
        by (cases y) (simp_all add: dispatch_group_def Let_def split: list.split)
    qed
  qed
qed

text \<open>
  (safety). A load command never panics the worker: the runtime indexes the first prefill plan
  unchecked, and every plan a registered group recipe builds has one.
\<close>

theorem dispatch_load_never_panics: "dispatch_load env getenv cfg body d w \<noteq> None"
proof (cases "0 < lm_prefill_replicas body \<and> (\<exists>mc. multi_get (lm_recipe body) = Inr mc)")
  case True
  then obtain mc where mc: "multi_get (lm_recipe body) = Inr mc" by blast
  from dispatch_group_no_panic [OF mc] True mc show ?thesis by (simp add: dispatch_load_def)
next
  case False
  then show ?thesis by (auto simp: dispatch_load_def simp del: not_None_eq split: sum.splits)
qed

lemma allocate_for_in_range:
  assumes "validate_gpu_indices gs n = None" "0 < n"
    and "\<forall>al. ds_allocator d = Some al \<longrightarrow> ga_total_gpus al = n" "allocate_for key gs d = (sel, d')"
  shows "\<forall>g \<in> set sel. 0 \<le> g \<and> g < n"
proof (cases "ds_allocator d")
  case None
  with assms show ?thesis by (simp add: allocate_for_def validate_gpu_indices_None)
next
  case (Some al)
  with assms have "sel = fst (allocate_gpus key gs al)" "ga_total_gpus al = n"
    by (auto simp: allocate_for_def split_def Let_def)
  then have "set sel = set (wanted_gpus gs al)"
    using arg_cong [OF allocate_mset [of key gs al], of set_mset] by simp
  with assms(1,2) \<open>ga_total_gpus al = n\<close> show ?thesis
    by (auto simp: wanted_gpus_def make_range_set validate_gpu_indices_None split: if_splits)
qed

text \<open>What a load command that returns an endpoint went through.\<close>

lemma dispatch_single_success:
  assumes "dispatch_single env getenv cfg body d w = (Inr ep, d', w')"
  obtains gpus d1 p rt where "validate_gpu_indices (lm_gpu_indices body) (dc_total_gpus cfg) = None"
    "allocate_for (lm_deployment_id body) (lm_gpu_indices body) d = (gpus, d1)" "pl_gpu_indices p = gpus"
    "load_model env (lm_deployment_id body) p (ds_rt d1) w = (Inr ep, rt, w')" "d' = d1\<lparr>ds_rt := rt\<rparr>"
proof -
  let ?dep = "lm_deployment_id body"
  obtain r where r: "recipe_get (lm_recipe body) = Inr r" using assms by (auto simp: dispatch_single_def split: sum.splits)
  have v: "validate_gpu_indices (lm_gpu_indices body) (dc_total_gpus cfg) = None"
    using assms r by (auto simp: dispatch_single_def split: option.splits)
  obtain gpus d1 where a: "allocate_for ?dep (lm_gpu_indices body) d = (gpus, d1)" by fastforce
  from assms r v a obtain p0 where p0: "build_plan getenv r (single_input cfg body gpus) = Inr p0"
    by (auto simp: dispatch_single_def split: sum.splits)
  define p where "p = (if lm_port body = 0 then p0\<lparr>pl_host_port := 0\<rparr> else p0)"
  have gp: "pl_gpu_indices p = gpus"
    using recipe.placement [OF registered_recipe [OF r] p0] by (simp add: p_def single_input_def)
  from assms r v a p0 have
    p: "(case load_model env ?dep p (ds_rt d1) w of (res, rt, w) \<Rightarrow> (res, d1\<lparr>ds_rt := rt\<rparr>, w)) = (Inr ep, d', w')"
    by (auto simp only: dispatch_single_def Let_def prod.case sum.case option.case p_def)
  obtain x rt w1 where "load_model env ?dep p (ds_rt d1) w = (x, rt, w1)" by (metis prod.collapse)
  with p have "load_model env ?dep p (ds_rt d1) w = (Inr ep, rt, w')" "d' = d1\<lparr>ds_rt := rt\<rparr>" by simp_all
  with v a gp that show thesis by blast
qed


text \<open>The load of a deployment that runs: new GPUs in the books, the container as it was.\<close>

lemma reload_rebooks_gpus:
  assumes "status_of (ds_rt d) (lm_deployment_id body) = StateRunning" "endpoint_url (ds_rt d) (lm_deployment_id body) \<noteq> []"
    and "ds_allocator d = Some al" "recipe_get (lm_recipe body) = Inr r"
    and "validate_gpu_indices (lm_gpu_indices body) (dc_total_gpus cfg) = None" "lm_gpu_indices body \<noteq> []"
    and "build_plan getenv r (single_input cfg body (fst (allocate_gpus (lm_deployment_id body) (lm_gpu_indices body) al))) = Inr p"
  shows "\<exists>d' al' gpus. dispatch_single env getenv cfg body d w =
      (Inr (endpoint_url (ds_rt d) (lm_deployment_id body)), d', w) \<and> ds_rt d' = ds_rt d \<and> ds_allocator d' = Some al' \<and>
      held al' (lm_deployment_id body) = Some gpus \<and> mset gpus = mset (lm_gpu_indices body)"
proof -
  let ?dep = "lm_deployment_id body"
  let ?al = "snd (allocate_gpus ?dep (lm_gpu_indices body) al)"
  from assms(1) obtain a where "rt_deployments (ds_rt d) ?dep = Some a"
    by (auto simp: status_of_def entry_def split: option.splits)
  then have "load_model env ?dep q (ds_rt d) w = (Inr (endpoint_url (ds_rt d) ?dep), ds_rt d, w)" for q
    using assms(1,2) by (simp add: load_model_def load_locked_def get_or_create_def)
  with assms have "dispatch_single env getenv cfg body d w =
      (Inr (endpoint_url (ds_rt d) ?dep), d\<lparr>ds_allocator := Some ?al\<rparr>, w)"
    by (simp add: dispatch_single_def allocate_for_def split_def Let_def)
  moreover have "wanted_gpus (lm_gpu_indices body) al = lm_gpu_indices body" using assms(6) by (simp add: wanted_gpus_def)
  ultimately show ?thesis
    using allocate_stores [of "lm_gpu_indices body" al ?dep] allocate_mset [of ?dep "lm_gpu_indices body" al] assms(6) by auto
qed

text \<open>
  (error). An unload command is always reported as done, whatever Docker says: the group part
  never fails and the error of the other part is returned only if both fail. When the container
  could not be stopped, the deployment stays in the runtime as stopping while its GPUs, registry
  entry and metrics are gone.
\<close>

theorem unload_command_never_fails:
  assumes "dispatch_unload env body d w = (r, d', w')"
  shows "r = None \<and>
    (\<forall>e rt w1 w2. unload_deployment_group env (um_deployment_id body) (ds_rt d) w = (None, rt, w1) \<longrightarrow>
       unload_model env (um_deployment_id body) rt w1 = (Some e, ds_rt d', w2) \<longrightarrow>
       status_of (ds_rt d') (um_deployment_id body) = StateStopping)"
proof
  have none: "fst (unload_deployment_group env dep rt w) = None" for dep rt w
    by (simp add: unload_deployment_group_def Let_def split: option.split)
  show "r = None"
    using assms none [of "um_deployment_id body" "ds_rt d" w]
    by (auto simp: dispatch_unload_def Let_def split_def split: if_splits)
  have "status_of s' dep = StateStopping" if "unload_model env dep s w = (Some e, s', w2)" for s s' dep e w w2
    using that
    by (auto simp: unload_model_def unload_locked_def Let_def split_def status_of_def entry_def set_state_def
        on_entry_def upd_obj_def split: option.splits if_splits)
  then show "\<forall>e rt w1 w2. unload_deployment_group env (um_deployment_id body) (ds_rt d) w = (None, rt, w1) \<longrightarrow>
       unload_model env (um_deployment_id body) rt w1 = (Some e, ds_rt d', w2) \<longrightarrow>
       status_of (ds_rt d') (um_deployment_id body) = StateStopping"
    by blast
qed

text \<open>
  (error). A load command that fails once its GPUs are allocated keeps them allocated: nothing
  releases them until the control plane sends an unload. And a group command that names GPUs for
  each role but not in the general list is refused after the allocation.
\<close>

theorem failed_commands_keep_gpus:
  assumes "multi_get (lm_recipe body) = Inr mc" and "0 < lm_prefill_replicas body" and "lm_gpu_indices body = []"
    and "ds_allocator d = Some al"
    and "validate_gpu_indices (lm_prefill_gpu_indices body) (dc_total_gpus cfg) = None"
    and "validate_gpu_indices (lm_decode_gpu_indices body) (dc_total_gpus cfg) = None"
    and "lm_prefill_gpu_indices body \<noteq> []" and "lm_decode_gpu_indices body \<noteq> []"
  shows "\<exists>e d' al' gs. dispatch_load env getenv cfg body d w = Some (Inl e, d', w) \<and> ds_rt d' = ds_rt d \<and>
    ds_allocator d' = Some al' \<and> held al' (decode_key (lm_deployment_id body)) = Some gs \<and>
    mset gs = mset (lm_decode_gpu_indices body)"
proof -
  let ?p = "prefill_key (lm_deployment_id body)" and ?q = "decode_key (lm_deployment_id body)"
  let ?a1 = "snd (allocate_gpus ?p (lm_prefill_gpu_indices body) al)"
  let ?r2 = "allocate_gpus ?q (lm_decode_gpu_indices body) ?a1"
  have g: "group_gpus cfg body d = (Inr (fst (allocate_gpus ?p (lm_prefill_gpu_indices body) al), fst ?r2),
      d\<lparr>ds_allocator := Some (snd ?r2)\<rparr>)"
    using assms(3-8) by (simp add: group_gpus_def own_or_general_def allocate_for_def split_def Let_def)
  have "\<not> (\<exists>dp. build_deployment_plan getenv mc (group_input cfg body a b) = Inr dp)" for a b
    using multi_recipe.group_accepts_iff [OF registered_multi_recipe [OF assms(1)]] assms(3)
    by (simp add: group_input_def)
  then obtain e where "build_deployment_plan getenv mc (group_input cfg body
      (fst (allocate_gpus ?p (lm_prefill_gpu_indices body) al)) (fst ?r2)) = Inl e"
    by (metis sum.exhaust)
  with g assms(1,2) have "dispatch_load env getenv cfg body d w = Some (Inl e, d\<lparr>ds_allocator := Some (snd ?r2)\<rparr>, w)"
    by (simp add: dispatch_load_def dispatch_group_def)
  moreover have "wanted_gpus (lm_decode_gpu_indices body) ?a1 = lm_decode_gpu_indices body"
    using assms(8) by (simp add: wanted_gpus_def)
  ultimately show ?thesis
    using allocate_stores [of "lm_decode_gpu_indices body" ?a1 ?q] allocate_mset [of ?q "lm_decode_gpu_indices body" ?a1] assms(8)
    by auto
qed

section \<open>Witnesses on the in-memory host\<close>

definition sample_load :: "string \<Rightarrow> int list \<Rightarrow> load_model_body" where
  "sample_load r gpus =
     \<lparr>lm_deployment_id = ''d'', lm_recipe = r,
      lm_model = \<lparr>mr_artifact_uri = ''hf://org/model'', mr_format = [], mr_backend = []\<rparr>, lm_config = [],
      lm_gpu_indices = gpus, lm_port = 19000, lm_env = Map.empty, lm_prefill_replicas = 0, lm_decode_replicas = 0,
      lm_prefill_gpu_indices = [], lm_decode_gpu_indices = []\<rparr>"

definition sample_config :: dispatcher_config where
  "sample_config = \<lparr>dc_gpu_name = [], dc_gpu_mem_mib = 0, dc_total_gpus = 2\<rparr>"

lemma sample_config_sel [simp]: "dc_total_gpus sample_config = 2"
  by (simp add: sample_config_def)

lemma sample_load_sel [simp]:
  "lm_deployment_id (sample_load r gpus) = ''d''" "lm_recipe (sample_load r gpus) = r"
  "lm_gpu_indices (sample_load r gpus) = gpus" "lm_port (sample_load r gpus) = 19000"
  by (simp_all add: sample_load_def)

lemma sample_single_valid: "validate_input (single_input sample_config (sample_load r gpus) [0, 1]) = None"
  by (simp add: validate_input_def single_input_def sample_load_def sample_uri_ok max_config_keys_def)

lemma sample_dispatch_runs:
  fixes reg mc
  defines "d \<equiv> \<lparr>ds_rt = new_runtime, ds_registry = reg, ds_allocator = Some (new_gpu_allocator 2), ds_metrics = mc\<rparr>"
  shows "\<exists>ep d' w'. dispatch_single fake_env (\<lambda>_. []) sample_config (sample_load ''triton'' []) d (new_fake_host [True]) =
    (Inr ep, d', w')"
proof -
  let ?al = "new_gpu_allocator 2"
  have al: "allocate_gpus ''d'' [] ?al = ([0, 1], set_held ''d'' [0, 1] ?al)"
    using f64_nat [of 1] f64_nat [of 2]
    by (simp add: allocate_gpus_def new_gpu_allocator_def make_range_def allocate_static_def alloc_agents_def
        pool_capacity_def min_sum_def equal_share_def float_sum_def gpu_load_def Let_def upt_rec numeral_2_eq_2)
  have get: "recipe_get ''triton'' = Inr (TritonRecipe triton_engine)"
    by (simp add: recipe_get_def recipe_registry_def)
  let ?i = "single_input sample_config (sample_load ''triton'' []) [0, 1]"
  have i: "bi_gpu_indices ?i = [0, 1]" "bi_host_port ?i = 19000" "bi_env ?i = Map.empty"
    by (simp_all add: single_input_def sample_load_def)
  obtain p where p: "triton_build_plan triton_engine (\<lambda>_. []) ?i = Inr p"
    using triton_recipe.accepts_iff [of "\<lambda>_. []" ?i] sample_single_valid i by auto
  then have pf: "pl_host_port p = 19000" "pl_readiness_timeout p = 0" "pl_env p = Map.empty"
    using i by (auto simp: triton_build_plan_def unless_error_Inr base_plan_def merge_env_def)
  obtain spec where spec: "build_container_spec p ''inferia-models'' = Inr spec"
    using triton_recipe.plan_has_spec [OF p] by blast
  obtain a s1 where g: "get_or_create ''d'' new_runtime = (a, s1)" by fastforce
  then have "status_of s1 ''d'' = StateAbsent"
    by (auto simp: get_or_create_def new_runtime_def status_of_def entry_def new_deployment_def Let_def)
  from plan_runs [OF this, of "new_fake_host [True]" p spec a] spec pf g
  obtain ep s' w' where "load_model fake_env ''d'' p new_runtime (new_fake_host [True]) = (Inr ep, s', w')"
    by (auto simp: load_model_def env_value_def)
  with get al p pf show ?thesis
    by (simp add: dispatch_single_def validate_gpu_indices_def allocate_for_def d_def)
qed


theorem unload_command_never_fails_witness:
  "fst (dispatch_unload fake_env \<lparr>um_deployment_id = ''d''\<rparr>
     \<lparr>ds_rt = new_runtime, ds_registry = None, ds_allocator = None, ds_metrics = None\<rparr>
     ((new_fake_host [])\<lparr>fk_cancelled := True\<rparr>)) = None"
  (is "fst (dispatch_unload _ ?b ?d ?w) = None")
  using unload_command_never_fails [of fake_env ?b ?d ?w "fst (dispatch_unload fake_env ?b ?d ?w)"
      "fst (snd (dispatch_unload fake_env ?b ?d ?w))" "snd (snd (dispatch_unload fake_env ?b ?d ?w))"]
  by simp

theorem failed_commands_keep_gpus_witness:
  "\<exists>e d' al' gs. dispatch_load fake_env (\<lambda>_. []) sample_config
      ((sample_load ''vllm-prefill-decode'' [])\<lparr>lm_prefill_replicas := 1, lm_decode_replicas := 1,
         lm_prefill_gpu_indices := [0], lm_decode_gpu_indices := [1]\<rparr>)
      \<lparr>ds_rt = new_runtime, ds_registry = None, ds_allocator = Some (new_gpu_allocator 2), ds_metrics = None\<rparr>
      (new_fake_host []) = Some (Inl e, d', new_fake_host []) \<and>
     ds_allocator d' = Some al' \<and> held al' (decode_key ''d'') = Some gs \<and> mset gs = {#1#}"
proof -
  have "multi_get ''vllm-prefill-decode'' = Inr (VllmPrefillDecode vllm_engine)"
    by (simp add: multi_get_def multi_registry_def)
  with failed_commands_keep_gpus
    [of "(sample_load ''vllm-prefill-decode'' [])\<lparr>lm_prefill_replicas := 1, lm_decode_replicas := 1,
         lm_prefill_gpu_indices := [0], lm_decode_gpu_indices := [1]\<rparr>" "VllmPrefillDecode vllm_engine"
       "\<lparr>ds_rt = new_runtime, ds_registry = None, ds_allocator = Some (new_gpu_allocator 2), ds_metrics = None\<rparr>"
       "new_gpu_allocator 2" sample_config fake_env "\<lambda>_. []" "new_fake_host []"]
  show ?thesis by (simp add: validate_gpu_indices_def) blast
qed

end
