(* ===== verification/Auth.thy ===== *)
theory Auth imports Go_Lib begin

text \<open>
  Authentication (internal/auth): the token check in front of the inference routes
  (middleware.go) and the store of the worker's own token (store.go). Files are a map from paths to
  contents; a write is the sequence of file operations of \<open>writeFileAtomic\<close>, any of which may fail
  or be the last one before a crash.
\<close>

section \<open>The inference token\<close>

definition bearer_space :: "char \<Rightarrow> bool" where
  "bearer_space c \<longleftrightarrow> c = CHR '' '' \<or> c = CHR 0x09"

definition extract_bearer :: "string \<Rightarrow> string" where
  "extract_bearer h =
     (case cut_at (CHR '' '') h of
        None \<Rightarrow> []
      | Some (scheme, rest) \<Rightarrow>
          if scheme = [] \<or> \<not> equal_fold scheme ''Bearer'' then []
          else if rest = [] \<or> bearer_space (hd rest) \<or> list_ex bearer_space rest then [] else rest)"

definition constant_time_equal :: "string \<Rightarrow> string \<Rightarrow> bool" where
  "constant_time_equal a b = (if length a \<noteq> length b then False else a = b)"

datatype auth_decision = AuthNext | AuthReject string

definition inference_token_middleware :: "string \<Rightarrow> string \<Rightarrow> string \<Rightarrow> auth_decision" where
  "inference_token_middleware expected path header =
     (if \<not> has_prefix path ''/v1/'' then AuthNext
      else let got = extract_bearer header
           in if got = [] then AuthReject ''missing or malformed Authorization header''
              else if \<not> constant_time_equal got expected then AuthReject ''invalid inference token''
              else AuthNext)"

lemma cut_at_Some_iff: "cut_at c s = Some (a, b) \<longleftrightarrow> s = a @ c # b \<and> c \<notin> set a"
proof (induction s arbitrary: a)
  case (Cons d s)
  show ?case
  proof (cases "d = c")
    case True
    then show ?thesis by (cases a) auto
  next
    case False
    then have "cut_at c (d # s) = Some (a, b) \<longleftrightarrow> (\<exists>a'. a = d # a' \<and> cut_at c s = Some (a', b))" by auto
    with False Cons.IH show ?thesis by (cases a) auto
  qed
qed simp

lemma extract_bearer_iff:
  "t \<noteq> [] \<Longrightarrow> extract_bearer h = t \<longleftrightarrow>
     (\<exists>scheme. h = scheme @ '' '' @ t \<and> CHR '' '' \<notin> set scheme \<and> equal_fold scheme ''Bearer'' \<and>
        list_all (\<lambda>c. \<not> bearer_space c) t)"
proof -
  assume t: "t \<noteq> []"
  have nonempty: "equal_fold s ''Bearer'' \<Longrightarrow> s \<noteq> []" for s by (auto simp: equal_fold_def to_lower_def)
  show ?thesis
  proof
    assume "extract_bearer h = t"
    with t obtain scheme where c: "cut_at (CHR '' '') h = Some (scheme, t)" and e: "equal_fold scheme ''Bearer''"
      and n: "\<not> list_ex bearer_space t"
      by (auto simp: extract_bearer_def split: option.splits if_splits)
    from c have "h = scheme @ '' '' @ t" "CHR '' '' \<notin> set scheme" by (simp_all add: cut_at_Some_iff)
    with e n show "\<exists>scheme. h = scheme @ '' '' @ t \<and> CHR '' '' \<notin> set scheme \<and> equal_fold scheme ''Bearer'' \<and>
        list_all (\<lambda>c. \<not> bearer_space c) t"
      by (auto simp: list_ex_iff list_all_iff)
  next
    assume "\<exists>scheme. h = scheme @ '' '' @ t \<and> CHR '' '' \<notin> set scheme \<and> equal_fold scheme ''Bearer'' \<and>
        list_all (\<lambda>c. \<not> bearer_space c) t"
    then obtain scheme where h: "h = scheme @ CHR '' '' # t" "CHR '' '' \<notin> set scheme" "equal_fold scheme ''Bearer''"
      "list_all (\<lambda>c. \<not> bearer_space c) t" by auto
    then have "cut_at (CHR '' '') h = Some (scheme, t)" by (simp add: cut_at_Some_iff)
    with h t nonempty [OF h(3)] show "extract_bearer h = t"
      by (cases t) (auto simp: extract_bearer_def list_ex_iff list_all_iff)
  qed
qed

text \<open>
  C29 (safety). With a token configured, a request under /v1/ passes the middleware exactly when the
  token holds no blank or tab and its header is a Bearer scheme in any case, one space and the token;
  every other header is answered with 401, and with a token that holds a blank or tab, which the
  configuration accepts, every header is. Requests outside /v1/ pass unchecked, those under /generate/ included, which the proxy
  behind the middleware forwards to model containers as well.
\<close>

theorem inference_token_required:
  assumes "expected \<noteq> []"
  shows "inference_token_middleware expected path header = AuthNext \<longleftrightarrow>
    \<not> has_prefix path ''/v1/'' \<or>
    list_all (\<lambda>c. \<not> bearer_space c) expected \<and> (\<exists>scheme. header = scheme @ '' '' @ expected \<and> CHR '' '' \<notin> set scheme \<and> equal_fold scheme ''Bearer'')"
proof -
  have "inference_token_middleware expected path header = AuthNext \<longleftrightarrow>
      \<not> has_prefix path ''/v1/'' \<or> extract_bearer header = expected"
    using assms by (auto simp: inference_token_middleware_def constant_time_equal_def Let_def)
  then show ?thesis using extract_bearer_iff [OF assms, of header] by auto
qed

theorem inference_token_required_witness:
  "inference_token_middleware ''s3cret'' ''/v1/models'' ''Bearer s3cret'' = AuthNext \<and>
   inference_token_middleware ''s3cret'' ''/generate/image'' [] = AuthNext"
proof
  show "inference_token_middleware ''s3cret'' ''/v1/models'' ''Bearer s3cret'' = AuthNext"
    by (subst inference_token_required)
      (auto simp: bearer_space_def equal_fold_def intro!: exI [of _ "''Bearer''"])
  show "inference_token_middleware ''s3cret'' ''/generate/image'' [] = AuthNext"
    by (subst inference_token_required) (simp_all add: bearer_space_def has_prefix_def)
qed

section \<open>The token store\<close>

type_synonym files = "string \<rightharpoonup> string"

datatype file_read = FileOk string | FileMissing | FileError go_error

record token_store =
  ts_path :: string
  ts_tok :: string

definition new_token_store :: "string \<Rightarrow> file_read \<Rightarrow> go_error + token_store" where
  "new_token_store path r =
     (case r of
        FileOk b \<Rightarrow> Inr \<lparr>ts_path = path, ts_tok = trim_space b\<rparr>
      | FileMissing \<Rightarrow> Inr \<lparr>ts_path = path, ts_tok = []\<rparr>
      | FileError e \<Rightarrow> Inl e)"

text \<open>The size and kind of a file; \<open>None\<close> when it cannot be examined.\<close>

definition file_present :: "(bool \<times> nat) option \<Rightarrow> bool" where
  "file_present st = (case st of None \<Rightarrow> False | Some (is_dir, n) \<Rightarrow> \<not> is_dir \<and> n > (0::nat))"

text \<open>
  The operations of an atomic write on a temporary file, in order. A write may stop after any
  number of bytes.
\<close>

datatype file_op = OpCreate | OpWrite | OpChmod | OpClose | OpRename

fun file_op_effect :: "string \<Rightarrow> string \<Rightarrow> string \<Rightarrow> file_op \<Rightarrow> files \<Rightarrow> files" where
  "file_op_effect tmp path data OpCreate fs = fs(tmp \<mapsto> [])"
| "file_op_effect tmp path data OpWrite fs = fs(tmp \<mapsto> data)"
| "file_op_effect tmp path data OpChmod fs = fs"
| "file_op_effect tmp path data OpClose fs = fs"
| "file_op_effect tmp path data OpRename fs = fs(path := fs tmp, tmp := None)"

definition atomic_ops :: "file_op list" where
  "atomic_ops = [OpCreate, OpWrite, OpChmod, OpClose, OpRename]"

text \<open>What is on disk after the first \<open>n\<close> operations, the next one having written \<open>k\<close> bytes at most.\<close>

definition partial_write :: "string \<Rightarrow> string \<Rightarrow> nat \<Rightarrow> file_op list \<Rightarrow> files \<Rightarrow> files" where
  "partial_write tmp data k rest fs = (case rest of OpWrite # _ \<Rightarrow> fs(tmp \<mapsto> take k data) | _ \<Rightarrow> fs)"

definition disk_after :: "string \<Rightarrow> string \<Rightarrow> string \<Rightarrow> nat \<Rightarrow> nat \<Rightarrow> files \<Rightarrow> files" where
  "disk_after tmp path data n k fs =
     partial_write tmp data k (drop n atomic_ops) (fold (file_op_effect tmp path data) (take n atomic_ops) fs)"

text \<open>
  The whole call: \<open>fail\<close> names the operation that fails, and the deferred removal clears the
  temporary file on every exit after its creation.
\<close>

definition write_file_atomic ::
  "string \<Rightarrow> string \<Rightarrow> string \<Rightarrow> (file_op \<rightharpoonup> go_error) \<Rightarrow> nat \<Rightarrow> files \<Rightarrow> go_error option \<times> files" where
  "write_file_atomic tmp path data fail k fs =
     (let n = length (takeWhile (\<lambda>op. fail op = None) atomic_ops)
      in if n = length atomic_ops then (None, disk_after tmp path data n k fs)
         else if n = 0 then (fail OpCreate, fs)
         else (fail (atomic_ops ! n), (disk_after tmp path data n k fs)(tmp := None)))"

definition token_set ::
  "string \<Rightarrow> string \<Rightarrow> go_error option \<Rightarrow> (file_op \<rightharpoonup> go_error) \<Rightarrow> nat \<Rightarrow> token_store \<times> files \<Rightarrow> go_error option \<times> token_store \<times> files" where
  "token_set tmp token mkdirErr fail k st =
     (let (s, fs) = st in
      case mkdirErr of
        Some e \<Rightarrow> (Some e, s, fs)
      | None \<Rightarrow> (case write_file_atomic tmp (ts_path s) token fail k fs of
          (Some e, fs) \<Rightarrow> (Some e, s, fs)
        | (None, fs) \<Rightarrow> (None, s\<lparr>ts_tok := token\<rparr>, fs)))"

definition token_clear :: "go_error option \<Rightarrow> token_store \<times> files \<Rightarrow> go_error option \<times> token_store \<times> files" where
  "token_clear removeErr st =
     (let (s, fs) = st; s = s\<lparr>ts_tok := []\<rparr>
      in case fs (ts_path s) of
           None \<Rightarrow> (None, s, fs)
         | Some _ \<Rightarrow> (case removeErr of Some e \<Rightarrow> (Some e, s, fs) | None \<Rightarrow> (None, s, fs(ts_path s := None))))"

lemma disk_after_target:
  assumes "tmp \<noteq> path"
  shows "disk_after tmp path data n k fs path = (if n < length atomic_ops then fs path else Some data)"
proof -
  have "n \<in> {0, 1, 2, 3, 4} \<or> 5 \<le> n" by auto
  with assms show ?thesis
    by (auto simp: disk_after_def partial_write_def atomic_ops_def numeral_2_eq_2 numeral_3_eq_3 eval_nat_numeral)
qed

lemma disk_after_others:
  "q \<noteq> tmp \<Longrightarrow> q \<noteq> path \<Longrightarrow> disk_after tmp path data n k fs q = fs q"
proof -
  have "n \<in> {0, 1, 2, 3, 4} \<or> 5 \<le> n" by auto
  then show "q \<noteq> tmp \<Longrightarrow> q \<noteq> path \<Longrightarrow> disk_after tmp path data n k fs q = fs q"
    by (auto simp: disk_after_def partial_write_def atomic_ops_def numeral_2_eq_2 numeral_3_eq_3 eval_nat_numeral)
qed

text \<open>
  C25 (safety). Storing a token is atomic. A crash after any operation, or in the middle of the
  write, leaves the old token or the new one on disk, never part of one; a Set that reports an
  error has changed neither the disk nor the memory, and one that reports success has changed both.
\<close>

theorem token_set_is_atomic:
  assumes "tmp \<noteq> ts_path s" and "token_set tmp token mkdirErr fail k (s, fs) = (r, s', fs')" and "fs tmp = None"
  shows "disk_after tmp (ts_path s) token n k fs (ts_path s) \<in> {fs (ts_path s), Some token} \<and>
    (case r of Some e \<Rightarrow> s' = s \<and> fs' = fs
     | None \<Rightarrow> ts_tok s' = token \<and> fs' (ts_path s) = Some token \<and> (\<forall>q. q \<noteq> ts_path s \<longrightarrow> q \<noteq> tmp \<longrightarrow> fs' q = fs q))"
proof
  show "disk_after tmp (ts_path s) token n k fs (ts_path s) \<in> {fs (ts_path s), Some token}"
    by (simp add: disk_after_target [OF assms(1)])
  let ?n = "length (takeWhile (\<lambda>op. fail op = None) atomic_ops)"
  have undone: "(disk_after tmp (ts_path s) token m k fs)(tmp := None) = fs" if "m < length atomic_ops" for m
  proof
    fix q
    show "((disk_after tmp (ts_path s) token m k fs)(tmp := None)) q = fs q"
      using assms(1,3) that disk_after_target [OF assms(1), of token m k fs]
        disk_after_others [of q tmp "ts_path s" token m k fs]
      by (cases "q = tmp"; cases "q = ts_path s") auto
  qed
  have le: "?n \<le> length atomic_ops" by (rule length_takeWhile_le)
  have err: "fail (atomic_ops ! ?n) \<noteq> None" if "?n < length atomic_ops"
    using nth_length_takeWhile [OF that] by simp
  have first: "fail OpCreate \<noteq> None" if "?n = 0"
    using that by (auto simp: atomic_ops_def split: if_splits)
  show "case r of Some e \<Rightarrow> s' = s \<and> fs' = fs
     | None \<Rightarrow> ts_tok s' = token \<and> fs' (ts_path s) = Some token \<and> (\<forall>q. q \<noteq> ts_path s \<longrightarrow> q \<noteq> tmp \<longrightarrow> fs' q = fs q)"
  proof (cases "mkdirErr = None \<and> ?n = length atomic_ops")
    case True
    with assms(2) have "r = None" "s' = s\<lparr>ts_tok := token\<rparr>" "fs' = disk_after tmp (ts_path s) token ?n k fs"
      by (auto simp: token_set_def write_file_atomic_def Let_def)
    with True show ?thesis
      using disk_after_target [OF assms(1)] disk_after_others by simp
  next
    case False
    then have "(\<exists>e. r = Some e) \<and> s' = s \<and> fs' = fs"
      using assms(2) le undone [of ?n] err first
      by (auto simp: token_set_def write_file_atomic_def Let_def split: option.splits if_splits prod.splits)
        (metis option.exhaust)+
    then show ?thesis by auto
  qed
qed

theorem token_set_is_atomic_witness:
  "fst (snd (token_set ''.token-1'' ''new'' None (\<lambda>op. if op = OpRename then Some (Errorf ''denied'' []) else None) 0
     (\<lparr>ts_path = ''token'', ts_tok = ''old''\<rparr>, [''token'' \<mapsto> ''old'']))) = \<lparr>ts_path = ''token'', ts_tok = ''old''\<rparr>"
proof -
  let ?s = "\<lparr>ts_path = ''token'', ts_tok = ''old''\<rparr>"
  let ?f = "\<lambda>op. if op = OpRename then Some (Errorf ''denied'' []) else None"
  obtain r s' fs' where t: "token_set ''.token-1'' ''new'' None ?f 0 (?s, [''token'' \<mapsto> ''old'']) = (r, s', fs')"
    by (metis prod.collapse)
  then have "r \<noteq> None"
    by (auto simp: token_set_def write_file_atomic_def atomic_ops_def Let_def)
  moreover from token_set_is_atomic [OF _ t, where n = 0]
  have "r \<noteq> None \<longrightarrow> s' = ?s" by auto
  ultimately show ?thesis using t by simp
qed

end
