(* ===== verification/Proxy.thy ===== *)
theory Proxy imports Auth Registry Collector Runtime begin

text \<open>
  The inference proxy (internal/inference/proxy.go) behind the token middleware. A request is
  either passed on to the next handler, answered locally, or forwarded: to the endpoint of a single
  container, or in two phases to a prefill and a decode replica of a group. The upstream client,
  the clock, the UUID source and the JSON codec are the fields of \<open>proxy_env\<close>; a run that panics is
  \<open>None\<close>.
\<close>

section \<open>Requests and replies\<close>

type_synonym headers = "(string \<times> string) list"

record http_request =
  hr_method :: string
  hr_url :: string
  hr_headers :: headers
  hr_body :: string

record http_response =
  hs_status :: int
  hs_headers :: headers
  hs_body :: string

record proxy_request =
  rq_method :: string
  rq_path :: string
  rq_query :: string
  rq_headers :: headers
  rq_body :: string

datatype proxy_reply =
    PassNext
  | TextReply headers int string
  | StreamReply headers int string

text \<open>
  An object is a map from its keys; \<open>Inr None\<close> is the document \<open>null\<close>, which decodes into a nil map
  without an error.
\<close>

record 'w proxy_env =
  pe_unmarshal :: "string \<Rightarrow> go_error + (string \<rightharpoonup> go_any) option"
  pe_decode :: "string \<Rightarrow> go_error + (string \<rightharpoonup> go_any) option"
  pe_marshal :: "(string \<rightharpoonup> go_any) \<Rightarrow> go_error + string"
  pe_new_request :: "string \<Rightarrow> string \<Rightarrow> go_error option"
  pe_do :: "http_request \<Rightarrow> 'w \<Rightarrow> (go_error + http_response) \<times> 'w"
  pe_now :: "'w \<Rightarrow> int"
  pe_uuid :: "'w \<Rightarrow> string \<times> 'w"

record proxy =
  px_header :: string
  px_resolver :: "(proxy_request \<Rightarrow> string) option"
  px_runtime :: runtime
  px_metrics :: "collector option"
  px_registry :: "deployment_registry option"

section \<open>Headers\<close>

definition hop_by_hop :: "string list" where
  "hop_by_hop =
     [''connection'', ''keep-alive'', ''proxy-authenticate'', ''proxy-authorization'',
      ''te'', ''trailers'', ''transfer-encoding'', ''upgrade'']"

definition is_hop_by_hop :: "string \<Rightarrow> bool" where
  "is_hop_by_hop h = List.member hop_by_hop (to_lower h)"

definition end_to_end :: "headers \<Rightarrow> headers" where
  "end_to_end hs = filter (\<lambda>(k, v). \<not> is_hop_by_hop k) hs"

definition header_set :: "string \<Rightarrow> string \<Rightarrow> headers \<Rightarrow> headers" where
  "header_set k v hs = filter (\<lambda>(k', _). \<not> equal_fold k' k) hs @ [(k, v)]"

definition header_get :: "string \<Rightarrow> headers \<Rightarrow> string" where
  "header_get k hs = (case find (\<lambda>(k', _). equal_fold k' k) hs of None \<Rightarrow> [] | Some (_, v) \<Rightarrow> v)"

definition resolve_deployment :: "proxy \<Rightarrow> proxy_request \<Rightarrow> string" where
  "resolve_deployment p rq =
     (case px_resolver p of
        Some f \<Rightarrow> f rq
      | None \<Rightarrow> if px_header p \<noteq> [] then header_get (px_header p) (rq_headers rq) else [])"

definition trim_right_slashes :: "string \<Rightarrow> string" where
  "trim_right_slashes s = rev (dropWhile (\<lambda>c. c = CHR ''/'') (rev s))"

definition with_query :: "string \<Rightarrow> string \<Rightarrow> string" where
  "with_query url q = (if q \<noteq> [] then url @ ''?'' @ q else url)"

section \<open>Metrics around a request\<close>

text \<open>The active gauge is raised before and lowered when the handler returns.\<close>

definition count_active :: "string \<Rightarrow> proxy \<Rightarrow> proxy" where
  "count_active dep p = p\<lparr>px_metrics := map_option (inc_active dep) (px_metrics p)\<rparr>"

definition uncount_active :: "string \<Rightarrow> proxy \<Rightarrow> proxy" where
  "uncount_active dep p = p\<lparr>px_metrics := map_option (dec_active dep) (px_metrics p)\<rparr>"

definition record_latency :: "string \<Rightarrow> int \<Rightarrow> proxy \<Rightarrow> proxy option" where
  "record_latency dep latency p =
     (case (px_metrics p, deployment_info (px_runtime p) dep) of
        (Some c, Some i) \<Rightarrow>
          map_option (\<lambda>c'. p\<lparr>px_metrics := Some c'\<rparr>)
            (record_request dep (di_recipe i) (di_model i) (duration_ms latency) c)
      | _ \<Rightarrow> Some p)"

section \<open>The single-endpoint path\<close>

definition bad_gateway :: "string \<Rightarrow> proxy_reply" where
  "bad_gateway msg = TextReply [] 502 msg"

definition stream_of :: "http_response \<Rightarrow> proxy_reply" where
  "stream_of resp = StreamReply (end_to_end (hs_headers resp)) (hs_status resp) (hs_body resp)"

definition upstream_request :: "string \<Rightarrow> proxy_request \<Rightarrow> http_request" where
  "upstream_request base rq =
     \<lparr>hr_method = rq_method rq,
      hr_url = with_query (trim_right_slashes base @ rq_path rq) (rq_query rq),
      hr_headers = end_to_end (rq_headers rq),
      hr_body = rq_body rq\<rparr>"

type_synonym 'w proxy_result = "(proxy_reply \<times> proxy \<times> 'w) option"

definition send_single :: "'w proxy_env \<Rightarrow> proxy_request \<Rightarrow> string \<Rightarrow> string \<Rightarrow> proxy \<Rightarrow> 'w \<Rightarrow> 'w proxy_result" where
  "send_single env rq dep base p w =
     (let req = upstream_request base rq in
      case pe_new_request env (hr_method req) (hr_url req) of
        Some e \<Rightarrow> Some (bad_gateway (err_text e), p, w)
      | None \<Rightarrow>
          (case pe_do env req w of
             (Inl e, w') \<Rightarrow> Some (bad_gateway (''upstream: '' @ err_text e), p, w')
           | (Inr resp, w') \<Rightarrow>
               (case (if dep \<noteq> [] then record_latency dep (pe_now env w' - pe_now env w) p else Some p) of
                  None \<Rightarrow> None
                | Some p \<Rightarrow> Some (stream_of resp, p, w'))))"

definition proxy_single :: "'w proxy_env \<Rightarrow> proxy_request \<Rightarrow> string \<Rightarrow> proxy \<Rightarrow> 'w \<Rightarrow> 'w proxy_result" where
  "proxy_single env rq dep p w =
     (let base = (if dep \<noteq> [] then endpoint_url (px_runtime p) dep else []) in
      if base = [] then Some (TextReply [(''Retry-After'', ''5'')] 503 ''deployment not loaded'', p, w)
      else map_option (\<lambda>(r, p, w). (r, uncount_active dep p, w))
             (send_single env rq dep base (count_active dep p) w))"

section \<open>The two-phase path\<close>

definition kv_transfer_params_prefill :: go_any where
  "kv_transfer_params_prefill =
     AMap [(''do_remote_decode'', AScalar (SBool True)),
           (''do_remote_prefill'', AScalar (SBool False)),
           (''remote_engine_id'', ANil),
           (''remote_block_ids'', ANil),
           (''remote_host'', ANil),
           (''remote_port'', ANil)]"

definition prefill_object :: "string \<Rightarrow> (string \<rightharpoonup> go_any) \<Rightarrow> (string \<rightharpoonup> go_any)" where
  "prefill_object rid body =
     (let body = body(''request_id'' \<mapsto> AScalar (SStr rid), ''kv_transfer_params'' \<mapsto> kv_transfer_params_prefill,
                      ''stream'' \<mapsto> AScalar (SBool False), ''max_tokens'' \<mapsto> AScalar (SF64 (Dec 1 0)));
          body = (if body ''max_completion_tokens'' \<noteq> None
                  then body(''max_completion_tokens'' \<mapsto> AScalar (SInt 1)) else body)
      in body(''stream_options'' := None, ''min_tokens'' := None, ''min_completion_tokens'' := None))"

definition decode_object :: "string \<Rightarrow> go_any \<Rightarrow> (string \<rightharpoonup> go_any) \<Rightarrow> (string \<rightharpoonup> go_any)" where
  "decode_object rid kv body = body(''request_id'' \<mapsto> AScalar (SStr rid), ''kv_transfer_params'' \<mapsto> kv)"

text \<open>Writing into the nil map a \<open>null\<close> document decodes to is a panic.\<close>

definition rebuild_body ::
  "'w proxy_env \<Rightarrow> ((string \<rightharpoonup> go_any) \<Rightarrow> (string \<rightharpoonup> go_any)) \<Rightarrow> string \<Rightarrow> (go_error + string) option" where
  "rebuild_body env f original =
     (if original = [] then Some (Inr original)
      else case pe_unmarshal env original of
             Inl e \<Rightarrow> Some (Inl e)
           | Inr None \<Rightarrow> None
           | Inr (Some body) \<Rightarrow> Some (pe_marshal env (f body)))"

definition build_prefill_body :: "'w proxy_env \<Rightarrow> string \<Rightarrow> string \<Rightarrow> (go_error + string) option" where
  "build_prefill_body env original rid = rebuild_body env (prefill_object rid) original"

definition build_decode_body :: "'w proxy_env \<Rightarrow> string \<Rightarrow> go_any \<Rightarrow> string \<Rightarrow> (go_error + string) option" where
  "build_decode_body env original kv rid = rebuild_body env (decode_object rid kv) original"

definition phase_request :: "string \<Rightarrow> string \<Rightarrow> string \<Rightarrow> proxy_request \<Rightarrow> http_request" where
  "phase_request base rid body rq =
     \<lparr>hr_method = rq_method rq,
      hr_url = with_query (base @ rq_path rq) (rq_query rq),
      hr_headers = header_set ''X-Request-Id'' rid (end_to_end (rq_headers rq)),
      hr_body = body\<rparr>"

text \<open>The parameters the decode replica needs, from the prefill replica's answer.\<close>

definition kv_params_of :: "'w proxy_env \<Rightarrow> http_response \<Rightarrow> string + go_any" where
  "kv_params_of env resp =
     (if hs_status resp \<noteq> 200 then
        Inl (if hs_body resp \<noteq> [] then ''prefill: upstream error: '' @ hs_body resp
             else ''prefill: upstream error'')
      else case pe_decode env (hs_body resp) of
             Inl e \<Rightarrow> Inl (''prefill decode: '' @ err_text e)
           | Inr obj \<Rightarrow>
               (case (case obj of None \<Rightarrow> None | Some m \<Rightarrow> m ''kv_transfer_params'') of
                  None \<Rightarrow> Inl ''prefill: missing kv_transfer_params''
                | Some kv \<Rightarrow>
                    if kv = ANil then Inl ''prefill: missing kv_transfer_params''
                    else if kv = AMap [] then Inl ''prefill: empty kv_transfer_params''
                    else Inr kv))"

text \<open>The group is shared: the counters advance in the registry's entry.\<close>

definition set_group :: "string \<Rightarrow> deployment_group \<Rightarrow> proxy \<Rightarrow> proxy" where
  "set_group dep g p =
     p\<lparr>px_registry := map_option (\<lambda>r. r(dep := map_option (dn_group_update (\<lambda>_. g)) (r dep))) (px_registry p)\<rparr>"

definition send_phase ::
  "'w proxy_env \<Rightarrow> string \<Rightarrow> http_request \<Rightarrow> 'w \<Rightarrow> (string + http_response) \<times> 'w" where
  "send_phase env phase req w =
     (case pe_new_request env (hr_method req) (hr_url req) of
        Some e \<Rightarrow> (Inl (phase @ '' req: '' @ err_text e), w)
      | None \<Rightarrow>
          (case pe_do env req w of
             (Inl e, w) \<Rightarrow> (Inl (phase @ '': '' @ err_text e), w)
           | (Inr resp, w) \<Rightarrow> (Inr resp, w)))"

definition decode_phase ::
  "'w proxy_env \<Rightarrow> proxy_request \<Rightarrow> string \<Rightarrow> string \<Rightarrow> int \<Rightarrow> go_any \<Rightarrow> deployment_group \<Rightarrow> proxy \<Rightarrow> 'w \<Rightarrow> 'w proxy_result" where
  "decode_phase env rq dep rid start kv g p w =
     (case build_decode_body env (rq_body rq) kv rid of
        None \<Rightarrow> None
      | Some (Inl e) \<Rightarrow> Some (bad_gateway (''decode build: '' @ err_text e), p, w)
      | Some (Inr body) \<Rightarrow>
          (let (base, g) = next_decode g; p = set_group dep g p in
           case send_phase env ''decode'' (phase_request base rid body rq) w of
             (Inl msg, w) \<Rightarrow> Some (bad_gateway msg, p, w)
           | (Inr resp, w) \<Rightarrow>
               (case record_latency (dg_id g) (pe_now env w - start) p of
                  None \<Rightarrow> None
                | Some p \<Rightarrow> Some (stream_of resp, p, w))))"

definition prefill_phase ::
  "'w proxy_env \<Rightarrow> proxy_request \<Rightarrow> string \<Rightarrow> string \<Rightarrow> int \<Rightarrow> deployment_group \<Rightarrow> proxy \<Rightarrow> 'w \<Rightarrow> 'w proxy_result" where
  "prefill_phase env rq dep rid start g p w =
     (case build_prefill_body env (rq_body rq) rid of
        None \<Rightarrow> None
      | Some (Inl e) \<Rightarrow> Some (bad_gateway (''prefill build: '' @ err_text e), p, w)
      | Some (Inr body) \<Rightarrow>
          (let (base, g) = next_prefill g; p = set_group dep g p in
           case send_phase env ''prefill'' (phase_request base rid body rq) w of
             (Inl msg, w) \<Rightarrow> Some (bad_gateway msg, p, w)
           | (Inr resp, w) \<Rightarrow>
               (case kv_params_of env resp of
                  Inl msg \<Rightarrow> Some (bad_gateway msg, p, w)
                | Inr kv \<Rightarrow> decode_phase env rq dep rid start kv g p w)))"

definition handle_disagg ::
  "'w proxy_env \<Rightarrow> proxy_request \<Rightarrow> string \<Rightarrow> deployment_entry \<Rightarrow> proxy \<Rightarrow> 'w \<Rightarrow> 'w proxy_result" where
  "handle_disagg env rq dep e p w =
     (let (rid, w) = pe_uuid env w; g = dn_group e
      in map_option (\<lambda>(r, p, w). (r, uncount_active (dg_id g) p, w))
           (prefill_phase env rq dep rid (pe_now env w) g (count_active (dg_id g) p) w))"

section \<open>The handler\<close>

definition routed :: "proxy \<Rightarrow> string \<Rightarrow> string \<Rightarrow> bool" where
  "routed p path dep =
     (if has_prefix path ''/generate/'' then
        dep \<noteq> [] \<and> (case deployment_info (px_runtime p) dep of
                       None \<Rightarrow> False | Some i \<Rightarrow> contains_str (di_recipe i) ''inferiadiffusion'')
      else has_prefix path ''/v1/'')"

definition serve_proxy :: "'w proxy_env \<Rightarrow> proxy_request \<Rightarrow> proxy \<Rightarrow> 'w \<Rightarrow> 'w proxy_result" where
  "serve_proxy env rq p w =
     (let dep = resolve_deployment p rq in
      if \<not> routed p (rq_path rq) dep then Some (PassNext, p, w)
      else case (case px_registry p of None \<Rightarrow> None | Some r \<Rightarrow> lookup_by_id r dep) of
             Some e \<Rightarrow> if dn_mode e = ModeDisagg then handle_disagg env rq dep e p w
                       else proxy_single env rq dep p w
           | None \<Rightarrow> proxy_single env rq dep p w)"

text \<open>The chain of handlers main installs: the token check, then the proxy.\<close>

definition serve :: "string \<Rightarrow> 'w proxy_env \<Rightarrow> proxy_request \<Rightarrow> proxy \<Rightarrow> 'w \<Rightarrow> 'w proxy_result" where
  "serve expected env rq p w =
     (case inference_token_middleware expected (rq_path rq) (header_get ''Authorization'' (rq_headers rq)) of
        AuthReject msg \<Rightarrow> Some (TextReply [] 401 msg, p, w)
      | AuthNext \<Rightarrow> serve_proxy env rq p w)"


section \<open>The active gauge\<close>

definition proxy_active :: "proxy \<Rightarrow> string \<Rightarrow> int" where
  "proxy_active p dep = (case px_metrics p of None \<Rightarrow> 0 | Some c \<Rightarrow> active_of c dep)"

definition same_gauge :: "proxy \<Rightarrow> proxy \<Rightarrow> bool" where
  "same_gauge p p' \<longleftrightarrow> (px_metrics p' = None \<longleftrightarrow> px_metrics p = None) \<and> proxy_active p' = proxy_active p"

lemma same_gauge_refl [simp]: "same_gauge p p"
  by (simp add: same_gauge_def)

lemma same_gauge_trans [trans]: "same_gauge p q \<Longrightarrow> same_gauge q r \<Longrightarrow> same_gauge p r"
  by (simp add: same_gauge_def)

lemma active_of_inc: "active_of (inc_active dep c) = (active_of c)(dep := active_of c dep + 1)"
  using active_of_get_bucket [of dep "[]" "[]" c]
  by (auto simp: active_of_def inc_active_def Let_def)

lemma active_of_dec: "active_of (dec_active dep c) = (active_of c)(dep := active_of c dep - 1)"
  using active_of_get_bucket [of dep "[]" "[]" c]
  by (auto simp: active_of_def dec_active_def Let_def)

lemma same_gauge_set_group [simp]: "same_gauge p (set_group dep g p)"
  by (simp add: same_gauge_def set_group_def proxy_active_def fun_eq_iff)

lemma record_latency_gauge: "record_latency dep l p = Some p' \<Longrightarrow> same_gauge p p'"
proof -
  assume r: "record_latency dep l p = Some p'"
  show ?thesis
  proof (cases "px_metrics p = None \<or> deployment_info (px_runtime p) dep = None")
    case True
    with r show ?thesis by (auto simp: record_latency_def split: option.splits)
  next
    case False
    then obtain c i where c: "px_metrics p = Some c" "deployment_info (px_runtime p) dep = Some i" by auto
    with r obtain c' where c': "metrics_step (EvRecord dep (di_recipe i) (di_model i) (duration_ms l)) c = Some c'"
      and p': "p' = p\<lparr>px_metrics := Some c'\<rparr>" by (auto simp: record_latency_def)
    from active_of_step [OF c'] c p' show ?thesis
      by (auto simp: same_gauge_def proxy_active_def)
  qed
qed

lemma gauge_bracket:
  "same_gauge (count_active dep p) p' \<Longrightarrow> same_gauge p (uncount_active dep p')"
proof -
  assume g: "same_gauge (count_active dep p) p'"
  show ?thesis
  proof (cases "px_metrics p")
    case None
    with g show ?thesis by (auto simp: same_gauge_def count_active_def uncount_active_def proxy_active_def)
  next
    case (Some c)
    with g have m: "px_metrics p' \<noteq> None" "proxy_active p' = active_of (inc_active dep c)"
      by (simp_all add: same_gauge_def count_active_def proxy_active_def fun_eq_iff del: not_None_eq)
    then obtain c' where "px_metrics p' = Some c'" by blast
    with m have "px_metrics p' = Some c'" "active_of c' = active_of (inc_active dep c)"
      by (simp_all add: proxy_active_def fun_eq_iff)
    with Some show ?thesis
      by (simp add: same_gauge_def uncount_active_def proxy_active_def active_of_dec active_of_inc fun_eq_iff)
  qed
qed

lemma decode_phase_gauge: "decode_phase env rq dep rid t kv g p w = Some (r, p', w') \<Longrightarrow> same_gauge p p'"
  by (auto simp: decode_phase_def Let_def split: option.splits sum.splits prod.splits
      dest!: record_latency_gauge intro: same_gauge_trans [OF same_gauge_set_group])

lemma prefill_phase_gauge: "prefill_phase env rq dep rid t g p w = Some (r, p', w') \<Longrightarrow> same_gauge p p'"
  by (auto simp: prefill_phase_def Let_def split: option.splits sum.splits prod.splits
      dest!: decode_phase_gauge intro: same_gauge_trans [OF same_gauge_set_group])

lemma handle_disagg_gauge: "handle_disagg env rq dep e p w = Some (r, p', w') \<Longrightarrow> same_gauge p p'"
  by (auto simp: handle_disagg_def Let_def split: prod.splits dest!: prefill_phase_gauge intro: gauge_bracket)

lemma send_single_gauge: "send_single env rq dep b p w = Some (r, p', w') \<Longrightarrow> same_gauge p p'"
  by (auto simp: send_single_def Let_def split: option.splits sum.splits prod.splits if_splits
      dest!: record_latency_gauge)

lemma proxy_single_gauge: "proxy_single env rq dep p w = Some (r, p', w') \<Longrightarrow> same_gauge p p'"
  by (auto simp: proxy_single_def Let_def split: if_splits dest!: send_single_gauge intro: gauge_bracket)

lemma serve_proxy_gauge: "serve_proxy env rq p w = Some (r, p', w') \<Longrightarrow> same_gauge p p'"
  by (auto simp: serve_proxy_def Let_def split: option.splits if_splits
      dest!: handle_disagg_gauge proxy_single_gauge)

text \<open>
  C14 (invariant). Whatever a request meets, the gauge of active requests returns to what it was for
  every deployment: each path that raises it lowers it again, the error paths included.
\<close>

theorem active_gauge_is_balanced:
  assumes "serve expected env rq p w = Some (r, p', w')"
  shows "proxy_active p' dep = proxy_active p dep"
  using assms serve_proxy_gauge [of env rq p w r p' w']
  by (auto simp: serve_def same_gauge_def split: auth_decision.splits)

section \<open>The two-phase pipeline\<close>

text \<open>A request the registry routes to a group.\<close>

definition disagg_request :: "proxy \<Rightarrow> proxy_request \<Rightarrow> deployment_entry \<Rightarrow> bool" where
  "disagg_request p rq e \<longleftrightarrow>
     routed p (rq_path rq) (resolve_deployment p rq) \<and> dn_mode e = ModeDisagg \<and>
     (\<exists>r. px_registry p = Some r \<and> r (resolve_deployment p rq) = Some e)"

lemma serve_disagg:
  "disagg_request p rq e \<Longrightarrow> serve_proxy env rq p w = handle_disagg env rq (resolve_deployment p rq) e p w"
  by (auto simp: disagg_request_def serve_proxy_def lookup_by_id_def Let_def)

lemma send_phase_Inr:
  "send_phase env ph req w = (Inr resp, w') \<Longrightarrow> pe_do env req w = (Inr resp, w')"
  by (auto simp: send_phase_def split: option.splits sum.splits prod.splits)

lemma stream_of_neq_bad_gateway [simp]:
  "StreamReply hs st b \<noteq> bad_gateway msg" "bad_gateway msg \<noteq> StreamReply hs st b"
  by (simp_all add: bad_gateway_def)

lemma next_prefill_frame [frame_simps]:
  "dg_id (snd (next_prefill g)) = dg_id g" "dg_decode (snd (next_prefill g)) = dg_decode g"
  "dg_decode_next (snd (next_prefill g)) = dg_decode_next g"
  by (auto simp: next_prefill_def Let_def)

lemma next_decode_cong:
  "dg_decode g = dg_decode g' \<Longrightarrow> dg_decode_next g = dg_decode_next g' \<Longrightarrow> fst (next_decode g) = fst (next_decode g')"
  by (auto simp: next_decode_def Let_def)

lemma decode_phase_streams:
  assumes "decode_phase env rq dep rid t kv g p w = Some (StreamReply hs st b, p', w')"
  shows "\<exists>dbody dresp. build_decode_body env (rq_body rq) kv rid = Some (Inr dbody) \<and>
    pe_do env (phase_request (fst (next_decode g)) rid dbody rq) w = (Inr dresp, w') \<and>
    stream_of dresp = StreamReply hs st b"
  using assms
  by (auto simp: decode_phase_def Let_def dest!: send_phase_Inr
      split: option.splits sum.splits prod.splits)

lemma rebuild_body_Inr:
  "rebuild_body env f original = Some (Inr out) \<Longrightarrow>
     (if original = [] then out = [] else \<exists>m. pe_unmarshal env original = Inr (Some m) \<and> pe_marshal env (f m) = Inr out)"
  by (auto simp: rebuild_body_def split: if_splits sum.splits option.splits)

lemma rebuild_body_both:
  assumes "rebuild_body env f original = Some (Inr a)" "rebuild_body env g original = Some (Inr b)"
  shows "if original = [] then a = [] \<and> b = []
    else \<exists>m. pe_unmarshal env original = Inr (Some m) \<and> pe_marshal env (f m) = Inr a \<and> pe_marshal env (g m) = Inr b"
  using rebuild_body_Inr [OF assms(1)] rebuild_body_Inr [OF assms(2)] by auto

lemma prefill_object_fields:
  "prefill_object rid m ''request_id'' = Some (AScalar (SStr rid))"
  "prefill_object rid m ''kv_transfer_params'' =
     Some (AMap [(''do_remote_decode'', AScalar (SBool True)), (''do_remote_prefill'', AScalar (SBool False)),
       (''remote_engine_id'', ANil), (''remote_block_ids'', ANil), (''remote_host'', ANil), (''remote_port'', ANil)])"
  "prefill_object rid m ''stream'' = Some (AScalar (SBool False))"
  "prefill_object rid m ''max_tokens'' = Some (AScalar (SF64 (Dec 1 0)))"
  "prefill_object rid m ''max_completion_tokens'' = map_option (\<lambda>_. AScalar (SInt 1)) (m ''max_completion_tokens'')"
  "k \<in> {''stream_options'', ''min_tokens'', ''min_completion_tokens''} \<Longrightarrow> prefill_object rid m k = None"
  "k \<notin> {''request_id'', ''kv_transfer_params'', ''stream'', ''max_tokens'', ''max_completion_tokens'', ''stream_options'',
     ''min_tokens'', ''min_completion_tokens''} \<Longrightarrow> prefill_object rid m k = m k"
  by (auto simp: prefill_object_def kv_transfer_params_prefill_def Let_def)

lemma kv_params_of_Inr:
  "kv_params_of env resp = Inr kv \<Longrightarrow> hs_status resp = 200 \<and> kv \<noteq> ANil \<and> kv \<noteq> AMap [] \<and>
     (\<exists>m. pe_decode env (hs_body resp) = Inr (Some m) \<and> m ''kv_transfer_params'' = Some kv)"
  by (auto simp: kv_params_of_def split: if_splits sum.splits option.splits)

lemma phase_bodies:
  assumes "build_prefill_body env original rid = Some (Inr pbody)" "build_decode_body env original kv rid = Some (Inr dbody)"
  shows "if original = [] then pbody = [] \<and> dbody = []
     else \<exists>m pm. pe_unmarshal env original = Inr (Some m) \<and> pe_marshal env pm = Inr pbody \<and>
       pm ''request_id'' = Some (AScalar (SStr rid)) \<and>
       pm ''kv_transfer_params'' =
         Some (AMap [(''do_remote_decode'', AScalar (SBool True)), (''do_remote_prefill'', AScalar (SBool False)),
           (''remote_engine_id'', ANil), (''remote_block_ids'', ANil), (''remote_host'', ANil), (''remote_port'', ANil)]) \<and>
       pm ''stream'' = Some (AScalar (SBool False)) \<and> pm ''max_tokens'' = Some (AScalar (SF64 (Dec 1 0))) \<and>
       pm ''max_completion_tokens'' = map_option (\<lambda>_. AScalar (SInt 1)) (m ''max_completion_tokens'') \<and>
       (\<forall>k \<in> {''stream_options'', ''min_tokens'', ''min_completion_tokens''}. pm k = None) \<and>
       (\<forall>k. k \<notin> {''request_id'', ''kv_transfer_params'', ''stream'', ''max_tokens'', ''max_completion_tokens'',
          ''stream_options'', ''min_tokens'', ''min_completion_tokens''} \<longrightarrow> pm k = m k) \<and>
       pe_marshal env (m(''request_id'' \<mapsto> AScalar (SStr rid), ''kv_transfer_params'' \<mapsto> kv)) = Inr dbody"
proof (cases "original = []")
  case True
  with rebuild_body_both [OF assms [unfolded build_prefill_body_def build_decode_body_def]] show ?thesis
    by (simp only: True if_True)
next
  case False
  with rebuild_body_both [OF assms [unfolded build_prefill_body_def build_decode_body_def]] obtain m where
    m: "pe_unmarshal env original = Inr (Some m)" "pe_marshal env (prefill_object rid m) = Inr pbody"
      "pe_marshal env (decode_object rid kv m) = Inr dbody" by (auto simp only: if_False)
  show ?thesis
    unfolding if_not_P [OF False]
  proof (rule exI [of _ m], rule exI [of _ "prefill_object rid m"], intro conjI)
    show "\<forall>k \<in> {''stream_options'', ''min_tokens'', ''min_completion_tokens''}. prefill_object rid m k = None"
      by (intro ballI prefill_object_fields(6))
    show "\<forall>k. k \<notin> {''request_id'', ''kv_transfer_params'', ''stream'', ''max_tokens'', ''max_completion_tokens'',
        ''stream_options'', ''min_tokens'', ''min_completion_tokens''} \<longrightarrow> prefill_object rid m k = m k"
      by (intro allI impI prefill_object_fields(7))
    show "pe_marshal env (m(''request_id'' \<mapsto> AScalar (SStr rid), ''kv_transfer_params'' \<mapsto> kv)) = Inr dbody"
      using m(3) by (simp only: decode_object_def)
  qed (rule m prefill_object_fields)+
qed

text \<open>
  C11 (functional). A request to a prefill/decode group is answered with a stream only after both
  phases. The prefill replica next in turn got the client's object with the request id, the
  parameters that announce a remote decode, streaming off and one token as the limit (the other limit
  too where the client set it), without the stream options and the minimum lengths, and with every
  other field as the client sent it. It answered 200 with an object that carries transfer parameters,
  neither null nor empty. The decode replica next in turn got the client's object with the same
  request id and exactly these parameters, and its answer is what the client receives. An empty body is
  sent on empty.
\<close>

theorem disagg_stream_is_two_phase:
  assumes "disagg_request p rq e" and "serve_proxy env rq p w = Some (StreamReply hs st b, p', w')"
  shows "\<exists>rid w0 pbody presp w1 kv answer dbody dresp.
    pe_uuid env w = (rid, w0) \<and>
    pe_do env \<lparr>hr_method = rq_method rq, hr_url = with_query (fst (next_prefill (dn_group e)) @ rq_path rq) (rq_query rq),
        hr_headers = header_set ''X-Request-Id'' rid (end_to_end (rq_headers rq)), hr_body = pbody\<rparr> w0 = (Inr presp, w1) \<and>
    hs_status presp = 200 \<and> pe_decode env (hs_body presp) = Inr (Some answer) \<and>
    answer ''kv_transfer_params'' = Some kv \<and> kv \<noteq> ANil \<and> kv \<noteq> AMap [] \<and>
    pe_do env \<lparr>hr_method = rq_method rq, hr_url = with_query (fst (next_decode (dn_group e)) @ rq_path rq) (rq_query rq),
        hr_headers = header_set ''X-Request-Id'' rid (end_to_end (rq_headers rq)), hr_body = dbody\<rparr> w1 = (Inr dresp, w') \<and>
    StreamReply hs st b = StreamReply (end_to_end (hs_headers dresp)) (hs_status dresp) (hs_body dresp) \<and>
    (if rq_body rq = [] then pbody = [] \<and> dbody = []
     else \<exists>m pm. pe_unmarshal env (rq_body rq) = Inr (Some m) \<and> pe_marshal env pm = Inr pbody \<and>
       pm ''request_id'' = Some (AScalar (SStr rid)) \<and>
       pm ''kv_transfer_params'' =
         Some (AMap [(''do_remote_decode'', AScalar (SBool True)), (''do_remote_prefill'', AScalar (SBool False)),
           (''remote_engine_id'', ANil), (''remote_block_ids'', ANil), (''remote_host'', ANil), (''remote_port'', ANil)]) \<and>
       pm ''stream'' = Some (AScalar (SBool False)) \<and> pm ''max_tokens'' = Some (AScalar (SF64 (Dec 1 0))) \<and>
       pm ''max_completion_tokens'' = map_option (\<lambda>_. AScalar (SInt 1)) (m ''max_completion_tokens'') \<and>
       (\<forall>k \<in> {''stream_options'', ''min_tokens'', ''min_completion_tokens''}. pm k = None) \<and>
       (\<forall>k. k \<notin> {''request_id'', ''kv_transfer_params'', ''stream'', ''max_tokens'', ''max_completion_tokens'',
          ''stream_options'', ''min_tokens'', ''min_completion_tokens''} \<longrightarrow> pm k = m k) \<and>
       pe_marshal env (m(''request_id'' \<mapsto> AScalar (SStr rid), ''kv_transfer_params'' \<mapsto> kv)) = Inr dbody)"
proof -
  let ?g = "dn_group e" and ?dep = "resolve_deployment p rq"
  obtain rid w0 where u: "pe_uuid env w = (rid, w0)" by fastforce
  with assms serve_disagg [OF assms(1), of env w] obtain q where
    "prefill_phase env rq ?dep rid (pe_now env w0) ?g (count_active (dg_id ?g) p) w0 = Some (StreamReply hs st b, q, w')"
    by (auto simp: handle_disagg_def Let_def)
  then obtain pbody presp w1 kv q' where
    pb: "build_prefill_body env (rq_body rq) rid = Some (Inr pbody)"
    and pd: "pe_do env (phase_request (fst (next_prefill ?g)) rid pbody rq) w0 = (Inr presp, w1)"
    and kv: "kv_params_of env presp = Inr kv"
    and d: "decode_phase env rq ?dep rid (pe_now env w0) kv (snd (next_prefill ?g)) q' w1 = Some (StreamReply hs st b, q, w')"
    by (auto simp: prefill_phase_def Let_def dest!: send_phase_Inr
        split: option.splits sum.splits prod.splits)
  have "fst (next_decode (snd (next_prefill ?g))) = fst (next_decode ?g)"
    by (rule next_decode_cong) (simp_all add: frame_simps)
  with decode_phase_streams [OF d] obtain dbody dresp where
    db: "build_decode_body env (rq_body rq) kv rid = Some (Inr dbody)"
    and dd: "pe_do env (phase_request (fst (next_decode ?g)) rid dbody rq) w1 = (Inr dresp, w')"
    and st: "stream_of dresp = StreamReply hs st b" by auto
  obtain answer where answer: "pe_decode env (hs_body presp) = Inr (Some answer)" "answer ''kv_transfer_params'' = Some kv"
    "hs_status presp = 200" "kv \<noteq> ANil" "kv \<noteq> AMap []" using kv_params_of_Inr [OF kv] by blast
  show ?thesis
    by (rule exI [of _ rid], rule exI [of _ w0], rule exI [of _ pbody], rule exI [of _ presp], rule exI [of _ w1],
        rule exI [of _ kv], rule exI [of _ answer], rule exI [of _ dbody], rule exI [of _ dresp], intro conjI)
      (rule u pd [unfolded phase_request_def] dd [unfolded phase_request_def] st [symmetric, unfolded stream_of_def]
         answer phase_bodies [OF pb db])+
qed

text \<open>
  (error). An answer of the prefill replica the proxy cannot use ends the request: the client
  gets a 502 with the reason, nothing is sent to a decode replica, and the decode replicas' turn
  does not advance.
\<close>

theorem prefill_failure_stops_request:
  assumes "disagg_request p rq e" and "pe_uuid env w = (rid, w0)"
    and "build_prefill_body env (rq_body rq) rid = Some (Inr pbody)"
    and "send_phase env ''prefill'' (phase_request (fst (next_prefill (dn_group e))) rid pbody rq) w0 = (out, w1)"
    and "out = Inl msg \<or> (\<exists>resp. out = Inr resp \<and> kv_params_of env resp = Inl msg)"
  shows "\<exists>p'. serve_proxy env rq p w = Some (TextReply [] 502 msg, p', w1) \<and>
    map_option (\<lambda>r. map_option dn_group (r (resolve_deployment p rq))) (px_registry p') =
    Some (Some (snd (next_prefill (dn_group e))))"
proof -
  from assms(1) obtain r where "px_registry p = Some r" "r (resolve_deployment p rq) = Some e"
    by (auto simp: disagg_request_def)
  moreover obtain base g where "next_prefill (dn_group e) = (base, g)" by fastforce
  ultimately show ?thesis using assms(2-5) serve_disagg [OF assms(1), of env w]
    by (auto simp: handle_disagg_def prefill_phase_def Let_def bad_gateway_def set_group_def
        count_active_def uncount_active_def split: sum.splits)
qed

text \<open>
  (error). A body that is the JSON document \<open>null\<close> decodes without an error into a nil map, and
  the proxy writes into it: the handler panics.
\<close>

theorem null_body_panics:
  assumes "disagg_request p rq e" and "rq_body rq \<noteq> []" and "pe_unmarshal env (rq_body rq) = Inr None"
  shows "serve_proxy env rq p w = None"
  using assms serve_disagg [OF assms(1), of env w]
  by (simp add: handle_disagg_def prefill_phase_def build_prefill_body_def rebuild_body_def split_def)

section \<open>What a group's requests leave in the metrics\<close>

definition requests_of :: "proxy \<Rightarrow> string \<Rightarrow> int" where
  "requests_of p dep = (case px_metrics p of None \<Rightarrow> 0 | Some c \<Rightarrow> (case c dep of None \<Rightarrow> 0 | Some b \<Rightarrow> mb_requests b))"

lemma requests_of_active [simp]:
  "requests_of (count_active dep p) d = requests_of p d" "requests_of (uncount_active dep p) d = requests_of p d"
  by (auto simp: requests_of_def count_active_def uncount_active_def inc_active_def dec_active_def
      get_bucket_def new_bucket_def Let_def split: option.splits)

lemma requests_of_set_group [simp]: "requests_of (set_group dep g p) d = requests_of p d"
  by (simp add: requests_of_def set_group_def)

lemma runtime_frame [frame_simps]:
  "px_runtime (set_group dep g p) = px_runtime p" "px_runtime (count_active dep p) = px_runtime p"
  "px_runtime (uncount_active dep p) = px_runtime p"
  by (simp_all add: set_group_def count_active_def uncount_active_def)

lemma next_decode_id [frame_simps]: "dg_id (snd (next_decode g)) = dg_id g"
  by (auto simp: next_decode_def Let_def)

lemma record_latency_unknown:
  "deployment_info (px_runtime p) dep = None \<Longrightarrow> record_latency dep l p = Some p"
  by (simp add: record_latency_def split: option.split)

lemma decode_phase_unknown:
  assumes "deployment_info (px_runtime p) (dg_id g) = None"
    and "decode_phase env rq dep rid t kv g p w = Some (r, p', w')"
  shows "requests_of p' d = requests_of p d"
proof -
  have "deployment_info (px_runtime (set_group dep g' p)) (dg_id (snd (next_decode g))) = None" for g'
    using assms(1) by (simp add: frame_simps)
  from record_latency_unknown [OF this] assms(2) show ?thesis
    by (auto simp: decode_phase_def split_def Let_def split: option.splits sum.splits)
qed

lemma prefill_phase_unknown:
  assumes "deployment_info (px_runtime p) (dg_id g) = None"
    and "prefill_phase env rq dep rid t g p w = Some (r, p', w')"
  shows "requests_of p' d = requests_of p d"
proof -
  have "deployment_info (px_runtime (set_group dep g' p)) (dg_id (snd (next_prefill g))) = None" for g'
    using assms(1) by (simp add: frame_simps)
  from decode_phase_unknown [OF this] assms(2) show ?thesis
    by (auto simp: prefill_phase_def split_def Let_def split: option.splits sum.splits)
qed

lemma disagg_unknown_uncounted:
  assumes "disagg_request p rq e" and "deployment_info (px_runtime p) (dg_id (dn_group e)) = None"
    and "serve_proxy env rq p w = Some (r, p', w')"
  shows "requests_of p' d = requests_of p d"
proof -
  have "deployment_info (px_runtime (count_active (dg_id (dn_group e)) p)) (dg_id (dn_group e)) = None"
    using assms(2) by (simp add: frame_simps)
  from prefill_phase_unknown [OF this] assms(3) serve_disagg [OF assms(1), of env w]
  show ?thesis by (auto simp: handle_disagg_def split_def Let_def)
qed

section \<open>Requests without a token\<close>

text \<open>
  (safety). A request under /generate/ that names a loaded deployment of an inferiadiffusion
  image is sent to the model container whatever its Authorization header says, the configured
  token notwithstanding.
\<close>

theorem unauthenticated_generate_is_forwarded:
  assumes "has_prefix (rq_path rq) ''/generate/''"
    and "resolve_deployment p rq = dep" and "dep \<noteq> []"
    and "deployment_info (px_runtime p) dep = Some i" and "contains_str (di_recipe i) ''inferiadiffusion''"
    and "endpoint_url (px_runtime p) dep = base" and "base \<noteq> []"
    and "px_registry p = Some r" and "r dep = None" and "px_metrics p = None"
    and "pe_new_request env (rq_method rq) (hr_url (upstream_request base rq)) = None"
    and "pe_do env (upstream_request base rq) w = (Inr resp, w')"
  shows "serve expected env rq p w = Some (stream_of resp, p, w')"
proof -
  have v1: "\<not> has_prefix (rq_path rq) ''/v1/''"
  proof -
    from assms(1) obtain t where "rq_path rq = ''/generate/'' @ t"
      unfolding has_prefix_def by (metis append_take_drop_id)
    then show ?thesis by (simp add: has_prefix_def)
  qed
  then have "serve expected env rq p w = serve_proxy env rq p w"
    by (simp add: serve_def inference_token_middleware_def)
  also have "\<dots> = proxy_single env rq dep p w"
    using assms(1-5,8,9) by (simp add: serve_proxy_def routed_def lookup_by_id_def)
  also have "\<dots> = Some (stream_of resp, p, w')"
    using assms(3,6,7,10-12)
    by (simp add: proxy_single_def send_single_def record_latency_def count_active_def uncount_active_def
        upstream_request_def Let_def)
  finally show ?thesis .
qed

section \<open>A concrete proxy\<close>

text \<open>The upstream answers everything with 200 and transfer parameters, and keeps what it was sent.\<close>

definition sample_proxy_env :: "http_request list proxy_env" where
  "sample_proxy_env =
     \<lparr>pe_unmarshal = (\<lambda>s. if s = ''null'' then Inr None else Inr (Some Map.empty)),
      pe_decode = (\<lambda>s. Inr (Some [''kv_transfer_params'' \<mapsto> AList []])),
      pe_marshal = (\<lambda>_. Inr ''{}''),
      pe_new_request = (\<lambda>_ _. None),
      pe_do = (\<lambda>rq w. (Inr \<lparr>hs_status = 200, hs_headers = [], hs_body = []\<rparr>, rq # w)),
      pe_now = (\<lambda>w. int (length w)),
      pe_uuid = (\<lambda>w. (''u'', w))\<rparr>"

lemma sample_proxy_env_sel [simp]:
  "pe_unmarshal sample_proxy_env s = (if s = ''null'' then Inr None else Inr (Some Map.empty))"
  "pe_decode sample_proxy_env s = Inr (Some [''kv_transfer_params'' \<mapsto> AList []])"
  "pe_marshal sample_proxy_env b = Inr ''{}''" "pe_new_request sample_proxy_env m u = None"
  "pe_do sample_proxy_env rq w = (Inr \<lparr>hs_status = 200, hs_headers = [], hs_body = []\<rparr>, rq # w)"
  "pe_now sample_proxy_env w = int (length w)" "pe_uuid sample_proxy_env w = (''u'', w)"
  by (simp_all add: sample_proxy_env_def)

definition sample_entry :: deployment_entry where
  "sample_entry = disagg_entry ''d'' ''m''
     \<lparr>dg_id = ''d'', dg_model = ''m'', dg_prefill = [], dg_decode = [], dg_prefill_next = 0, dg_decode_next = 0\<rparr>"

definition sample_proxy :: proxy where
  "sample_proxy = \<lparr>px_header = [], px_resolver = Some (\<lambda>_. ''d''), px_runtime = new_runtime, px_metrics = None,
     px_registry = Some [''d'' \<mapsto> sample_entry]\<rparr>"

definition sample_request :: "string \<Rightarrow> string \<Rightarrow> proxy_request" where
  "sample_request path body = \<lparr>rq_method = ''POST'', rq_path = path, rq_query = [], rq_headers = [], rq_body = body\<rparr>"

lemma sample_disagg_request: "disagg_request sample_proxy (sample_request ''/v1/x'' body) sample_entry"
  by (simp add: disagg_request_def sample_proxy_def sample_request_def sample_entry_def disagg_entry_def
      resolve_deployment_def routed_def has_prefix_def)

definition sample_diffusion :: runtime where
  "sample_diffusion =
     \<lparr>rt_objects = (\<lambda>_. new_deployment\<lparr>rd_endpoint := ''http://127.0.0.1:1'', rd_state := StateRunning,
        rd_plan := Some \<lparr>pl_image = ''inferiadiffusion:1'', pl_container_name = ''c'', pl_cmd = [], pl_entrypoint = [],
          pl_env = Map.empty, pl_mounts = [], pl_container_port = 1, pl_host_port = 1, pl_gpu_indices = [],
          pl_shm_size = 0, pl_ready_path = [], pl_readiness_timeout = 0\<rparr>\<rparr>),
      rt_fresh = 1, rt_deployments = [''d'' \<mapsto> 0], rt_groups = Map.empty\<rparr>"

theorem unauthenticated_generate_is_forwarded_witness:
  "\<exists>p'. serve ''t'' sample_proxy_env (sample_request ''/generate/x'' [])
     (sample_proxy\<lparr>px_runtime := sample_diffusion, px_registry := Some Map.empty\<rparr>) [] =
     Some (StreamReply [] 200 [], p', [upstream_request ''http://127.0.0.1:1'' (sample_request ''/generate/x'' [])])"
proof -
  let ?p = "sample_proxy\<lparr>px_runtime := sample_diffusion, px_registry := Some Map.empty\<rparr>"
  have e: "entry sample_diffusion ''d'' = Some (rt_objects sample_diffusion 0)"
    by (simp add: entry_def sample_diffusion_def)
  have i: "\<exists>i. deployment_info (px_runtime ?p) ''d'' = Some i \<and> di_recipe i = ''inferiadiffusion:1''"
    using e by (simp add: deployment_info_def sample_diffusion_def)
  then obtain i where i: "deployment_info (px_runtime ?p) ''d'' = Some i" "di_recipe i = ''inferiadiffusion:1''"
    by blast
  have b: "endpoint_url (px_runtime ?p) ''d'' = ''http://127.0.0.1:1''"
    using e by (simp add: endpoint_url_def sample_diffusion_def)
  have "stream_of \<lparr>hs_status = 200, hs_headers = [], hs_body = []\<rparr> = StreamReply [] 200 []"
    by (simp add: stream_of_def end_to_end_def)
  with unauthenticated_generate_is_forwarded [of "sample_request ''/generate/x'' []" ?p "''d''" i
      "''http://127.0.0.1:1''" Map.empty sample_proxy_env "[]" _ _ "''t''"] i b
  show ?thesis
    by (simp add: sample_request_def sample_proxy_def resolve_deployment_def has_prefix_def contains_str_def)
qed

theorem active_gauge_is_balanced_witness:
  "\<exists>p'. serve ''t'' sample_proxy_env (sample_request ''/v1/x'' ''{}'') sample_proxy [] =
     Some (TextReply [] 401 ''missing or malformed Authorization header'', p', []) \<and>
     proxy_active p' ''d'' = proxy_active sample_proxy ''d''"
proof -
  have s: "serve ''t'' sample_proxy_env (sample_request ''/v1/x'' ''{}'') sample_proxy [] =
     Some (TextReply [] 401 ''missing or malformed Authorization header'', sample_proxy, [])"
    by (simp add: serve_def inference_token_middleware_def extract_bearer_def sample_request_def header_get_def has_prefix_def)
  with active_gauge_is_balanced [OF s, of "''d''"] show ?thesis by blast
qed

text \<open>
  A group answers a request whose body is an empty object; the encoder of this run tells the two
  bodies apart by their streaming flag, and the world is the log of the requests sent.
\<close>

definition marking_env :: "http_request list proxy_env" where
  "marking_env = sample_proxy_env\<lparr>pe_marshal := \<lambda>m.
     Inr (if m ''stream'' = Some (AScalar (SBool False)) then ''prefill'' else ''decode'')\<rparr>"

lemma sample_runs:
  "\<exists>p' w'. serve_proxy marking_env (sample_request ''/v1/x'' ''{}'') sample_proxy [] =
     Some (StreamReply [] 200 [], p', w')"
  unfolding serve_disagg [OF sample_disagg_request]
  by (simp add: marking_env_def handle_disagg_def prefill_phase_def decode_phase_def
      build_prefill_body_def build_decode_body_def rebuild_body_def sample_request_def sample_entry_def
      disagg_entry_def next_prefill_def next_decode_def send_phase_def kv_params_of_def record_latency_def
      sample_proxy_def count_active_def set_group_def stream_of_def end_to_end_def Let_def)

theorem disagg_stream_is_two_phase_witness:
  "\<exists>p' w'. serve_proxy marking_env (sample_request ''/v1/x'' ''{}'') sample_proxy [] = Some (StreamReply [] 200 [], p', w') \<and>
     map hr_body w' = [''decode'', ''prefill'']"
proof -
  have env: "pe_unmarshal marking_env s = (if s = ''null'' then Inr None else Inr (Some Map.empty))"
    "pe_marshal marking_env b = Inr (if b ''stream'' = Some (AScalar (SBool False)) then ''prefill'' else ''decode'')"
    "pe_do marking_env rq w = (Inr \<lparr>hs_status = 200, hs_headers = [], hs_body = []\<rparr>, rq # w)"
    "pe_uuid marking_env w = (''u'', w)" for s b rq w
    by (simp_all add: marking_env_def)
  obtain p' w' where s: "serve_proxy marking_env (sample_request ''/v1/x'' ''{}'') sample_proxy [] = Some (StreamReply [] 200 [], p', w')"
    using sample_runs by blast
  have body: "rq_body (sample_request ''/v1/x'' ''{}'') = ''{}''" by (simp add: sample_request_def)
  have ne: "''{}'' \<noteq> []" by simp
  have "map hr_body w' = [''decode'', ''prefill'']"
    using disagg_stream_is_two_phase [OF sample_disagg_request s] unfolding body env if_not_P [OF ne]
    apply (elim exE conjE)
    subgoal premises p
      using p(1,2,8,10,11,14,19) by auto
    done
  with s show ?thesis by (intro exI conjI)
qed

theorem prefill_failure_stops_request_witness:
  "\<exists>p' w'. serve_proxy (sample_proxy_env\<lparr>pe_do := (\<lambda>rq w. (Inl (Errorf ''refused'' []), w))\<rparr>)
     (sample_request ''/v1/x'' []) sample_proxy [] = Some (TextReply [] 502 ''prefill: refused'', p', w')"
proof -
  let ?env = "sample_proxy_env\<lparr>pe_do := (\<lambda>rq w. (Inl (Errorf ''refused'' []), w))\<rparr>"
  have u: "pe_uuid ?env [] = (''u'', [])"
    and b: "build_prefill_body ?env (rq_body (sample_request ''/v1/x'' [])) ''u'' = Some (Inr [])"
    by (simp_all add: build_prefill_body_def rebuild_body_def sample_request_def)
  have s: "send_phase ?env ''prefill'' req [] = (Inl ''prefill: refused'', [])" for req
    by (simp add: send_phase_def)
  from prefill_failure_stops_request [OF sample_disagg_request u b s, of "''prefill: refused''"]
  show ?thesis by blast
qed

theorem null_body_panics_witness:
  "serve_proxy sample_proxy_env (sample_request ''/v1/x'' ''null'') sample_proxy [] = None"
  by (rule null_body_panics [OF sample_disagg_request]) (simp_all add: sample_request_def)

end
