(* ===== verification/Shellbridge.thy ===== *)
theory Shellbridge imports Runtime begin

text \<open>
  Shell and log sessions (internal/shellbridge). Which container a request means (resolve.go), the
  life of a shell session and its docker and host backends (shell.go, host_backend.go), the splitting
  of log streams into lines (logs.go), and the stream of load progress that stands in for logs while
  a deployment has no container yet (progress_logs.go). The docker daemon is a parameter of each
  operation that talks to it.
\<close>

section \<open>Choosing the container\<close>

record container_summary =
  cs_id :: string
  cs_names :: "string list"

text \<open>\<open>ContainerList\<close> filtered by name; \<open>None\<close> stands for a nil client.\<close>

type_synonym container_lister = "(string \<Rightarrow> go_error + container_summary list) option"

text \<open>What the runtime answers: a container per deployment and the loaded ones in some order.\<close>

record rt_view =
  rv_container :: "string \<Rightarrow> string"
  rv_loaded :: "string list"

definition lookup_by_deployment_id :: "container_lister \<Rightarrow> string \<Rightarrow> string" where
  "lookup_by_deployment_id cli dep =
     (case cli of None \<Rightarrow> []
      | Some list_by_name \<Rightarrow>
          if dep = [] then []
          else case list_by_name dep of
                 Inl e \<Rightarrow> []
               | Inr [] \<Rightarrow> []
               | Inr (c # cs) \<Rightarrow>
                   (case find (\<lambda>c. list_ex (\<lambda>n. contains_str n dep) (cs_names c)) (c # cs) of
                      Some d \<Rightarrow> cs_id d | None \<Rightarrow> cs_id c))"

definition lookup_most_recent :: "container_lister \<Rightarrow> string" where
  "lookup_most_recent cli =
     (case cli of None \<Rightarrow> []
      | Some list_by_name \<Rightarrow> (case list_by_name ''inferia-'' of Inr (c # cs) \<Rightarrow> cs_id c | _ \<Rightarrow> []))"

definition no_container :: "string \<Rightarrow> go_error" where
  "no_container dep = Errorf ''deployment %q has no running container'' [FStr dep]"

definition no_deployment :: go_error where
  "no_deployment = Errorf ''no active deployment on this worker'' []"

definition resolve_container :: "container_lister \<Rightarrow> rt_view option \<Rightarrow> string \<Rightarrow> string \<Rightarrow> go_error + string" where
  "resolve_container cli rt cid dep =
     (if cid \<noteq> [] then Inr cid
      else if dep \<noteq> [] then
        (let own = (case rt of None \<Rightarrow> [] | Some v \<Rightarrow> rv_container v dep) in
         if own \<noteq> [] then Inr own
         else let found = lookup_by_deployment_id cli dep in
              if found \<noteq> [] then Inr found else Inl (no_container dep))
      else
        (let first = (case rt of None \<Rightarrow> [] | Some v \<Rightarrow> (case rv_loaded v of [] \<Rightarrow> [] | d # _ \<Rightarrow> rv_container v d)) in
         if first \<noteq> [] then Inr first
         else let found = lookup_most_recent cli in
              if found \<noteq> [] then Inr found else Inl no_deployment))"

section \<open>Shell sessions\<close>

record shell_session_config =
  cfg_shell :: string
  cfg_user :: string
  cfg_deployment :: string
  cfg_container :: string
  cfg_cols :: "16 word"
  cfg_rows :: "16 word"

text \<open>A backend: what spawning and resizing do to the world.\<close>

record 'w shell_backend =
  sb_spawn :: "shell_session_config \<Rightarrow> 'w \<Rightarrow> (go_error + unit) \<times> 'w"
  sb_resize :: "16 word \<Rightarrow> 16 word \<Rightarrow> 'w \<Rightarrow> go_error option \<times> 'w"

definition err_no_backend :: go_error where
  "err_no_backend = Errorf ''shellbridge: no shell backend configured'' []"

definition start_shell_with ::
  "(shell_session_config \<Rightarrow> go_error + 'w shell_backend) option \<Rightarrow> shell_session_config \<Rightarrow> 'w
   \<Rightarrow> (go_error + shell_session_config) \<times> 'w" where
  "start_shell_with factory cfg w =
     (case factory of
        None \<Rightarrow> (Inl err_no_backend, w)
      | Some f \<Rightarrow>
          (let cfg = (if cfg_shell cfg = [] then cfg\<lparr>cfg_shell := ''/bin/bash''\<rparr> else cfg) in
           case f cfg of
             Inl e \<Rightarrow> (Inl e, w)
           | Inr b \<Rightarrow>
               (case sb_spawn b cfg w of
                  (Inl e, w) \<Rightarrow> (Inl e, w)
                | (Inr _, w) \<Rightarrow>
                    (Inr cfg, if cfg_cols cfg > 0 \<and> cfg_rows cfg > 0
                              then snd (sb_resize b (cfg_cols cfg) (cfg_rows cfg) w) else w))))"

text \<open>
  The read pump: what the reads return, in order, and whether the session is closed when one of
  them fails; then the exit status is asked for.
\<close>

datatype read_error = ReadEOF | ReadFail string

datatype shell_event =
    OnOutput string
  | OnExit int string
  | OnError string

fun read_failure_text :: "read_error \<Rightarrow> string" where
  "read_failure_text ReadEOF = ''EOF''"
| "read_failure_text (ReadFail s) = s"

definition pump_end :: "read_error \<Rightarrow> int \<times> read_error option \<Rightarrow> shell_event" where
  "pump_end rerr wait =
     (let (code, werr) = wait in
      if werr \<noteq> None \<and> werr \<noteq> Some ReadEOF \<and> rerr \<noteq> ReadEOF
      then OnError (''shell read: '' @ read_failure_text rerr)
      else OnExit code (if rerr \<noteq> ReadEOF then read_failure_text rerr else []))"

fun read_pump ::
  "(string \<times> (read_error \<times> bool) option) list \<Rightarrow> int \<times> read_error option \<Rightarrow> shell_event list" where
  "read_pump [] wait = []"
| "read_pump ((chunk, r) # reads) wait =
     (if chunk \<noteq> [] then [OnOutput chunk] else []) @
     (case r of
        None \<Rightarrow> read_pump reads wait
      | Some (rerr, closed) \<Rightarrow> if closed then [] else [pump_end rerr wait])"

section \<open>The docker and host backends\<close>

record exec_options =
  xo_stdin :: bool
  xo_stdout :: bool
  xo_stderr :: bool
  xo_tty :: bool
  xo_cmd :: "string list"
  xo_user :: string

record 'w exec_docker =
  xd_create :: "string \<Rightarrow> exec_options \<Rightarrow> 'w \<Rightarrow> (go_error + string) \<times> 'w"
  xd_attach :: "string \<Rightarrow> 'w \<Rightarrow> go_error option \<times> 'w"

definition docker_spawn ::
  "'w exec_docker \<Rightarrow> string \<Rightarrow> shell_session_config \<Rightarrow> 'w \<Rightarrow> (go_error + string) \<times> 'w" where
  "docker_spawn xd cid cfg w =
     (let shell = (if cfg_shell cfg = [] then ''/bin/bash'' else cfg_shell cfg);
          opts = \<lparr>xo_stdin = True, xo_stdout = True, xo_stderr = True, xo_tty = True,
                  xo_cmd = [shell], xo_user = cfg_user cfg\<rparr>;
          (r, w) = xd_create xd cid opts w;
          (r, w) = (case r of
                      Inl e \<Rightarrow> if shell \<noteq> ''/bin/sh'' then xd_create xd cid (opts\<lparr>xo_cmd := [''/bin/sh'']\<rparr>) w else (r, w)
                    | Inr x \<Rightarrow> (r, w))
      in case r of
           Inl e \<Rightarrow> (Inl (wrap_err ''exec create'' e), w)
         | Inr x \<Rightarrow> (case xd_attach xd x w of
             (Some e, w) \<Rightarrow> (Inl (wrap_err ''exec attach'' e), w)
           | (None, w) \<Rightarrow> (Inr x, w)))"

definition default_host_shell_image :: string where
  "default_host_shell_image = ''ubuntu:22.04''"

definition host_shell_image :: "(string \<Rightarrow> string) \<Rightarrow> string" where
  "host_shell_image getenv =
     (let v = trim_space (getenv ''INFERIA_HOST_SHELL_IMAGE'')
      in if v \<noteq> [] then v else default_host_shell_image)"

definition build_nsenter_cmd :: "shell_session_config \<Rightarrow> string list" where
  "build_nsenter_cmd cfg =
     (let shell = (if cfg_shell cfg = [] then ''/bin/bash'' else cfg_shell cfg);
          base = [''nsenter'', ''-t'', ''1'', ''-m'', ''-u'', ''-i'', ''-n'', ''-p'', ''--'']
      in if cfg_user cfg = [] \<or> cfg_user cfg = ''root'' then base @ [shell, ''-l'']
         else base @ [''su'', ''-'', cfg_user cfg, ''-s'', shell])"

record host_container =
  hc_image :: string
  hc_cmd :: "string list"
  hc_open_stdin :: bool
  hc_stdin :: bool
  hc_stdout :: bool
  hc_stderr :: bool
  hc_env :: "string list"
  hc_tty :: bool
  hc_privileged :: bool
  hc_namespaces :: "(string \<times> string) list"
  hc_auto_remove :: bool
  hc_security_opt :: "string list"

definition build_host_container :: "shell_session_config \<Rightarrow> string \<Rightarrow> host_container" where
  "build_host_container cfg img =
     \<lparr>hc_image = img, hc_cmd = build_nsenter_cmd cfg, hc_open_stdin = True, hc_stdin = True,
      hc_stdout = True, hc_stderr = True, hc_env = [''TERM=xterm-256color''], hc_tty = True,
      hc_privileged = True,
      hc_namespaces = [(''pid'', ''host''), (''network'', ''host''), (''ipc'', ''host''), (''uts'', ''host'')],
      hc_auto_remove = True, hc_security_opt = [''apparmor=unconfined'', ''seccomp=unconfined'']\<rparr>"

record 'w host_docker =
  hd_images :: "'w \<Rightarrow> (go_error + string list list) \<times> 'w"
  hd_pull :: "string \<Rightarrow> 'w \<Rightarrow> go_error option \<times> 'w"
  hd_drain :: "'w \<Rightarrow> go_error option \<times> 'w"
  hd_create :: "host_container \<Rightarrow> 'w \<Rightarrow> (go_error + string) \<times> 'w"
  hd_attach :: "string \<Rightarrow> 'w \<Rightarrow> go_error option \<times> 'w"
  hd_start :: "string \<Rightarrow> 'w \<Rightarrow> go_error option \<times> 'w"
  hd_remove :: "string \<Rightarrow> 'w \<Rightarrow> go_error option \<times> 'w"

definition ensure_image :: "'w host_docker \<Rightarrow> string \<Rightarrow> 'w \<Rightarrow> go_error option \<times> 'w" where
  "ensure_image dk img w =
     (let (r, w) = hd_images dk w in
      if (case r of Inl _ \<Rightarrow> False | Inr tags \<Rightarrow> list_ex (list_ex (\<lambda>t. t = img)) tags) then (None, w)
      else case hd_pull dk img w of
             (Some e, w) \<Rightarrow> (Some (Errorf ''pull %s: %w'' [FStr img, FErr e]), w)
           | (None, w) \<Rightarrow> (case hd_drain dk w of
               (Some e, w) \<Rightarrow> (Some (wrap_err ''drain pull'' e), w)
             | (None, w) \<Rightarrow> (None, w)))"

definition host_spawn ::
  "'w host_docker \<Rightarrow> string \<Rightarrow> shell_session_config \<Rightarrow> 'w \<Rightarrow> (go_error + string) \<times> 'w" where
  "host_spawn dk img cfg w =
     (case ensure_image dk img w of
        (Some e, w) \<Rightarrow> (Inl (wrap_err ''host shell image'' e), w)
      | (None, w) \<Rightarrow>
          (case hd_create dk (build_host_container cfg img) w of
             (Inl e, w) \<Rightarrow> (Inl (wrap_err ''host shell create'' e), w)
           | (Inr cid, w) \<Rightarrow>
               (case hd_attach dk cid w of
                  (Some e, w) \<Rightarrow> (Inl (wrap_err ''host shell attach'' e), snd (hd_remove dk cid w))
                | (None, w) \<Rightarrow>
                    (case hd_start dk cid w of
                       (Some e, w) \<Rightarrow> (Inl (wrap_err ''host shell start'' e), snd (hd_remove dk cid w))
                     | (None, w) \<Rightarrow> (Inr cid, w)))))"

section \<open>Log streams\<close>

text \<open>The complete lines of the data, and what is left after the last newline.\<close>

fun split_lines :: "string \<Rightarrow> string list \<times> string" where
  "split_lines [] = ([], [])"
| "split_lines (c # cs) =
     (let (ls, r) = split_lines cs
      in if c = CHR 0x0A then ([] # ls, r)
         else case ls of [] \<Rightarrow> ([], c # r) | l # ls \<Rightarrow> ((c # l) # ls, r))"

text \<open>What each read returns and whether it came with an error; the text kept from earlier reads.\<close>

fun forward_lines :: "(string \<times> bool) list \<Rightarrow> string \<Rightarrow> string list" where
  "forward_lines [] partial = []"
| "forward_lines ((d, failed) # reads) partial =
     (let (ls, rest) = (if d \<noteq> [] then split_lines (partial @ d) else ([], partial))
      in if failed then ls @ (if rest \<noteq> [] then [rest] else [])
         else ls @ forward_lines reads rest)"

definition text_lines :: "string \<Rightarrow> string list" where
  "text_lines s = (let (ls, rest) = split_lines s in ls @ (if rest \<noteq> [] then [rest] else []))"

text \<open>
  The demultiplexed stream: the reads of each side, and the error the copy ended with, if any, with a mark
  for end of file. The lines of the two
  sides are delivered concurrently; here they are kept apart.
\<close>

definition demux_and_forward ::
  "(string \<times> bool) list \<Rightarrow> (string \<times> bool) list \<Rightarrow> (go_error \<times> bool) option
   \<Rightarrow> (string list \<times> string list) \<times> (go_error + string)" where
  "demux_and_forward out err copyErr =
     ((forward_lines out [], forward_lines err []),
      case copyErr of
        Some (e, False) \<Rightarrow> Inl e
      | _ \<Rightarrow> Inr ''container exited'')"

definition logs_tail :: "int \<Rightarrow> int" where
  "logs_tail n = (if n \<le> 0 then 200 else n)"

text \<open>The end of a session: whether \<open>OnEnd\<close> fires, and with which reason.\<close>

definition logs_end :: "bool \<Rightarrow> string \<Rightarrow> go_error option \<Rightarrow> string option" where
  "logs_end closed reason e =
     (if closed then None
      else Some (case e of Some x \<Rightarrow> if reason = [] then err_text x else reason | None \<Rightarrow> reason))"

section \<open>Progress as logs\<close>

text \<open>
  The context is cancelled before receiving item \<open>k\<close>, counted over the replay and then the lines
  received; \<open>None\<close> is a context that stays live. After the channel closes the outcome decides.
\<close>

definition progress_stream ::
  "(string list \<times> string list \<times> (string \<times> bool)) option \<Rightarrow> nat option
   \<Rightarrow> (string \<Rightarrow> string list \<times> string \<times> go_error option) \<Rightarrow> string list \<times> string \<times> go_error option" where
  "progress_stream sub cancel handoff =
     (case sub of
        None \<Rightarrow> ([], ''deployment has no progress'', None)
      | Some (replay, lines, cid, failed) \<Rightarrow>
          (case cancel of
             Some k \<Rightarrow> (take k (replay @ lines), [], Some (Errorf ''context canceled'' []))
           | None \<Rightarrow>
               if failed then (replay @ lines, ''deployment failed'', None)
               else if cid = [] then (replay @ lines, ''deployment ended'', None)
               else let (ls, reason, e) = handoff cid in (replay @ lines @ ls, reason, e)))"

section \<open>Lines do not depend on how they are read\<close>

lemma split_lines_append:
  "split_lines (a @ b) =
     (fst (split_lines a) @ fst (split_lines (snd (split_lines a) @ b)), snd (split_lines (snd (split_lines a) @ b)))"
  by (induction a) (auto simp: Let_def split_def split: list.splits)

lemma split_lines_rest_plain: "split_lines (snd (split_lines a)) = ([], snd (split_lines a))"
  by (induction a) (auto simp: Let_def split_def split: list.splits)

lemma split_lines_join:
  "concat (map (\<lambda>l. l @ [CHR 0x0A]) (fst (split_lines s))) @ snd (split_lines s) = s"
  by (induction s) (auto simp: Let_def split_def split: list.splits)

lemma split_lines_no_newline:
  "(\<forall>l \<in> set (fst (split_lines s)). CHR 0x0A \<notin> set l) \<and> CHR 0x0A \<notin> set (snd (split_lines s))"
  by (induction s) (auto simp: Let_def split_def split: list.splits)

lemma forward_lines_split:
  "split_lines partial = ([], partial) \<Longrightarrow>
   forward_lines (map (\<lambda>d. (d, False)) ds @ [(d', True)]) partial =
     fst (split_lines (partial @ concat ds @ d')) @
     (let rest = snd (split_lines (partial @ concat ds @ d')) in if rest \<noteq> [] then [rest] else [])"
proof (induction ds arbitrary: partial)
  case Nil
  then show ?case by (auto simp: Let_def split_def)
next
  case (Cons d ds)
  let ?s = "split_lines (partial @ d)"
  have step: "(if d \<noteq> [] then split_lines (partial @ d) else ([], partial)) = ?s"
    using Cons.prems by simp
  have "forward_lines (map (\<lambda>d. (d, False)) ds @ [(d', True)]) (snd ?s) =
     fst (split_lines (snd ?s @ concat ds @ d')) @
     (let rest = snd (split_lines (snd ?s @ concat ds @ d')) in if rest \<noteq> [] then [rest] else [])"
    by (rule Cons.IH) (rule split_lines_rest_plain)
  then show ?case
    using split_lines_append [of "partial @ d" "concat ds @ d'"]
    by (simp only: list.map append_Cons forward_lines.simps step split_def Let_def) (simp add: Let_def)
qed

text \<open>
  C26 (equivalence). The lines a log stream is split into depend only on its bytes: however the reads
  cut it up, the records are the newline-terminated lines of the whole text in order, and the
  unterminated rest at the end if there is one.
\<close>

theorem log_lines_chunk_invariant:
  "forward_lines (map (\<lambda>d. (d, False)) ds @ [(d', True)]) [] = text_lines (concat ds @ d') \<and>
   (\<forall>l \<in> set (text_lines s). CHR 0x0A \<notin> set l) \<and>
   (\<exists>rest. s = concat (map (\<lambda>l. l @ [CHR 0x0A]) (fst (split_lines s))) @ rest \<and>
      text_lines s = fst (split_lines s) @ (if rest = [] then [] else [rest]))"
proof (intro conjI)
  show "forward_lines (map (\<lambda>d. (d, False)) ds @ [(d', True)]) [] = text_lines (concat ds @ d')"
    using forward_lines_split [of "[]" ds d'] by (simp add: text_lines_def split_def Let_def)
  show "\<forall>l \<in> set (text_lines s). CHR 0x0A \<notin> set l"
    using split_lines_no_newline [of s] by (auto simp: text_lines_def split_def Let_def)
  show "\<exists>rest. s = concat (map (\<lambda>l. l @ [CHR 0x0A]) (fst (split_lines s))) @ rest \<and>
      text_lines s = fst (split_lines s) @ (if rest = [] then [] else [rest])"
    using split_lines_join [of s] by (intro exI [of _ "snd (split_lines s)"]) (simp add: text_lines_def split_def Let_def)
qed

theorem log_lines_chunk_invariant_witness:
  "text_lines [CHR ''a'', CHR 0x0A, CHR ''b''] = [''a'', ''b'']"
  using log_lines_chunk_invariant [of "[''a'']" "[CHR 0x0A, CHR ''b'']" "[]"]
  by (simp add: text_lines_def)

section \<open>A shell session reports its end once\<close>

fun event_output :: "shell_event \<Rightarrow> string" where
  "event_output (OnOutput d) = d"
| "event_output _ = []"

definition is_end :: "shell_event \<Rightarrow> bool" where
  "is_end e = (case e of OnOutput _ \<Rightarrow> False | _ \<Rightarrow> True)"

lemma pump_end_is_end [simp]: "is_end (pump_end rerr wait)" "event_output (pump_end rerr wait) = []"
  by (auto simp: pump_end_def is_end_def split_def)

lemma read_pump_events:
  "\<exists>outs. read_pump (map (\<lambda>d. (d, None)) ds @ (d', Some (rerr, closed)) # later) wait =
     map OnOutput outs @ (if closed then [] else [pump_end rerr wait]) \<and>
     concat outs = concat ds @ d' \<and> [] \<notin> set outs"
proof (induction ds)
  case Nil
  show ?case by (rule exI [of _ "if d' = [] then [] else [d']"]) auto
next
  case (Cons d ds)
  then obtain outs where "read_pump (map (\<lambda>d. (d, None)) ds @ (d', Some (rerr, closed)) # later) wait =
     map OnOutput outs @ (if closed then [] else [pump_end rerr wait])" "concat outs = concat ds @ d'" "[] \<notin> set outs"
    by blast
  then show ?case
    by (intro exI [of _ "(if d = [] then [] else [d]) @ outs"]) auto
qed

text \<open>
  (safety). A shell session delivers every byte its reads returned, in order, and then ends with
  exactly one exit or error report, or with none when it was closed by its owner; it is an error
  report exactly when the stream broke and the exit status could not be read either.
\<close>

theorem shell_session_ends_once:
  "\<exists>outs fin. read_pump (map (\<lambda>d. (d, None)) ds @ (d', Some (rerr, closed)) # later) wait = map OnOutput outs @ fin \<and>
     concat outs = concat ds @ d' \<and>
     (if closed then fin = []
      else \<exists>e. fin = [e] \<and> is_end e \<and>
        ((\<exists>m. e = OnError m) = (rerr \<noteq> ReadEOF \<and> snd wait \<notin> {None, Some ReadEOF})))"
proof -
  obtain outs where r: "read_pump (map (\<lambda>d. (d, None)) ds @ (d', Some (rerr, closed)) # later) wait =
     map OnOutput outs @ (if closed then [] else [pump_end rerr wait])" "concat outs = concat ds @ d'"
    using read_pump_events by blast
  have "(\<exists>m. pump_end rerr wait = OnError m) = (rerr \<noteq> ReadEOF \<and> snd wait \<notin> {None, Some ReadEOF})"
    by (auto simp: pump_end_def split_def)
  with r show ?thesis
    by (intro exI [of _ outs] exI [of _ "if closed then [] else [pump_end rerr wait]"]) simp
qed

section \<open>Resolution\<close>

text \<open>The container names of docker start with a slash.\<close>

lemma contains_str_infix: "contains_str (a @ s @ b) s"
proof (induction a)
  case Nil
  show ?case using has_prefix_append [of s b] by (cases "s @ b") (auto simp: contains_str_def simp del: has_prefix_append)
next
  case (Cons c a)
  then show ?case by (auto simp: contains_str_def)
qed

text \<open>
  (error). A deployment without a container of its own is looked for by a substring of container
  names: when only the container of another deployment runs, and that deployment's id extends the one
  asked for, the session is attached to the other deployment's container.
\<close>

theorem session_may_reach_another_deployment:
  assumes "dep \<noteq> []" and "rv_container v dep = []" and "cid \<noteq> []"
    and "list_by_name dep = Inr [\<lparr>cs_id = cid, cs_names = [pre @ dep @ suffix]\<rparr>]"
  shows "resolve_container (Some list_by_name) (Some v) [] dep = Inr cid"
  using assms contains_str_infix [of pre dep suffix]
  by (simp add: resolve_container_def lookup_by_deployment_id_def Let_def)

theorem session_may_reach_another_deployment_witness:
  "resolve_container
     (Some (\<lambda>n. Inr (filter (\<lambda>c. list_ex (\<lambda>m. contains_str m n) (cs_names c))
        [\<lparr>cs_id = ''c10'', cs_names = [''/inferia-dep-10'']\<rparr>])))
     (Some \<lparr>rv_container = (\<lambda>_. []), rv_loaded = []\<rparr>) [] ''dep-1'' = Inr ''c10''"
  by (rule session_may_reach_another_deployment [where pre = "''/inferia-''" and suffix = "''0''"]) (simp_all add: contains_str_def has_prefix_def)

end
