(* ===== verification/Tunnel.thy ===== *)
theory Tunnel imports Shellbridge Protocol begin

text \<open>
  The shell and log tunnel of one connection (internal/control/shell_tunnel.go). The tunnel's mutex
  is held for the table accesses only, so a handler is a sequence of atomic steps: an open looks the
  stream up, starts a session without the mutex and registers it afterwards. Handlers run in
  goroutines of their own and session callbacks arrive at any time; a run of the tunnel is a list of
  such steps. Sessions are numbered by the order in which they are started.
\<close>

section \<open>Frames\<close>

text \<open>An inbound frame; \<open>None\<close> is a body that cannot be decoded.\<close>

datatype frame =
    FShellOpen "shell_open_body option"
  | FShellInput "shell_input_body option"
  | FShellResize "shell_resize_body option"
  | FShellClose "shell_close_body option"
  | FLogsOpen "logs_open_body option"
  | FLogsClose "logs_close_body option"
  | FDataPlane message_type
  | FOther message_type

definition uint16safe :: "int \<Rightarrow> 16 word" where
  "uint16safe n = (if n \<le> 0 \<or> n > 0xffff then 0 else of_int n)"

text \<open>What a handler asked of the session layer, and which starter it chose.\<close>

datatype session_starter = StartShell | StartHostShell | StartLogs

datatype session_call =
    CallWrite nat string
  | CallResize nat "16 word" "16 word"
  | CallClose nat

section \<open>State\<close>

record pending_open =
  op_stream :: string
  op_logs :: bool
  op_starter :: session_starter
  op_config :: shell_session_config

record tunnel =
  tn_shells :: "string \<rightharpoonup> nat"
  tn_logs :: "string \<rightharpoonup> nat"
  tn_disposed :: bool
  tn_opening :: "nat \<rightharpoonup> pending_open"
  tn_calls :: "session_call list"
  tn_sent :: "out_body list"

definition new_tunnel :: tunnel where
  "new_tunnel =
     \<lparr>tn_shells = Map.empty, tn_logs = Map.empty, tn_disposed = False, tn_opening = Map.empty,
      tn_calls = [], tn_sent = []\<rparr>"

definition send_body :: "out_body \<Rightarrow> tunnel \<Rightarrow> tunnel" where
  "send_body b t = t\<lparr>tn_sent := tn_sent t @ [b]\<rparr>"

definition send_error :: "string \<Rightarrow> string \<Rightarrow> tunnel \<Rightarrow> tunnel" where
  "send_error sid msg = send_body (BShellError \<lparr>se_stream_id = sid, se_message = msg\<rparr>)"

definition send_logs_end :: "string \<Rightarrow> string \<Rightarrow> tunnel \<Rightarrow> tunnel" where
  "send_logs_end sid reason = send_body (BLogsEnd \<lparr>le_stream_id = sid, le_reason = reason\<rparr>)"

definition call_session :: "session_call \<Rightarrow> tunnel \<Rightarrow> tunnel" where
  "call_session c t = t\<lparr>tn_calls := tn_calls t @ [c]\<rparr>"

section \<open>Shell streams\<close>

definition shell_config_of :: "shell_open_body \<Rightarrow> shell_session_config" where
  "shell_config_of b =
     \<lparr>cfg_shell = so_shell b, cfg_user = so_user b, cfg_deployment = so_deployment_id b,
      cfg_container = so_container_id b, cfg_cols = uint16safe (so_cols b), cfg_rows = uint16safe (so_rows b)\<rparr>"

definition starter_of :: "shell_open_body \<Rightarrow> session_starter" where
  "starter_of b = (if so_deployment_id b = [] \<and> so_container_id b = [] then StartHostShell else StartShell)"

text \<open>The first half of an open: goroutine \<open>n\<close> is left waiting for its starter.\<close>

definition shell_open :: "nat \<Rightarrow> shell_open_body \<Rightarrow> tunnel \<Rightarrow> tunnel" where
  "shell_open n b t =
     (let sid = so_stream_id b in
      if sid = [] then send_error [] ''ShellOpen missing stream_id'' t
      else if tn_disposed t then send_error sid ''tunnel closed'' t
      else if tn_shells t sid \<noteq> None then t
      else t\<lparr>tn_opening := (tn_opening t)(n \<mapsto>
              \<lparr>op_stream = sid, op_logs = False, op_starter = starter_of b, op_config = shell_config_of b\<rparr>)\<rparr>)"

text \<open>The second half, with what the starter returned.\<close>

definition shell_started :: "string \<Rightarrow> go_error + nat \<Rightarrow> tunnel \<Rightarrow> tunnel" where
  "shell_started sid r t =
     (case r of
        Inl e \<Rightarrow> send_error sid (err_text e) t
      | Inr s \<Rightarrow> if tn_disposed t then call_session (CallClose s) t
                 else t\<lparr>tn_shells := (tn_shells t)(sid \<mapsto> s)\<rparr>)"

definition shell_input :: "shell_input_body \<Rightarrow> tunnel \<Rightarrow> tunnel" where
  "shell_input b t =
     (case tn_shells t (si_stream_id b) of
        None \<Rightarrow> t | Some s \<Rightarrow> call_session (CallWrite s (si_data b)) t)"

definition shell_resize :: "shell_resize_body \<Rightarrow> tunnel \<Rightarrow> tunnel" where
  "shell_resize b t =
     (case tn_shells t (sr_stream_id b) of
        None \<Rightarrow> t
      | Some s \<Rightarrow> call_session (CallResize s (uint16safe (sr_cols b)) (uint16safe (sr_rows b))) t)"

definition shell_close :: "shell_close_body \<Rightarrow> tunnel \<Rightarrow> tunnel" where
  "shell_close b t =
     (let t' = t\<lparr>tn_shells := (tn_shells t)(sc_stream_id b := None)\<rparr>
      in case tn_shells t (sc_stream_id b) of None \<Rightarrow> t' | Some s \<Rightarrow> call_session (CallClose s) t')"

definition drop_shell :: "string \<Rightarrow> tunnel \<Rightarrow> tunnel" where
  "drop_shell sid t = t\<lparr>tn_shells := (tn_shells t)(sid := None)\<rparr>"

text \<open>The callbacks of a shell session opened for stream \<open>sid\<close>.\<close>

fun shell_callback :: "string \<Rightarrow> shell_event \<Rightarrow> tunnel \<Rightarrow> tunnel" where
  "shell_callback sid (OnOutput d) t = send_body (BShellOutput \<lparr>sout_stream_id = sid, sout_data = d\<rparr>) t"
| "shell_callback sid (OnExit code reason) t =
     send_body (BShellExit \<lparr>sx_stream_id = sid, sx_exit_code = code, sx_reason = reason\<rparr>) (drop_shell sid t)"
| "shell_callback sid (OnError msg) t = send_error sid msg (drop_shell sid t)"

section \<open>Log streams\<close>

definition logs_config_of :: "logs_open_body \<Rightarrow> shell_session_config" where
  "logs_config_of b =
     \<lparr>cfg_shell = [], cfg_user = [], cfg_deployment = lo_deployment_id b, cfg_container = lo_container_id b,
      cfg_cols = 0, cfg_rows = 0\<rparr>"

definition logs_open :: "nat \<Rightarrow> logs_open_body \<Rightarrow> tunnel \<Rightarrow> tunnel" where
  "logs_open n b t =
     (let sid = lo_stream_id b in
      if sid = [] then send_logs_end [] ''LogsOpen missing stream_id'' t
      else if tn_disposed t then send_logs_end sid ''tunnel closed'' t
      else if tn_logs t sid \<noteq> None then t
      else t\<lparr>tn_opening := (tn_opening t)(n \<mapsto>
              \<lparr>op_stream = sid, op_logs = True, op_starter = StartLogs, op_config = logs_config_of b\<rparr>)\<rparr>)"

definition logs_started :: "string \<Rightarrow> go_error + nat \<Rightarrow> tunnel \<Rightarrow> tunnel" where
  "logs_started sid r t =
     (case r of
        Inl e \<Rightarrow> send_logs_end sid (err_text e) t
      | Inr s \<Rightarrow> if tn_disposed t then call_session (CallClose s) t
                 else t\<lparr>tn_logs := (tn_logs t)(sid \<mapsto> s)\<rparr>)"

definition logs_close :: "logs_close_body \<Rightarrow> tunnel \<Rightarrow> tunnel" where
  "logs_close b t =
     (let t' = t\<lparr>tn_logs := (tn_logs t)(lc_stream_id b := None)\<rparr>
      in case tn_logs t (lc_stream_id b) of None \<Rightarrow> t' | Some s \<Rightarrow> call_session (CallClose s) t')"

definition drop_logs :: "string \<Rightarrow> tunnel \<Rightarrow> tunnel" where
  "drop_logs sid t = t\<lparr>tn_logs := (tn_logs t)(sid := None)\<rparr>"

definition logs_line :: "string \<Rightarrow> string \<Rightarrow> string \<Rightarrow> tunnel \<Rightarrow> tunnel" where
  "logs_line sid stream d = send_body (BLogsLine \<lparr>ll_stream_id = sid, ll_stream = stream, ll_data = d\<rparr>)"

definition logs_ended :: "string \<Rightarrow> string \<Rightarrow> tunnel \<Rightarrow> tunnel" where
  "logs_ended sid reason t = send_logs_end sid reason (drop_logs sid t)"

section \<open>Dispatch and teardown\<close>

text \<open>The result tells whether the frame was the tunnel's.\<close>

definition tunnel_handle :: "nat \<Rightarrow> frame \<Rightarrow> tunnel \<Rightarrow> bool \<times> tunnel" where
  "tunnel_handle n f t =
     (case f of
        FShellOpen None \<Rightarrow> (True, send_error [] ''bad ShellOpen body'' t)
      | FShellOpen (Some b) \<Rightarrow> (True, shell_open n b t)
      | FShellInput None \<Rightarrow> (True, t)
      | FShellInput (Some b) \<Rightarrow> (True, shell_input b t)
      | FShellResize None \<Rightarrow> (True, t)
      | FShellResize (Some b) \<Rightarrow> (True, shell_resize b t)
      | FShellClose None \<Rightarrow> (True, t)
      | FShellClose (Some b) \<Rightarrow> (True, shell_close b t)
      | FLogsOpen None \<Rightarrow> (True, send_logs_end [] ''bad LogsOpen body'' t)
      | FLogsOpen (Some b) \<Rightarrow> (True, logs_open n b t)
      | FLogsClose None \<Rightarrow> (True, t)
      | FLogsClose (Some b) \<Rightarrow> (True, logs_close b t)
      | FDataPlane _ \<Rightarrow> (True, t)
      | FOther _ \<Rightarrow> (False, t))"

text \<open>The sessions of the two tables in the orders they are iterated.\<close>

definition close_all :: "nat list \<Rightarrow> nat list \<Rightarrow> tunnel \<Rightarrow> tunnel" where
  "close_all shells logs t =
     (if tn_disposed t then t
      else t\<lparr>tn_disposed := True, tn_shells := Map.empty, tn_logs := Map.empty,
             tn_calls := tn_calls t @ map CallClose shells @ map CallClose logs\<rparr>)"

text \<open>The goroutine waiting for a starter goes on.\<close>

definition open_done :: "nat \<Rightarrow> go_error + nat \<Rightarrow> tunnel \<Rightarrow> tunnel" where
  "open_done n r t =
     (case tn_opening t n of
        None \<Rightarrow> t
      | Some q \<Rightarrow>
          let t' = t\<lparr>tn_opening := (tn_opening t)(n := None)\<rparr>
          in if op_logs q then logs_started (op_stream q) r t' else shell_started (op_stream q) r t')"

section \<open>Runs\<close>

datatype tunnel_event =
    EvFrame nat frame
  | EvOpenDone nat "go_error + nat"
  | EvShell string shell_event
  | EvLine string string string
  | EvLogsEnd string string
  | EvCloseAll "nat list" "nat list"

fun tunnel_step :: "tunnel_event \<Rightarrow> tunnel \<Rightarrow> tunnel" where
  "tunnel_step (EvFrame n f) t = snd (tunnel_handle n f t)"
| "tunnel_step (EvOpenDone n r) t = open_done n r t"
| "tunnel_step (EvShell sid e) t = shell_callback sid e t"
| "tunnel_step (EvLine sid stream d) t = logs_line sid stream d t"
| "tunnel_step (EvLogsEnd sid reason) t = logs_ended sid reason t"
| "tunnel_step (EvCloseAll ss ls) t = close_all ss ls t"

definition tunnel_run :: "tunnel_event list \<Rightarrow> tunnel \<Rightarrow> tunnel" where
  "tunnel_run es t = fold tunnel_step es t"

section \<open>The tunnel among its sessions\<close>

text \<open>
  A stream is an id and its kind. \<open>ty_stream\<close> tells for which stream a session was started,
  \<open>ty_pending\<close> which goroutine holds a session it has not registered yet, \<open>ty_ended\<close> which
  sessions ended by themselves; \<open>ty_used\<close> are the streams some open frame asked for.
\<close>

type_synonym stream = "string \<times> bool"

record tunnel_sys =
  ty_tunnel :: tunnel
  ty_stream :: "nat \<rightharpoonup> stream"
  ty_pending :: "nat \<rightharpoonup> nat"
  ty_ended :: "nat set"
  ty_used :: "stream set"

definition stream_of_opening :: "pending_open \<Rightarrow> stream" where
  "stream_of_opening q = (op_stream q, op_logs q)"

fun frame_stream :: "frame \<Rightarrow> stream option" where
  "frame_stream (FShellOpen (Some b)) = Some (so_stream_id b, False)"
| "frame_stream (FLogsOpen (Some b)) = Some (lo_stream_id b, True)"
| "frame_stream _ = None"

definition table_of :: "tunnel \<Rightarrow> stream \<Rightarrow> nat option" where
  "table_of t k = (if snd k then tn_logs t (fst k) else tn_shells t (fst k))"

definition on_tunnel :: "(tunnel \<Rightarrow> tunnel) \<Rightarrow> tunnel_sys \<Rightarrow> tunnel_sys" where
  "on_tunnel f y = y\<lparr>ty_tunnel := f (ty_tunnel y)\<rparr>"

definition alive :: "tunnel_sys \<Rightarrow> nat \<Rightarrow> bool" where
  "alive y s \<longleftrightarrow> ty_stream y s \<noteq> None \<and> s \<notin> ty_ended y \<and> CallClose s \<notin> set (tn_calls (ty_tunnel y))"

text \<open>
  The runs of a tunnel. A session that is closed or has ended reports nothing more. With \<open>strict\<close>
  the control plane opens a stream id at most once, as the protocol asks of it.
\<close>

inductive tunnel_reach :: "bool \<Rightarrow> tunnel_sys \<Rightarrow> bool" for strict where
  start: "tunnel_reach strict \<lparr>ty_tunnel = new_tunnel, ty_stream = Map.empty, ty_pending = Map.empty,
     ty_ended = {}, ty_used = {}\<rparr>"
| frame: "tunnel_reach strict y \<Longrightarrow> tn_opening (ty_tunnel y) n = None \<Longrightarrow>
    (strict \<Longrightarrow> \<forall>k. frame_stream f = Some k \<longrightarrow> k \<notin> ty_used y) \<Longrightarrow>
    tunnel_reach strict (on_tunnel (tunnel_step (EvFrame n f)) y\<lparr>ty_used := ty_used y \<union> set_option (frame_stream f)\<rparr>)"
| spawn: "tunnel_reach strict y \<Longrightarrow> tn_opening (ty_tunnel y) n = Some q \<Longrightarrow> ty_pending y n = None \<Longrightarrow>
    ty_stream y s = None \<Longrightarrow>
    tunnel_reach strict (y\<lparr>ty_stream := (ty_stream y)(s \<mapsto> stream_of_opening q), ty_pending := (ty_pending y)(n \<mapsto> s)\<rparr>)"
| spawn_fails: "tunnel_reach strict y \<Longrightarrow> tn_opening (ty_tunnel y) n = Some q \<Longrightarrow> ty_pending y n = None \<Longrightarrow>
    tunnel_reach strict (on_tunnel (tunnel_step (EvOpenDone n (Inl e))) y)"
| registered: "tunnel_reach strict y \<Longrightarrow> ty_pending y n = Some s \<Longrightarrow>
    tunnel_reach strict (on_tunnel (tunnel_step (EvOpenDone n (Inr s))) y\<lparr>ty_pending := (ty_pending y)(n := None)\<rparr>)"
| reports: "tunnel_reach strict y \<Longrightarrow> alive y s \<Longrightarrow> ty_stream y s = Some k \<Longrightarrow>
    tunnel_reach strict (on_tunnel (if snd k then tunnel_step (EvLine (fst k) src d)
       else tunnel_step (EvShell (fst k) (OnOutput d))) y)"
| ended: "tunnel_reach strict y \<Longrightarrow> alive y s \<Longrightarrow> ty_stream y s = Some k \<Longrightarrow> is_end e \<Longrightarrow>
    tunnel_reach strict (on_tunnel (if snd k then tunnel_step (EvLogsEnd (fst k) reason)
       else tunnel_step (EvShell (fst k) e)) y\<lparr>ty_ended := insert s (ty_ended y)\<rparr>)"
| closed: "tunnel_reach strict y \<Longrightarrow> set ss = ran (tn_shells (ty_tunnel y)) \<Longrightarrow>
    set ls = ran (tn_logs (ty_tunnel y)) \<Longrightarrow>
    tunnel_reach strict (on_tunnel (tunnel_step (EvCloseAll ss ls)) y)"

section \<open>No session is lost when ids are fresh\<close>

subsection \<open>What each step does to the tables\<close>

definition closes :: "tunnel \<Rightarrow> nat set" where
  "closes t = {s. CallClose s \<in> set (tn_calls t)}"

lemma table_of_simps [simp]:
  "table_of (t\<lparr>tn_shells := f\<rparr>) k = (if snd k then tn_logs t (fst k) else f (fst k))"
  "table_of (t\<lparr>tn_logs := f\<rparr>) k = (if snd k then f (fst k) else tn_shells t (fst k))"
  "table_of (t\<lparr>tn_opening := g\<rparr>) k = table_of t k" "table_of (t\<lparr>tn_calls := cs\<rparr>) k = table_of t k"
  "table_of (t\<lparr>tn_sent := bs\<rparr>) k = table_of t k" "table_of (t\<lparr>tn_disposed := b\<rparr>) k = table_of t k"
  by (simp_all add: table_of_def)

lemma send_frame [simp]:
  "table_of (send_body b t) = table_of t" "tn_opening (send_body b t) = tn_opening t"
  "tn_disposed (send_body b t) = tn_disposed t" "tn_calls (send_body b t) = tn_calls t" "closes (send_body b t) = closes t"
  "tn_shells (send_body b t) = tn_shells t" "tn_logs (send_body b t) = tn_logs t"
  by (auto simp: send_body_def closes_def table_of_def)

lemma call_frame [simp]:
  "table_of (call_session c t) = table_of t" "tn_opening (call_session c t) = tn_opening t"
  "tn_disposed (call_session c t) = tn_disposed t"
  "closes (call_session c t) = (case c of CallClose s \<Rightarrow> insert s (closes t) | _ \<Rightarrow> closes t)"
  "tn_shells (call_session c t) = tn_shells t" "tn_logs (call_session c t) = tn_logs t"
  by (auto simp: call_session_def closes_def table_of_def split: session_call.splits)

lemma closes_frame [simp]:
  "closes (t\<lparr>tn_shells := f\<rparr>) = closes t" "closes (t\<lparr>tn_logs := f\<rparr>) = closes t" "closes (t\<lparr>tn_opening := g\<rparr>) = closes t"
  "closes (t\<lparr>tn_disposed := b\<rparr>) = closes t"
  by (simp_all add: closes_def)

definition keeps_tables :: "tunnel \<Rightarrow> tunnel \<Rightarrow> bool" where
  "keeps_tables t t' \<longleftrightarrow> table_of t' = table_of t \<and> tn_opening t' = tn_opening t \<and> closes t' = closes t"

definition opens_stream :: "nat \<Rightarrow> stream \<Rightarrow> tunnel \<Rightarrow> tunnel \<Rightarrow> bool" where
  "opens_stream n k t t' \<longleftrightarrow> (\<exists>q. k = stream_of_opening q \<and> tn_opening t' = (tn_opening t)(n \<mapsto> q)) \<and>
     table_of t' = table_of t \<and> closes t' = closes t"

definition closes_stream :: "stream \<Rightarrow> tunnel \<Rightarrow> tunnel \<Rightarrow> bool" where
  "closes_stream k t t' \<longleftrightarrow> tn_opening t' = tn_opening t \<and> table_of t' = (table_of t)(k := None) \<and>
     closes t' = closes t \<union> set_option (table_of t k)"

lemma frame_effect:
  defines "t' \<equiv> \<lambda>n f t. tunnel_step (EvFrame n f) t"
  shows "tn_disposed (t' n f t) = tn_disposed t \<and>
    (keeps_tables t (t' n f t) \<or> (\<exists>k. frame_stream f = Some k \<and> opens_stream n k t (t' n f t)) \<or>
     (\<exists>k. closes_stream k t (t' n f t)))"
proof (cases f)
  case (FShellOpen b)
  then show ?thesis
    by (cases b) (auto simp: t'_def tunnel_handle_def shell_open_def send_error_def keeps_tables_def opens_stream_def
        stream_of_opening_def fun_eq_iff Let_def)
next
  case (FLogsOpen b)
  then show ?thesis
    by (cases b) (auto simp: t'_def tunnel_handle_def logs_open_def send_logs_end_def keeps_tables_def opens_stream_def
        stream_of_opening_def fun_eq_iff Let_def)
next
  case (FShellClose b)
  then show ?thesis
  proof (cases b)
    case (Some c)
    have "closes_stream (sc_stream_id c, False) t (shell_close c t)"
      by (cases "tn_shells t (sc_stream_id c)")
        (auto simp: shell_close_def closes_stream_def table_of_def fun_eq_iff Let_def)
    then show ?thesis using FShellClose Some
      by (auto simp: t'_def tunnel_handle_def shell_close_def Let_def split: option.splits)
  qed (auto simp: t'_def tunnel_handle_def keeps_tables_def)
next
  case (FLogsClose b)
  then show ?thesis
  proof (cases b)
    case (Some c)
    have "closes_stream (lc_stream_id c, True) t (logs_close c t)"
      by (cases "tn_logs t (lc_stream_id c)")
        (auto simp: logs_close_def closes_stream_def table_of_def fun_eq_iff Let_def)
    then show ?thesis using FLogsClose Some
      by (auto simp: t'_def tunnel_handle_def logs_close_def Let_def split: option.splits)
  qed (auto simp: t'_def tunnel_handle_def keeps_tables_def)
qed (auto simp: t'_def tunnel_handle_def shell_input_def shell_resize_def keeps_tables_def split: option.splits)

lemma open_fails_effect:
  fixes e :: go_error
  assumes "tn_opening t n = Some q"
  defines "t' \<equiv> open_done n (Inl e) t"
  shows "table_of t' = table_of t \<and> tn_opening t' = (tn_opening t)(n := None) \<and> closes t' = closes t \<and>
    tn_disposed t' = tn_disposed t"
  using assms(1)
  by (auto simp: t'_def open_done_def shell_started_def logs_started_def send_error_def send_logs_end_def Let_def fun_eq_iff)

lemma open_done_effect:
  fixes s :: nat
  assumes "tn_opening t n = Some q"
  defines "t' \<equiv> open_done n (Inr s) t"
  shows "tn_opening t' = (tn_opening t)(n := None) \<and> tn_disposed t' = tn_disposed t \<and>
    (if tn_disposed t then table_of t' = table_of t \<and> closes t' = insert s (closes t)
     else table_of t' = (table_of t)(stream_of_opening q \<mapsto> s) \<and> closes t' = closes t)"
  using assms(1)
  by (auto simp: t'_def open_done_def shell_started_def logs_started_def Let_def fun_eq_iff stream_of_opening_def table_of_def)

lemma ended_effect:
  fixes reason :: string and k :: stream and t :: tunnel
  assumes "is_end e"
  defines "t' \<equiv> (if snd k then tunnel_step (EvLogsEnd (fst k) reason) else tunnel_step (EvShell (fst k) e)) t"
  shows "table_of t' = (table_of t)(k := None) \<and> tn_opening t' = tn_opening t \<and> closes t' = closes t \<and>
    tn_disposed t' = tn_disposed t"
  using assms(1)
  by (cases e) (auto simp: t'_def is_end_def logs_ended_def drop_logs_def drop_shell_def send_logs_end_def send_error_def
      fun_eq_iff table_of_def prod_eq_iff)

lemma reports_effect:
  fixes k :: stream and src d :: string and t :: tunnel
  defines "t' \<equiv> (if snd k then tunnel_step (EvLine (fst k) src d) else tunnel_step (EvShell (fst k) (OnOutput d))) t"
  shows "keeps_tables t t' \<and> tn_disposed t' = tn_disposed t"
  by (auto simp: t'_def keeps_tables_def logs_line_def)

lemma close_all_effect:
  assumes "set ss = ran (tn_shells t)" and "set ls = ran (tn_logs t)"
  defines "t' \<equiv> close_all ss ls t"
  shows "tn_opening t' = tn_opening t \<and> tn_disposed t' \<and>
    (if tn_disposed t then table_of t' = table_of t \<and> closes t' = closes t
     else (\<forall>k. table_of t' k = None) \<and> closes t' = closes t \<union> {s. \<exists>k. table_of t k = Some s})"
  using assms(1,2)
  by (auto simp: t'_def close_all_def closes_def table_of_def ran_def fun_eq_iff)

subsection \<open>The invariant\<close>

text \<open>
  Over the parts of the state: the table, the opening streams, the disposed mark, the closed
  sessions, and the ghost maps. A session that is alive is held by a goroutine or registered.
\<close>

definition tinv ::
  "('k \<Rightarrow> nat option) \<Rightarrow> (nat \<Rightarrow> 'k option) \<Rightarrow> bool \<Rightarrow> nat set \<Rightarrow> (nat \<Rightarrow> 'k option) \<Rightarrow> (nat \<Rightarrow> nat option)
   \<Rightarrow> nat set \<Rightarrow> 'k set \<Rightarrow> bool" where
  "tinv tab opn dis cls str pen fin used \<longleftrightarrow>
     (\<forall>k s. tab k = Some s \<longrightarrow> str s = Some k) \<and>
     (\<forall>n s. pen n = Some s \<longrightarrow> (\<exists>q. opn n = Some q \<and> str s = Some q)) \<and>
     (\<forall>n q. opn n = Some q \<longrightarrow> q \<in> used) \<and>
     (\<forall>s k. str s = Some k \<longrightarrow> k \<in> used) \<and>
     (\<forall>n m q. opn n = Some q \<longrightarrow> opn m = Some q \<longrightarrow> n = m) \<and>
     (\<forall>n q s. opn n = Some q \<longrightarrow> str s = Some q \<longrightarrow> pen n = Some s) \<and>
     (\<forall>s s' k. str s = Some k \<longrightarrow> str s' = Some k \<longrightarrow> s = s') \<and>
     (\<forall>s k. str s = Some k \<longrightarrow> s \<notin> fin \<longrightarrow> s \<notin> cls \<longrightarrow> tab k = Some s \<or> (\<exists>n. pen n = Some s)) \<and>
     (dis \<longrightarrow> (\<forall>k. tab k = None))"

definition opening_streams :: "tunnel \<Rightarrow> nat \<Rightarrow> stream option" where
  "opening_streams t n = map_option stream_of_opening (tn_opening t n)"

definition tunnel_inv :: "tunnel_sys \<Rightarrow> bool" where
  "tunnel_inv y =
     tinv (table_of (ty_tunnel y)) (opening_streams (ty_tunnel y)) (tn_disposed (ty_tunnel y)) (closes (ty_tunnel y))
       (ty_stream y) (ty_pending y) (ty_ended y) (ty_used y)"

lemma tinvI:
  assumes "\<And>k s. tab k = Some s \<Longrightarrow> str s = Some k"
    and "\<And>n s. pen n = Some s \<Longrightarrow> \<exists>q. opn n = Some q \<and> str s = Some q"
    and "\<And>n q. opn n = Some q \<Longrightarrow> q \<in> used"
    and "\<And>s k. str s = Some k \<Longrightarrow> k \<in> used"
    and "\<And>n m q. opn n = Some q \<Longrightarrow> opn m = Some q \<Longrightarrow> n = m"
    and "\<And>n q s. opn n = Some q \<Longrightarrow> str s = Some q \<Longrightarrow> pen n = Some s"
    and "\<And>s s' k. str s = Some k \<Longrightarrow> str s' = Some k \<Longrightarrow> s = s'"
    and "\<And>s k. str s = Some k \<Longrightarrow> s \<notin> fin \<Longrightarrow> s \<notin> cls \<Longrightarrow> tab k = Some s \<or> (\<exists>n. pen n = Some s)"
    and "\<And>k. dis \<Longrightarrow> tab k = None"
  shows "tinv tab opn dis cls str pen fin used"
  unfolding tinv_def using assms by (intro conjI allI impI)

lemma tinvD:
  assumes "tinv tab opn dis cls str pen fin used"
  shows
    "tab k = Some s \<Longrightarrow> str s = Some k"
    "pen n = Some s \<Longrightarrow> \<exists>q. opn n = Some q \<and> str s = Some q"
    "opn n = Some q \<Longrightarrow> q \<in> used"
    "str s = Some k \<Longrightarrow> k \<in> used"
    "opn n = Some q \<Longrightarrow> opn m = Some q \<Longrightarrow> n = m"
    "opn n = Some q \<Longrightarrow> str s = Some q \<Longrightarrow> pen n = Some s"
    "str s = Some k \<Longrightarrow> str s' = Some k \<Longrightarrow> s = s'"
    "str s = Some k \<Longrightarrow> s \<notin> fin \<Longrightarrow> s \<notin> cls \<Longrightarrow> tab k = Some s \<or> (\<exists>n. pen n = Some s)"
    "dis \<Longrightarrow> tab k = None"
  using assms unfolding tinv_def by blast+

lemma tinv_used:
  assumes inv: "tinv tab opn dis cls str pen fin used"
  shows "tinv tab opn dis cls str pen fin (used \<union> K)"
proof -
  note D = tinvD [OF inv]
  show ?thesis
    apply (rule tinvI)
    subgoal by (rule D(1))
    subgoal by (rule D(2))
    subgoal using D(3) by blast
    subgoal using D(4) by blast
    subgoal by (rule D(5))
    subgoal by (rule D(6))
    subgoal by (rule D(7))
    subgoal by (rule D(8))
    subgoal by (rule D(9))
    done
qed

lemma tinv_open:
  assumes inv: "tinv tab opn dis cls str pen fin used" and op: "opn n = None" and qu: "q \<notin> used"
  shows "tinv tab (opn(n \<mapsto> q)) dis cls str pen fin (insert q used)"
proof -
  note D = tinvD [OF inv]
  show ?thesis
    apply (rule tinvI)
    subgoal by (rule D(1))
    subgoal for m s using D(2) [of m s] op by auto
    subgoal for m p using D(3) [of m p] by (auto split: if_splits)
    subgoal for s k using D(4) [of s k] by simp
    subgoal for m l p using D(5) [of m p l] D(3) [of m p] D(3) [of l p] qu by (auto split: if_splits)
    subgoal for m p s using D(6) [of m p s] D(4) [of s p] qu by (auto split: if_splits)
    subgoal by (rule D(7))
    subgoal by (rule D(8))
    subgoal by (rule D(9))
    done
qed

lemma tinv_close:
  assumes inv: "tinv tab opn dis cls str pen fin used"
  shows "tinv (tab(k := None)) opn dis (cls \<union> set_option (tab k)) str pen fin used"
proof -
  note D = tinvD [OF inv]
  show ?thesis
    apply (rule tinvI)
    subgoal using D(1) by (auto split: if_splits)
    subgoal by (rule D(2))
    subgoal by (rule D(3))
    subgoal by (rule D(4))
    subgoal by (rule D(5))
    subgoal by (rule D(6))
    subgoal by (rule D(7))
    subgoal for s j using D(8) [of s j] by auto
    subgoal using D(9) by simp
    done
qed

lemma tinv_spawn:
  assumes inv: "tinv tab opn dis cls str pen fin used" and op: "opn n = Some q" and pn: "pen n = None" and sn: "str s = None"
  shows "tinv tab opn dis cls (str(s \<mapsto> q)) (pen(n \<mapsto> s)) fin used"
proof -
  note D = tinvD [OF inv]
  show ?thesis
    apply (rule tinvI)
    subgoal using D(1) sn by force
    subgoal for m s1 using D(2) [of m s1] op sn by (auto split: if_splits)
    subgoal by (rule D(3))
    subgoal for s1 k using D(4) [of s1 k] D(3) [OF op] by (auto split: if_splits)
    subgoal by (rule D(5))
    subgoal for m p s1 using D(5) [OF op, of m] D(6) [of m p s1] pn by (auto split: if_splits)
    subgoal for s1 s2 k using D(6) [OF op, of s1] D(6) [OF op, of s2] D(7) [of s1 k s2] pn by (auto split: if_splits)
    subgoal for s1 k using D(8) [of s1 k] pn by (cases "s1 = s") (auto, metis option.discI)
    subgoal by (rule D(9))
    done
qed

lemma tinv_fail:
  assumes inv: "tinv tab opn dis cls str pen fin used" and pn: "pen n = None"
  shows "tinv tab (opn(n := None)) dis cls str pen fin used"
proof -
  note D = tinvD [OF inv]
  show ?thesis
    apply (rule tinvI)
    subgoal by (rule D(1))
    subgoal for m s using D(2) [of m s] pn by auto
    subgoal for m using D(3) [of m] by (auto split: if_splits)
    subgoal by (rule D(4))
    subgoal for m l q using D(5) [of m q l] by (auto split: if_splits)
    subgoal for m q s using D(6) [of m q s] by (auto split: if_splits)
    subgoal by (rule D(7))
    subgoal by (rule D(8))
    subgoal by (rule D(9))
    done
qed

lemma tinv_register:
  assumes inv: "tinv tab opn dis cls str pen fin used" and op: "opn n = Some q" and pn: "pen n = Some s" and nd: "\<not> dis"
  shows "tinv (tab(q \<mapsto> s)) (opn(n := None)) dis cls str (pen(n := None)) fin used"
proof -
  note D = tinvD [OF inv]
  show ?thesis
    apply (rule tinvI)
    subgoal for k s1 using D(1) [of k s1] D(2) [OF pn] op by (auto split: if_splits)
    subgoal for m s1 using D(2) [of m s1] by (auto split: if_splits)
    subgoal for m using D(3) [of m] by (auto split: if_splits)
    subgoal by (rule D(4))
    subgoal for m l q using D(5) [of m q l] by (auto split: if_splits)
    subgoal for m q s1 using D(6) [of m q s1] by (auto split: if_splits)
    subgoal by (rule D(7))
    subgoal for s1 k using D(8) [of s1 k] D(2) [OF pn] D(6) [OF op, of s1] op pn by (cases "k = q") (auto, metis option.inject)
    subgoal using nd by simp
    done
qed

lemma tinv_register_disposed:
  assumes inv: "tinv tab opn dis cls str pen fin used" and op: "opn n = Some q" and pn: "pen n = Some s"
  shows "tinv tab (opn(n := None)) dis (insert s cls) str (pen(n := None)) fin used"
proof -
  note D = tinvD [OF inv]
  show ?thesis
    apply (rule tinvI)
    subgoal by (rule D(1))
    subgoal for m s1 using D(2) [of m s1] by (auto split: if_splits)
    subgoal for m using D(3) [of m] by (auto split: if_splits)
    subgoal by (rule D(4))
    subgoal for m l q using D(5) [of m q l] by (auto split: if_splits)
    subgoal for m q s1 using D(6) [of m q s1] by (auto split: if_splits)
    subgoal by (rule D(7))
    subgoal for s1 k using D(8) [of s1 k] pn by (auto, metis option.inject)
    subgoal by (rule D(9))
    done
qed

lemma tinv_ended:
  assumes inv: "tinv tab opn dis cls str pen fin used" and st: "str s = Some k"
  shows "tinv (tab(k := None)) opn dis cls str pen (insert s fin) used"
proof -
  note D = tinvD [OF inv]
  show ?thesis
    apply (rule tinvI)
    subgoal using D(1) by (auto split: if_splits)
    subgoal by (rule D(2))
    subgoal by (rule D(3))
    subgoal by (rule D(4))
    subgoal by (rule D(5))
    subgoal by (rule D(6))
    subgoal by (rule D(7))
    subgoal for s1 j using D(8) [of s1 j] D(7) [OF st, of s1] by auto
    subgoal using D(9) by simp
    done
qed

lemma tinv_close_all:
  assumes inv: "tinv tab opn dis cls str pen fin used"
  shows "tinv (\<lambda>_. None) opn True (cls \<union> {s. \<exists>k. tab k = Some s}) str pen fin used"
proof -
  note D = tinvD [OF inv]
  show ?thesis
    apply (rule tinvI)
    subgoal by simp
    subgoal by (rule D(2))
    subgoal by (rule D(3))
    subgoal by (rule D(4))
    subgoal by (rule D(5))
    subgoal by (rule D(6))
    subgoal by (rule D(7))
    subgoal for s k using D(8) [of s k] by auto
    subgoal by simp
    done
qed

lemma opening_streams_upd:
  "tn_opening t' = (tn_opening t)(n := x) \<Longrightarrow> opening_streams t' = (opening_streams t)(n := map_option stream_of_opening x)"
  by (auto simp: opening_streams_def fun_eq_iff)

lemma opening_streams_abs: "opening_streams t = (\<lambda>n. map_option stream_of_opening (tn_opening t n))"
  by (simp add: opening_streams_def fun_eq_iff)

lemma opening_streams_cong: "tn_opening t' = tn_opening t \<Longrightarrow> opening_streams t' = opening_streams t"
  by (simp add: opening_streams_def fun_eq_iff)

lemma reach_inv: "tunnel_reach True y \<Longrightarrow> tunnel_inv y"
proof (induction rule: tunnel_reach.induct)
  case start
  show ?case
    by (simp add: tunnel_inv_def tinv_def new_tunnel_def table_of_def opening_streams_def closes_def)
next
  case (frame y n f)
  let ?t = "ty_tunnel y" and ?t' = "tunnel_step (EvFrame n f) (ty_tunnel y)"
  note inv = frame.IH [unfolded tunnel_inv_def]
  from frame_effect [of n f ?t] consider
      (keep) "keeps_tables ?t ?t'" | (opn) k where "frame_stream f = Some k" "opens_stream n k ?t ?t'"
    | (cls) k where "closes_stream k ?t ?t'" by blast
  then show ?case
  proof cases
    case keep
    then have "opening_streams ?t' = opening_streams ?t"
      by (intro opening_streams_cong) (simp add: keeps_tables_def del: tunnel_step.simps)
    with keep tinv_used [OF inv] frame_effect [of n f ?t, THEN conjunct1] show ?thesis
      by (simp add: tunnel_inv_def on_tunnel_def keeps_tables_def del: tunnel_step.simps)
  next
    case (opn k)
    have "opening_streams ?t n = None" using frame.hyps by (simp add: opening_streams_def)
    from tinv_open [OF inv this, of k] opn frame.hyps frame_effect [of n f ?t, THEN conjunct1] show ?thesis
      by (auto simp: tunnel_inv_def on_tunnel_def opens_stream_def opening_streams_upd simp del: tunnel_step.simps)
  next
    case (cls k)
    then have "opening_streams ?t' = opening_streams ?t"
      by (intro opening_streams_cong) (simp add: closes_stream_def del: tunnel_step.simps)
    with tinv_used [OF tinv_close [OF inv, of k]] cls frame_effect [of n f ?t, THEN conjunct1] show ?thesis
      by (simp add: tunnel_inv_def on_tunnel_def closes_stream_def del: tunnel_step.simps)
  qed
next
  case (spawn y n q s)
  note inv = spawn.IH [unfolded tunnel_inv_def]
  have "opening_streams (ty_tunnel y) n = Some (stream_of_opening q)"
    using spawn.hyps by (simp add: opening_streams_def)
  from tinv_spawn [OF inv this spawn.hyps(3,4)] show ?case by (simp add: tunnel_inv_def)
next
  case (spawn_fails y n q e)
  note inv = spawn_fails.IH [unfolded tunnel_inv_def]
  from tinv_fail [OF inv spawn_fails.hyps(3)] open_fails_effect [OF spawn_fails.hyps(2), of e]
  show ?case by (simp add: tunnel_inv_def on_tunnel_def opening_streams_upd)
next
  case (registered y n s)
  note inv = registered.IH [unfolded tunnel_inv_def]
  from tinvD(2) [OF inv registered.hyps(2)] obtain q where q: "tn_opening (ty_tunnel y) n = Some q"
    by (auto simp: opening_streams_def)
  then have oq: "opening_streams (ty_tunnel y) n = Some (stream_of_opening q)" by (simp add: opening_streams_def)
  note eff = open_done_effect [OF q, of s]
  show ?case
  proof (cases "tn_disposed (ty_tunnel y)")
    case True
    with tinv_register_disposed [OF inv oq registered.hyps(2)] eff show ?thesis
      by (simp add: tunnel_inv_def on_tunnel_def opening_streams_upd)
  next
    case False
    with tinv_register [OF inv oq registered.hyps(2)] eff show ?thesis
      by (simp add: tunnel_inv_def on_tunnel_def opening_streams_upd)
  qed
next
  case (reports y s k src d)
  note inv = reports.IH [unfolded tunnel_inv_def]
  from inv reports_effect [where k = k and src = src and d = d and t = "ty_tunnel y"] show ?case
    by (simp add: tunnel_inv_def on_tunnel_def keeps_tables_def opening_streams_abs del: tunnel_step.simps)
next
  case (ended y s k e reason)
  note inv = ended.IH [unfolded tunnel_inv_def]
  from tinv_ended [OF inv ended.hyps(3)] ended_effect [OF ended.hyps(4), where k = k and reason = reason and t = "ty_tunnel y"] show ?case
    by (simp add: tunnel_inv_def on_tunnel_def opening_streams_abs del: tunnel_step.simps)
next
  case (closed y ss ls)
  note inv = closed.IH [unfolded tunnel_inv_def]
  note eff = close_all_effect [OF closed.hyps(2,3)]
  show ?case
  proof (cases "tn_disposed (ty_tunnel y)")
    case True
    with inv eff show ?thesis by (simp add: tunnel_inv_def on_tunnel_def opening_streams_abs)
  next
    case False
    then have "table_of (close_all ss ls (ty_tunnel y)) = (\<lambda>_. None)" using eff by (auto simp: fun_eq_iff)
    with False tinv_close_all [OF inv] eff show ?thesis
      by (simp add: tunnel_inv_def on_tunnel_def opening_streams_abs)
  qed
qed

text \<open>
  C12 (invariant). As long as the control plane never reuses a stream id, no session is lost: each one
  that is still running is either held by the goroutine that started it or registered under its
  stream, where a close frame or the teardown finds it. After the teardown every session is closed
  or over as soon as the opens in flight have finished.
\<close>

theorem no_session_is_lost:
  assumes "tunnel_reach True y" and "alive y s"
  shows "(\<exists>n. ty_pending y n = Some s) \<or>
    (\<not> tn_disposed (ty_tunnel y) \<and> (\<exists>k. ty_stream y s = Some k \<and> table_of (ty_tunnel y) k = Some s))"
proof -
  note inv = reach_inv [OF assms(1), unfolded tunnel_inv_def]
  from assms(2) obtain k where "ty_stream y s = Some k" "s \<notin> ty_ended y" "s \<notin> closes (ty_tunnel y)"
    by (auto simp: alive_def closes_def)
  with tinvD(8) [OF inv this] tinvD(9) [OF inv, of k] show ?thesis by auto
qed

section \<open>What goes wrong when an id is opened twice\<close>

definition open_frame :: "string \<Rightarrow> frame" where
  "open_frame sid = FShellOpen (Some
     \<lparr>so_stream_id = sid, so_shell = [], so_user = [], so_deployment_id = [], so_container_id = [], so_cols = 0, so_rows = 0\<rparr>)"

definition host_opening :: "string \<Rightarrow> pending_open" where
  "host_opening sid =
     \<lparr>op_stream = sid, op_logs = False, op_starter = StartHostShell,
      op_config = \<lparr>cfg_shell = [], cfg_user = [], cfg_deployment = [], cfg_container = [], cfg_cols = 0, cfg_rows = 0\<rparr>\<rparr>"

lemma open_frame_stream [simp]: "frame_stream (open_frame sid) = Some (sid, False)"
  by (simp add: open_frame_def)

lemma open_frame_step:
  "sid \<noteq> [] \<Longrightarrow> \<not> tn_disposed t \<Longrightarrow> tn_shells t sid = None \<Longrightarrow>
   tunnel_step (EvFrame n (open_frame sid)) t = t\<lparr>tn_opening := (tn_opening t)(n \<mapsto> host_opening sid)\<rparr>"
  by (simp add: open_frame_def tunnel_handle_def shell_open_def starter_of_def shell_config_of_def uint16safe_def
      host_opening_def Let_def)

lemma host_opening_stream [simp]: "stream_of_opening (host_opening sid) = (sid, False)"
  "op_stream (host_opening sid) = sid" "op_logs (host_opening sid) = False"
  by (simp_all add: host_opening_def stream_of_opening_def)

text \<open>
  (error). The lookup and the registration of an open are separate: two opens of one stream that
  overlap both start a session, the second registration overwrites the first, and the first session
  stays running after the tunnel is torn down, with nobody left who could close it.
\<close>

theorem overlapping_opens_leak_a_session:
  fixes sid :: string
  assumes "sid \<noteq> []"
  shows "\<exists>y. tunnel_reach False y \<and> tn_disposed (ty_tunnel y) \<and> ty_pending y = Map.empty \<and> alive y 0"
proof -
  let ?t0 = "new_tunnel\<lparr>tn_opening := [0 \<mapsto> host_opening sid]\<rparr>"
  let ?t1 = "new_tunnel\<lparr>tn_opening := [0 \<mapsto> host_opening sid, 1 \<mapsto> host_opening sid]\<rparr>"
  let ?k = "(sid, False)"
  let ?y = "\<lambda>t str pen. \<lparr>ty_tunnel = t, ty_stream = str, ty_pending = pen, ty_ended = {}, ty_used = {?k}\<rparr>"
  have 1: "tunnel_reach False (?y ?t0 Map.empty Map.empty)"
    using tunnel_reach.frame [OF tunnel_reach.start [of False], of 0 "open_frame sid"] assms
    by (simp add: on_tunnel_def open_frame_step new_tunnel_def del: tunnel_step.simps)
  have 2: "tunnel_reach False (?y ?t1 Map.empty Map.empty)"
    using tunnel_reach.frame [OF 1, of 1 "open_frame sid"] assms
    by (simp add: on_tunnel_def open_frame_step new_tunnel_def del: tunnel_step.simps)
  have 3: "tunnel_reach False (?y ?t1 [0 \<mapsto> ?k] [0 \<mapsto> 0])"
    using tunnel_reach.spawn [OF 2, of 0 "host_opening sid" 0] by simp
  have 4: "tunnel_reach False (?y ?t1 [0 \<mapsto> ?k, 1 \<mapsto> ?k] [0 \<mapsto> 0, 1 \<mapsto> 1])"
    using tunnel_reach.spawn [OF 3, of 1 "host_opening sid" 1] by simp
  let ?t2 = "new_tunnel\<lparr>tn_opening := [1 \<mapsto> host_opening sid], tn_shells := [sid \<mapsto> 0]\<rparr>"
  have 5: "tunnel_reach False (?y ?t2 [0 \<mapsto> ?k, 1 \<mapsto> ?k] [1 \<mapsto> 1])"
    using tunnel_reach.registered [OF 4, of 0 0]
    by (simp add: on_tunnel_def open_done_def shell_started_def new_tunnel_def Let_def fun_upd_twist)
  have 6: "tunnel_reach False (?y (new_tunnel\<lparr>tn_shells := [sid \<mapsto> 1]\<rparr>) [0 \<mapsto> ?k, 1 \<mapsto> ?k] Map.empty)"
    using tunnel_reach.registered [OF 5, of 1 1]
    by (simp add: on_tunnel_def open_done_def shell_started_def new_tunnel_def Let_def)
  have 7: "tunnel_reach False (?y (new_tunnel\<lparr>tn_disposed := True, tn_calls := [CallClose 1]\<rparr>) [0 \<mapsto> ?k, 1 \<mapsto> ?k] Map.empty)"
    using tunnel_reach.closed [OF 6, of "[1]" "[]"]
    by (simp add: on_tunnel_def close_all_def new_tunnel_def)
  then show ?thesis
    by (intro exI conjI, assumption) (simp_all add: alive_def)
qed

theorem overlapping_opens_leak_a_session_witness:
  "\<exists>y. tunnel_reach False y \<and> tn_disposed (ty_tunnel y) \<and> ty_pending y = Map.empty \<and> alive y 0"
  by (rule overlapping_opens_leak_a_session [of "''s1''"]) simp

theorem no_session_is_lost_witness:
  "\<exists>y. tunnel_reach True y \<and> alive y 7 \<and> (\<exists>n. ty_pending y n = Some 7)"
proof -
  let ?y = "\<lambda>str pen. \<lparr>ty_tunnel = new_tunnel\<lparr>tn_opening := [0 \<mapsto> host_opening ''s'']\<rparr>, ty_stream = str, ty_pending = pen,
     ty_ended = {}, ty_used = {(''s'', False)}\<rparr>"
  have 1: "tunnel_reach True (?y Map.empty Map.empty)"
    using tunnel_reach.frame [OF tunnel_reach.start [of True], of 0 "open_frame ''s''"]
    by (simp add: on_tunnel_def open_frame_step new_tunnel_def del: tunnel_step.simps)
  have 2: "tunnel_reach True (?y [7 \<mapsto> (''s'', False)] [0 \<mapsto> 7])"
    using tunnel_reach.spawn [OF 1, of 0 "host_opening ''s''" 7] by simp
  moreover have a: "alive (?y [7 \<mapsto> (''s'', False)] [0 \<mapsto> 7]) 7"
    by (simp add: alive_def new_tunnel_def)
  ultimately show ?thesis
    using no_session_is_lost [OF 2 a] by (intro exI [of _ "?y [7 \<mapsto> (''s'', False)] [0 \<mapsto> 7]"]) (auto simp: table_of_def new_tunnel_def)
qed

section \<open>The frames of a stream\<close>

text \<open>The session tables are keyed tables.\<close>

definition put_shell :: "string \<Rightarrow> nat \<Rightarrow> tunnel \<Rightarrow> tunnel" where
  "put_shell sid s t = t\<lparr>tn_shells := (tn_shells t)(sid \<mapsto> s)\<rparr>"

interpretation shells: keyed_table put_shell drop_shell tn_shells
  by unfold_locales (auto simp: put_shell_def drop_shell_def)

lemma uint16safe_cases: "if 0 < n \<and> n \<le> 0xffff then uint (uint16safe n) = n else uint16safe n = 0"
  by (auto simp: uint16safe_def uint_word_of_int_eq take_bit_int_eq_self)

text \<open>
  (functional). Which backend an open reaches: a frame that names no deployment and no container
  starts a shell on the host itself, in the namespaces of process 1; one that names either never
  does. The terminal size is passed on when it fits 16 bits and ignored otherwise.
\<close>

theorem open_reaches_host_iff_untargeted:
  assumes "so_stream_id b \<noteq> []" and "\<not> tn_disposed t" and "tn_shells t (so_stream_id b) = None"
  shows "\<exists>q. tn_opening (snd (tunnel_handle n (FShellOpen (Some b)) t)) n = Some q \<and>
    (op_starter q = StartHostShell \<longleftrightarrow> so_deployment_id b = [] \<and> so_container_id b = []) \<and>
    (op_starter q \<noteq> StartHostShell \<longrightarrow> op_starter q = StartShell) \<and>
    cfg_deployment (op_config q) = so_deployment_id b \<and> cfg_container (op_config q) = so_container_id b \<and>
    (if 0 < so_cols b \<and> so_cols b \<le> 0xffff then uint (cfg_cols (op_config q)) = so_cols b
     else cfg_cols (op_config q) = 0)"
  using assms uint16safe_cases [of "so_cols b"]
  by (simp add: tunnel_handle_def shell_open_def starter_of_def shell_config_of_def Let_def)

theorem open_reaches_host_iff_untargeted_witness:
  "\<exists>q. tn_opening (snd (tunnel_handle 0 (FShellOpen (Some
     \<lparr>so_stream_id = ''s'', so_shell = [], so_user = [], so_deployment_id = ''d'', so_container_id = [], so_cols = 80, so_rows = 24\<rparr>))
     new_tunnel)) 0 = Some q \<and> op_starter q = StartShell"
  using open_reaches_host_iff_untargeted [of
     "\<lparr>so_stream_id = ''s'', so_shell = [], so_user = [], so_deployment_id = ''d'', so_container_id = [], so_cols = 80, so_rows = 24\<rparr>"
     new_tunnel 0]
  by (auto simp: new_tunnel_def)

end
