(* ===== verification/Channel.thy ===== *)
theory Channel imports Dispatcher Dedup Tunnel begin

text \<open>
  The control channel (internal/control/channel.go) and the registration that precedes it
  (bootstrap.go). Connections are numbered; each has a wire, the frames delivered on it in order, and
  a tunnel. A handler keeps the connection its frame arrived on, while the tunnel it consults is the
  one of the connection that is current when it runs.
\<close>

section \<open>Registration\<close>

record runtime_facts =
  rf_kind :: string
  rf_instance_id :: string
  rf_region :: string
  rf_availability_zone :: string

record build_register_input =
  br_node_name :: string
  br_pool_id :: string
  br_allocatable :: "string \<rightharpoonup> string"
  br_advertise_url :: string
  br_runtime :: runtime_facts
  br_bootstrap_token :: string

definition build_register_request :: "build_register_input \<Rightarrow> register_request" where
  "build_register_request i =
     \<lparr>rr_node_name = br_node_name i, rr_pool_id = br_pool_id i, rr_advertise_url = br_advertise_url i,
      rr_allocatable = br_allocatable i, rr_runtime_env = rf_kind (br_runtime i),
      rr_instance_id = rf_instance_id (br_runtime i), rr_region = rf_region (br_runtime i),
      rr_availability_zone = rf_availability_zone (br_runtime i), rr_bootstrap_token = br_bootstrap_token i\<rparr>"

text \<open>What the POST needs: the encoder, the request constructor, the client and the decoder.\<close>

record 'w register_env =
  ge_marshal :: "register_request \<Rightarrow> go_error + string"
  ge_new_request :: "string \<Rightarrow> go_error option"
  ge_post :: "string \<Rightarrow> (string \<times> string) list \<Rightarrow> string \<Rightarrow> 'w \<Rightarrow> (go_error + int \<times> string) \<times> 'w"
  ge_decode :: "string \<Rightarrow> go_error + register_response"

definition register_worker ::
  "'w register_env \<Rightarrow> string \<Rightarrow> string \<Rightarrow> register_request \<Rightarrow> 'w \<Rightarrow> (go_error + register_response) \<times> 'w" where
  "register_worker env controlPlaneURL bootstrapToken req w =
     (let url = controlPlaneURL @ ''/v1/workers/register'' in
      case ge_marshal env req of
        Inl e \<Rightarrow> (Inl e, w)
      | Inr body \<Rightarrow>
          (case ge_new_request env url of
             Some e \<Rightarrow> (Inl e, w)
           | None \<Rightarrow>
               (case ge_post env url [(''Content-Type'', ''application/json''),
                       (''Authorization'', ''Bearer '' @ bootstrapToken)] body w of
                  (Inl e, w) \<Rightarrow> (Inl (wrap_err ''register dial'' e), w)
                | (Inr (status, respBody), w) \<Rightarrow>
                    if status \<noteq> 200
                    then (Inl (Errorf ''register failed: status=%d body=%s'' [FInt status, FStr respBody]), w)
                    else (case ge_decode env respBody of
                            Inl e \<Rightarrow> (Inl (wrap_err ''register decode'' e), w)
                          | Inr out \<Rightarrow> (Inr out, w)))))"

section \<open>Reconnecting\<close>

text \<open>Nanoseconds; the jitter is the random number in [0, 1), read exactly.\<close>

definition second :: int where
  "second = 1000000000"

definition backoff_base :: "int \<Rightarrow> int" where
  "backoff_base attempt =
     (let a = (if attempt < 1 then 1 else attempt);
          base = second * 2 ^ nat (min (a - 1) 5)
      in if base > 30 * second then 30 * second else base)"

definition backoff_for :: "int \<Rightarrow> rat \<Rightarrow> int" where
  "backoff_for attempt jitter = \<lfloor>of_int (backoff_base attempt) * (4 / 5 + 2 / 5 * jitter)\<rfloor>"

text \<open>
  The waits of \<open>Run\<close>: one per connection that ended, whatever it did before it ended (the flag tells
  whether it had been established).
\<close>

fun run_waits :: "int \<Rightarrow> (bool \<times> rat) list \<Rightarrow> int list" where
  "run_waits attempt [] = []"
| "run_waits attempt ((established, jitter) # conns) =
     (let attempt = attempt + 1 in backoff_for attempt jitter # run_waits attempt conns)"

definition dedup_ttl :: "int \<Rightarrow> int" where
  "dedup_ttl configured = (if configured = 0 then 300 * second else configured)"

definition heartbeat_interval :: "int \<Rightarrow> int" where
  "heartbeat_interval configured = (if configured = 0 then 5 * second else configured)"

section \<open>Connections\<close>

record 'w channel =
  ch_dedup :: dedup
  ch_disp :: dispatcher
  ch_world :: 'w
  ch_current :: "nat option"
  ch_live :: "nat set"
  ch_wire :: "nat \<Rightarrow> out_body list"
  ch_tunnels :: "nat \<Rightarrow> tunnel"

text \<open>A write on a connection that is gone fails and leaves no trace.\<close>

definition write_frame :: "nat \<Rightarrow> out_body \<Rightarrow> 'w channel \<Rightarrow> bool \<times> 'w channel" where
  "write_frame c b ch =
     (if c \<in> ch_live ch then (True, ch\<lparr>ch_wire := (ch_wire ch)(c := ch_wire ch c @ [b])\<rparr>) else (False, ch))"

definition hello_of :: "runtime_facts \<Rightarrow> hello_body" where
  "hello_of f =
     \<lparr>hb_server_time = None, hb_channel_id = [], hb_runtime_env = rf_kind f, hb_instance_id = rf_instance_id f,
      hb_region = rf_region f, hb_availability_zone = rf_availability_zone f\<rparr>"

definition connect :: "runtime_facts \<Rightarrow> nat \<Rightarrow> 'w channel \<Rightarrow> 'w channel" where
  "connect facts c ch =
     (let ch = ch\<lparr>ch_current := Some c, ch_live := insert c (ch_live ch),
                  ch_wire := (ch_wire ch)(c := []), ch_tunnels := (ch_tunnels ch)(c := new_tunnel)\<rparr>
      in snd (write_frame c (BHello (hello_of facts)) ch))"

text \<open>The connection drops; its state is cleared only when it is still the current one.\<close>

definition drop_connection :: "nat \<Rightarrow> nat list \<Rightarrow> nat list \<Rightarrow> 'w channel \<Rightarrow> 'w channel" where
  "drop_connection c shells logs ch =
     ch\<lparr>ch_current := (if ch_current ch = Some c then None else ch_current ch),
        ch_live := ch_live ch - {c},
        ch_tunnels := (ch_tunnels ch)(c := close_all shells logs (ch_tunnels ch c))\<rparr>"

definition send_heartbeat ::
  "((string \<rightharpoonup> string) \<times> metrics_sample option) option \<Rightarrow> string list \<Rightarrow> nat \<Rightarrow> 'w channel \<Rightarrow> bool \<times> 'w channel" where
  "send_heartbeat telemetry models c ch =
     write_frame c (BHeartbeat (heartbeat_snapshot telemetry models (ch_disp ch))) ch"

section \<open>Commands\<close>

datatype inbound =
    InTunnel frame
  | InLoad "load_model_body option"
  | InUnload "unload_model_body option"
  | InOther message_type

definition ok_result :: "string \<Rightarrow> string \<Rightarrow> command_result_body" where
  "ok_result eid endpoint = \<lparr>cr_in_reply_to = eid, cr_status = ''ok'', cr_detail = [], cr_endpoint_url = endpoint\<rparr>"

definition failed_result :: "string \<Rightarrow> string \<Rightarrow> command_result_body" where
  "failed_result eid detail = \<lparr>cr_in_reply_to = eid, cr_status = ''failed'', cr_detail = detail, cr_endpoint_url = []\<rparr>"

definition reply_with :: "nat \<Rightarrow> command_result_body \<Rightarrow> 'w channel \<Rightarrow> 'w channel" where
  "reply_with c r ch = snd (write_frame c (BCommandResult r) ch)"

text \<open>A load is total: \<open>dispatch_load\<close> has a result for every command.\<close>

definition load_command ::
  "'w rt_env \<Rightarrow> environment \<Rightarrow> dispatcher_config \<Rightarrow> string \<Rightarrow> load_model_body \<Rightarrow> dispatcher \<times> 'w
   \<Rightarrow> command_result_body \<times> dispatcher \<times> 'w" where
  "load_command env getenv cfg eid body dw =
     (case the (dispatch_load env getenv cfg body (fst dw) (snd dw)) of
        (Inl e, d, w) \<Rightarrow> (failed_result eid (err_text e), d, w)
      | (Inr endpoint, d, w) \<Rightarrow> (ok_result eid endpoint, d, w))"

definition unload_command ::
  "'w rt_env \<Rightarrow> string \<Rightarrow> unload_model_body \<Rightarrow> dispatcher \<times> 'w \<Rightarrow> command_result_body \<times> dispatcher \<times> 'w" where
  "unload_command env eid body dw =
     (case dispatch_unload env body (fst dw) (snd dw) of
        (Some e, d, w) \<Rightarrow> (failed_result eid (err_text e), d, w)
      | (None, d, w) \<Rightarrow> (ok_result eid [], d, w))"

definition run_command ::
  "int \<Rightarrow> string \<Rightarrow> (dispatcher \<times> 'w \<Rightarrow> command_result_body \<times> dispatcher \<times> 'w) \<Rightarrow> nat \<Rightarrow> 'w channel \<Rightarrow> 'w channel" where
  "run_command now eid fn c ch =
     (let ((r, hit), dd, d, w) = dedup_run now eid fn (ch_dedup ch, (ch_disp ch, ch_world ch))
      in reply_with c r (ch\<lparr>ch_dedup := dd, ch_disp := d, ch_world := w\<rparr>))"

text \<open>
  One inbound envelope with id \<open>eid\<close>, read from connection \<open>c\<close> and handled at time \<open>now\<close> in
  goroutine \<open>n\<close>, when nothing else runs meanwhile.
\<close>

definition channel_handle ::
  "'w rt_env \<Rightarrow> environment \<Rightarrow> dispatcher_config \<Rightarrow> int \<Rightarrow> nat \<Rightarrow> nat \<Rightarrow> string \<Rightarrow> inbound \<Rightarrow> 'w channel \<Rightarrow> 'w channel" where
  "channel_handle env getenv cfg now n c eid msg ch =
     (case msg of
        InTunnel f \<Rightarrow>
          (case ch_current ch of
             None \<Rightarrow> ch
           | Some cur \<Rightarrow> ch\<lparr>ch_tunnels := (ch_tunnels ch)(cur := snd (tunnel_handle n f (ch_tunnels ch cur)))\<rparr>)
      | InLoad None \<Rightarrow> reply_with c (failed_result eid ''bad LoadModel body'') ch
      | InLoad (Some body) \<Rightarrow> run_command now eid (load_command env getenv cfg eid body) c ch
      | InUnload None \<Rightarrow> reply_with c (failed_result eid ''bad UnloadModel body'') ch
      | InUnload (Some body) \<Rightarrow> run_command now eid (unload_command env eid body) c ch
      | InOther _ \<Rightarrow> ch)"

lemma register_success_iff:
  "register_worker env url tok req w = (Inr out, w') \<longleftrightarrow>
     (\<exists>body respBody. ge_marshal env req = Inr body \<and> ge_new_request env (url @ ''/v1/workers/register'') = None \<and>
        ge_post env (url @ ''/v1/workers/register'')
          [(''Content-Type'', ''application/json''), (''Authorization'', ''Bearer '' @ tok)] body w = (Inr (200, respBody), w') \<and>
        ge_decode env respBody = Inr out)"
  by (auto simp: register_worker_def Let_def split: sum.splits option.splits prod.splits if_splits)

section \<open>Reconnect delays\<close>

lemma backoff_base_cases:
  "backoff_base a = second * (if a \<le> 1 then 1 else if a = 2 then 2 else if a = 3 then 4 else if a = 4 then 8
     else if a = 5 then 16 else 30)"
proof -
  consider "a \<le> 1" | "a = 2" | "a = 3" | "a = 4" | "a = 5" | "6 \<le> a" by linarith
  then show ?thesis by cases (auto simp: backoff_base_def second_def min_def)
qed

lemma backoff_for_bounds:
  assumes "0 \<le> j" "j < 1"
  shows "4 * backoff_base a \<le> 5 * backoff_for a j \<and> 5 * backoff_for a j \<le> 6 * backoff_base a"
proof -
  obtain m where m: "backoff_base a = 5 * m" "0 \<le> m"
    using backoff_base_cases [of a] by (intro that [of "backoff_base a div 5"]) (auto simp: second_def)
  have lo: "of_int (4 * m) \<le> (of_int (5 * m) * (4 / 5 + 2 / 5 * j) :: rat)"
    using m(2) assms(1) by (simp add: algebra_simps)
  have hi: "(of_int (5 * m) * (4 / 5 + 2 / 5 * j) :: rat) \<le> of_int (6 * m)"
    using m(2) assms(2) mult_left_le [of j "of_int m"] by (simp add: algebra_simps)
  have "4 * m \<le> backoff_for a j" unfolding backoff_for_def m(1) le_floor_iff using lo by simp
  moreover have "backoff_for a j \<le> 6 * m"
    unfolding backoff_for_def m(1) using hi by (simp add: floor_le_iff)
  ultimately show ?thesis using m(1) by simp
qed

lemma length_run_waits [simp]: "length (run_waits a conns) = length conns"
  by (induction a conns rule: run_waits.induct) (auto simp: Let_def)

lemma run_waits_nth:
  "i < length conns \<Longrightarrow> run_waits a conns ! i = backoff_for (a + 1 + int i) (snd (conns ! i))"
proof (induction conns arbitrary: a i)
  case (Cons c conns)
  then show ?case by (cases c; cases i) (auto simp: Let_def algebra_simps)
qed simp

text \<open>
  (bounds). The wait before reconnecting doubles from one second and stays within 20 percent of
  its base, which is capped at 30 seconds. It depends on the number of connections since the worker
  started and on nothing else: from the sixth on every wait is between 24 and 36 seconds, although
  each of those connections may have been established and have lived for days.
\<close>

theorem reconnect_delays:
  assumes "i < length conns" and "0 \<le> snd (conns ! i)" and "snd (conns ! i) < 1"
  shows "4 * backoff_base (1 + int i) \<le> 5 * (run_waits 0 conns ! i) \<and>
    5 * (run_waits 0 conns ! i) \<le> 6 * backoff_base (1 + int i) \<and>
    (i < 5 \<longrightarrow> backoff_base (1 + int i) = second * 2 ^ i) \<and>
    (5 \<le> i \<longrightarrow> 24 * second \<le> run_waits 0 conns ! i \<and> run_waits 0 conns ! i \<le> 36 * second)"
proof -
  have w: "run_waits 0 conns ! i = backoff_for (1 + int i) (snd (conns ! i))"
    using run_waits_nth [OF assms(1), of 0] by simp
  have "backoff_base (1 + int i) = 30 * second" if "5 \<le> i"
    using that by (simp add: backoff_base_cases)
  moreover have "backoff_base (1 + int i) = second * 2 ^ i" if "i < 5"
  proof -
    from that have "i \<in> {0, 1, 2, 3, 4}" by auto
    then show ?thesis by (auto simp: backoff_base_cases)
  qed
  ultimately show ?thesis using w backoff_for_bounds [OF assms(2,3), of "1 + int i"] by auto
qed

theorem reconnect_delays_witness:
  "24 * second \<le> run_waits 0 (replicate 7 (True, 1 / 2)) ! 6"
  using reconnect_delays [of 6 "replicate 7 (True, 1 / 2)"] by simp

section \<open>A command is executed once\<close>

definition command_fn ::
  "'w rt_env \<Rightarrow> environment \<Rightarrow> dispatcher_config \<Rightarrow> string \<Rightarrow> inbound
   \<Rightarrow> (dispatcher \<times> 'w \<Rightarrow> command_result_body \<times> dispatcher \<times> 'w) option" where
  "command_fn env getenv cfg eid msg =
     (case msg of
        InLoad (Some body) \<Rightarrow> Some (load_command env getenv cfg eid body)
      | InUnload (Some body) \<Rightarrow> Some (unload_command env eid body)
      | _ \<Rightarrow> None)"

lemma handle_command:
  "command_fn env getenv cfg eid msg = Some fn \<Longrightarrow>
   channel_handle env getenv cfg now n c eid msg ch = run_command now eid fn c ch"
  by (auto simp: command_fn_def channel_handle_def split: inbound.splits option.splits)

lemma reply_frame [frame_simps]:
  "ch_dedup (reply_with c r ch) = ch_dedup ch" "ch_disp (reply_with c r ch) = ch_disp ch"
  "ch_world (reply_with c r ch) = ch_world ch"
  by (simp_all add: reply_with_def write_frame_def)

lemma connection_frame [frame_simps]:
  "ch_dedup (drop_connection c ss ls ch) = ch_dedup ch" "ch_disp (drop_connection c ss ls ch) = ch_disp ch"
  "ch_world (drop_connection c ss ls ch) = ch_world ch"
  "ch_dedup (connect f c ch) = ch_dedup ch" "ch_disp (connect f c ch) = ch_disp ch"
  "ch_world (connect f c ch) = ch_world ch"
  by (simp_all add: drop_connection_def connect_def write_frame_def Let_def)

lemma connect_wire: "ch_wire (connect f c ch) c = [BHello (hello_of f)]" "c \<in> ch_live (connect f c ch)"
  by (simp_all add: connect_def write_frame_def Let_def)

lemma dedup_run_stores:
  assumes "eid \<noteq> []" "0 \<le> dd_ttl d" "dedup_find now eid d = None" "t < now + dd_ttl d"
  shows "\<exists>r s'. fn s = (r, s') \<and> dedup_run now eid fn (d, s) = ((r, False), dedup_store now eid r d, s') \<and>
    dedup_find t eid (dedup_store now eid r d) = Some r"
  using assms by (cases "fn s") (simp add: dedup_run_def dedup_find_def store_same)


definition sample_channel :: "'w \<Rightarrow> 'w channel" where
  "sample_channel w =
     \<lparr>ch_dedup = new_dedup 300, ch_disp = \<lparr>ds_rt = new_runtime, ds_registry = None, ds_allocator = None, ds_metrics = None\<rparr>,
      ch_world = w, ch_current = Some 0, ch_live = {0}, ch_wire = (\<lambda>_. []), ch_tunnels = (\<lambda>_. new_tunnel)\<rparr>"


end
