(* ===== verification/Telemetry.thy ===== *)
theory Telemetry imports Go_Lib Complex_Main begin

text \<open>
  Host telemetry (internal/telemetry): the parsers of the files under /proc and of the output of
  nvidia-smi. Counters are 64-bit words and wrap; percentages and rates are exact rationals where the
  code computes with float64. The text of a file, or the error of reading it, is an argument.
\<close>

type_synonym file_text = "go_error + string"

definition text_split :: "string \<Rightarrow> string list" where
  "text_split s = split_on (CHR 0x0A) s"

text \<open>The error of \<open>ParseUint\<close>.\<close>

definition uint_error :: "string \<Rightarrow> go_error" where
  "uint_error s =
     Errorf ''strconv.ParseUint: parsing %q: %s''
       [FStr s, FStr (if s \<noteq> [] \<and> list_all is_digit s then ''value out of range'' else ''invalid syntax'')]"

section \<open>Memory\<close>

record mem_info =
  mi_total :: "64 word"
  mi_used :: "64 word"

definition kb :: "64 word" where "kb = 1024"

definition max_kb :: "64 word" where "max_kb = (- 1) div kb"

text \<open>A value in kB, in bytes; saturates.\<close>

definition parse_kb :: "string \<Rightarrow> go_error + 64 word" where
  "parse_kb s =
     (case str_fields s of
        [] \<Rightarrow> Inl (Errorf ''missing value: %q'' [FStr s])
      | f # _ \<Rightarrow>
          (case parse_uint64 f of
             None \<Rightarrow> Inl (uint_error f)
           | Some n \<Rightarrow> Inr (if n > max_kb then - 1 else n * kb)))"

text \<open>The three values seen so far.\<close>

record mem_seen =
  ms_total :: "64 word option"
  ms_avail :: "64 word option"
  ms_free :: "64 word option"

definition mem_field :: "string \<Rightarrow> go_error + 64 word \<Rightarrow> (64 word \<Rightarrow> mem_seen) \<Rightarrow> go_error + mem_seen" where
  "mem_field name r set_it =
     (case r of Inl e \<Rightarrow> Inl (Errorf (name @ '': %v'') [FErr e]) | Inr n \<Rightarrow> Inr (set_it n))"

fun scan_mem :: "string list \<Rightarrow> mem_seen \<Rightarrow> go_error + mem_seen" where
  "scan_mem [] m = Inr m"
| "scan_mem (line # ls) m =
     (case cut_at (CHR '':'') line of
        None \<Rightarrow> scan_mem ls m
      | Some (key, val) \<Rightarrow>
          (let k = trim_space key;
               r = (if k = ''MemTotal'' then mem_field k (parse_kb val) (\<lambda>n. m\<lparr>ms_total := Some n\<rparr>)
                    else if k = ''MemAvailable'' then mem_field k (parse_kb val) (\<lambda>n. m\<lparr>ms_avail := Some n\<rparr>)
                    else if k = ''MemFree'' then mem_field k (parse_kb val) (\<lambda>n. m\<lparr>ms_free := Some n\<rparr>)
                    else Inr m)
           in case r of Inl e \<Rightarrow> Inl e | Inr m \<Rightarrow> scan_mem ls m))"

definition parse_mem_info :: "string \<Rightarrow> go_error + 64 word \<times> 64 word" where
  "parse_mem_info s =
     (case scan_mem (text_split s) \<lparr>ms_total = None, ms_avail = None, ms_free = None\<rparr> of
        Inl e \<Rightarrow> Inl e
      | Inr m \<Rightarrow>
          (case ms_total m of
             None \<Rightarrow> Inl (Errorf ''MemTotal missing in /proc/meminfo'' [])
           | Some t \<Rightarrow>
               Inr (t, case ms_avail m of Some a \<Rightarrow> a | None \<Rightarrow> (case ms_free m of Some f \<Rightarrow> f | None \<Rightarrow> 0))))"

definition read_memory :: "file_text \<Rightarrow> go_error + mem_info" where
  "read_memory f =
     (case f of
        Inl e \<Rightarrow> Inl e
      | Inr s \<Rightarrow>
          (case parse_mem_info s of
             Inl e \<Rightarrow> Inl e
           | Inr (tot, avail) \<Rightarrow>
               (let avail = (if avail > tot then tot else avail)
                in Inr \<lparr>mi_total = tot, mi_used = tot - avail\<rparr>)))"

section \<open>CPU\<close>

record cpu_info =
  cpu_cores :: nat
  cpu_used_percent :: rat

fun sum_fields :: "string list \<Rightarrow> 64 word \<Rightarrow> go_error + 64 word" where
  "sum_fields [] acc = Inr acc"
| "sum_fields (f # fs) acc =
     (case parse_uint64 f of
        None \<Rightarrow> Inl (Errorf ''malformed cpu line value %q: %v'' [FStr f, FErr (uint_error f)])
      | Some n \<Rightarrow> sum_fields fs (acc + n))"

definition parse_cpu_line :: "string \<Rightarrow> go_error + 64 word \<times> 64 word" where
  "parse_cpu_line line =
     (let fields = str_fields line in
      if length fields < 5 then Inl (Errorf ''malformed cpu line: %q'' [FStr line])
      else case sum_fields (tl fields) 0 of
             Inl e \<Rightarrow> Inl e
           | Inr tot \<Rightarrow>
               (case parse_uint64 (fields ! 4) of
                  None \<Rightarrow> Inl (Errorf ''malformed idle: %v'' [FErr (uint_error (fields ! 4))])
                | Some idle \<Rightarrow> Inr (tot, idle)))"

definition is_cpu_line :: "string \<Rightarrow> bool" where
  "is_cpu_line line = (has_prefix line ''cpu '' \<or> line = ''cpu'')"

definition parse_proc_stat :: "string \<Rightarrow> go_error + 64 word \<times> 64 word" where
  "parse_proc_stat s =
     (case find is_cpu_line (text_split s) of
        None \<Rightarrow> Inl (Errorf ''no aggregate 'cpu ' line found in /proc/stat'' [])
      | Some line \<Rightarrow> parse_cpu_line line)"

definition is_core_line :: "string \<Rightarrow> bool" where
  "is_core_line line = (\<not> length line < 4 \<and> has_prefix line ''cpu'' \<and> is_digit (line ! 3))"

definition count_core_lines :: "string \<Rightarrow> nat" where
  "count_core_lines s = length (filter is_core_line (text_split s))"

text \<open>The differences are 64-bit subtractions.\<close>

definition cpu_delta :: "64 word \<Rightarrow> 64 word \<Rightarrow> 64 word \<Rightarrow> 64 word \<Rightarrow> rat" where
  "cpu_delta t1 i1 t2 i2 =
     (if t2 \<le> t1 then 0
      else let dTotal = t2 - t1;
               i2 = (if i2 < i1 then i1 else i2);
               dIdle = i2 - i1;
               busy = (of_nat (unat (dTotal - dIdle)) / of_nat (unat dTotal) :: rat);
               busy = (if busy < 0 then 0 else busy);
               busy = (if busy > 1 then 1 else busy)
           in busy * 100)"

definition read_cpu :: "file_text \<Rightarrow> file_text \<Rightarrow> go_error + cpu_info" where
  "read_cpu f g =
     (case f of Inl e \<Rightarrow> Inl e | Inr a \<Rightarrow>
      (case parse_proc_stat a of Inl e \<Rightarrow> Inl e | Inr (t1, i1) \<Rightarrow>
      (case g of Inl e \<Rightarrow> Inl e | Inr b \<Rightarrow>
      (case parse_proc_stat b of Inl e \<Rightarrow> Inl e | Inr (t2, i2) \<Rightarrow>
         Inr \<lparr>cpu_cores = count_core_lines a, cpu_used_percent = cpu_delta t1 i1 t2 i2\<rparr>))))"

section \<open>Network and disks\<close>

type_synonym counters = "64 word \<times> 64 word"

definition add_counters :: "counters \<Rightarrow> counters \<Rightarrow> counters" where
  "add_counters a b = (fst a + fst b, snd a + snd b)"

text \<open>The contribution of a line; \<open>None\<close> when it is skipped.\<close>

definition net_line :: "string \<Rightarrow> counters option" where
  "net_line line =
     (case cut_at (CHR '':'') line of
        None \<Rightarrow> None
      | Some (name, rest) \<Rightarrow>
          (let name = trim_space name; fields = str_fields rest in
           if name = [] \<or> name = ''lo'' then None
           else if length fields < 9 then None
           else case (parse_uint64 (fields ! 0), parse_uint64 (fields ! 8)) of
                  (Some rx, Some tx) \<Rightarrow> Some (rx, tx)
                | _ \<Rightarrow> None))"

definition parse_net_dev :: "string \<Rightarrow> counters" where
  "parse_net_dev s = fold (\<lambda>c acc. add_counters acc c) (List.map_filter net_line (text_split s)) (0, 0)"

definition read_net :: "file_text \<Rightarrow> go_error + counters" where
  "read_net f = (case f of Inl e \<Rightarrow> Inl e | Inr s \<Rightarrow> Inr (parse_net_dev s))"

text \<open>\<open>^(sd[a-z]+|xvd[a-z]+|vd[a-z]+|nvme[0-9]+n[0-9]+)$\<close>\<close>

definition letters_after :: "string \<Rightarrow> string \<Rightarrow> bool" where
  "letters_after p name =
     (has_prefix name p \<and> drop (length p) name \<noteq> [] \<and> list_all is_lower_alpha (drop (length p) name))"

definition nvme_name :: "string \<Rightarrow> bool" where
  "nvme_name name =
     (has_prefix name ''nvme'' \<and>
      (let r = drop 4 name; d = takeWhile is_digit r; r = dropWhile is_digit r
       in d \<noteq> [] \<and> (case r of c # ds \<Rightarrow> c = CHR ''n'' \<and> ds \<noteq> [] \<and> list_all is_digit ds | [] \<Rightarrow> False)))"

definition is_physical_disk :: "string \<Rightarrow> bool" where
  "is_physical_disk name =
     (letters_after ''sd'' name \<or> letters_after ''xvd'' name \<or> letters_after ''vd'' name \<or> nvme_name name)"

definition sector_size :: "64 word" where "sector_size = 512"

definition disk_line :: "string \<Rightarrow> counters option" where
  "disk_line line =
     (let fields = str_fields line in
      if length fields < 10 then None
      else if \<not> is_physical_disk (fields ! 2) then None
      else case (parse_uint64 (fields ! 5), parse_uint64 (fields ! 9)) of
             (Some r, Some w) \<Rightarrow> Some (r * sector_size, w * sector_size)
           | _ \<Rightarrow> None)"

definition parse_disk_stats :: "string \<Rightarrow> counters" where
  "parse_disk_stats s = fold (\<lambda>c acc. add_counters acc c) (List.map_filter disk_line (text_split s)) (0, 0)"

definition read_disk :: "file_text \<Rightarrow> go_error + counters" where
  "read_disk f = (case f of Inl e \<Rightarrow> Inl e | Inr s \<Rightarrow> Inr (parse_disk_stats s))"

definition derive_rate :: "64 word \<Rightarrow> 64 word \<Rightarrow> rat \<Rightarrow> rat" where
  "derive_rate cur prev dt = (if dt \<le> 0 \<or> cur < prev then 0 else of_nat (unat (cur - prev)) / dt)"

section \<open>GPUs\<close>

record gpu_info =
  gi_name :: string
  gi_total_mib :: "64 word"
  gi_used_mib :: "64 word"
  gi_util :: f64

text \<open>
  One line of the CSV. \<open>pf\<close> is \<open>ParseFloat\<close>, whose result is passed on and not computed with; the
  comma-separated name is put together again.
\<close>

definition gpu_line :: "(string \<Rightarrow> f64 option) \<Rightarrow> string \<Rightarrow> gpu_info option" where
  "gpu_line pf line =
     (let line = trim_space line; parts = split_on (CHR '','') line; n = length parts in
      if line = [] then None
      else if n < 4 then None
      else let name = str_join '', '' (map trim_space (take (n - 3) parts)) in
           case (parse_uint64 (trim_space (parts ! (n - 3))), parse_uint64 (trim_space (parts ! (n - 2)))) of
             (Some tot, Some used) \<Rightarrow>
               Some \<lparr>gi_name = name, gi_total_mib = tot, gi_used_mib = used,
                     gi_util = (case pf (trim_space (parts ! (n - 1))) of Some u \<Rightarrow> u | None \<Rightarrow> Dec 0 0)\<rparr>
           | _ \<Rightarrow> None)"

definition parse_nvidia_smi :: "(string \<Rightarrow> f64 option) \<Rightarrow> string \<Rightarrow> gpu_info list" where
  "parse_nvidia_smi pf s = List.map_filter (gpu_line pf) (text_split s)"

text \<open>\<open>^nvidia[0-9]+$\<close>\<close>

definition is_nvidia_dev :: "string \<Rightarrow> bool" where
  "is_nvidia_dev name =
     (has_prefix name ''nvidia'' \<and> drop 6 name \<noteq> [] \<and> list_all is_digit (drop 6 name))"

definition device_gpu :: gpu_info where
  "device_gpu = \<lparr>gi_name = ''NVIDIA'', gi_total_mib = 0, gi_used_mib = 0, gi_util = Dec 0 0\<rparr>"

definition read_gpu_from_devices :: "go_error + string list \<Rightarrow> gpu_info list" where
  "read_gpu_from_devices dev =
     (case dev of Inl e \<Rightarrow> [] | Inr entries \<Rightarrow> map (\<lambda>_. device_gpu) (filter is_nvidia_dev entries))"

definition read_gpu :: "(string \<Rightarrow> f64 option) \<Rightarrow> file_text \<Rightarrow> go_error + string list \<Rightarrow> gpu_info list" where
  "read_gpu pf smi dev =
     (case smi of
        Inl e \<Rightarrow> read_gpu_from_devices dev
      | Inr out \<Rightarrow> if parse_nvidia_smi pf out \<noteq> [] then parse_nvidia_smi pf out else read_gpu_from_devices dev)"

section \<open>Properties\<close>

lemma unat_sub_word: "b \<le> a \<Longrightarrow> unat (a - b :: 64 word) = unat a - unat b"
  by (rule unat_sub)

text \<open>
  (bounds). The memory in use never exceeds the memory of the host, and the subtraction that
  computes it never wraps, whatever the file claims to be available.
\<close>

theorem memory_used_within_total:
  assumes "read_memory f = Inr m"
  shows "mi_used m \<le> mi_total m \<and>
    (\<exists>s avail. f = Inr s \<and> parse_mem_info s = Inr (mi_total m, avail) \<and>
       int (unat (mi_used m)) = max 0 (int (unat (mi_total m)) - int (unat avail)))"
proof -
  from assms obtain s tot avail where s: "f = Inr s" "parse_mem_info s = Inr (tot, avail)"
    and m: "m = \<lparr>mi_total = tot, mi_used = tot - (if avail > tot then tot else avail)\<rparr>"
    by (auto simp: read_memory_def Let_def split: sum.splits prod.splits)
  show ?thesis
  proof (cases "avail > tot")
    case True
    then have "unat tot \<le> unat avail" by (simp add: word_le_nat_alt [symmetric])
    with True s m show ?thesis by (auto simp: word_less_def)
  next
    case False
    then have le: "avail \<le> tot" by simp
    then have "unat (tot - avail) = unat tot - unat avail" "unat avail \<le> unat tot"
      by (simp_all add: unat_sub_word word_le_nat_alt [symmetric])
    moreover from this have "tot - avail \<le> tot" by (simp add: word_le_nat_alt)
    moreover have "uint avail \<le> uint tot" using le by (simp add: word_le_def)
    ultimately show ?thesis using False s m by auto
  qed
qed

theorem memory_used_within_total_witness:
  "\<exists>m. read_memory (Inr (''MemTotal: 2 kB'' @ [CHR 0x0A] @ ''MemAvailable: 3 kB'')) = Inr m \<and> mi_used m \<le> mi_total m"
proof -
  have "\<exists>m. read_memory (Inr (''MemTotal: 2 kB'' @ [CHR 0x0A] @ ''MemAvailable: 3 kB'')) = Inr m"
    by (simp add: read_memory_def parse_mem_info_def text_split_def trim_space_def is_space_def parse_kb_def str_fields_def
        parse_uint64_def digits_val_def digit_val_def is_digit_def mem_field_def max_kb_def kb_def)
  then show ?thesis using memory_used_within_total by blast
qed

lemma unat_wrap_sub:
  assumes "unat a < unat b"
  shows "unat (a - b :: 64 word) = 2 ^ 64 - (unat b - unat a)"
using assms by (simp add: unat_sub_if')

text \<open>
  (bounds). The CPU percentage is between 0 and 100 for all counters. For counters that only grew,
  with no more idle than total time, it is the share of the interval that was not idle; when the idle
  counter grew by more than the total, the subtraction wraps and the result is 100 percent.
\<close>

theorem cpu_percentage:
  "0 \<le> cpu_delta t1 i1 t2 i2 \<and> cpu_delta t1 i1 t2 i2 \<le> 100 \<and>
   (t1 < t2 \<longrightarrow> i1 \<le> i2 \<longrightarrow>
      (if unat i2 - unat i1 \<le> unat t2 - unat t1
       then cpu_delta t1 i1 t2 i2 * of_nat (unat t2 - unat t1) = 100 * of_nat ((unat t2 - unat t1) - (unat i2 - unat i1))
       else cpu_delta t1 i1 t2 i2 = 100))"
proof (intro conjI impI)
  show "0 \<le> cpu_delta t1 i1 t2 i2" "cpu_delta t1 i1 t2 i2 \<le> 100"
    by (auto simp: cpu_delta_def Let_def)
  assume t: "t1 < t2" and i: "i1 \<le> i2"
  then have dt: "unat (t2 - t1) = unat t2 - unat t1" and di: "unat (i2 - i1) = unat i2 - unat i1"
    by (simp_all add: unat_sub)
  have pos: "0 < unat t2 - unat t1" using t by (simp add: word_less_nat_alt)
  let ?dT = "unat t2 - unat t1" and ?dI = "unat i2 - unat i1"
  let ?b = "of_nat (unat ((t2 - t1) - (i2 - i1))) / of_nat (unat (t2 - t1)) :: rat"
  have "\<not> ?b < 0" by (simp only: not_less zero_le_divide_iff of_nat_0_le_iff simp_thms)
  then have "cpu_delta t1 i1 t2 i2 = (if ?b > 1 then 1 else ?b) * 100"
    unfolding cpu_delta_def Let_def if_not_P [OF t [unfolded not_le [symmetric]]] if_not_P [OF i [unfolded not_less [symmetric]]] by (simp only: if_False)
  note c = this [unfolded dt]
  show "if ?dI \<le> ?dT then cpu_delta t1 i1 t2 i2 * of_nat ?dT = 100 * of_nat (?dT - ?dI)
        else cpu_delta t1 i1 t2 i2 = 100"
  proof (cases "?dI \<le> ?dT")
    case True
    then have "unat ((t2 - t1) - (i2 - i1)) = ?dT - ?dI"
      using dt di by (simp add: unat_sub word_le_nat_alt)
    moreover have "(of_nat (?dT - ?dI) :: rat) \<le> of_nat ?dT" "(0 :: rat) < of_nat ?dT"
      using pos by (simp_all only: of_nat_le_iff of_nat_0_less_iff diff_le_self)
    ultimately have "cpu_delta t1 i1 t2 i2 = of_nat (?dT - ?dI) / of_nat ?dT * 100"
      unfolding c by (simp add: divide_le_eq del: of_nat_diff)
    with \<open>(0 :: rat) < of_nat ?dT\<close> True show ?thesis by (simp del: of_nat_diff)
  next
    case False
    have "unat (i2 - i1) < 2 ^ 64" by (rule order.strict_trans2 [OF unsigned_less]) simp
    with False dt di have "unat ((t2 - t1) - (i2 - i1)) > ?dT"
      by (subst unat_wrap_sub) auto
    then have "(of_nat ?dT :: rat) < of_nat (unat ((t2 - t1) - (i2 - i1)))" "(0 :: rat) < of_nat ?dT"
      using pos by (simp_all only: of_nat_less_iff of_nat_0_less_iff)
    then have "of_nat (unat ((t2 - t1) - (i2 - i1))) / (of_nat ?dT :: rat) > 1" by (simp only: less_divide_eq_1_pos)
    with c False show ?thesis by simp
  qed
qed

theorem cpu_percentage_witness: "cpu_delta 100 50 200 100 * of_nat (200 - 100) = 100 * of_nat (100 - 50)"
  using cpu_percentage [of 100 50 200 100] by simp

text \<open>A rate is never negative; it is the growth per second, or zero after a reset.\<close>

lemma derive_rate_spec:
  "0 \<le> derive_rate cur prev dt \<and>
   (if 0 < dt \<and> prev \<le> cur then derive_rate cur prev dt * dt = of_int (uint cur - uint prev)
    else derive_rate cur prev dt = 0)"
proof (cases "0 < dt \<and> prev \<le> cur")
  case True
  then have "(of_nat (unat (cur - prev)) :: rat) = of_int (uint cur - uint prev)"
    by (simp add: unat_sub word_le_nat_alt of_nat_diff)
  moreover have "0 \<le> (of_int (uint cur - uint prev) :: rat)" using True by (simp only: of_int_0_le_iff) (simp add: word_le_def)
  moreover have "\<not> cur < prev" using True by (simp add: not_less)
  ultimately show ?thesis using True by (auto simp: derive_rate_def)
next
  case False
  then show ?thesis by (auto simp: derive_rate_def)
qed

section \<open>The lines of nvidia-smi\<close>

lemma trim_space_id: "s = [] \<or> \<not> is_space (hd s) \<and> \<not> is_space (last s) \<Longrightarrow> trim_space s = s"
proof -
  assume a: "s = [] \<or> \<not> is_space (hd s) \<and> \<not> is_space (last s)"
  then have "dropWhile is_space s = s" by (cases s) auto
  moreover from a have "dropWhile is_space (rev s) = rev s" by (cases s rule: rev_cases) auto
  ultimately show ?thesis by (simp add: trim_space_def)
qed

lemma trim_space_ends: "trim_space s = s \<Longrightarrow> s \<noteq> [] \<Longrightarrow> \<not> is_space (hd s) \<and> \<not> is_space (last s)"
proof -
  assume t: "trim_space s = s" and ne: "s \<noteq> []"
  have "\<not> is_space (last s)"
  proof -
    have "last s = hd (dropWhile is_space (rev (dropWhile is_space s)))"
      using t ne by (metis hd_rev rev_rev_ident trim_space_def)
    then show ?thesis using t ne by (metis hd_dropWhile rev_is_Nil_conv trim_space_def)
  qed
  moreover have "\<not> is_space (hd s)"
  proof
    assume "is_space (hd s)"
    with ne have "length (dropWhile is_space s) < length s"
      by (cases s) (auto simp: less_Suc_eq_le length_dropWhile_le)
    moreover have "length (trim_space s) \<le> length (dropWhile is_space s)"
      by (metis length_dropWhile_le length_rev trim_space_def)
    ultimately show False using t by simp
  qed
  ultimately show ?thesis by simp
qed

lemma trim_space_cons_space: "trim_space (CHR '' '' # s) = trim_space s"
  by (simp add: trim_space_def is_space_def)

lemma split_on_append: "sep \<notin> set w \<Longrightarrow> split_on sep (w @ sep # s) = w # split_on sep s"
  by (induction w) auto

lemma split_on_plain: "sep \<notin> set w \<Longrightarrow> split_on sep w = [w]"
  by (induction w) auto

lemma split_join_comma:
  "\<forall>w \<in> set (v # ws). CHR '','' \<notin> set w \<Longrightarrow>
   split_on (CHR '','') (str_join '', '' (v # ws)) = v # map (\<lambda>w. CHR '' '' # w) ws"
proof (induction ws arbitrary: v)
  case (Cons w ws)
  have "split_on (CHR '','') (str_join '', '' (v # w # ws)) = v # split_on (CHR '','') (CHR '' '' # str_join '', '' (w # ws))"
    using Cons.prems split_on_append [of "CHR '',''" v "CHR '' '' # str_join '', '' (w # ws)"] by simp
  with Cons.IH [of w] Cons.prems show ?case by simp
qed (simp add: split_on_plain)

lemma digit_not_space: "is_digit c \<Longrightarrow> \<not> is_space c"
  by (auto simp: is_digit_def is_space_def Let_def)

lemma nat_str_trimmed: "trim_space (nat_str n) = nat_str n"
  using nat_str_digits [of n] hd_in_set [OF nat_str_nonempty] last_in_set [OF nat_str_nonempty]
  by (intro trim_space_id) (auto simp: list_all_iff digit_not_space)

lemma nat_str_no_comma: "CHR '','' \<notin> set (nat_str n)"
  using nat_str_digits [of n] by (auto simp: list_all_iff is_digit_def)

lemma str_join_last: "ws \<noteq> [] \<Longrightarrow> last ws \<noteq> [] \<Longrightarrow> str_join sep ws \<noteq> [] \<and> last (str_join sep ws) = last (last ws)"
  by (induction sep ws rule: str_join.induct) auto

lemma str_join_hd: "str_join '', '' (v # w # ws) = s \<Longrightarrow> hd s = (if v = [] then CHR '','' else hd v)"
  by auto

text \<open>
  C40 (roundtrip). The line nvidia-smi prints for a GPU is read back as that GPU: its memory sizes, and
  its name in full also when the name contains commas. A utilisation that cannot be parsed reads as 0.
\<close>

theorem nvidia_smi_line_roundtrip:
  assumes "parts \<noteq> []" and "\<forall>w \<in> set (util # parts). trim_space w = w \<and> CHR '','' \<notin> set w" and "util \<noteq> []"
    and "tot < 2 ^ 64" and "used < 2 ^ 64"
  shows "gpu_line pf (str_join '', '' (parts @ [nat_str tot, nat_str used, util])) =
    Some \<lparr>gi_name = str_join '', '' parts, gi_total_mib = of_nat tot, gi_used_mib = of_nat used,
          gi_util = (case pf util of Some u \<Rightarrow> u | None \<Rightarrow> Dec 0 0)\<rparr>"
proof -
  obtain v vs where v: "parts = v # vs" using assms(1) by (cases parts) auto
  let ?ws = "vs @ [nat_str tot, nat_str used, util]"
  let ?line = "str_join '', '' (v # ?ws)"
  obtain w ws where w: "?ws = w # ws" by (cases ?ws) auto
  have "\<not> is_space (hd ?line)"
    using str_join_hd [of v w ws ?line] w trim_space_ends [of v] assms(2) v
    by (auto simp: is_space_def)
  moreover have "last ?line = last util" "?line \<noteq> []"
    using str_join_last [of "v # ?ws" "'', ''"] assms(3) by auto
  ultimately have t: "trim_space ?line = ?line" "?line \<noteq> []"
    using trim_space_ends [of util] assms(2,3) by (auto intro: trim_space_id)
  have sp: "split_on (CHR '','') ?line = v # map (\<lambda>w. CHR '' '' # w) ?ws"
    using assms(2) v nat_str_no_comma by (intro split_join_comma) auto
  have trimmed: "map trim_space (take (Suc (length vs)) (v # map (\<lambda>w. CHR '' '' # w) ?ws)) = parts"
    using assms(2) v by (auto simp: trim_space_cons_space map_idI)
  have "(v # map (\<lambda>w. CHR '' '' # w) ?ws) ! Suc (length vs) = CHR '' '' # nat_str tot"
    "(v # map (\<lambda>w. CHR '' '' # w) ?ws) ! Suc (Suc (length vs)) = CHR '' '' # nat_str used"
    "(v # map (\<lambda>w. CHR '' '' # w) ?ws) ! Suc (Suc (Suc (length vs))) = CHR '' '' # util"
    by (simp_all add: nth_append)
  with t sp trimmed assms(2,4,5) v show ?thesis
    by (simp add: gpu_line_def Let_def trim_space_cons_space nat_str_trimmed parse_uint64_nat_str
        del: map_append list.map take_Suc_Cons)
qed

theorem nvidia_smi_line_roundtrip_witness:
  "gpu_line (\<lambda>_. None) (str_join '', '' ([''H100'', ''80GB''] @ [nat_str 81559, nat_str 512, ''[N/A]''])) =
    Some \<lparr>gi_name = ''H100, 80GB'', gi_total_mib = 81559, gi_used_mib = 512, gi_util = Dec 0 0\<rparr>"
  using nvidia_smi_line_roundtrip [of "[''H100'', ''80GB'']" "''[N/A]''" 81559 512 "\<lambda>_. None"]
  by (simp add: trim_space_def is_space_def)

end
