(* ===== verification/Config_Env.thy ===== *)
theory Config_Env imports Auth begin

text \<open>
  The worker's configuration (internal/config/config.go): the environment as a function that answers
  the empty string for a missing key, every check of \<open>LoadFrom\<close> in its order, and the errors joined
  as the code joins them. \<open>url.Parse\<close> is an argument that yields the scheme and host of a URL.
\<close>

section \<open>The configuration\<close>

record config =
  cf_control_plane_url :: string
  cf_bootstrap_token :: string
  cf_node_name :: string
  cf_pool_id :: string
  cf_worker_advertise_url :: string
  cf_worker_listen_addr :: string
  cf_inference_token :: string
  cf_token_file :: string
  cf_docker_host :: string
  cf_models_network :: string
  cf_log_level :: string
  cf_pull_timeout :: int
  cf_readiness_timeout :: int
  cf_heartbeat_interval :: int

type_synonym getter = "string \<Rightarrow> string"
type_synonym url_parser = "string \<Rightarrow> go_error + string \<times> string"

definition max_node_name_len :: nat where "max_node_name_len = 255"
definition max_token_len :: nat where "max_token_len = 4096"
definition min_inference_token :: nat where "min_inference_token = 16"
definition max_timeout_seconds :: int where "max_timeout_seconds = 86400"
definition default_token_file :: string where "default_token_file = ''/var/lib/inferia-worker/token''"
definition default_docker_host :: string where "default_docker_host = ''unix:///var/run/docker.sock''"
definition allowed_url_schemes :: "string list" where "allowed_url_schemes = [''http'', ''https'']"
definition allowed_log_levels :: "string list" where
  "allowed_log_levels = [''debug'', ''info'', ''warn'', ''error'']"

text \<open>The canonical form of a UUID: 8-4-4-4-12 hexadecimal digits.\<close>

definition is_hex :: "char \<Rightarrow> bool" where
  "is_hex c \<longleftrightarrow> is_digit c \<or> (let k = (of_char c :: nat) in 97 \<le> k \<and> k \<le> 102 \<or> 65 \<le> k \<and> k \<le> 70)"

definition uuid_dashes :: "bool list" where
  "uuid_dashes = replicate 8 False @ [True] @ replicate 4 False @ [True] @ replicate 4 False @ [True] @
     replicate 4 False @ [True] @ replicate 12 False"

definition uuid_pattern :: "string \<Rightarrow> bool" where
  "uuid_pattern s = list_all2 (\<lambda>dash c. if dash then c = CHR ''-'' else is_hex c) uuid_dashes s"

definition node_name_pattern :: "string \<Rightarrow> bool" where
  "node_name_pattern s \<longleftrightarrow>
     s \<noteq> [] \<and> list_all (\<lambda>c. is_lower_alpha c \<or> is_upper_alpha c \<or> is_digit c \<or> c \<in> {CHR ''.'', CHR ''_'', CHR ''-''}) s"

section \<open>Loading\<close>

definition first_non_empty :: "string \<Rightarrow> string \<Rightarrow> string" where
  "first_non_empty a b = (if a \<noteq> [] then a else b)"

definition validate_http_url :: "url_parser \<Rightarrow> string \<Rightarrow> string \<Rightarrow> go_error option" where
  "validate_http_url parse_url name raw =
     (case parse_url raw of
        Inl e \<Rightarrow> Some (Errorf ''%s is not a valid URL: %v'' [FStr name, FErr e])
      | Inr (scheme, host) \<Rightarrow>
          if scheme = [] \<or> host = []
          then Some (Errorf ''%s must be an absolute URL with scheme and host: %q'' [FStr name, FStr raw])
          else if to_lower scheme \<notin> set allowed_url_schemes
          then Some (Errorf ''%s scheme %q not in {http,https}'' [FStr name, FStr scheme])
          else None)"

definition parse_positive_int :: "getter \<Rightarrow> string \<Rightarrow> int \<Rightarrow> go_error + int" where
  "parse_positive_int getenv key dflt =
     (let raw = getenv key in
      if raw = [] then Inr dflt
      else case atoi raw of
             None \<Rightarrow> Inl (Errorf ''%s is not an integer: %q'' [FStr key, FStr raw])
           | Some n \<Rightarrow>
               if n \<le> 0 then Inl (Errorf ''%s must be > 0 (got %d)'' [FStr key, FInt n])
               else if n > max_timeout_seconds
               then Inl (Errorf ''%s exceeds %d (got %d)'' [FStr key, FInt max_timeout_seconds, FInt n])
               else Inr n)"

text \<open>The texts of the strings read, before the numbers.\<close>

definition env_config :: "getter \<Rightarrow> config" where
  "env_config getenv =
     \<lparr>cf_control_plane_url = getenv ''CONTROL_PLANE_URL'',
      cf_bootstrap_token = getenv ''BOOTSTRAP_TOKEN'',
      cf_node_name = getenv ''NODE_NAME'',
      cf_pool_id = getenv ''POOL_ID'',
      cf_worker_advertise_url = getenv ''WORKER_ADVERTISE_URL'',
      cf_worker_listen_addr = first_non_empty (getenv ''WORKER_LISTEN_ADDR'') ''0.0.0.0:8080'',
      cf_inference_token = getenv ''INFERENCE_TOKEN'',
      cf_token_file = first_non_empty (getenv ''TOKEN_FILE'') default_token_file,
      cf_docker_host = first_non_empty (getenv ''DOCKER_HOST'') default_docker_host,
      cf_models_network = first_non_empty (getenv ''MODELS_NETWORK'') ''inferia-models'',
      cf_log_level = first_non_empty (getenv ''LOG_LEVEL'') ''info'',
      cf_pull_timeout = 0, cf_readiness_timeout = 0, cf_heartbeat_interval = 0\<rparr>"

definition complain :: "bool \<Rightarrow> string \<Rightarrow> string list" where
  "complain b msg = (if b then [msg] else [])"

definition required_errors :: "getter \<Rightarrow> config \<Rightarrow> string list" where
  "required_errors getenv cfg =
     complain (cf_control_plane_url cfg = []) ''CONTROL_PLANE_URL is required'' @
     complain (cf_node_name cfg = []) ''NODE_NAME is required'' @
     complain (cf_pool_id cfg = []) ''POOL_ID is required'' @
     complain (cf_worker_advertise_url cfg = []) ''WORKER_ADVERTISE_URL is required'' @
     complain (cf_inference_token cfg = []) ''INFERENCE_TOKEN is required'' @
     complain (cf_bootstrap_token cfg = [] \<and> \<not> equal_fold (getenv ''TOKEN_FILE_PRESENT'') ''true'')
       ''BOOTSTRAP_TOKEN is required (no persisted token found)''"

definition url_errors :: "url_parser \<Rightarrow> string \<Rightarrow> string \<Rightarrow> string list" where
  "url_errors parse_url name raw =
     (if raw \<noteq> [] then (case validate_http_url parse_url name raw of None \<Rightarrow> [] | Some e \<Rightarrow> [err_text e]) else [])"

definition node_name_errors :: "string \<Rightarrow> string list" where
  "node_name_errors s =
     (if s \<noteq> [] then
        complain (length s > max_node_name_len)
          (go_sprintf ''NODE_NAME exceeds %d chars (got %d)'' [FInt (int max_node_name_len), FInt (int (length s))]) @
        complain (\<not> node_name_pattern s \<or> contains_str s ''..'')
          (go_sprintf ''NODE_NAME contains forbidden characters: %q'' [FStr s])
      else [])"

definition token_errors :: "config \<Rightarrow> string list" where
  "token_errors cfg =
     complain (cf_bootstrap_token cfg \<noteq> [] \<and> length (cf_bootstrap_token cfg) > max_token_len)
       (go_sprintf ''BOOTSTRAP_TOKEN exceeds %d bytes (got %d)''
          [FInt (int max_token_len), FInt (int (length (cf_bootstrap_token cfg)))]) @
     (if cf_inference_token cfg \<noteq> [] then
        complain (length (cf_inference_token cfg) < min_inference_token)
          (go_sprintf ''INFERENCE_TOKEN must be at least %d bytes'' [FInt (int min_inference_token)]) @
        complain (length (cf_inference_token cfg) > max_token_len)
          (go_sprintf ''INFERENCE_TOKEN exceeds %d bytes (got %d)''
             [FInt (int max_token_len), FInt (int (length (cf_inference_token cfg)))])
      else [])"

text \<open>A number read into the configuration: zero and the error when it is refused.\<close>

definition number_of :: "go_error + int \<Rightarrow> int" where
  "number_of r = (case r of Inl e \<Rightarrow> 0 | Inr n \<Rightarrow> n)"

definition number_errors :: "go_error + int \<Rightarrow> string list" where
  "number_errors r = (case r of Inl e \<Rightarrow> [err_text e] | Inr n \<Rightarrow> [])"

definition load_from :: "url_parser \<Rightarrow> getter \<Rightarrow> go_error + config" where
  "load_from parse_url getenv =
     (let cfg = env_config getenv;
          pull = parse_positive_int getenv ''PULL_TIMEOUT_SECONDS'' 1800;
          ready = parse_positive_int getenv ''READINESS_TIMEOUT_SECONDS'' 180;
          beat = parse_positive_int getenv ''HEARTBEAT_INTERVAL_SECONDS'' 5;
          errs =
            required_errors getenv cfg @
            url_errors parse_url ''CONTROL_PLANE_URL'' (cf_control_plane_url cfg) @
            url_errors parse_url ''WORKER_ADVERTISE_URL'' (cf_worker_advertise_url cfg) @
            node_name_errors (cf_node_name cfg) @
            complain (cf_pool_id cfg \<noteq> [] \<and> \<not> uuid_pattern (cf_pool_id cfg))
              (go_sprintf ''POOL_ID is not a UUID: %q'' [FStr (cf_pool_id cfg)]) @
            token_errors cfg @
            complain (cf_log_level cfg \<notin> set allowed_log_levels)
              (go_sprintf ''LOG_LEVEL %q not in {debug,info,warn,error}'' [FStr (cf_log_level cfg)]) @
            number_errors pull @ number_errors ready @ number_errors beat
      in if errs \<noteq> [] then Inl (Errorf ''%s'' [FStr (str_join ''; '' errs)])
         else Inr (cfg\<lparr>cf_pull_timeout := number_of pull, cf_readiness_timeout := number_of ready,
                       cf_heartbeat_interval := number_of beat\<rparr>))"

section \<open>Properties\<close>

lemma complain_empty [simp]: "complain b m = [] \<longleftrightarrow> \<not> b"
  by (simp add: complain_def)

lemma url_errors_empty:
  "raw \<noteq> [] \<Longrightarrow> url_errors pu name raw = [] \<longleftrightarrow>
     (\<exists>scheme host. pu raw = Inr (scheme, host) \<and> host \<noteq> [] \<and> to_lower scheme \<in> {''http'', ''https''})"
  by (auto simp: url_errors_def validate_http_url_def allowed_url_schemes_def to_lower_def split: sum.splits if_splits)

definition seconds_of :: "getter \<Rightarrow> string \<Rightarrow> int \<Rightarrow> int \<Rightarrow> bool" where
  "seconds_of getenv key dflt n \<longleftrightarrow>
     (if getenv key = [] then n = dflt else atoi (getenv key) = Some n \<and> 1 \<le> n \<and> n \<le> 86400)"

lemma number_accepted:
  "number_errors (parse_positive_int getenv key dflt) = [] \<and> number_of (parse_positive_int getenv key dflt) = n \<longleftrightarrow>
     seconds_of getenv key dflt n"
  by (auto simp: number_errors_def number_of_def parse_positive_int_def seconds_of_def max_timeout_seconds_def Let_def
      split: option.splits)

lemma required_errors_empty:
  "required_errors getenv (env_config getenv) = [] \<longleftrightarrow>
     getenv ''CONTROL_PLANE_URL'' \<noteq> [] \<and> getenv ''NODE_NAME'' \<noteq> [] \<and> getenv ''POOL_ID'' \<noteq> [] \<and>
     getenv ''WORKER_ADVERTISE_URL'' \<noteq> [] \<and> getenv ''INFERENCE_TOKEN'' \<noteq> [] \<and>
     (getenv ''BOOTSTRAP_TOKEN'' \<noteq> [] \<or> to_lower (getenv ''TOKEN_FILE_PRESENT'') = ''true'')"
proof -
  have "to_lower ''true'' = ''true''" by (simp add: to_lower_def lower_char_def)
  then show ?thesis by (auto simp: required_errors_def env_config_def equal_fold_def)
qed

lemma node_name_errors_empty:
  "s \<noteq> [] \<Longrightarrow> node_name_errors s = [] \<longleftrightarrow> length s \<le> 255 \<and> node_name_pattern s \<and> \<not> contains_str s ''..''"
  by (auto simp: node_name_errors_def max_node_name_len_def)

lemma token_errors_empty:
  "cf_inference_token cfg \<noteq> [] \<Longrightarrow> token_errors cfg = [] \<longleftrightarrow>
     length (cf_bootstrap_token cfg) \<le> 4096 \<and>
     16 \<le> length (cf_inference_token cfg) \<and> length (cf_inference_token cfg) \<le> 4096"
  by (auto simp: token_errors_def max_token_len_def min_inference_token_def)

lemma log_level_accepted:
  "first_non_empty l ''info'' \<in> set allowed_log_levels \<longleftrightarrow> l \<in> {[], ''debug'', ''info'', ''warn'', ''error''}"
  by (auto simp: first_non_empty_def allowed_log_levels_def)

lemma uuid_pattern_nonempty: "\<not> uuid_pattern []"
  by (simp add: uuid_pattern_def uuid_dashes_def)

lemma node_name_pattern_nonempty: "\<not> node_name_pattern []"
  by (simp add: node_name_pattern_def)

lemma load_from_accepts:
  "load_from parse_url getenv = Inr cfg \<longleftrightarrow>
    (\<forall>key \<in> {''CONTROL_PLANE_URL'', ''WORKER_ADVERTISE_URL''}. getenv key \<noteq> [] \<and>
       (\<exists>scheme host. parse_url (getenv key) = Inr (scheme, host) \<and> host \<noteq> [] \<and> to_lower scheme \<in> {''http'', ''https''})) \<and>
    node_name_pattern (getenv ''NODE_NAME'') \<and> length (getenv ''NODE_NAME'') \<le> 255 \<and>
      \<not> contains_str (getenv ''NODE_NAME'') ''..'' \<and>
    uuid_pattern (getenv ''POOL_ID'') \<and>
    (getenv ''BOOTSTRAP_TOKEN'' \<noteq> [] \<or> to_lower (getenv ''TOKEN_FILE_PRESENT'') = ''true'') \<and>
      length (getenv ''BOOTSTRAP_TOKEN'') \<le> 4096 \<and>
    16 \<le> length (getenv ''INFERENCE_TOKEN'') \<and> length (getenv ''INFERENCE_TOKEN'') \<le> 4096 \<and>
    getenv ''LOG_LEVEL'' \<in> {[], ''debug'', ''info'', ''warn'', ''error''} \<and>
    (\<exists>pull ready beat.
       seconds_of getenv ''PULL_TIMEOUT_SECONDS'' 1800 pull \<and> seconds_of getenv ''READINESS_TIMEOUT_SECONDS'' 180 ready \<and>
       seconds_of getenv ''HEARTBEAT_INTERVAL_SECONDS'' 5 beat \<and>
       cfg = (env_config getenv)\<lparr>cf_pull_timeout := pull, cf_readiness_timeout := ready, cf_heartbeat_interval := beat\<rparr>)"
proof -
  let ?cfg = "env_config getenv"
  let ?pull = "parse_positive_int getenv ''PULL_TIMEOUT_SECONDS'' 1800"
  let ?ready = "parse_positive_int getenv ''READINESS_TIMEOUT_SECONDS'' 180"
  let ?beat = "parse_positive_int getenv ''HEARTBEAT_INTERVAL_SECONDS'' 5"
  let ?new = "?cfg\<lparr>cf_pull_timeout := number_of ?pull, cf_readiness_timeout := number_of ?ready,
    cf_heartbeat_interval := number_of ?beat\<rparr>"
  have cfg: "cf_control_plane_url ?cfg = getenv ''CONTROL_PLANE_URL''" "cf_node_name ?cfg = getenv ''NODE_NAME''"
    "cf_worker_advertise_url ?cfg = getenv ''WORKER_ADVERTISE_URL''" "cf_pool_id ?cfg = getenv ''POOL_ID''"
    "cf_log_level ?cfg = first_non_empty (getenv ''LOG_LEVEL'') ''info''"
    "cf_inference_token ?cfg = getenv ''INFERENCE_TOKEN''" "cf_bootstrap_token ?cfg = getenv ''BOOTSTRAP_TOKEN''"
    by (simp_all add: env_config_def)
  have numbers: "number_errors ?pull = [] \<and> number_errors ?ready = [] \<and> number_errors ?beat = [] \<and> cfg = ?new \<longleftrightarrow>
      (\<exists>pull ready beat.
         seconds_of getenv ''PULL_TIMEOUT_SECONDS'' 1800 pull \<and> seconds_of getenv ''READINESS_TIMEOUT_SECONDS'' 180 ready \<and>
         seconds_of getenv ''HEARTBEAT_INTERVAL_SECONDS'' 5 beat \<and>
         cfg = ?cfg\<lparr>cf_pull_timeout := pull, cf_readiness_timeout := ready, cf_heartbeat_interval := beat\<rparr>)"
    unfolding number_accepted [symmetric] by metis
  have main: "load_from parse_url getenv = Inr cfg \<longleftrightarrow>
      required_errors getenv ?cfg = [] \<and>
      url_errors parse_url ''CONTROL_PLANE_URL'' (getenv ''CONTROL_PLANE_URL'') = [] \<and>
      url_errors parse_url ''WORKER_ADVERTISE_URL'' (getenv ''WORKER_ADVERTISE_URL'') = [] \<and>
      node_name_errors (getenv ''NODE_NAME'') = [] \<and>
      (getenv ''POOL_ID'' \<noteq> [] \<longrightarrow> uuid_pattern (getenv ''POOL_ID'')) \<and> token_errors ?cfg = [] \<and>
      first_non_empty (getenv ''LOG_LEVEL'') ''info'' \<in> set allowed_log_levels \<and>
      (number_errors ?pull = [] \<and> number_errors ?ready = [] \<and> number_errors ?beat = [] \<and> cfg = ?new)"
    unfolding load_from_def Let_def cfg by auto
  show ?thesis (is "_ \<longleftrightarrow> ?rhs")
  proof (cases "required_errors getenv ?cfg = []")
    case True
    note ne = True [unfolded required_errors_empty]
    note pieces = url_errors_empty [OF ne [THEN conjunct1]]
      url_errors_empty [OF ne [THEN conjunct2, THEN conjunct2, THEN conjunct2, THEN conjunct1]]
      node_name_errors_empty [OF ne [THEN conjunct2, THEN conjunct1]]
      token_errors_empty [of ?cfg, unfolded cfg, OF ne [THEN conjunct2, THEN conjunct2, THEN conjunct2, THEN conjunct2, THEN conjunct1]]
    show ?thesis unfolding main numbers pieces log_level_accepted using True ne by blast
  next
    case False
    have "\<not> ?rhs"
    proof
      assume r: ?rhs
      have "getenv ''CONTROL_PLANE_URL'' \<noteq> []" "getenv ''WORKER_ADVERTISE_URL'' \<noteq> []" by (simp_all add: r)
      moreover have "node_name_pattern (getenv ''NODE_NAME'')" "uuid_pattern (getenv ''POOL_ID'')"
        "16 \<le> length (getenv ''INFERENCE_TOKEN'')" by (simp_all only: r)
      moreover have "getenv ''BOOTSTRAP_TOKEN'' \<noteq> [] \<or> to_lower (getenv ''TOKEN_FILE_PRESENT'') = ''true''" by (simp only: r)
      ultimately have "required_errors getenv ?cfg = []"
        unfolding required_errors_empty by (auto simp: uuid_pattern_nonempty node_name_pattern_nonempty)
      with False show False ..
    qed
    then show ?thesis using False unfolding main by simp
  qed
qed

lemma first_non_empty_case: "first_non_empty x d = (case x of [] \<Rightarrow> d | c # cs \<Rightarrow> c # cs)"
  by (simp add: first_non_empty_def split: list.split)

lemmas env_config_fields = env_config_def first_non_empty_case default_token_file_def default_docker_host_def

text \<open>
  C15 (functional). The environment is accepted exactly when: the five required variables are set; both
  URLs are http or https with a host; the node name has at most 255 letters, digits, dots, dashes and
  underscores and no two dots in a row; the pool is a UUID; there is a bootstrap token of at most 4096
  bytes or a persisted one; the inference token has 16 to 4096 bytes; the log level is one of four;
  each of the three numbers is unset or an integer from 1 to 86400. Every field of the configuration
  then holds its own variable; the listen address, the token file, the Docker host, the models
  network, the log level and the three numbers have the defaults written out below when theirs is
  unset.
\<close>

theorem config_accepted_iff:
  "load_from parse_url getenv = Inr cfg \<longleftrightarrow>
    (\<forall>key \<in> {''CONTROL_PLANE_URL'', ''WORKER_ADVERTISE_URL''}. getenv key \<noteq> [] \<and>
       (\<exists>scheme host. parse_url (getenv key) = Inr (scheme, host) \<and> host \<noteq> [] \<and> to_lower scheme \<in> {''http'', ''https''})) \<and>
    node_name_pattern (getenv ''NODE_NAME'') \<and> length (getenv ''NODE_NAME'') \<le> 255 \<and>
      \<not> contains_str (getenv ''NODE_NAME'') ''..'' \<and>
    uuid_pattern (getenv ''POOL_ID'') \<and>
    (getenv ''BOOTSTRAP_TOKEN'' \<noteq> [] \<or> to_lower (getenv ''TOKEN_FILE_PRESENT'') = ''true'') \<and>
      length (getenv ''BOOTSTRAP_TOKEN'') \<le> 4096 \<and>
    16 \<le> length (getenv ''INFERENCE_TOKEN'') \<and> length (getenv ''INFERENCE_TOKEN'') \<le> 4096 \<and>
    getenv ''LOG_LEVEL'' \<in> {[], ''debug'', ''info'', ''warn'', ''error''} \<and>
    (\<exists>pull ready beat.
       seconds_of getenv ''PULL_TIMEOUT_SECONDS'' 1800 pull \<and> seconds_of getenv ''READINESS_TIMEOUT_SECONDS'' 180 ready \<and>
       seconds_of getenv ''HEARTBEAT_INTERVAL_SECONDS'' 5 beat \<and>
       cfg = \<lparr>cf_control_plane_url = getenv ''CONTROL_PLANE_URL'', cf_bootstrap_token = getenv ''BOOTSTRAP_TOKEN'',
         cf_node_name = getenv ''NODE_NAME'', cf_pool_id = getenv ''POOL_ID'',
         cf_worker_advertise_url = getenv ''WORKER_ADVERTISE_URL'',
         cf_worker_listen_addr = (case getenv ''WORKER_LISTEN_ADDR'' of [] \<Rightarrow> ''0.0.0.0:8080'' | c # cs \<Rightarrow> c # cs),
         cf_inference_token = getenv ''INFERENCE_TOKEN'',
         cf_token_file = (case getenv ''TOKEN_FILE'' of [] \<Rightarrow> ''/var/lib/inferia-worker/token'' | c # cs \<Rightarrow> c # cs),
         cf_docker_host = (case getenv ''DOCKER_HOST'' of [] \<Rightarrow> ''unix:///var/run/docker.sock'' | c # cs \<Rightarrow> c # cs),
         cf_models_network = (case getenv ''MODELS_NETWORK'' of [] \<Rightarrow> ''inferia-models'' | c # cs \<Rightarrow> c # cs),
         cf_log_level = (case getenv ''LOG_LEVEL'' of [] \<Rightarrow> ''info'' | c # cs \<Rightarrow> c # cs),
         cf_pull_timeout = pull, cf_readiness_timeout = ready, cf_heartbeat_interval = beat\<rparr>)"
  unfolding load_from_accepts env_config_fields config.simps by (rule refl)

text \<open>An environment and a parser for URLs of the form scheme, two slashes and host.\<close>

definition sample_env :: "string \<Rightarrow> getter" where
  "sample_env token key =
     (if key = ''CONTROL_PLANE_URL'' then ''https://cp''
      else if key = ''WORKER_ADVERTISE_URL'' then ''http://w:8080''
      else if key = ''NODE_NAME'' then ''node-1''
      else if key = ''POOL_ID'' then ''01234567-89ab-cdef-0123-456789abcdef''
      else if key = ''BOOTSTRAP_TOKEN'' then ''boot''
      else if key = ''INFERENCE_TOKEN'' then token
      else if key = ''PULL_TIMEOUT_SECONDS'' then ''900''
      else [])"

definition sample_url :: url_parser where
  "sample_url s =
     (case cut_at (CHR '':'') s of
        None \<Rightarrow> Inl (Errorf ''parse %q: missing scheme'' [FStr s])
      | Some (scheme, rest) \<Rightarrow> Inr (scheme, if has_prefix rest ''//'' then drop 2 rest else []))"

lemma sample_env_accepted:
  assumes "16 \<le> length token" "length token \<le> 4096"
  shows "\<exists>cfg. load_from sample_url (sample_env token) = Inr cfg \<and> cf_inference_token cfg = token"
proof -
  have n: "atoi ''900'' = Some 900" by (simp add: atoi_def has_prefix_def is_digit_def digits_val_def digit_val_def)
  have u: "uuid_pattern ''01234567-89ab-cdef-0123-456789abcdef''"
    by (simp add: uuid_pattern_def uuid_dashes_def is_hex_def is_digit_def numeral_eq_Suc)
  have nm: "node_name_pattern ''node-1''" "\<not> contains_str ''node-1'' ''..''"
    by (simp_all add: node_name_pattern_def is_lower_alpha_def is_digit_def contains_str_def has_prefix_def)
  have url: "sample_url ''https://cp'' = Inr (''https'', ''cp'')" "sample_url ''http://w:8080'' = Inr (''http'', ''w:8080'')"
    "to_lower ''https'' = ''https''" "to_lower ''http'' = ''http''"
    by (simp_all add: sample_url_def has_prefix_def to_lower_def lower_char_def)
  show ?thesis using assms by (simp add: load_from_accepts sample_env_def n u nm url seconds_of_def env_config_def)
qed

theorem config_accepted_iff_witness:
  "\<exists>cfg. load_from sample_url (sample_env ''0123456789abcdef'') = Inr cfg \<and> cf_pull_timeout cfg = 900 \<and>
     cf_docker_host cfg = ''unix:///var/run/docker.sock'' \<and> cf_worker_listen_addr cfg = ''0.0.0.0:8080''"
proof -
  obtain cfg where c: "load_from sample_url (sample_env ''0123456789abcdef'') = Inr cfg"
    using sample_env_accepted [of "''0123456789abcdef''"] by auto
  then have "seconds_of (sample_env ''0123456789abcdef'') ''PULL_TIMEOUT_SECONDS'' 1800 (cf_pull_timeout cfg)"
    unfolding config_accepted_iff by (elim conjE exE, simp only: config.simps)
  then have "cf_pull_timeout cfg = 900"
    by (simp add: seconds_of_def sample_env_def atoi_def has_prefix_def is_digit_def digits_val_def digit_val_def)
  moreover have "cf_docker_host cfg = (case sample_env ''0123456789abcdef'' ''DOCKER_HOST'' of
      [] \<Rightarrow> ''unix:///var/run/docker.sock'' | x # xs \<Rightarrow> x # xs)"
    "cf_worker_listen_addr cfg = (case sample_env ''0123456789abcdef'' ''WORKER_LISTEN_ADDR'' of
      [] \<Rightarrow> ''0.0.0.0:8080'' | x # xs \<Rightarrow> x # xs)"
    using c unfolding config_accepted_iff by (elim conjE exE, simp only: config.simps)+
  ultimately show ?thesis using c by (simp add: sample_env_def)
qed

text \<open>
  (error). \<open>LoadFrom\<close> bounds the length of the inference token only: it accepts one with a space or
  a tab, which \<open>extractBearer\<close> never yields. With such a token every request under /v1/ is refused,
  whatever its header, the correct one included.
\<close>

theorem spaced_token_locks_out:
  assumes "load_from parse_url getenv = Inr cfg"
    and "list_ex bearer_space (cf_inference_token cfg)" and "has_prefix path ''/v1/''"
  shows "\<exists>reason. inference_token_middleware (cf_inference_token cfg) path header = AuthReject reason"
proof -
  have "extract_bearer header \<noteq> cf_inference_token cfg"
  proof
    assume e: "extract_bearer header = cf_inference_token cfg"
    have "cf_inference_token cfg \<noteq> []" using assms(2) by auto
    then have "list_all (\<lambda>c. \<not> bearer_space c) (cf_inference_token cfg)" using extract_bearer_iff e by blast
    with assms(2) show False by (auto simp: list_ex_iff list_all_iff)
  qed
  with assms(3) show ?thesis by (auto simp: inference_token_middleware_def constant_time_equal_def Let_def)
qed

theorem spaced_token_locks_out_witness:
  "\<exists>cfg reason. load_from sample_url (sample_env ''correct horse battery'') = Inr cfg \<and>
     inference_token_middleware (cf_inference_token cfg) ''/v1/models'' ''Bearer correct horse battery'' = AuthReject reason"
proof -
  obtain cfg where c: "load_from sample_url (sample_env ''correct horse battery'') = Inr cfg"
    "cf_inference_token cfg = ''correct horse battery''"
    using sample_env_accepted [of "''correct horse battery''"] by auto
  then show ?thesis
    using spaced_token_locks_out [OF c(1), of "''/v1/models''" "''Bearer correct horse battery''"]
    by (auto simp: bearer_space_def has_prefix_def)
qed

end
