(* ===== verification/Cloudenv.thy ===== *)
theory Cloudenv imports Channel Config_Env begin

text \<open>
  Where the worker runs (internal/cloudenv/detect.go): the two requests to the instance metadata
  service, the overrides from the environment and the cache of the first answer. The HTTP client and
  the JSON decoder are arguments; a response body is its bytes and the error they end with, if any.
\<close>

record 'w imds_env =
  ie_new_request :: "string \<Rightarrow> string \<Rightarrow> go_error option"
  ie_do :: "string \<Rightarrow> string \<Rightarrow> (string \<times> string) list \<Rightarrow> 'w \<Rightarrow> (go_error + int \<times> string \<times> go_error option) \<times> 'w"
  ie_decode :: "string \<Rightarrow> (string \<times> string \<times> string) option"

definition max_field_len :: nat where "max_field_len = 128"

definition truncate_str :: "string \<Rightarrow> nat \<Rightarrow> string" where
  "truncate_str s n = (if length s > n then take n s else s)"

text \<open>\<open>ReadAll\<close> of a body limited to \<open>n\<close> bytes: the limit hides what comes after it.\<close>

definition read_limited :: "nat \<Rightarrow> string \<times> go_error option \<Rightarrow> go_error + string" where
  "read_limited n body =
     (let (bs, err) = body in
      if n \<le> length bs then Inr (take n bs)
      else case err of None \<Rightarrow> Inr bs | Some e \<Rightarrow> Inl e)"

text \<open>One request: its body when it was sent, answered with 200 and read.\<close>

definition imds_call ::
  "'w imds_env \<Rightarrow> string \<Rightarrow> string \<Rightarrow> (string \<times> string) list \<Rightarrow> nat \<Rightarrow> 'w \<Rightarrow> string option \<times> 'w" where
  "imds_call env meth url hs n w =
     (case ie_new_request env meth url of
        Some e \<Rightarrow> (None, w)
      | None \<Rightarrow>
          (case ie_do env meth url hs w of
             (Inl e, w) \<Rightarrow> (None, w)
           | (Inr (status, body), w) \<Rightarrow>
               if status \<noteq> 200 then (None, w)
               else (case read_limited n body of Inl e \<Rightarrow> (None, w) | Inr b \<Rightarrow> (Some b, w))))"

definition max_body :: nat where "max_body = 64 * 1024"

definition probe_imds :: "'w imds_env \<Rightarrow> getter \<Rightarrow> 'w \<Rightarrow> runtime_facts option \<times> 'w" where
  "probe_imds env getenv w =
     (let base = first_non_empty (getenv ''INFERIA_CLOUDENV_IMDS_URL'') ''http://169.254.169.254'' in
      case imds_call env ''PUT'' (base @ ''/latest/api/token'') [(''X-aws-ec2-metadata-token-ttl-seconds'', ''60'')] 1024 w of
        (None, w) \<Rightarrow> (None, w)
      | (Some token, w) \<Rightarrow>
          (case imds_call env ''GET'' (base @ ''/latest/dynamic/instance-identity/document'')
                  [(''X-aws-ec2-metadata-token'', token)] (max_body + 1) w of
             (None, w) \<Rightarrow> (None, w)
           | (Some doc, w) \<Rightarrow>
               if length doc > max_body then (None, w)
               else case ie_decode env doc of
                      None \<Rightarrow> (None, w)
                    | Some (inst, region, az) \<Rightarrow>
                        (Some \<lparr>rf_kind = ''aws-ec2'', rf_instance_id = truncate_str inst max_field_len,
                               rf_region = truncate_str region max_field_len,
                               rf_availability_zone = truncate_str az max_field_len\<rparr>, w)))"

definition local_facts :: runtime_facts where
  "local_facts = \<lparr>rf_kind = ''local'', rf_instance_id = [], rf_region = [], rf_availability_zone = []\<rparr>"

definition override_field :: "getter \<Rightarrow> string \<Rightarrow> string \<Rightarrow> string" where
  "override_field getenv key old = (if getenv key \<noteq> [] then truncate_str (getenv key) max_field_len else old)"

definition detect_fresh :: "'w imds_env \<Rightarrow> getter \<Rightarrow> 'w \<Rightarrow> runtime_facts \<times> 'w" where
  "detect_fresh env getenv w =
     (let info = local_facts\<lparr>rf_kind := override_field getenv ''INFERIA_RUNTIME_ENV'' ''local''\<rparr>;
          (info, w) = (if rf_kind info = ''local''
                       then (case probe_imds env getenv w of (None, w) \<Rightarrow> (info, w) | (Some p, w) \<Rightarrow> (p, w))
                       else (info, w))
      in (info\<lparr>rf_instance_id := override_field getenv ''INFERIA_INSTANCE_ID'' (rf_instance_id info),
              rf_region := override_field getenv ''INFERIA_REGION'' (rf_region info),
              rf_availability_zone := override_field getenv ''INFERIA_AZ'' (rf_availability_zone info)\<rparr>, w))"

text \<open>The package keeps the first answer: \<open>None\<close> before it.\<close>

definition detect ::
  "'w imds_env \<Rightarrow> getter \<Rightarrow> runtime_facts option \<times> 'w \<Rightarrow> runtime_facts \<times> runtime_facts option \<times> 'w" where
  "detect env getenv st =
     (case st of
        (Some info, w) \<Rightarrow> (info, Some info, w)
      | (None, w) \<Rightarrow> (let (info, w) = detect_fresh env getenv w in (info, Some info, w)))"

section \<open>Properties\<close>

lemma truncate_str_bound: "length (truncate_str s n) \<le> n"
  by (simp add: truncate_str_def)

lemma override_field_bound: "length old \<le> 128 \<Longrightarrow> length (override_field getenv key old) \<le> 128"
  by (simp add: override_field_def truncate_str_def max_field_len_def)

definition bounded_facts :: "runtime_facts \<Rightarrow> bool" where
  "bounded_facts i \<longleftrightarrow> length (rf_kind i) \<le> 128 \<and> length (rf_instance_id i) \<le> 128 \<and>
     length (rf_region i) \<le> 128 \<and> length (rf_availability_zone i) \<le> 128"

lemma probe_bounded: "probe_imds env getenv w = (Some i, w') \<Longrightarrow> bounded_facts i"
  by (auto simp: probe_imds_def bounded_facts_def truncate_str_def max_field_len_def Let_def
      split: prod.splits option.splits if_splits)

lemma detect_fresh_bounded: "bounded_facts (fst (detect_fresh env getenv w))"
proof -
  have "bounded_facts (local_facts\<lparr>rf_kind := override_field getenv ''INFERIA_RUNTIME_ENV'' ''local''\<rparr>)"
    by (simp add: bounded_facts_def local_facts_def override_field_bound)
  then show ?thesis
    using probe_bounded [of env getenv w]
    by (auto simp: detect_fresh_def Let_def bounded_facts_def override_field_bound split: prod.splits option.splits)
qed

text \<open>
  (invariant). Once the environment was detected, every later call gives the same facts and sends
  nothing, even when the first probe failed; each of the four facts has at most 128 bytes, whatever
  the metadata service and the environment say.
\<close>

theorem detection_is_final:
  assumes "detect env getenv (None, w) = (i, st)"
  shows "bounded_facts i \<and> detect env' getenv' st = (i, st)"
proof -
  from assms have "i = fst (detect_fresh env getenv w)" "st = (Some i, snd (detect_fresh env getenv w))"
    by (auto simp: detect_def split: prod.splits)
  then show ?thesis using detect_fresh_bounded [of env getenv w] by (simp add: detect_def)
qed

text \<open>A metadata service that is unreachable.\<close>

definition no_imds :: "nat imds_env" where
  "no_imds = \<lparr>ie_new_request = (\<lambda>_ _. None), ie_do = (\<lambda>_ _ _ n. (Inl (Errorf ''no route'' []), Suc n)),
              ie_decode = (\<lambda>_. None)\<rparr>"

theorem detection_is_final_witness:
  "\<exists>i st. detect no_imds (\<lambda>_. []) (None, 0) = (i, st) \<and> snd st = 1 \<and> detect no_imds (\<lambda>_. []) st = (i, st)"
proof -
  obtain i st where d: "detect no_imds (\<lambda>_. []) (None, 0) = (i, st)" by (metis surj_pair)
  then have "snd st = 1"
    by (auto simp: detect_def detect_fresh_def probe_imds_def imds_call_def no_imds_def override_field_def local_facts_def Let_def)
  with d detection_is_final [OF d] show ?thesis by blast
qed

end
