(* ===== verification/Sessions.thy ===== *)
theory Sessions imports Shellbridge begin

text \<open>
  Live sessions (internal/shellbridge): the methods of a running shell and log session, the resize and
  exit status of the two shell backends, and the backends that boot installs for sessions opened over
  the control channel. A stream, an exec instance and a container are reached through arguments that
  act on the world \<open>'w\<close>.
\<close>

section \<open>Shell sessions\<close>

record 'w shell_stream =
  st_write :: "string \<Rightarrow> 'w \<Rightarrow> go_error option \<times> 'w"
  st_close :: "'w \<Rightarrow> go_error option \<times> 'w"
  st_resize :: "16 word \<Rightarrow> 16 word \<Rightarrow> 'w \<Rightarrow> go_error option \<times> 'w"

text \<open>A session: its flag and whether its context was cancelled.\<close>

record shell_session =
  ss_closed :: bool
  ss_cancelled :: bool

definition err_session_closed :: go_error where
  "err_session_closed = Errorf ''shellbridge: session closed'' []"

definition session_write :: "'w shell_stream \<Rightarrow> string \<Rightarrow> shell_session \<times> 'w \<Rightarrow> go_error option \<times> 'w" where
  "session_write io data st =
     (let (s, w) = st in if ss_closed s then (Some err_session_closed, w) else st_write io data w)"

definition session_resize ::
  "'w shell_stream \<Rightarrow> 16 word \<Rightarrow> 16 word \<Rightarrow> shell_session \<times> 'w \<Rightarrow> go_error option \<times> 'w" where
  "session_resize io cols rows st =
     (let (s, w) = st in if ss_closed s then (Some err_session_closed, w) else st_resize io cols rows w)"

definition session_close :: "'w shell_stream \<Rightarrow> shell_session \<times> 'w \<Rightarrow> go_error option \<times> shell_session \<times> 'w" where
  "session_close io st =
     (let (s, w) = st in
      if ss_closed s then (None, s, w)
      else let (e, w) = st_close io w in (e, \<lparr>ss_closed = True, ss_cancelled = True\<rparr>, w))"

section \<open>The two backends\<close>

record 'w exec_control =
  xc_resize :: "string \<Rightarrow> nat \<Rightarrow> nat \<Rightarrow> 'w \<Rightarrow> go_error option \<times> 'w"
  xc_exit_code :: "string \<Rightarrow> 'w \<Rightarrow> (go_error + int) \<times> 'w"

text \<open>Height and width of the terminal of an exec instance; \<open>[]\<close> before it was created.\<close>

definition docker_resize :: "'w exec_control \<Rightarrow> string \<Rightarrow> 16 word \<Rightarrow> 16 word \<Rightarrow> 'w \<Rightarrow> go_error option \<times> 'w" where
  "docker_resize xc eid cols rows w =
     (if eid = [] then (None, w) else xc_resize xc eid (unat rows) (unat cols) w)"

definition docker_wait_exit :: "'w exec_control \<Rightarrow> string \<Rightarrow> 'w \<Rightarrow> (int \<times> go_error option) \<times> 'w" where
  "docker_wait_exit xc eid w =
     (if eid = [] then ((-1, None), w)
      else case xc_exit_code xc eid w of
             (Inl e, w) \<Rightarrow> ((-1, Some e), w)
           | (Inr c, w) \<Rightarrow> ((c, None), w))"

text \<open>Which of the three channels of the wait was ready.\<close>

datatype wait_signal = WaitStatus int | WaitError go_error | WaitDeadline go_error

record 'w host_control =
  hx_resize :: "string \<Rightarrow> nat \<Rightarrow> nat \<Rightarrow> 'w \<Rightarrow> go_error option \<times> 'w"
  hx_wait :: "string \<Rightarrow> 'w \<Rightarrow> wait_signal \<times> 'w"

definition host_resize :: "'w host_control \<Rightarrow> string \<Rightarrow> 16 word \<Rightarrow> 16 word \<Rightarrow> 'w \<Rightarrow> go_error option \<times> 'w" where
  "host_resize hx cid cols rows w =
     (if cid = [] then (None, w) else hx_resize hx cid (unat rows) (unat cols) w)"

definition host_wait_exit :: "'w host_control \<Rightarrow> string \<Rightarrow> 'w \<Rightarrow> (int \<times> go_error option) \<times> 'w" where
  "host_wait_exit hx cid w =
     (if cid = [] then ((-1, None), w)
      else case hx_wait hx cid w of
             (WaitStatus c, w) \<Rightarrow> ((c, None), w)
           | (WaitError e, w) \<Rightarrow> ((-1, Some e), w)
           | (WaitDeadline e, w) \<Rightarrow> ((-1, Some e), w))"

text \<open>The stream of the host shell: its two halves may be missing.\<close>

definition host_stream_read :: "(nat \<Rightarrow> 'w \<Rightarrow> (string \<times> read_error option) \<times> 'w) option \<Rightarrow> nat \<Rightarrow> 'w \<Rightarrow> (string \<times> read_error option) \<times> 'w" where
  "host_stream_read reader n w = (case reader of None \<Rightarrow> (([], Some ReadEOF), w) | Some r \<Rightarrow> r n w)"

definition host_stream_write :: "(string \<Rightarrow> 'w \<Rightarrow> go_error option \<times> 'w) option \<Rightarrow> string \<Rightarrow> 'w \<Rightarrow> go_error option \<times> 'w" where
  "host_stream_write conn data w =
     (case conn of None \<Rightarrow> (Some (Errorf ''hostHijackRWC: nil conn'' []), w) | Some c \<Rightarrow> c data w)"

definition host_stream_close :: "('w \<Rightarrow> go_error option \<times> 'w) option \<Rightarrow> 'w \<Rightarrow> go_error option \<times> 'w" where
  "host_stream_close conn w = (case conn of None \<Rightarrow> (None, w) | Some c \<Rightarrow> c w)"

text \<open>The stream of an exec instance closes its connection and then the attachment.\<close>

definition docker_stream_close ::
  "('w \<Rightarrow> go_error option \<times> 'w) option \<Rightarrow> ('w \<Rightarrow> 'w) option \<Rightarrow> 'w \<Rightarrow> go_error option \<times> 'w" where
  "docker_stream_close conn detach w =
     (let w = (case conn of None \<Rightarrow> w | Some c \<Rightarrow> snd (c w));
          w = (case detach of None \<Rightarrow> w | Some d \<Rightarrow> d w)
      in (None, w))"

section \<open>The default backends\<close>

text \<open>\<open>DefaultSpawn\<close>: the container whose shell is meant.\<close>

definition default_spawn :: "container_lister \<Rightarrow> rt_view option \<Rightarrow> shell_session_config \<Rightarrow> go_error + string" where
  "default_spawn cli rt cfg = resolve_container cli rt (cfg_container cfg) (cfg_deployment cfg)"

record logs_session_config =
  lc_deployment :: string
  lc_container :: string
  lc_tail :: int

text \<open>A backend for logs: those of a container with a tail, or the progress of a load that hands over.\<close>

datatype logs_backend = ContainerLogs string int | ProgressLogs string int

definition new_docker_logs_backend :: "string \<Rightarrow> int \<Rightarrow> logs_backend" where
  "new_docker_logs_backend cid tail = ContainerLogs cid (logs_tail tail)"

definition default_logs_spawn ::
  "container_lister \<Rightarrow> rt_view option \<Rightarrow> (string \<Rightarrow> bool) \<Rightarrow> logs_session_config \<Rightarrow> go_error + logs_backend" where
  "default_logs_spawn cli rt known cfg =
     (case resolve_container cli rt (lc_container cfg) (lc_deployment cfg) of
        Inl e \<Rightarrow>
          if lc_deployment cfg \<noteq> [] \<and> rt \<noteq> None \<and> known (lc_deployment cfg)
          then Inr (ProgressLogs (lc_deployment cfg) (lc_tail cfg)) else Inl e
      | Inr cid \<Rightarrow> Inr (new_docker_logs_backend cid (lc_tail cfg)))"

text \<open>The backend that takes over from the progress of a load.\<close>

fun handoff_backend :: "logs_backend \<Rightarrow> string \<Rightarrow> logs_backend" where
  "handoff_backend (ProgressLogs dep tail) cid = new_docker_logs_backend cid tail"
| "handoff_backend (ContainerLogs c tail) cid = ContainerLogs c tail"

definition err_no_logs_backend :: go_error where
  "err_no_logs_backend = Errorf ''shellbridge: no logs backend configured'' []"

definition start_logs_with ::
  "(logs_session_config \<Rightarrow> go_error + logs_backend) option \<Rightarrow> logs_session_config \<Rightarrow> go_error + logs_session_config \<times> logs_backend" where
  "start_logs_with factory cfg =
     (case factory of
        None \<Rightarrow> Inl err_no_logs_backend
      | Some f \<Rightarrow>
          (let cfg = (if lc_tail cfg = 0 then cfg\<lparr>lc_tail := 200\<rparr> else cfg)
           in case f cfg of Inl e \<Rightarrow> Inl e | Inr b \<Rightarrow> Inr (cfg, b)))"

text \<open>The options of the log request of a container.\<close>

record logs_options =
  lo_stdout :: bool
  lo_stderr :: bool
  lo_follow :: bool
  lo_tail :: string
  lo_timestamps :: bool

definition docker_logs_stream ::
  "(string \<Rightarrow> logs_options \<Rightarrow> go_error + (string \<times> bool) list \<times> (string \<times> bool) list \<times> (go_error \<times> bool) option)
   \<Rightarrow> string \<Rightarrow> int \<Rightarrow> (string list \<times> string list) \<times> (go_error + string)" where
  "docker_logs_stream request cid tail =
     (case request cid \<lparr>lo_stdout = True, lo_stderr = True, lo_follow = True, lo_tail = itoa tail, lo_timestamps = False\<rparr> of
        Inl e \<Rightarrow> (([], []), Inl (wrap_err ''docker logs'' e))
      | Inr (out, err, end_of_copy) \<Rightarrow> demux_and_forward out err end_of_copy)"

text \<open>A log session drops lines once it is closed and closes once.\<close>

definition logs_deliver :: "bool \<Rightarrow> string \<Rightarrow> string \<Rightarrow> (string \<times> string) list" where
  "logs_deliver closed stream data = (if closed then [] else [(stream, data)])"

definition logs_close_session :: "shell_session \<Rightarrow> shell_session" where
  "logs_close_session s = (if ss_closed s then s else \<lparr>ss_closed = True, ss_cancelled = True\<rparr>)"

section \<open>Properties\<close>

text \<open>
  (safety). Closing a session closes its stream once and cancels its context; from then on no input
  and no resize reaches the backend, further closes do nothing, and the read pump reports no end.
\<close>

theorem closed_session_is_silent:
  assumes "session_close io (s, w) = (e, s', w')"
  shows "ss_closed s' \<and> session_close io (s', v) = (None, s', v) \<and>
    session_write io data (s', v) = (Some err_session_closed, v) \<and>
    session_resize io cols rows (s', v) = (Some err_session_closed, v) \<and>
    (\<forall>chunk rerr wait. read_pump [(chunk, Some (rerr, ss_closed s'))] wait = (if chunk = [] then [] else [OnOutput chunk]))"
proof -
  from assms have "ss_closed s'" by (auto simp: session_close_def split: if_splits prod.splits)
  then show ?thesis by (simp add: session_close_def session_write_def session_resize_def)
qed

theorem closed_session_is_silent_witness:
  "\<exists>e s' w'. session_close \<lparr>st_write = (\<lambda>d w. (None, w @ d)), st_close = (\<lambda>w. (None, w @ ''!'')), st_resize = (\<lambda>_ _ w. (None, w))\<rparr>
      (\<lparr>ss_closed = False, ss_cancelled = False\<rparr>, ''ls'') = (e, s', w') \<and> w' = ''ls!'' \<and>
    session_write \<lparr>st_write = (\<lambda>d w. (None, w @ d)), st_close = (\<lambda>w. (None, w @ ''!'')), st_resize = (\<lambda>_ _ w. (None, w))\<rparr>
      ''x'' (s', w') = (Some err_session_closed, w')"
proof -
  let ?io = "\<lparr>st_write = (\<lambda>d w. (None, w @ d)), st_close = (\<lambda>w. (None, w @ ''!'')), st_resize = (\<lambda>_ _ w. (None, w))\<rparr>"
  have c: "session_close ?io (\<lparr>ss_closed = False, ss_cancelled = False\<rparr>, ''ls'') = (None, \<lparr>ss_closed = True, ss_cancelled = True\<rparr>, ''ls!'')"
    by (simp add: session_close_def)
  show ?thesis using c closed_session_is_silent [OF c, of "''ls!''" "''x''"] by blast
qed

text \<open>
  (functional). A log request for a deployment that is being loaded is never refused: it is served
  from the container it resolves to, and from the progress of the load when there is none, which
  then hands over to the container with the same tail, at least one line.
\<close>

theorem loading_deployment_has_logs:
  assumes "lc_deployment cfg \<noteq> []" and "known (lc_deployment cfg)"
  shows "\<exists>b cfg'. start_logs_with (Some (default_logs_spawn cli (Some v) known)) cfg = Inr (cfg', b) \<and>
    (\<forall>cid. \<exists>c n. handoff_backend b cid = ContainerLogs c n \<and> n > 0 \<and>
       c = (case resolve_container cli (Some v) (lc_container cfg) (lc_deployment cfg) of Inr own \<Rightarrow> own | Inl _ \<Rightarrow> cid))"
proof -
  let ?cfg = "if lc_tail cfg = 0 then cfg\<lparr>lc_tail := 200\<rparr> else cfg"
  have same: "lc_deployment ?cfg = lc_deployment cfg" "lc_container ?cfg = lc_container cfg" by simp_all
  show ?thesis
  proof (cases "resolve_container cli (Some v) (lc_container cfg) (lc_deployment cfg)")
    case (Inl e)
    then have "start_logs_with (Some (default_logs_spawn cli (Some v) known)) cfg =
        Inr (?cfg, ProgressLogs (lc_deployment cfg) (lc_tail ?cfg))"
      using assms by (simp add: start_logs_with_def default_logs_spawn_def Let_def)
    then show ?thesis using Inl by (auto simp: new_docker_logs_backend_def logs_tail_def)
  next
    case (Inr own)
    then have "start_logs_with (Some (default_logs_spawn cli (Some v) known)) cfg =
        Inr (?cfg, new_docker_logs_backend own (lc_tail ?cfg))"
      by (simp add: start_logs_with_def default_logs_spawn_def Let_def)
    then show ?thesis using Inr by (auto simp: new_docker_logs_backend_def logs_tail_def)
  qed
qed

theorem loading_deployment_has_logs_witness:
  "\<exists>b cfg'. start_logs_with (Some (default_logs_spawn None (Some \<lparr>rv_container = (\<lambda>_. []), rv_loaded = []\<rparr>) (\<lambda>d. d = ''dep-1'')))
     \<lparr>lc_deployment = ''dep-1'', lc_container = [], lc_tail = 0\<rparr> = Inr (cfg', b) \<and>
     (\<exists>n. handoff_backend b ''c1'' = ContainerLogs ''c1'' n)"
proof -
  have "resolve_container None (Some \<lparr>rv_container = (\<lambda>_. []), rv_loaded = []\<rparr>) [] ''dep-1'' = Inl (no_container ''dep-1'')"
    by (simp add: resolve_container_def lookup_by_deployment_id_def)
  with loading_deployment_has_logs [of "\<lparr>lc_deployment = ''dep-1'', lc_container = [], lc_tail = 0\<rparr>" "\<lambda>d. d = ''dep-1''" None
      "\<lparr>rv_container = (\<lambda>_. []), rv_loaded = []\<rparr>"]
  show ?thesis by fastforce
qed

end
