(* ===== verification/Docker_Engine.thy ===== *)
theory Docker_Engine imports Docker_Client Pull_Progress begin

text \<open>
  The real Docker client (type dockerEngine of internal/runtime/dockerclient/client.go). The calls of
  the Docker SDK, the port constructor of go-connections and the host name are arguments; a map is
  iterated in an order that is an argument too. The engine meets the contract of \<open>Docker_Client\<close> over
  every daemon that keeps its documented behaviour.
\<close>

section \<open>The SDK\<close>

text \<open>What \<open>ContainerCreate\<close> is sent.\<close>

record create_request =
  cr_name :: string
  cr_image :: string
  cr_cmd :: "string list"
  cr_entrypoint :: "string list"
  cr_env :: "string list"
  cr_exposed :: "string list"
  cr_labels :: "string \<rightharpoonup> string"
  cr_port_bindings :: "(string \<times> (string \<times> string) list) list"
  cr_restart_policy :: string
  cr_shm_size :: int
  cr_mounts :: "mount list"
  cr_device_requests :: "(string \<times> string list) list"
  cr_endpoints :: "(string \<times> string) list"

text \<open>What \<open>ContainerInspect\<close> answers: the fields the engine reads.\<close>

record container_json =
  cj_id :: string
  cj_running :: bool
  cj_exit_code :: int
  cj_status :: string
  cj_networks :: "string list"

record 'w docker_sdk =
  sd_ping :: "ctx \<Rightarrow> 'w \<Rightarrow> go_error option \<times> 'w"
  sd_network_list :: "ctx \<Rightarrow> 'w \<Rightarrow> (go_error + string list) \<times> 'w"
  sd_network_create :: "ctx \<Rightarrow> string \<Rightarrow> string \<Rightarrow> (string \<rightharpoonup> string) \<Rightarrow> 'w \<Rightarrow> go_error option \<times> 'w"
  sd_hostname :: "'w \<Rightarrow> go_error + string"
  sd_inspect :: "ctx \<Rightarrow> string \<Rightarrow> 'w \<Rightarrow> go_error + container_json"
  sd_network_connect :: "ctx \<Rightarrow> string \<Rightarrow> string \<Rightarrow> 'w \<Rightarrow> go_error option \<times> 'w"
  sd_image_pull :: "ctx \<Rightarrow> string \<Rightarrow> 'w \<Rightarrow> (go_error + pull_frame list) \<times> 'w"
  sd_create :: "ctx \<Rightarrow> create_request \<Rightarrow> 'w \<Rightarrow> (go_error + string) \<times> 'w"
  sd_start :: "ctx \<Rightarrow> string \<Rightarrow> 'w \<Rightarrow> go_error option \<times> 'w"
  sd_stop :: "ctx \<Rightarrow> string \<Rightarrow> int \<Rightarrow> 'w \<Rightarrow> go_error option \<times> 'w"
  sd_remove_force :: "ctx \<Rightarrow> string \<Rightarrow> 'w \<Rightarrow> go_error option \<times> 'w"
  sd_image_remove_force :: "ctx \<Rightarrow> string \<Rightarrow> 'w \<Rightarrow> go_error option \<times> 'w"
  sd_logs :: "ctx \<Rightarrow> string \<Rightarrow> string \<Rightarrow> 'w \<Rightarrow> go_error + string \<times> go_error option"
  sd_not_found :: "go_error \<Rightarrow> bool"

section \<open>The engine\<close>

definition engine_ping :: "'w docker_sdk \<Rightarrow> ctx \<Rightarrow> 'w \<Rightarrow> go_error option \<times> 'w" where
  "engine_ping sd c w = sd_ping sd c w"

text \<open>The network, created when it is missing; then the worker's own container is attached to it, best effort.\<close>

definition attach_self :: "'w docker_sdk \<Rightarrow> ctx \<Rightarrow> string \<Rightarrow> 'w \<Rightarrow> 'w" where
  "attach_self sd c name w =
     (case sd_hostname sd w of
        Inl e \<Rightarrow> w
      | Inr host \<Rightarrow>
          if host = [] then w
          else case sd_inspect sd c host w of
                 Inl e \<Rightarrow> w
               | Inr info \<Rightarrow> if name \<in> set (cj_networks info) then w
                             else snd (sd_network_connect sd c name (cj_id info) w))"

definition engine_ensure_network :: "'w docker_sdk \<Rightarrow> ctx \<Rightarrow> string \<Rightarrow> 'w \<Rightarrow> go_error option \<times> 'w" where
  "engine_ensure_network sd c name w =
     (case sd_network_list sd c w of
        (Inl e, w) \<Rightarrow> (Some e, w)
      | (Inr nets, w) \<Rightarrow>
          (let (e, w) = (if name \<in> set nets then (None, w)
                         else sd_network_create sd c name ''bridge'' [''inferia.managed_by'' \<mapsto> ''inferia-worker''] w)
           in case e of Some e \<Rightarrow> (Some e, w) | None \<Rightarrow> (None, attach_self sd c name w)))"

definition engine_pull :: "'w docker_sdk \<Rightarrow> ctx \<Rightarrow> string \<Rightarrow> 'w \<Rightarrow> (go_error option \<times> string list) \<times> 'w" where
  "engine_pull sd c img w =
     (case sd_image_pull sd c img w of
        (Inl e, w) \<Rightarrow> ((Some e, []), w)
      | (Inr frames, w) \<Rightarrow> (pull_loop new_pull_tracker frames, w))"

fun trim_after :: "string \<Rightarrow> char \<Rightarrow> string" where
  "trim_after [] sep = []"
| "trim_after (c # cs) sep = (if c = sep then [] else c # trim_after cs sep)"

definition create_request_of :: "((string \<rightharpoonup> string) \<Rightarrow> (string \<times> string) list) \<Rightarrow> string \<Rightarrow> container_spec \<Rightarrow> create_request" where
  "create_request_of order port s =
     \<lparr>cr_name = cs_name s, cr_image = cs_image s, cr_cmd = cs_cmd s, cr_entrypoint = cs_entrypoint s,
      cr_env = map (\<lambda>(k, v). k @ ''='' @ v) (order (cs_env s)), cr_exposed = [port], cr_labels = cs_labels s,
      cr_port_bindings = [(port, [(pb_host_ip (cs_port_binding s), pb_host_port (cs_port_binding s))])],
      cr_restart_policy = cs_restart_policy s, cr_shm_size = cs_shm_size s,
      cr_mounts = (if length (cs_mounts s) > 0 then cs_mounts s else []),
      cr_device_requests = (if length (cs_gpu_device_ids s) > 0 then [(''cdi'', cs_gpu_device_ids s)] else []),
      cr_endpoints = [(cs_network_name s, cs_network_name s)]\<rparr>"

definition engine_create ::
  "(string \<Rightarrow> string \<Rightarrow> go_error + string) \<Rightarrow> ((string \<rightharpoonup> string) \<Rightarrow> (string \<times> string) list) \<Rightarrow> 'w docker_sdk
   \<Rightarrow> ctx \<Rightarrow> container_spec \<Rightarrow> 'w \<Rightarrow> (go_error + string) \<times> 'w" where
  "engine_create new_port order sd c s w =
     (case new_port ''tcp'' (trim_after (pb_container_port (cs_port_binding s)) (CHR ''/'')) of
        Inl e \<Rightarrow> (Inl (wrap_err ''port parse'' e), w)
      | Inr port \<Rightarrow> sd_create sd c (create_request_of order port s) w)"

definition engine_start :: "'w docker_sdk \<Rightarrow> ctx \<Rightarrow> string \<Rightarrow> 'w \<Rightarrow> go_error option \<times> 'w" where
  "engine_start sd c cid w = sd_start sd c cid w"

definition engine_stop :: "'w docker_sdk \<Rightarrow> ctx \<Rightarrow> string \<Rightarrow> int \<Rightarrow> 'w \<Rightarrow> go_error option \<times> 'w" where
  "engine_stop sd c cid n w = sd_stop sd c cid n w"

definition engine_remove :: "'w docker_sdk \<Rightarrow> ctx \<Rightarrow> string \<Rightarrow> 'w \<Rightarrow> go_error option \<times> 'w" where
  "engine_remove sd c cid w = sd_remove_force sd c cid w"

definition engine_remove_image :: "'w docker_sdk \<Rightarrow> ctx \<Rightarrow> string \<Rightarrow> 'w \<Rightarrow> go_error option \<times> 'w" where
  "engine_remove_image sd c img w = sd_image_remove_force sd c img w"

definition engine_remove_by_name :: "'w docker_sdk \<Rightarrow> ctx \<Rightarrow> string \<Rightarrow> 'w \<Rightarrow> go_error option \<times> 'w" where
  "engine_remove_by_name sd c name w =
     (case sd_remove_force sd c name w of
        (Some e, w) \<Rightarrow> (if \<not> sd_not_found sd e then Some e else None, w)
      | (None, w) \<Rightarrow> (None, w))"

definition engine_inspect :: "'w docker_sdk \<Rightarrow> ctx \<Rightarrow> string \<Rightarrow> 'w \<Rightarrow> go_error + inspect" where
  "engine_inspect sd c cid w =
     (case sd_inspect sd c cid w of
        Inl e \<Rightarrow> Inl e
      | Inr j \<Rightarrow> Inr \<lparr>is_id = cj_id j, is_running = cj_running j, is_exit_code = cj_exit_code j, is_status = cj_status j\<rparr>)"

text \<open>What \<open>ReadAll\<close> returns comes with its error.\<close>

definition engine_logs :: "'w docker_sdk \<Rightarrow> ctx \<Rightarrow> string \<Rightarrow> int \<Rightarrow> 'w \<Rightarrow> string \<times> go_error option" where
  "engine_logs sd c cid n w = (case sd_logs sd c cid (itoa n) w of Inl e \<Rightarrow> ([], Some e) | Inr (bs, e) \<Rightarrow> (bs, e))"

definition engine_docker ::
  "(string \<Rightarrow> string \<Rightarrow> go_error + string) \<Rightarrow> ((string \<rightharpoonup> string) \<Rightarrow> (string \<times> string) list) \<Rightarrow> 'w docker_sdk \<Rightarrow> 'w docker_ops" where
  "engine_docker new_port order sd =
     \<lparr>dk_ping = engine_ping sd, dk_ensure_network = engine_ensure_network sd, dk_pull = engine_pull sd,
      dk_create = engine_create new_port order sd, dk_start = engine_start sd, dk_stop = engine_stop sd,
      dk_remove = engine_remove sd, dk_remove_image = engine_remove_image sd,
      dk_remove_by_name = engine_remove_by_name sd, dk_inspect = engine_inspect sd, dk_logs = engine_logs sd\<rparr>"

section \<open>The contract\<close>

text \<open>
  What the daemon documents, over the containers it has: \<open>cts w\<close> maps the id of each to its name, and
  a reference is an id or a name. Create answers with a fresh id and adds one container of the requested
  name; when it fails nothing is added, unless the context was cut off meanwhile. A forced removal
  that succeeds leaves no container the reference names; it fails with a not-found error only when there
  is none, and on a context that stays live a daemon in order (\<open>sound\<close>) has no other failure.
  Starting and stopping a container, pulling and removing images leave the containers alone. A
  cancelled context stays cancelled.
\<close>

definition referenced :: "(string \<rightharpoonup> string) \<Rightarrow> string \<Rightarrow> string set" where
  "referenced m x = {i. \<exists>n. m i = Some n \<and> (i = x \<or> n = x)}"

definition daemon_creates :: "'w docker_sdk \<Rightarrow> ('w \<Rightarrow> string \<rightharpoonup> string) \<Rightarrow> (ctx \<Rightarrow> 'w \<Rightarrow> bool) \<Rightarrow> bool" where
  "daemon_creates sd cts live \<longleftrightarrow>
     (\<forall>c r w. case sd_create sd c r w of
        (Inl e, w') \<Rightarrow> (\<exists>i. cts w' \<subseteq>\<^sub>m (cts w)(i \<mapsto> cr_name r)) \<and> (live c w' \<longrightarrow> cts w' = cts w)
      | (Inr cid, w') \<Rightarrow> cid \<noteq> [] \<and> cts w cid = None \<and> cts w' = (cts w)(cid \<mapsto> cr_name r))"

definition daemon_removes ::
  "'w docker_sdk \<Rightarrow> ('w \<Rightarrow> string \<rightharpoonup> string) \<Rightarrow> ('w \<Rightarrow> bool) \<Rightarrow> (ctx \<Rightarrow> 'w \<Rightarrow> bool) \<Rightarrow> bool" where
  "daemon_removes sd cts sound live \<longleftrightarrow>
     (\<forall>c x w. case sd_remove_force sd c x w of (r, w') \<Rightarrow> cts w' \<subseteq>\<^sub>m cts w \<and>
        (case r of None \<Rightarrow> referenced (cts w') x = {}
         | Some e \<Rightarrow> (sd_not_found sd e \<longrightarrow> referenced (cts w) x = {}) \<and> (sound w \<and> live c w' \<longrightarrow> sd_not_found sd e)))"

definition daemon_keeps :: "'w docker_sdk \<Rightarrow> ('w \<Rightarrow> string \<rightharpoonup> string) \<Rightarrow> bool" where
  "daemon_keeps sd cts \<longleftrightarrow>
     (\<forall>c x n w. cts (snd (sd_image_pull sd c x w)) = cts w \<and> cts (snd (sd_start sd c x w)) = cts w \<and>
        cts (snd (sd_stop sd c x n w)) = cts w \<and> cts (snd (sd_image_remove_force sd c x w)) = cts w)"

text \<open>No call changes whether the daemon is sound, none revives a context, and the cleanup context lives.\<close>

definition daemon_frame :: "'w docker_sdk \<Rightarrow> ('w \<Rightarrow> bool) \<Rightarrow> (ctx \<Rightarrow> 'w \<Rightarrow> bool) \<Rightarrow> bool" where
  "daemon_frame sd sound live \<longleftrightarrow>
     (\<forall>c d r x n w. live CleanupCtx w \<and>
        (\<forall>w' \<in> {snd (sd_image_pull sd c x w), snd (sd_create sd c r w), snd (sd_start sd c x w), snd (sd_stop sd c x n w),
                 snd (sd_remove_force sd c x w), snd (sd_image_remove_force sd c x w)}.
           sound w' = sound w \<and> (live d w' \<longrightarrow> live d w)))"

lemma engine_docker_sel [simp]:
  "dk_pull (engine_docker np order sd) = engine_pull sd" "dk_create (engine_docker np order sd) = engine_create np order sd"
  "dk_start (engine_docker np order sd) = engine_start sd" "dk_stop (engine_docker np order sd) = engine_stop sd"
  "dk_remove (engine_docker np order sd) = engine_remove sd"
  "dk_remove_image (engine_docker np order sd) = engine_remove_image sd"
  "dk_remove_by_name (engine_docker np order sd) = engine_remove_by_name sd"
  by (simp_all add: engine_docker_def)

lemma engine_worlds:
  "snd (engine_pull sd c x w) = snd (sd_image_pull sd c x w)" "snd (engine_start sd c x w) = snd (sd_start sd c x w)"
  "snd (engine_stop sd c x n w) = snd (sd_stop sd c x n w)" "snd (engine_remove sd c x w) = snd (sd_remove_force sd c x w)"
  "snd (engine_remove_image sd c x w) = snd (sd_image_remove_force sd c x w)"
  "snd (engine_remove_by_name sd c x w) = snd (sd_remove_force sd c x w)"
  by (auto simp: engine_pull_def engine_start_def engine_stop_def engine_remove_def engine_remove_image_def
      engine_remove_by_name_def split: prod.splits sum.splits option.splits)

lemma engine_create_world:
  "(\<exists>e. engine_create np order sd c s w = (Inl e, w)) \<or> (\<exists>r. engine_create np order sd c s w = sd_create sd c r w)"
  by (auto simp: engine_create_def split: sum.splits)

lemma engine_create_request:
  "engine_create np order sd c s w = (Inr cid, w') \<Longrightarrow> \<exists>r. sd_create sd c r w = (Inr cid, w') \<and> cr_name r = cs_name s"
  by (auto simp: engine_create_def create_request_of_def split: sum.splits)

lemma referenced_mono: "m' \<subseteq>\<^sub>m m \<Longrightarrow> referenced m x = {} \<Longrightarrow> referenced m' x = {}"
  by (fastforce simp: referenced_def map_le_def dom_def)

lemma referenced_id: "referenced m x = {} \<Longrightarrow> x \<notin> dom m"
  by (auto simp: referenced_def)

text \<open>What the removal of the SDK does, in terms of its result.\<close>

lemma daemon_removal:
  assumes "daemon_removes sd cts sound live"
  shows "cts (snd (sd_remove_force sd c x w)) \<subseteq>\<^sub>m cts w"
    and "fst (sd_remove_force sd c x w) = None \<Longrightarrow> referenced (cts (snd (sd_remove_force sd c x w))) x = {}"
    and "fst (sd_remove_force sd c x w) = Some e \<Longrightarrow> sd_not_found sd e \<Longrightarrow> referenced (cts w) x = {}"
    and "fst (sd_remove_force sd c x w) = Some e \<Longrightarrow> sound w \<Longrightarrow> live c (snd (sd_remove_force sd c x w)) \<Longrightarrow> sd_not_found sd e"
proof -
  obtain r w' where w': "sd_remove_force sd c x w = (r, w')" by fastforce
  note d = assms [unfolded daemon_removes_def, rule_format, where c = c and x = x and w = w, unfolded w' prod.case]
  from d show "cts (snd (sd_remove_force sd c x w)) \<subseteq>\<^sub>m cts w" by (simp add: w')
  show "fst (sd_remove_force sd c x w) = None \<Longrightarrow> referenced (cts (snd (sd_remove_force sd c x w))) x = {}"
    using d by (simp add: w')
  show "fst (sd_remove_force sd c x w) = Some e \<Longrightarrow> sd_not_found sd e \<Longrightarrow> referenced (cts w) x = {}"
    using d by (simp add: w')
  show "fst (sd_remove_force sd c x w) = Some e \<Longrightarrow> sound w \<Longrightarrow> live c (snd (sd_remove_force sd c x w)) \<Longrightarrow> sd_not_found sd e"
    using d by (simp add: w')
qed

lemma daemon_removal_gone:
  assumes "daemon_removes sd cts sound live" "sound w" "live c (snd (sd_remove_force sd c x w))"
  shows "referenced (cts (snd (sd_remove_force sd c x w))) x = {}"
proof (cases "fst (sd_remove_force sd c x w)")
  case None
  then show ?thesis by (rule daemon_removal(2) [OF assms(1)])
next
  case (Some e)
  from daemon_removal(3) [OF assms(1) Some daemon_removal(4) [OF assms(1) Some assms(2,3)]]
  show ?thesis by (rule referenced_mono [OF daemon_removal(1) [OF assms(1)]])
qed

text \<open>Removal by name: success means the name is free, and a name that was free is a success.\<close>

lemma engine_remove_by_name_effect:
  assumes "daemon_removes sd cts sound live" "engine_remove_by_name sd c name w = (e, w')"
  shows "cts w' \<subseteq>\<^sub>m cts w \<and> (e = None \<longrightarrow> referenced (cts w') name = {}) \<and> (sound w \<and> live c w' \<longrightarrow> e = None)"
proof (cases "fst (sd_remove_force sd c name w)")
  case None
  with assms(2) have "e = None" "w' = snd (sd_remove_force sd c name w)"
    by (auto simp: engine_remove_by_name_def split: prod.splits)
  with daemon_removal(1,2) [OF assms(1), of c name w] None show ?thesis by simp
next
  case (Some x)
  with assms(2) have e: "e = (if \<not> sd_not_found sd x then Some x else None)" and w': "w' = snd (sd_remove_force sd c name w)"
    by (auto simp: engine_remove_by_name_def split: prod.splits)
  have "referenced (cts w') name = {}" if "sd_not_found sd x"
    unfolding w' by (rule referenced_mono [OF daemon_removal(1) [OF assms(1)] daemon_removal(3) [OF assms(1) Some that]])
  with daemon_removal(1,4) [OF assms(1), of c name w] Some e w' show ?thesis by (auto split: if_splits)
qed

lemma engine_creation:
  fixes cts :: "'w \<Rightarrow> string \<rightharpoonup> string"
  assumes "daemon_creates sd cts live"
  defines "own \<equiv> \<lambda>w. dom (cts w)"
  shows "engine_create np order sd c s w = (Inr cid, w') \<Longrightarrow>
      cid \<noteq> [] \<and> cts w cid = None \<and> cts w' = (cts w)(cid \<mapsto> cs_name s)"
    and "engine_create np order sd c s w = (Inl e, w') \<Longrightarrow> live c w' \<Longrightarrow> cts w' = cts w"
    and "\<exists>x. own (snd (engine_create np order sd c s w)) \<subseteq> insert x (own w)"
proof -
  note d = assms(1) [unfolded daemon_creates_def, rule_format]
  show "cid \<noteq> [] \<and> cts w cid = None \<and> cts w' = (cts w)(cid \<mapsto> cs_name s)"
    if "engine_create np order sd c s w = (Inr cid, w')"
  proof -
    from engine_create_request [OF that] obtain r where "sd_create sd c r w = (Inr cid, w')" "cr_name r = cs_name s" by blast
    with d [where c = c and r = r and w = w] show ?thesis by simp
  qed
  show "cts w' = cts w" if "engine_create np order sd c s w = (Inl e, w')" "live c w'"
    using engine_create_world [of np order sd c s w]
  proof (elim disjE exE)
    fix r assume "engine_create np order sd c s w = sd_create sd c r w"
    with d [where c = c and r = r and w = w] that show ?thesis by simp
  qed (use that in auto)
  show "\<exists>x. own (snd (engine_create np order sd c s w)) \<subseteq> insert x (own w)"
    using engine_create_world [of np order sd c s w]
  proof (elim disjE exE)
    fix r assume e: "engine_create np order sd c s w = sd_create sd c r w"
    obtain q w1 where q: "sd_create sd c r w = (q, w1)" by fastforce
    with d [where c = c and r = r and w = w] have "\<exists>i. cts w1 \<subseteq>\<^sub>m (cts w)(i \<mapsto> cr_name r)"
      by (cases q) (auto intro: map_le_refl)
    then obtain i where "cts w1 \<subseteq>\<^sub>m (cts w)(i \<mapsto> cr_name r)" ..
    then have "dom (cts w1) \<subseteq> insert i (dom (cts w))" using map_le_implies_dom_le by fastforce
    with e q show ?thesis by (auto simp: own_def)
  qed (auto simp: own_def)
qed

text \<open>
  C19 (refinement). Over every daemon with the documented behaviour, the real engine is a client as
  the runtime needs it, so all that is proved of loads and unloads for such clients holds for it. And by
  name: a Create that succeeds adds a container of the name of the spec, with a fresh id, and keeps
  the others; a removal by name takes containers away only, when it reports success no container has
  that name, and on a live context it succeeds, also when the name was free all along.
\<close>

theorem engine_meets_contract:
  assumes "daemon_creates sd cts live" and "daemon_removes sd cts sound live" and "daemon_keeps sd cts"
    and "daemon_frame sd sound live"
  shows "docker_client (engine_docker new_port order sd) (\<lambda>w. dom (cts w)) sound live \<and>
    (\<forall>c s w cid w'. dk_create (engine_docker new_port order sd) c s w = (Inr cid, w') \<longrightarrow>
       cts w cid = None \<and> cts w' = (cts w)(cid \<mapsto> cs_name s)) \<and>
    (\<forall>c name w e w'. dk_remove_by_name (engine_docker new_port order sd) c name w = (e, w') \<longrightarrow>
       cts w' \<subseteq>\<^sub>m cts w \<and> (e = None \<longrightarrow> (\<forall>i. cts w' i \<noteq> Some name)) \<and> (sound w \<and> live c w' \<longrightarrow> e = None))"
proof (intro conjI)
  note creates = engine_creation [OF assms(1)]
  note removes = daemon_removal [OF assms(2)]
  note keeps = assms(3) [unfolded daemon_keeps_def, rule_format]
  have frame: "live CleanupCtx w \<and> (\<forall>w' \<in> {snd (sd_image_pull sd c x w), snd (sd_create sd c r w), snd (sd_start sd c x w),
      snd (sd_stop sd c x n w), snd (sd_remove_force sd c x w), snd (sd_image_remove_force sd c x w)}.
      sound w' = sound w \<and> (live d w' \<longrightarrow> live d w))" for c d r x n w
    using assms(4) unfolding daemon_frame_def by blast
  have sounds: "sound (snd (sd_image_pull sd c x w)) = sound w" "sound (snd (sd_create sd c r w)) = sound w"
    "sound (snd (sd_start sd c x w)) = sound w" "sound (snd (sd_stop sd c x n w)) = sound w"
    "sound (snd (sd_remove_force sd c x w)) = sound w" "sound (snd (sd_image_remove_force sd c x w)) = sound w" for c x r n w
    using frame [of w c x r n] by simp_all
  have lives: "live d (snd (sd_image_pull sd c x w)) \<Longrightarrow> live d w" "live d (snd (sd_create sd c r w)) \<Longrightarrow> live d w"
    "live d (snd (sd_start sd c x w)) \<Longrightarrow> live d w" "live d (snd (sd_stop sd c x n w)) \<Longrightarrow> live d w"
    "live d (snd (sd_remove_force sd c x w)) \<Longrightarrow> live d w" "live d (snd (sd_image_remove_force sd c x w)) \<Longrightarrow> live d w"
    for d c x r n w
    using frame [of w c x r n d] by blast+
  have created: "sound (snd (engine_create new_port order sd c s w)) = sound w"
      "live d (snd (engine_create new_port order sd c s w)) \<Longrightarrow> live d w" for c d s w
    using engine_create_world [of new_port order sd c s w] sounds(2) [of c _ w] lives(2) [of d c _ w] by auto
  note worlds = engine_docker_sel engine_worlds
  show "docker_client (engine_docker new_port order sd) (\<lambda>w. dom (cts w)) sound live"
    apply (rule docker_client.intro)
    subgoal by (simp only: worlds keeps)
    subgoal for c s w cid using creates(1) [of new_port order c s w cid] by (simp only: worlds) (auto simp: prod_eq_iff)
    subgoal for c s w e using creates(2) [of new_port order c s w e] by (simp only: worlds) (auto simp: prod_eq_iff)
    subgoal for c s w using creates(3) [of new_port order c s w] by (simp only: worlds)
    subgoal for c s w cid using creates(1) [of new_port order c s w cid] by (simp only: worlds) (auto simp: prod_eq_iff)
    subgoal by (simp only: worlds keeps)
    subgoal by (simp only: worlds keeps)
    subgoal by (simp only: worlds) (rule map_le_implies_dom_le [OF removes(1)])
    subgoal by (simp only: worlds engine_remove_def) (rule referenced_id [OF removes(2)])
    subgoal by (simp only: worlds) (rule referenced_id [OF daemon_removal_gone [OF assms(2)]])
    subgoal by (simp only: worlds keeps)
    subgoal by (simp only: worlds) (rule map_le_implies_dom_le [OF removes(1)])
    subgoal by (rule frame [THEN conjunct1])
    subgoal by (simp only: worlds sounds)
    subgoal by (simp only: worlds created(1))
    subgoal by (simp only: worlds sounds)
    subgoal by (simp only: worlds sounds)
    subgoal by (simp only: worlds sounds)
    subgoal by (simp only: worlds sounds)
    subgoal by (simp only: worlds sounds)
    subgoal by (simp only: worlds) (rule lives(1))
    subgoal by (simp only: worlds) (rule created(2))
    subgoal by (simp only: worlds) (rule lives(3))
    subgoal by (simp only: worlds) (rule lives(4))
    subgoal by (simp only: worlds) (rule lives(5))
    subgoal by (simp only: worlds) (rule lives(6))
    subgoal by (simp only: worlds) (rule lives(5))
    done
  show "\<forall>c s w cid w'. dk_create (engine_docker new_port order sd) c s w = (Inr cid, w') \<longrightarrow>
      cts w cid = None \<and> cts w' = (cts w)(cid \<mapsto> cs_name s)"
    using creates(1) by simp
  show "\<forall>c name w e w'. dk_remove_by_name (engine_docker new_port order sd) c name w = (e, w') \<longrightarrow>
      cts w' \<subseteq>\<^sub>m cts w \<and> (e = None \<longrightarrow> (\<forall>i. cts w' i \<noteq> Some name)) \<and> (sound w \<and> live c w' \<longrightarrow> e = None)"
    using engine_remove_by_name_effect [OF assms(2)] by (fastforce simp: referenced_def)
qed

text \<open>A daemon that keeps the set of names and answers with the name as the id.\<close>

definition name_daemon :: "string set docker_sdk" where
  "name_daemon =
     \<lparr>sd_ping = (\<lambda>c w. (None, w)), sd_network_list = (\<lambda>c w. (Inr [], w)), sd_network_create = (\<lambda>c n d l w. (None, w)),
      sd_hostname = (\<lambda>w. Inr []), sd_inspect = (\<lambda>c x w. Inl (Errorf ''no such container'' [])),
      sd_network_connect = (\<lambda>c n x w. (None, w)), sd_image_pull = (\<lambda>c x w. (Inr [PullEOF], w)),
      sd_create = (\<lambda>c r w. if cr_name r = [] \<or> cr_name r \<in> w then (Inl (Errorf ''conflict'' []), w)
                           else (Inr (cr_name r), insert (cr_name r) w)),
      sd_start = (\<lambda>c x w. (None, w)), sd_stop = (\<lambda>c x n w. (None, w)),
      sd_remove_force = (\<lambda>c x w. (if x \<in> w then None else Some (Errorf ''no such container'' []), w - {x})),
      sd_image_remove_force = (\<lambda>c x w. (None, w)), sd_logs = (\<lambda>c x n w. Inr ([], None)), sd_not_found = (\<lambda>e. True)\<rparr>"

definition names_as_ids :: "string set \<Rightarrow> string \<rightharpoonup> string" where
  "names_as_ids w i = (if i \<in> w then Some i else None)"

lemma names_as_ids_simps: "names_as_ids w i = None \<longleftrightarrow> i \<notin> w" "referenced (names_as_ids w) x = w \<inter> {x}"
  "names_as_ids (insert n w) = (names_as_ids w)(n \<mapsto> n)" "names_as_ids (w - v) \<subseteq>\<^sub>m names_as_ids w"
  by (auto simp: names_as_ids_def referenced_def map_le_def split: if_splits)

lemma name_daemon_documented:
  "daemon_creates name_daemon names_as_ids (\<lambda>c w. True)"
  "daemon_removes name_daemon names_as_ids (\<lambda>w. True) (\<lambda>c w. True)"
  "daemon_keeps name_daemon names_as_ids" "daemon_frame name_daemon (\<lambda>w. True) (\<lambda>c w. True)"
proof -
  have le': "names_as_ids w \<subseteq>\<^sub>m (names_as_ids w)(n \<mapsto> n)" for w n
    by (auto simp: map_le_def names_as_ids_def)
  show "daemon_creates name_daemon names_as_ids (\<lambda>c w. True)"
    by (auto simp: daemon_creates_def name_daemon_def names_as_ids_simps intro: le')
  show "daemon_removes name_daemon names_as_ids (\<lambda>w. True) (\<lambda>c w. True)"
    by (simp add: daemon_removes_def name_daemon_def names_as_ids_simps)
  show "daemon_keeps name_daemon names_as_ids" "daemon_frame name_daemon (\<lambda>w. True) (\<lambda>c w. True)"
    by (simp_all add: daemon_keeps_def daemon_frame_def name_daemon_def)
qed

theorem engine_meets_contract_witness:
  "docker_client (engine_docker (\<lambda>proto p. Inr (p @ ''/'' @ proto)) (\<lambda>m. []) name_daemon)
     (\<lambda>w. dom (names_as_ids w)) (\<lambda>w. True) (\<lambda>c w. True)"
  using engine_meets_contract [OF name_daemon_documented] by (rule conjunct1)

lemma trim_after_append: "sep \<notin> set a \<Longrightarrow> trim_after (a @ sep # b) sep = a"
  by (induction a) auto

lemma slash_not_in_itoa: "CHR ''/'' \<notin> set (itoa n)"
proof -
  have "CHR ''/'' \<notin> set (nat_str k)" for k
    using nat_str_digits [of k] by (auto simp: list_all_iff is_digit_def)
  then show ?thesis by (auto simp: itoa_def)
qed

text \<open>
  C20 (functional). What the runtime hands to the engine reaches the daemon unchanged: for a plan that
  has a spec, the container is created with the plan's name, image, command, entry point, environment
  and mounts, never restarted by the daemon, labelled as the worker's, attached to the worker's
  network and to no other, its port published on the loopback
  interface only, on the plan's host port, and exactly the plan's GPUs requested, by their CDI names;
  a plan without GPUs requests none.
\<close>

theorem plan_reaches_daemon:
  assumes "build_container_spec p net = Inr s"
    and "new_port ''tcp'' (itoa (pl_container_port p)) = Inr (itoa (pl_container_port p) @ ''/tcp'')"
    and "set (order (pl_env p)) = {(k, v). pl_env p k = Some v}"
  shows "\<exists>r. engine_create new_port order sd c s w = sd_create sd c r w \<and>
    cr_name r = pl_container_name p \<and> cr_image r = pl_image p \<and> cr_cmd r = pl_cmd p \<and>
    cr_entrypoint r = pl_entrypoint p \<and> cr_mounts r = pl_mounts p \<and> cr_endpoints r = [(net, net)] \<and>
    cr_restart_policy r = ''no'' \<and> cr_shm_size r = pl_shm_size p \<and>
    cr_labels r ''inferia.managed_by'' = Some ''inferia-worker'' \<and>
    set (cr_env r) = {k @ ''='' @ v | k v. pl_env p k = Some v} \<and>
    cr_port_bindings r = [(itoa (pl_container_port p) @ ''/tcp'', [(''127.0.0.1'', itoa (pl_host_port p))])] \<and>
    concat (map snd (cr_device_requests r)) = map (\<lambda>g. ''nvidia.com/gpu='' @ itoa g) (pl_gpu_indices p) \<and>
    (cr_device_requests r = [] \<longleftrightarrow> pl_gpu_indices p = [])"
proof -
  from assms(1) have s: "cs_restart_policy s = ''no''" "cs_shm_size s = pl_shm_size p"
    "cs_labels s ''inferia.managed_by'' = Some ''inferia-worker''" "cs_entrypoint s = pl_entrypoint p" "cs_mounts s = pl_mounts p" "cs_network_name s = net"
    "cs_name s = pl_container_name p" "cs_image s = pl_image p" "cs_cmd s = pl_cmd p" "cs_env s = pl_env p"
    "cs_port_binding s = \<lparr>pb_host_ip = ''127.0.0.1'', pb_host_port = itoa (pl_host_port p),
       pb_container_port = itoa (pl_container_port p) @ ''/tcp''\<rparr>"
    "cs_gpu_device_ids s = map (\<lambda>g. ''nvidia.com/gpu='' @ itoa g) (pl_gpu_indices p)"
    by (auto simp: build_container_spec_def split: if_splits)
  let ?r = "create_request_of order (itoa (pl_container_port p) @ ''/tcp'') s"
  have "trim_after (itoa (pl_container_port p) @ ''/tcp'') (CHR ''/'') = itoa (pl_container_port p)"
    using trim_after_append [OF slash_not_in_itoa, of "pl_container_port p" "''tcp''"] by simp
  then have "engine_create new_port order sd c s w = sd_create sd c ?r w"
    using assms(2) by (simp add: engine_create_def s)
  moreover have "set (cr_env ?r) = {k @ ''='' @ v | k v. pl_env p k = Some v}"
    using assms(3) by (auto simp: create_request_of_def s)
  ultimately show ?thesis
    by (intro exI [of _ ?r]) (simp add: create_request_of_def s)
qed

definition engine_sample_plan :: plan where
  "engine_sample_plan =
     \<lparr>pl_image = ''img'', pl_container_name = ''m'', pl_cmd = [''serve''], pl_entrypoint = [], pl_env = [''A'' \<mapsto> ''1''],
      pl_mounts = [], pl_container_port = 8000, pl_host_port = 19000, pl_gpu_indices = [0, 2], pl_shm_size = 0,
      pl_ready_path = ''/health'', pl_readiness_timeout = 0\<rparr>"

theorem plan_reaches_daemon_witness:
  "\<exists>s r. build_container_spec engine_sample_plan ''net'' = Inr s \<and>
     engine_create (\<lambda>proto p. Inr (p @ ''/'' @ proto)) (\<lambda>m. [(''A'', ''1'')]) name_daemon RequestCtx s {} =
       sd_create name_daemon RequestCtx r {} \<and>
     cr_endpoints r = [(''net'', ''net'')] \<and> set (cr_env r) = {''A=1''} \<and> concat (map snd (cr_device_requests r)) = [''nvidia.com/gpu='' @ itoa 0, ''nvidia.com/gpu='' @ itoa 2]"
proof -
  let ?np = "\<lambda>proto p. Inr (p @ ''/'' @ proto) :: go_error + string"
  obtain s where s: "build_container_spec engine_sample_plan ''net'' = Inr s"
    by (simp add: build_container_spec_def engine_sample_plan_def)
  have "set [(''A'', ''1'')] = {(k, v). pl_env engine_sample_plan k = Some v}"
    by (auto simp: engine_sample_plan_def split: if_splits)
  from plan_reaches_daemon [where order = "\<lambda>m. [(''A'', ''1'')]" and new_port = ?np and sd = name_daemon and c = RequestCtx
      and w = "{}", OF s _ this]
  obtain r where r: "engine_create ?np (\<lambda>m. [(''A'', ''1'')]) name_daemon RequestCtx s {} = sd_create name_daemon RequestCtx r {}"
    "set (cr_env r) = {k @ ''='' @ v | k v. pl_env engine_sample_plan k = Some v}"
    "cr_endpoints r = [(''net'', ''net'')]"
    "concat (map snd (cr_device_requests r)) = map (\<lambda>g. ''nvidia.com/gpu='' @ itoa g) (pl_gpu_indices engine_sample_plan)"
    by auto
  have "set (cr_env r) = {''A=1''}"
    unfolding r(2) by (auto simp: engine_sample_plan_def split: if_splits)
  moreover have "concat (map snd (cr_device_requests r)) = [''nvidia.com/gpu='' @ itoa 0, ''nvidia.com/gpu='' @ itoa 2]"
    unfolding r(4) by (simp add: engine_sample_plan_def)
  ultimately show ?thesis using s r(1,3) by blast
qed

end
