(* ===== verification/Admin.thy ===== *)
theory Admin imports Sessions Tunnel Config_Env begin

text \<open>
  The operator endpoints (internal/admin/admin.go): a WebSocket for the logs of a model container and
  one for an interactive shell. A query string is a function that answers the empty string for a
  missing parameter; the frames written to a connection are values, in order.
\<close>

section \<open>Choosing the container\<close>

record container_lookup =
  look_by_deployment :: "string \<Rightarrow> string"
  look_most_recent :: string

text \<open>The container and an error text, one of them empty.\<close>

definition resolve_container_core :: "getter \<Rightarrow> rt_view \<Rightarrow> container_lookup \<Rightarrow> string \<times> string" where
  "resolve_container_core q v look =
     (let by_deployment = (\<lambda>dep.
            if rv_container v dep \<noteq> [] then (rv_container v dep, [])
            else if look_by_deployment look dep \<noteq> [] then (look_by_deployment look dep, [])
            else ([], go_sprintf ''deployment %q has no running container'' [FStr dep]))
      in if q ''container'' \<noteq> [] then (q ''container'', [])
         else if q ''deployment'' = [] then
           (case rv_loaded v of
              [] \<Rightarrow> if look_most_recent look \<noteq> [] then (look_most_recent look, [])
                    else ([], ''no active deployment on this worker'')
            | d # _ \<Rightarrow> by_deployment d)
         else by_deployment (q ''deployment''))"

section \<open>Logs\<close>

datatype admin_frame =
    FrameError string
  | FrameLog string string
  | FrameEnd string
  | FrameOutput string
  | FrameExit int string
  | FrameFailed string

text \<open>
  The frames of a log connection. \<open>stream\<close> is what the backend delivers: lines with the name of their
  stream, whether the client left first, and the end.
\<close>

definition admin_logs ::
  "container_lister \<Rightarrow> rt_view \<Rightarrow> getter \<Rightarrow> (logs_backend \<Rightarrow> (string \<times> string) list \<times> bool \<times> string \<times> go_error option)
   \<Rightarrow> admin_frame list" where
  "admin_logs cli v q stream =
     (case resolve_container cli (Some v) (q ''container'') (q ''deployment'') of
        Inl e \<Rightarrow> [FrameError (err_text e)]
      | Inr cid \<Rightarrow>
          (case start_logs_with (Some (\<lambda>cfg. Inr (new_docker_logs_backend cid (lc_tail cfg))))
                  \<lparr>lc_deployment = [], lc_container = cid, lc_tail = 200\<rparr> of
             Inl e \<Rightarrow> [FrameError (err_text e)]
           | Inr (cfg, b) \<Rightarrow>
               (let (lines, closed, reason, e) = stream b
                in map (\<lambda>(s, l). FrameLog s l) lines @
                   (case logs_end closed reason e of None \<Rightarrow> [] | Some r \<Rightarrow> [FrameEnd r]))))"

section \<open>The shell\<close>

text \<open>\<open>toInt\<close>: \<open>far\<close> is the conversion of a float64 outside the range of \<open>int\<close>, which Go leaves open.\<close>

fun float_to_int :: "(f64 \<Rightarrow> int) \<Rightarrow> f64 \<Rightarrow> int" where
  "float_to_int far (Dec m s) =
     (let n = sgn m * (\<bar>m\<bar> div 10 ^ s) in if - (2 ^ 63) \<le> n \<and> n < 2 ^ 63 then n else far (Dec m s))"

definition to_int :: "(f64 \<Rightarrow> int) \<Rightarrow> go_any option \<Rightarrow> int \<times> bool" where
  "to_int far v =
     (case v of
        Some (AScalar (SF64 x)) \<Rightarrow> (float_to_int far x, True)
      | Some (AScalar (SInt n)) \<Rightarrow> (n, True)
      | Some (AScalar (SInt64 n)) \<Rightarrow> (n, True)
      | _ \<Rightarrow> (0, False))"

definition to_str :: "go_any option \<Rightarrow> string" where
  "to_str v = (case v of Some (AScalar (SStr s)) \<Rightarrow> s | _ \<Rightarrow> [])"

datatype shell_action = ActInput string | ActResize "16 word" "16 word"

text \<open>
  What a message asks of the session. \<open>decode\<close> is \<open>json.Unmarshal\<close> into a map; the document null
  yields an empty one.
\<close>

definition shell_message :: "(string \<Rightarrow> (string \<rightharpoonup> go_any) option) \<Rightarrow> (f64 \<Rightarrow> int) \<Rightarrow> string \<Rightarrow> shell_action list" where
  "shell_message decode far msg =
     (case decode msg of
        None \<Rightarrow> [ActInput msg]
      | Some env \<Rightarrow>
          (let t = to_str (env ''type'') in
           if t = ''stdin'' then
             (let data = to_str (env ''data'') in if data \<noteq> [] then [ActInput data] else [])
           else if t = ''resize'' then
             (let rows = fst (to_int far (env ''rows'')); cols = fst (to_int far (env ''cols''))
              in if rows > 0 \<and> cols > 0 then [ActResize (of_int cols) (of_int rows)] else [])
           else [ActInput msg]))"

text \<open>Where the shell runs: \<open>None\<close> is the host.\<close>

definition admin_shell_target :: "container_lister \<Rightarrow> rt_view \<Rightarrow> getter \<Rightarrow> go_error + string option" where
  "admin_shell_target cli v q =
     (let hostMode = q ''container'' = [] \<and> q ''deployment'' = [] in
      if hostMode then Inr None
      else case resolve_container cli (Some v) (q ''container'') (q ''deployment'') of
             Inl e \<Rightarrow> Inl e | Inr cid \<Rightarrow> Inr (Some cid))"

definition admin_shell_config :: "getter \<Rightarrow> string option \<Rightarrow> shell_session_config" where
  "admin_shell_config q target =
     \<lparr>cfg_shell = (if q ''shell'' = [] then ''/bin/bash'' else q ''shell''), cfg_user = q ''user'', cfg_deployment = [],
      cfg_container = (case target of None \<Rightarrow> [] | Some cid \<Rightarrow> cid), cfg_cols = 0, cfg_rows = 0\<rparr>"

fun event_frame :: "shell_event \<Rightarrow> admin_frame" where
  "event_frame (OnOutput d) = FrameOutput d"
| "event_frame (OnExit code reason) = FrameExit code reason"
| "event_frame (OnError m) = FrameFailed m"

text \<open>
  A shell connection: the frames written, what was asked of the session and the world after the start.
  \<open>events\<close> is what the read pump reports of a session with its configuration, \<open>msgs\<close> the messages up
  to the first failing read.
\<close>

definition admin_shell ::
  "container_lister \<Rightarrow> rt_view \<Rightarrow> getter \<Rightarrow> 'w shell_backend \<Rightarrow> (string \<Rightarrow> 'w shell_backend)
   \<Rightarrow> (string \<Rightarrow> (string \<rightharpoonup> go_any) option) \<Rightarrow> (f64 \<Rightarrow> int) \<Rightarrow> (shell_session_config \<Rightarrow> shell_event list) \<Rightarrow> string list \<Rightarrow> 'w
   \<Rightarrow> admin_frame list \<times> shell_action list \<times> 'w" where
  "admin_shell cli v q host docker decode far events msgs w =
     (case admin_shell_target cli v q of
        Inl e \<Rightarrow> ([FrameError (err_text e)], [], w)
      | Inr target \<Rightarrow>
          (case start_shell_with (Some (\<lambda>cfg. Inr (case target of None \<Rightarrow> host | Some cid \<Rightarrow> docker cid)))
                  (admin_shell_config q target) w of
             (Inl e, w) \<Rightarrow> ([FrameError (err_text e)], [], w)
           | (Inr cfg, w) \<Rightarrow> (map event_frame (events cfg), concat (map (shell_message decode far) msgs), w)))"

section \<open>Properties\<close>

definition core_result :: "go_error + string \<Rightarrow> string \<times> string" where
  "core_result r = (case r of Inl e \<Rightarrow> ([], err_text e) | Inr cid \<Rightarrow> (cid, []))"

definition docker_lookup :: "container_lister \<Rightarrow> container_lookup" where
  "docker_lookup cli = \<lparr>look_by_deployment = lookup_by_deployment_id cli, look_most_recent = lookup_most_recent cli\<rparr>"

text \<open>
  (equivalence). \<open>resolveContainerCore\<close>, which the tests exercise, agrees with \<open>ResolveContainer\<close>,
  which the endpoints use, whenever the request names a target or the first loaded deployment has a
  container. Otherwise they differ: with an untargeted request and a first deployment that is still
  being loaded, the core looks for that deployment's container only, while the endpoint falls back to
  the most recent container of any deployment.
\<close>

theorem resolvers_agree:
  assumes "q ''container'' \<noteq> [] \<or> q ''deployment'' \<noteq> [] \<or> rv_loaded v = [] \<or> rv_container v (hd (rv_loaded v)) \<noteq> []"
  shows "resolve_container_core q v (docker_lookup cli) =
    core_result (resolve_container cli (Some v) (q ''container'') (q ''deployment''))"
  using assms
  by (cases "rv_loaded v")
    (auto simp: resolve_container_core_def resolve_container_def core_result_def docker_lookup_def no_container_def no_deployment_def Let_def)

theorem resolvers_agree_witness:
  "resolve_container_core (\<lambda>k. if k = ''deployment'' then ''d'' else []) \<lparr>rv_container = (\<lambda>d. ''c'' @ d), rv_loaded = [''e'']\<rparr>
     (docker_lookup None) = (''cd'', [])"
  by (subst resolvers_agree) (simp_all add: core_result_def resolve_container_def)

lemma resolvers_differ:
  assumes "q ''container'' = []" "q ''deployment'' = []" "rv_loaded v = d # ds" "rv_container v d = []"
    and "lookup_by_deployment_id cli d = []" "lookup_most_recent cli = cid" "cid \<noteq> []"
  shows "fst (resolve_container_core q v (docker_lookup cli)) = [] \<and>
    resolve_container cli (Some v) (q ''container'') (q ''deployment'') = Inr cid"
  using assms by (simp add: resolve_container_core_def resolve_container_def docker_lookup_def Let_def)

text \<open>
  (equivalence). The two ways to a shell choose the same place: for the same container, deployment,
  shell and user, the endpoint opens a shell on the host exactly when the control channel does,
  and a shell in the container that the channel's default backend resolves otherwise, with the same
  command and user.
\<close>

theorem admin_shell_matches_channel:
  assumes "q ''container'' = so_container_id b" and "q ''deployment'' = so_deployment_id b"
    and "q ''shell'' = so_shell b" and "q ''user'' = so_user b"
  shows "(admin_shell_target cli v q = Inr None \<longleftrightarrow> starter_of b = StartHostShell) \<and>
    (starter_of b = StartShell \<longrightarrow>
       admin_shell_target cli v q = map_sum (\<lambda>e. e) Some (default_spawn cli (Some v) (shell_config_of b))) \<and>
    cfg_user (admin_shell_config q t) = cfg_user (shell_config_of b) \<and>
    build_nsenter_cmd (admin_shell_config q t) = build_nsenter_cmd (shell_config_of b)"
  using assms
  by (auto simp: admin_shell_target_def starter_of_def default_spawn_def shell_config_of_def admin_shell_config_def
      build_nsenter_cmd_def Let_def split: sum.splits)

definition sample_open :: shell_open_body where
  "sample_open = \<lparr>so_stream_id = ''s'', so_shell = [], so_user = ''root'', so_deployment_id = [], so_container_id = [],
     so_cols = 80, so_rows = 24\<rparr>"

theorem admin_shell_matches_channel_witness:
  "admin_shell_target None \<lparr>rv_container = (\<lambda>_. []), rv_loaded = []\<rparr> (\<lambda>k. if k = ''user'' then ''root'' else []) = Inr None \<and>
   starter_of sample_open = StartHostShell"
proof -
  let ?q = "\<lambda>k. if k = ''user'' then ''root'' else []"
  have "starter_of sample_open = StartHostShell" by (simp add: starter_of_def sample_open_def)
  with admin_shell_matches_channel [of ?q sample_open None "\<lparr>rv_container = (\<lambda>_. []), rv_loaded = []\<rparr>" None]
  show ?thesis by (simp add: sample_open_def)
qed

text \<open>
  (bounds). A resize message of the endpoint is converted to 16 bits without a check: sizes up to
  65535 give what the control channel gives, larger ones wrap around, where the channel would have
  ignored them; a message whose size is not positive is dropped.
\<close>

theorem admin_resize_wraps:
  assumes "decode msg = Some env" and "to_str (env ''type'') = ''resize''"
    and "to_int far (env ''cols'') = (cols, bc)" and "to_int far (env ''rows'') = (rows, br)"
  shows "shell_message decode far msg =
      (if 0 < cols \<and> 0 < rows then [ActResize (word_of_int (cols mod 65536)) (word_of_int (rows mod 65536))] else []) \<and>
    (0 < cols \<and> cols \<le> 65535 \<longrightarrow> word_of_int (cols mod 65536) = uint16safe cols) \<and>
    (65535 < cols \<longrightarrow> uint16safe cols = 0)"
proof -
  have "(of_int n :: 16 word) = word_of_int (n mod 65536)" for n
    by (rule word_uint_eqI) (simp add: uint_word_of_int)
  then show ?thesis using assms by (auto simp: shell_message_def uint16safe_def Let_def)
qed

theorem admin_resize_wraps_witness:
  "shell_message (\<lambda>m. Some [''type'' \<mapsto> AScalar (SStr ''resize''), ''cols'' \<mapsto> AScalar (SF64 (Dec 65616 0)),
       ''rows'' \<mapsto> AScalar (SF64 (Dec 24 0))]) (\<lambda>_. 0) [] = [ActResize 80 24] \<and> uint16safe 65616 = 0"
  using admin_resize_wraps [where msg = "[]" and far = "\<lambda>_. 0" and cols = 65616 and rows = 24
      and decode = "\<lambda>m. Some [''type'' \<mapsto> AScalar (SStr ''resize''), ''cols'' \<mapsto> AScalar (SF64 (Dec 65616 0)),
       ''rows'' \<mapsto> AScalar (SF64 (Dec 24 0))]"]
  by (simp add: to_str_def to_int_def)

end
