(* ===== verification/Host_Telemetry.thy ===== *)
theory Host_Telemetry imports Telemetry Protocol begin

text \<open>
  The readings of a heartbeat (type hostTelemetry of cmd/worker/main.go): the state that turns
  cumulative counters into rates, and the sample built from one round of readings. An error of a
  reader is ignored and its value is the zero value. Times are nanoseconds; rates and percentages are
  exact rationals where the code computes with float64.
\<close>

record host_readings =
  hr_cpu :: "go_error + cpu_info"
  hr_mem :: "go_error + mem_info"
  hr_gpus :: "gpu_info list"
  hr_net :: "go_error + counters"
  hr_disk :: "go_error + counters"
  hr_now :: int

record host_telemetry =
  ht_prev_net :: counters
  ht_prev_disk :: counters
  ht_prev_ts :: int
  ht_have_base :: bool

definition new_host_telemetry :: host_telemetry where
  "new_host_telemetry = \<lparr>ht_prev_net = (0, 0), ht_prev_disk = (0, 0), ht_prev_ts = 0, ht_have_base = False\<rparr>"

definition value_or :: "'a \<Rightarrow> go_error + 'a \<Rightarrow> 'a" where
  "value_or z r = (case r of Inl e \<Rightarrow> z | Inr x \<Rightarrow> x)"

definition no_cpu :: cpu_info where "no_cpu = \<lparr>cpu_cores = 0, cpu_used_percent = 0\<rparr>"
definition no_mem :: mem_info where "no_mem = \<lparr>mi_total = 0, mi_used = 0\<rparr>"

text \<open>\<open>%.2f\<close> of a value that is not negative, ties to even.\<close>

definition format_2f :: "rat \<Rightarrow> string" where
  "format_2f x =
     (let q = \<lfloor>x * 100\<rfloor>; r = x * 100 - of_int q;
          n = (if r < 1 / 2 \<or> (r = 1 / 2 \<and> even q) then q else q + 1)
      in itoa (n div 100) @ ''.'' @ pad_left 2 (nat_str (nat (n mod 100))))"

definition interval_seconds :: "int \<Rightarrow> int \<Rightarrow> rat" where
  "interval_seconds t1 t2 = of_int (t2 - t1) / 1000000000"

text \<open>The rates since the last sample; none for the first one.\<close>

definition rates_since :: "bool \<Rightarrow> counters \<Rightarrow> counters \<Rightarrow> rat \<Rightarrow> rat \<times> rat" where
  "rates_since have_base cur prev dt =
     (if have_base then (derive_rate (fst cur) (fst prev) dt, derive_rate (snd cur) (snd prev) dt) else (0, 0))"

definition gpu_samples :: "gpu_info list \<Rightarrow> gpu_sample list" where
  "gpu_samples gpus =
     map (\<lambda>(i, g). \<lparr>gs_index = i, gs_name = gi_name g, gs_util_pct = gi_util g, gs_mem_used_mib = gi_used_mib g,
                    gs_mem_total_mib = gi_total_mib g\<rparr>) (enumerate 0 gpus)"

definition telemetry_read :: "host_readings \<Rightarrow> host_telemetry \<Rightarrow> ((string \<rightharpoonup> string) \<times> metrics_sample) \<times> host_telemetry" where
  "telemetry_read r h =
     (let cpu = value_or no_cpu (hr_cpu r); mem = value_or no_mem (hr_mem r);
          used = [''cpu_pct'' \<mapsto> format_2f (cpu_used_percent cpu), ''mem_used'' \<mapsto> nat_str (unat (mi_used mem)),
                  ''gpu'' \<mapsto> nat_str (length (hr_gpus r))];
          netc = value_or (0, 0) (hr_net r); diskc = value_or (0, 0) (hr_disk r);
          dt = interval_seconds (ht_prev_ts h) (hr_now r);
          (netRx, netTx) = rates_since (ht_have_base h) netc (ht_prev_net h) dt;
          (dRead, dWrite) = rates_since (ht_have_base h) diskc (ht_prev_disk h) dt
      in ((used,
           \<lparr>ms_ts = hr_now r, ms_cpu_pct = cpu_used_percent cpu, ms_mem_used_bytes = mi_used mem,
            ms_mem_total_bytes = mi_total mem, ms_net_rx_bps = netRx, ms_net_tx_bps = netTx,
            ms_disk_read_bps = dRead, ms_disk_write_bps = dWrite, ms_gpus = gpu_samples (hr_gpus r)\<rparr>),
          \<lparr>ht_prev_net = netc, ht_prev_disk = diskc, ht_prev_ts = hr_now r, ht_have_base = True\<rparr>))"

section \<open>Properties\<close>

lemma telemetry_read_state:
  "snd (telemetry_read r h) =
     \<lparr>ht_prev_net = value_or (0, 0) (hr_net r), ht_prev_disk = value_or (0, 0) (hr_disk r), ht_prev_ts = hr_now r, ht_have_base = True\<rparr>"
  by (simp add: telemetry_read_def Let_def split_def)

lemma telemetry_read_net:
  "ms_net_rx_bps (snd (fst (telemetry_read r h))) =
     (if ht_have_base h
      then derive_rate (fst (value_or (0, 0) (hr_net r))) (fst (ht_prev_net h)) (interval_seconds (ht_prev_ts h) (hr_now r)) else 0)"
  by (simp add: telemetry_read_def Let_def split_def rates_since_def)

lemma derive_rate_nonneg: "0 \<le> derive_rate cur prev dt"
  using derive_rate_spec [of cur prev dt] by (rule conjunct1)

lemma rate_over_interval:
  assumes "t1 < t2" and "prev \<le> cur"
  shows "derive_rate cur prev (interval_seconds t1 t2) * of_int (t2 - t1) = 1000000000 * of_int (uint cur - uint prev)"
proof -
  have dt: "0 < interval_seconds t1 t2" "(of_int (t2 - t1) :: rat) = interval_seconds t1 t2 * 1000000000"
    using assms(1) by (simp_all add: interval_seconds_def)
  have "derive_rate cur prev (interval_seconds t1 t2) * interval_seconds t1 t2 = of_int (uint cur - uint prev)"
    using derive_rate_spec [of cur prev "interval_seconds t1 t2"] dt(1) assms(2) by (simp only: if_True simp_thms)
  then show ?thesis unfolding dt(2) by (simp only: mult.assoc [symmetric] mult.commute)
qed

lemma rates_since_nonneg: "0 \<le> fst (rates_since b c p dt) \<and> 0 \<le> snd (rates_since b c p dt)"
  by (simp add: rates_since_def derive_rate_nonneg)

text \<open>
  (bounds). The rates a worker reports are never negative, whatever the counters do; the first sample
  reports none; and of two consecutive samples whose network readings succeed the second reports the
  growth of the received bytes per second when they grew over a positive interval, and zero otherwise.
\<close>

theorem reported_rates:
  assumes "hr_net r1 = Inr (rx1, tx1)" and "hr_net r2 = Inr (rx2, tx2)"
    and "telemetry_read r1 h = (q1, h1)" and "telemetry_read r2 h1 = ((used, s), h2)"
  shows "0 \<le> ms_net_rx_bps s \<and> 0 \<le> ms_net_tx_bps s \<and> 0 \<le> ms_disk_read_bps s \<and> 0 \<le> ms_disk_write_bps s \<and>
    (if hr_now r1 < hr_now r2 \<and> rx1 \<le> rx2
     then ms_net_rx_bps s * of_int (hr_now r2 - hr_now r1) = 1000000000 * of_int (uint rx2 - uint rx1)
     else ms_net_rx_bps s = 0) \<and>
    ms_net_rx_bps (snd (fst (telemetry_read r1 new_host_telemetry))) = 0"
proof -
  have h1: "ht_have_base h1" "ht_prev_net h1 = (rx1, tx1)" "ht_prev_ts h1 = hr_now r1"
    using telemetry_read_state [of r1 h] assms(1,3) by (simp_all add: value_or_def)
  have rx: "ms_net_rx_bps s = derive_rate rx2 rx1 (interval_seconds (hr_now r1) (hr_now r2))"
    using telemetry_read_net [of r2 h1] assms(2,4) h1 by (simp add: value_or_def)
  have s: "s = snd (fst (telemetry_read r2 h1))" using assms(4) by simp
  have nonneg: "0 \<le> ms_net_rx_bps s" "0 \<le> ms_net_tx_bps s" "0 \<le> ms_disk_read_bps s" "0 \<le> ms_disk_write_bps s"
    unfolding s telemetry_read_def Let_def split_def by (simp_all add: rates_since_nonneg)
  have first: "ms_net_rx_bps (snd (fst (telemetry_read r1 new_host_telemetry))) = 0"
    by (simp add: telemetry_read_net new_host_telemetry_def)
  have "if hr_now r1 < hr_now r2 \<and> rx1 \<le> rx2
     then ms_net_rx_bps s * of_int (hr_now r2 - hr_now r1) = 1000000000 * of_int (uint rx2 - uint rx1)
     else ms_net_rx_bps s = 0"
  proof (cases "hr_now r1 < hr_now r2 \<and> rx1 \<le> rx2")
    case True
    with rate_over_interval [of "hr_now r1" "hr_now r2" rx1 rx2] show ?thesis by (simp only: rx if_True simp_thms)
  next
    case False
    then have "interval_seconds (hr_now r1) (hr_now r2) \<le> 0 \<or> rx2 < rx1"
      by (auto simp: interval_seconds_def divide_le_0_iff)
    with False show ?thesis by (auto simp: rx derive_rate_def)
  qed
  with nonneg first show ?thesis by blast
qed

definition quiet_host :: "go_error + counters \<Rightarrow> int \<Rightarrow> host_readings" where
  "quiet_host net now =
     \<lparr>hr_cpu = Inl (Errorf ''no /proc/stat'' []), hr_mem = Inl (Errorf ''no /proc/meminfo'' []), hr_gpus = [], hr_net = net,
      hr_disk = Inr (0, 0), hr_now = now\<rparr>"

theorem reported_rates_witness:
  "ms_net_rx_bps (snd (fst (telemetry_read (quiet_host (Inr (3000, 0)) 2000000000)
     (snd (telemetry_read (quiet_host (Inr (1000, 0)) 1000000000) new_host_telemetry))))) = 2000"
proof -
  let ?r1 = "quiet_host (Inr (1000, 0)) 1000000000" and ?r2 = "quiet_host (Inr (3000, 0)) 2000000000"
  obtain q1 h1 where a: "telemetry_read ?r1 new_host_telemetry = (q1, h1)" by fastforce
  obtain used s h2 where b: "telemetry_read ?r2 h1 = ((used, s), h2)" by (metis surj_pair)
  have "hr_net ?r1 = Inr (1000, 0)" "hr_net ?r2 = Inr (3000, 0)" "hr_now ?r1 = 1000000000" "hr_now ?r2 = 2000000000"
    by (simp_all add: quiet_host_def)
  then have "ms_net_rx_bps s = 2000" using reported_rates [OF _ _ a b, of 1000 0 3000 0] by simp
  with a b show ?thesis by simp
qed

text \<open>
  (error). A failed reading of the network counters is stored as a sample of zero: the next
  successful one reports everything received since the host started as if it had arrived within one
  heartbeat.
\<close>

theorem failed_reading_reports_spike:
  assumes "hr_net r1 = Inl e" and "hr_net r2 = Inr (rx, tx)" and "hr_now r1 < hr_now r2"
    and "telemetry_read r1 h = (q1, h1)" and "telemetry_read r2 h1 = ((used, s), h2)"
  shows "ms_net_rx_bps s * of_int (hr_now r2 - hr_now r1) = 1000000000 * of_int (uint rx)"
proof -
  have h1: "ht_have_base h1" "ht_prev_net h1 = (0, 0)" "ht_prev_ts h1 = hr_now r1"
    using telemetry_read_state [of r1 h] assms(1,4) by (simp_all add: value_or_def)
  have "ms_net_rx_bps s = derive_rate rx 0 (interval_seconds (hr_now r1) (hr_now r2))"
    using telemetry_read_net [of r2 h1] assms(2,5) h1 by (simp add: value_or_def)
  then show ?thesis using rate_over_interval [OF assms(3), of 0 rx] by simp
qed

theorem failed_reading_reports_spike_witness:
  "ms_net_rx_bps (snd (fst (telemetry_read (quiet_host (Inr (7000000000, 0)) 6000000000)
     (snd (telemetry_read (quiet_host (Inl (Errorf ''open /proc/net/dev'' [])) 5000000000) new_host_telemetry))))) = 7000000000"
proof -
  let ?r1 = "quiet_host (Inl (Errorf ''open /proc/net/dev'' [])) 5000000000" and ?r2 = "quiet_host (Inr (7000000000, 0)) 6000000000"
  obtain q1 h1 where a: "telemetry_read ?r1 new_host_telemetry = (q1, h1)" by fastforce
  obtain used s h2 where b: "telemetry_read ?r2 h1 = ((used, s), h2)" by (metis surj_pair)
  have "hr_net ?r1 = Inl (Errorf ''open /proc/net/dev'' [])" "hr_net ?r2 = Inr (7000000000, 0)"
    "hr_now ?r1 = 5000000000" "hr_now ?r2 = 6000000000"
    by (simp_all add: quiet_host_def)
  then have "ms_net_rx_bps s = 7000000000" using failed_reading_reports_spike [of ?r1 _ ?r2 7000000000 0, OF _ _ _ a b] by simp
  with a b show ?thesis by simp
qed

end
