(* ===== verification/Worker.thy ===== *)
theory Worker imports Cloudenv Docker_Engine Admin Proxy Telemetry begin

text \<open>
  The process (cmd/worker/main.go, internal/healthz): what boot decides from the environment, the token
  file and the control plane, and the chain of HTTP handlers it installs. A fatal log line ends the
  boot with its text. Files are the map of \<open>Auth\<close>; what the boot reads of the host is an argument.
\<close>

section \<open>What is told to the control plane\<close>

text \<open>\<open>Sscanf\<close> of one \<open>%d\<close> on trimmed text: a sign and digits; what follows them is not read.\<close>

definition scan_decimal :: "string \<Rightarrow> int option" where
  "scan_decimal s =
     (let neg = has_prefix s ''-'';
          ds = takeWhile is_digit (if neg \<or> has_prefix s ''+'' then tl s else s);
          v = (if neg then - int (digits_val ds) else int (digits_val ds))
      in if ds = [] then None else if - (2 ^ 63) \<le> v \<and> v < 2 ^ 63 then Some v else None)"

definition gpu_override :: "getter \<Rightarrow> string" where
  "gpu_override getenv = trim_space (getenv ''ALLOCATABLE_GPU_OVERRIDE'')"

definition allocatable :: "getter \<Rightarrow> gpu_info list \<Rightarrow> mem_info \<Rightarrow> nat \<Rightarrow> (string \<rightharpoonup> string)" where
  "allocatable getenv gpus mem cores =
     (let a = [''cpu'' \<mapsto> nat_str cores, ''memory_gb'' \<mapsto> nat_str (unat (mi_total mem div (1024 * 1024 * 1024))),
               ''gpu'' \<mapsto> nat_str (length gpus), ''gpu_models'' \<mapsto> str_join ''|'' (map gi_name gpus)];
          a = (if gpu_override getenv \<noteq> [] then a(''gpu'' \<mapsto> gpu_override getenv) else a);
          models = trim_space (getenv ''ALLOCATABLE_GPU_MODELS_OVERRIDE'')
      in if models \<noteq> [] then a(''gpu_models'' \<mapsto> models) else a)"

definition total_gpus :: "getter \<Rightarrow> gpu_info list \<Rightarrow> int" where
  "total_gpus getenv gpus =
     (if gpu_override getenv \<noteq> []
      then (case scan_decimal (gpu_override getenv) of Some n \<Rightarrow> n | None \<Rightarrow> int (length gpus))
      else int (length gpus))"

definition gpu_config :: "getter \<Rightarrow> gpu_info list \<Rightarrow> dispatcher_config" where
  "gpu_config getenv gpus =
     \<lparr>dc_gpu_name = (case gpus of [] \<Rightarrow> [] | g # _ \<Rightarrow> gi_name g),
      dc_gpu_mem_mib = (case gpus of [] \<Rightarrow> 0 | g # _ \<Rightarrow> gi_total_mib g),
      dc_total_gpus = total_gpus getenv gpus\<rparr>"

definition to_ws :: "string \<Rightarrow> string" where
  "to_ws u =
     (if has_prefix u ''https://'' then ''wss://'' @ drop 8 u
      else if has_prefix u ''http://'' then ''ws://'' @ drop 7 u else u)"

section \<open>Boot\<close>

record 'w boot_env =
  bo_getenv :: getter
  bo_parse_url :: url_parser
  bo_read_error :: "go_error option"
  bo_engine :: "string \<Rightarrow> go_error + 'w docker_ops"
  bo_imds :: "'w imds_env"
  bo_gpus :: "gpu_info list"
  bo_mem :: "go_error + mem_info"
  bo_cpu :: "go_error + cpu_info"
  bo_register :: "'w register_env"
  bo_tmp :: string
  bo_mkdir :: "go_error option"
  bo_write :: "file_op \<rightharpoonup> go_error"
  bo_short :: nat

record booted =
  bt_config :: config
  bt_tokens :: token_store
  bt_node_id :: "string option"
  bt_options :: runtime_options
  bt_facts :: runtime_facts
  bt_gpus :: dispatcher_config
  bt_channel_url :: string

definition boot_token_path :: "getter \<Rightarrow> string" where
  "boot_token_path getenv = first_non_empty (getenv ''TOKEN_FILE'') default_token_file"

text \<open>The environment once main has announced a token file that is not empty.\<close>

definition announced_env :: "getter \<Rightarrow> files \<Rightarrow> getter" where
  "announced_env getenv fs =
     (if file_present (map_option (\<lambda>b. (False, length b)) (fs (boot_token_path getenv)))
      then getenv(''TOKEN_FILE_PRESENT'' := ''true'') else getenv)"

definition read_token_file :: "go_error option \<Rightarrow> string \<Rightarrow> files \<Rightarrow> file_read" where
  "read_token_file err path fs =
     (case err of Some e \<Rightarrow> FileError e | None \<Rightarrow> (case fs path of Some b \<Rightarrow> FileOk b | None \<Rightarrow> FileMissing))"

definition boot_options :: "config \<Rightarrow> runtime_options" where
  "boot_options cfg = default_options
     \<lparr>ro_pull_timeout = cf_pull_timeout cfg * second, ro_readiness_timeout = cf_readiness_timeout cfg * second,
      ro_poll_interval = 500 * 1000000, ro_advertise_host = [], ro_port_range = (0, 0), ro_prefill_range = (0, 0),
      ro_decode_range = (0, 0)\<rparr>"

definition fatal :: "string \<Rightarrow> go_error \<Rightarrow> string" where
  "fatal stage e = stage @ '': '' @ err_text e"

text \<open>Registration, when there is no token: the node id it was given and the store afterwards.\<close>

definition boot_register ::
  "'w boot_env \<Rightarrow> config \<Rightarrow> runtime_facts \<Rightarrow> token_store \<Rightarrow> files \<Rightarrow> 'w
   \<Rightarrow> (string + string option \<times> token_store) \<times> files \<times> 'w" where
  "boot_register env cfg facts s fs w =
     (if ts_tok s \<noteq> [] then (Inr (None, s), fs, w)
      else
        let mem = (case bo_mem env of Inl e \<Rightarrow> \<lparr>mi_total = 0, mi_used = 0\<rparr> | Inr m \<Rightarrow> m);
            cores = (case bo_cpu env of Inl e \<Rightarrow> 0 | Inr c \<Rightarrow> cpu_cores c);
            req = build_register_request
              \<lparr>br_node_name = cf_node_name cfg, br_pool_id = cf_pool_id cfg,
               br_allocatable = allocatable (bo_getenv env) (bo_gpus env) mem cores,
               br_advertise_url = cf_worker_advertise_url cfg, br_runtime = facts,
               br_bootstrap_token = cf_bootstrap_token cfg\<rparr>
        in case register_worker (bo_register env) (cf_control_plane_url cfg) (cf_bootstrap_token cfg) req w of
             (Inl e, w) \<Rightarrow> (Inl (fatal ''bootstrap'' e), fs, w)
           | (Inr resp, w) \<Rightarrow>
               (case token_set (bo_tmp env) (rs_worker_jwt resp) (bo_mkdir env) (bo_write env) (bo_short env) (s, fs) of
                  (Some e, s, fs) \<Rightarrow> (Inl (fatal ''persist token'' e), fs, w)
                | (None, s, fs) \<Rightarrow> (Inr (Some (rs_node_id resp), s), fs, w)))"

text \<open>Boot after the Docker engine is there.\<close>

definition boot_with ::
  "'w boot_env \<Rightarrow> config \<Rightarrow> token_store \<Rightarrow> 'w docker_ops \<Rightarrow> files \<Rightarrow> 'w \<Rightarrow> (string + booted) \<times> files \<times> 'w" where
  "boot_with env cfg s dk fs w =
     (case dk_ping dk RequestCtx w of
        (Some e, w) \<Rightarrow> (Inl (fatal ''docker ping'' e @ '' (is /var/run/docker.sock mounted?)''), fs, w)
      | (None, w) \<Rightarrow>
          (case dk_ensure_network dk RequestCtx (cf_models_network cfg) w of
             (Some e, w) \<Rightarrow> (Inl (fatal ''ensure docker network'' e), fs, w)
           | (None, w) \<Rightarrow>
               (let (facts, _, w) = detect (bo_imds env) (bo_getenv env) (None, w) in
                case boot_register env cfg facts s fs w of
                  (Inl m, fs, w) \<Rightarrow> (Inl m, fs, w)
                | (Inr (node, s), fs, w) \<Rightarrow>
                    (Inr \<lparr>bt_config = cfg, bt_tokens = s, bt_node_id = node, bt_options = boot_options cfg, bt_facts = facts,
                          bt_gpus = gpu_config (bo_getenv env) (bo_gpus env),
                          bt_channel_url = to_ws (cf_control_plane_url cfg) @ ''/v1/workers/channel''\<rparr>, fs, w))))"

definition boot :: "'w boot_env \<Rightarrow> files \<Rightarrow> 'w \<Rightarrow> (string + booted) \<times> files \<times> 'w" where
  "boot env fs w =
     (case load_from (bo_parse_url env) (announced_env (bo_getenv env) fs) of
        Inl e \<Rightarrow> (Inl (fatal ''config'' e), fs, w)
      | Inr cfg \<Rightarrow>
          (case new_token_store (cf_token_file cfg) (read_token_file (bo_read_error env) (cf_token_file cfg) fs) of
             Inl e \<Rightarrow> (Inl (fatal ''token store'' e), fs, w)
           | Inr s \<Rightarrow>
               (case bo_engine env (cf_docker_host cfg) of
                  Inl e \<Rightarrow> (Inl (fatal ''docker engine'' e), fs, w)
                | Inr dk \<Rightarrow> boot_with env cfg s dk fs w)))"

section \<open>The HTTP handlers\<close>

datatype endpoint =
    EpUnauthorized string | EpUpgradeRequired | EpLogs | EpShell | EpProxy | EpHealthz | EpReady | EpNotReady | EpNotFound

text \<open>
  Which handler a request reaches, in the order main installs them. \<open>use\<close> and \<open>get\<close> are the router's
  matching of a registered path against the path of a request, \<open>upgrade\<close> says whether the request asks
  for a WebSocket, \<open>ready\<close> whether \<open>MarkReady\<close> was called.
\<close>

definition app_route ::
  "(string \<Rightarrow> string \<Rightarrow> bool) \<Rightarrow> (string \<Rightarrow> string \<Rightarrow> bool) \<Rightarrow> string \<Rightarrow> proxy \<Rightarrow> bool \<Rightarrow> bool \<Rightarrow> proxy_request \<Rightarrow> endpoint" where
  "app_route use get expected p ready upgrade rq =
     (let path = rq_path rq; is_get = (rq_method rq = ''GET'') in
      case inference_token_middleware expected path (header_get ''Authorization'' (rq_headers rq)) of
        AuthReject msg \<Rightarrow> EpUnauthorized msg
      | AuthNext \<Rightarrow>
          if use ''/v1/logs'' path \<and> \<not> upgrade then EpUpgradeRequired
          else if use ''/v1/shell'' path \<and> \<not> upgrade then EpUpgradeRequired
          else if is_get \<and> get ''/v1/logs'' path then EpLogs
          else if is_get \<and> get ''/v1/shell'' path then EpShell
          else if routed p path (resolve_deployment p rq) then EpProxy
          else if is_get \<and> get ''/healthz'' path then EpHealthz
          else if is_get \<and> get ''/readyz'' path then (if ready then EpReady else EpNotReady)
          else EpNotFound)"

section \<open>GPUs that are declared\<close>

lemma scan_decimal_itoa:
  assumes "- (2 ^ 63) \<le> n" "n < 2 ^ 63"
  shows "scan_decimal (itoa n) = Some n"
proof -
  have digits: "takeWhile is_digit (nat_str k) = nat_str k" for k
    using nat_str_digits [of k] by (simp add: list_all_iff)
  have lead: "\<not> has_prefix (nat_str k) ''-''" "\<not> has_prefix (nat_str k) ''+''" for k
    using nat_str_digits [of k] nat_str_nonempty [of k]
    by (cases "nat_str k"; auto simp: has_prefix_def is_digit_def)+
  show ?thesis
    using assms lead [of "nat n"]
    by (auto simp: itoa_def scan_decimal_def Let_def digits digits_val_nat_str has_prefix_def)
qed

text \<open>
  (equivalence). The GPU count told to the control plane is the one the dispatcher enforces, when
  nothing is declared or the declared count is a decimal integer, white space around it ignored.
\<close>

theorem declared_gpus_are_enforced:
  assumes "gpu_override getenv = [] \<or> (\<exists>n. gpu_override getenv = itoa n \<and> - (2 ^ 63) \<le> n \<and> n < 2 ^ 63)"
  shows "allocatable getenv gpus mem cores ''gpu'' = Some (itoa (dc_total_gpus (gpu_config getenv gpus)))"
proof (cases "gpu_override getenv = []")
  case True
  then show ?thesis by (simp add: allocatable_def total_gpus_def gpu_config_def Let_def itoa_def)
next
  case False
  with assms obtain n where n: "gpu_override getenv = itoa n" "- (2 ^ 63) \<le> n" "n < 2 ^ 63" by blast
  with False show ?thesis
    by (simp add: allocatable_def total_gpus_def gpu_config_def Let_def scan_decimal_itoa [OF n(2,3)])
qed

theorem declared_gpus_are_enforced_witness:
  "allocatable (\<lambda>k. if k = ''ALLOCATABLE_GPU_OVERRIDE'' then '' 4 '' else []) [] \<lparr>mi_total = 0, mi_used = 0\<rparr> 8 ''gpu'' =
     Some (itoa (dc_total_gpus (gpu_config (\<lambda>k. if k = ''ALLOCATABLE_GPU_OVERRIDE'' then '' 4 '' else []) [])))"
proof (rule declared_gpus_are_enforced)
  have "itoa 4 = ''4''" by (simp add: itoa_def nat_str.simps digit_char_simps)
  then show "gpu_override (\<lambda>k. if k = ''ALLOCATABLE_GPU_OVERRIDE'' then '' 4 '' else []) = [] \<or>
    (\<exists>n. gpu_override (\<lambda>k. if k = ''ALLOCATABLE_GPU_OVERRIDE'' then '' 4 '' else []) = itoa n \<and> - (2 ^ 63) \<le> n \<and> n < 2 ^ 63)"
    by (intro disjI2 exI [of _ 4]) (simp add: gpu_override_def trim_space_def is_space_def)
qed

section \<open>Registration and restart\<close>

lemma token_set_stores:
  assumes "tmp \<noteq> ts_path s" and "token_set tmp t mk fail k (s, fs) = (None, s', fs')"
  shows "s' = s\<lparr>ts_tok := t\<rparr> \<and> fs' (ts_path s) = Some t"
proof -
  let ?n = "length (takeWhile (\<lambda>op. fail op = None) atomic_ops)"
  have "?n \<le> length atomic_ops" by (rule length_takeWhile_le)
  moreover have "fail (atomic_ops ! ?n) \<noteq> None" if "?n < length atomic_ops" using nth_length_takeWhile [OF that] by simp
  moreover have "fail OpCreate \<noteq> None" if "?n = 0" using that by (auto simp: atomic_ops_def split: if_splits)
  ultimately have "?n = length atomic_ops" "s' = s\<lparr>ts_tok := t\<rparr>" "fs' = disk_after tmp (ts_path s) t ?n k fs"
    using assms(2) by (auto simp: token_set_def write_file_atomic_def Let_def split: option.splits if_splits prod.splits)
  then show ?thesis using disk_after_target [OF assms(1)] by simp
qed

lemma boot_register_kept: "ts_tok s \<noteq> [] \<Longrightarrow> boot_register env cfg facts s fs w = (Inr (None, s), fs, w)"
  by (simp add: boot_register_def)

lemma boot_register_new:
  assumes "boot_register env cfg facts s fs w = (Inr (node, s'), fs', w')" and "ts_tok s = []" and "bo_tmp env \<noteq> ts_path s"
  shows "fs' (ts_path s) = Some (ts_tok s')"
  using assms by (auto simp: boot_register_def Let_def dest!: token_set_stores split: sum.splits prod.splits option.splits)

lemma boot_with_ok:
  assumes "boot_with env cfg s dk fs w = (Inr b, fs', w')"
  obtains facts w1 where "boot_register env cfg facts s fs w1 = (Inr (bt_node_id b, bt_tokens b), fs', w')" "bt_config b = cfg"
  using assms by (auto simp: boot_with_def Let_def split: sum.splits prod.splits option.splits)

lemma boot_with_kept:
  assumes "ts_tok s \<noteq> []" and "boot_with env cfg s dk fs w = (r, fs', w')"
  shows "fs' = fs \<and> (\<forall>b. r = Inr b \<longrightarrow> bt_node_id b = None \<and> bt_tokens b = s) \<and>
    boot_with (env\<lparr>bo_register := reg\<rparr>) cfg s dk fs w = (r, fs', w')"
  using assms by (auto simp: boot_with_def boot_register_kept Let_def split: prod.splits option.splits)

lemma load_from_token_file: "load_from pu g = Inr cfg \<Longrightarrow> cf_token_file cfg = boot_token_path g"
  by (auto simp: load_from_accepts env_config_def boot_token_path_def)

lemma boot_token_path_announced: "boot_token_path (announced_env g fs) = boot_token_path g"
  by (simp add: announced_env_def boot_token_path_def)

lemma boot_config_path:
  "load_from pu (announced_env g fs) = Inr cfg \<Longrightarrow> cf_token_file cfg = boot_token_path g"
  using load_from_token_file boot_token_path_announced by metis

lemma boot_ok:
  assumes "boot env fs w = (Inr b, fs', w')"
  obtains s dk where "load_from (bo_parse_url env) (announced_env (bo_getenv env) fs) = Inr (bt_config b)"
    "new_token_store (cf_token_file (bt_config b)) (read_token_file (bo_read_error env) (cf_token_file (bt_config b)) fs) = Inr s"
    "boot_with env (bt_config b) s dk fs w = (Inr b, fs', w')"
proof -
  from assms obtain cfg s dk where c: "load_from (bo_parse_url env) (announced_env (bo_getenv env) fs) = Inr cfg"
    "new_token_store (cf_token_file cfg) (read_token_file (bo_read_error env) (cf_token_file cfg) fs) = Inr s"
    "boot_with env cfg s dk fs w = (Inr b, fs', w')"
    by (auto simp: boot_def split: sum.splits)
  moreover from c(3) have "bt_config b = cfg" by (rule boot_with_ok)
  ultimately show ?thesis using that by simp
qed

lemma booted_token_on_disk:
  assumes "boot env fs w = (Inr b, fs', w')" and "bo_tmp env \<noteq> cf_token_file (bt_config b)"
    and "ts_tok (bt_tokens b) \<noteq> []" and "trim_space (ts_tok (bt_tokens b)) = ts_tok (bt_tokens b)"
  shows "\<exists>content. fs' (cf_token_file (bt_config b)) = Some content \<and> trim_space content = ts_tok (bt_tokens b)"
proof -
  let ?path = "cf_token_file (bt_config b)"
  from assms(1) obtain s dk where s: "new_token_store ?path (read_token_file (bo_read_error env) ?path fs) = Inr s"
    and w: "boot_with env (bt_config b) s dk fs w = (Inr b, fs', w')" by (rule boot_ok)
  from s have p: "ts_path s = ?path" by (auto simp: new_token_store_def split: file_read.splits)
  obtain facts w1 where r: "boot_register env (bt_config b) facts s fs w1 = (Inr (bt_node_id b, bt_tokens b), fs', w')"
    using w by (rule boot_with_ok)
  show ?thesis
  proof (cases "ts_tok s = []")
    case True
    then have "fs' ?path = Some (ts_tok (bt_tokens b))" using boot_register_new [OF r] assms(2) p by simp
    with assms(4) show ?thesis by blast
  next
    case False
    with r have b: "bt_tokens b = s" and fs: "fs' = fs" by (simp_all add: boot_register_kept)
    from s False show ?thesis unfolding b fs
      by (auto simp: new_token_store_def read_token_file_def split: option.splits)
  qed
qed

text \<open>
  C16 (safety). A worker registers once. After a boot that succeeded, with a token that has no white
  space around it, every later boot that finds the same token file, under any other environment and
  whatever the registration endpoint would answer, does not register, takes the same token and
  leaves the disk as it is.
\<close>

theorem restart_keeps_registration:
  assumes "boot env fs w = (Inr b, fs', w')" and "bo_tmp env \<noteq> cf_token_file (bt_config b)"
    and "ts_tok (bt_tokens b) \<noteq> []" and "trim_space (ts_tok (bt_tokens b)) = ts_tok (bt_tokens b)"
    and "boot_token_path (bo_getenv env2) = cf_token_file (bt_config b)"
    and "boot env2 fs' v = (r, fs2, v')"
  shows "fs2 = fs' \<and> boot (env2\<lparr>bo_register := reg\<rparr>) fs' v = (r, fs2, v') \<and>
    (\<forall>b2. r = Inr b2 \<longrightarrow> bt_node_id b2 = None \<and> ts_tok (bt_tokens b2) = ts_tok (bt_tokens b))"
proof -
  obtain content where d: "fs' (cf_token_file (bt_config b)) = Some content" "trim_space content = ts_tok (bt_tokens b)"
    using booted_token_on_disk [OF assms(1-4)] by blast
  show ?thesis
  proof (cases "load_from (bo_parse_url env2) (announced_env (bo_getenv env2) fs')")
    case (Inl e)
    with assms(6) show ?thesis by (auto simp: boot_def)
  next
    case (Inr cfg)
    then have "cf_token_file cfg = cf_token_file (bt_config b)" using boot_config_path assms(5) by metis
    with d have "new_token_store (cf_token_file cfg) (read_token_file (bo_read_error env2) (cf_token_file cfg) fs') =
        (case bo_read_error env2 of Some e \<Rightarrow> Inl e | None \<Rightarrow> Inr \<lparr>ts_path = cf_token_file cfg, ts_tok = ts_tok (bt_tokens b)\<rparr>)"
      by (simp add: new_token_store_def read_token_file_def split: option.splits)
    with Inr assms(3,6) boot_with_kept [where s = "\<lparr>ts_path = cf_token_file cfg, ts_tok = ts_tok (bt_tokens b)\<rparr>"
        and env = env2 and cfg = cfg and fs = fs' and w = v and reg = reg]
    show ?thesis by (auto simp: boot_def split: sum.splits option.splits)
  qed
qed

text \<open>A boot in an accepted environment, with the in-memory Docker client and a control plane that answers.\<close>

definition sample_boot :: "string \<Rightarrow> fake_client boot_env" where
  "sample_boot jwt =
     \<lparr>bo_getenv = sample_env ''0123456789abcdef'', bo_parse_url = sample_url, bo_read_error = None,
      bo_engine = (\<lambda>_. Inr fake_docker),
      bo_imds = \<lparr>ie_new_request = (\<lambda>_ _. None), ie_do = (\<lambda>_ _ _ w. (Inl (Errorf ''no route'' []), w)), ie_decode = (\<lambda>_. None)\<rparr>,
      bo_gpus = [], bo_mem = Inl (Errorf ''no /proc'' []), bo_cpu = Inl (Errorf ''no /proc'' []),
      bo_register = \<lparr>ge_marshal = (\<lambda>_. Inr []), ge_new_request = (\<lambda>_. None), ge_post = (\<lambda>_ _ _ w. (Inr (200, []), w)),
                     ge_decode = (\<lambda>_. Inr \<lparr>rs_node_id = ''n1'', rs_worker_jwt = jwt\<rparr>)\<rparr>,
      bo_tmp = ''.token-1'', bo_mkdir = None, bo_write = Map.empty, bo_short = 0\<rparr>"

lemma sample_boot_path: "boot_token_path (bo_getenv (sample_boot jwt)) = default_token_file"
  by (simp add: sample_boot_def boot_token_path_def sample_env_def first_non_empty_def)

lemma sample_boot_ok:
  "\<exists>b fs' w'. boot (sample_boot jwt) Map.empty new_fake = (Inr b, fs', w') \<and> ts_tok (bt_tokens b) = jwt \<and>
     cf_token_file (bt_config b) = default_token_file \<and> bt_node_id b = Some ''n1''"
proof -
  let ?env = "sample_boot jwt"
  have a: "announced_env (bo_getenv ?env) Map.empty = sample_env ''0123456789abcdef''"
    by (simp add: announced_env_def file_present_def sample_boot_def)
  obtain cfg where c: "load_from sample_url (sample_env ''0123456789abcdef'') = Inr cfg"
    using sample_env_accepted [of "''0123456789abcdef''"] by auto
  have p: "cf_token_file cfg = default_token_file"
    using load_from_token_file [OF c] by (simp add: boot_token_path_def sample_env_def first_non_empty_def)
  have t: "\<exists>fs'. token_set ''.token-1'' jwt None Map.empty 0 (\<lparr>ts_path = default_token_file, ts_tok = []\<rparr>, Map.empty) =
      (None, \<lparr>ts_path = default_token_file, ts_tok = jwt\<rparr>, fs')"
    by (simp add: token_set_def write_file_atomic_def atomic_ops_def Let_def)
  then obtain fs' where t: "token_set ''.token-1'' jwt None Map.empty 0 (\<lparr>ts_path = default_token_file, ts_tok = []\<rparr>, Map.empty) =
      (None, \<lparr>ts_path = default_token_file, ts_tok = jwt\<rparr>, fs')" by blast
  have reg: "boot_register ?env cfg facts \<lparr>ts_path = default_token_file, ts_tok = []\<rparr> Map.empty w =
      (Inr (Some ''n1'', \<lparr>ts_path = default_token_file, ts_tok = jwt\<rparr>), fs', w)" for facts w
    by (simp add: boot_register_def sample_boot_def register_worker_def t Let_def)
  have dk: "fst (fake_ping RequestCtx new_fake) = None" "fst (fake_ensure_network RequestCtx n (snd (fake_ping RequestCtx new_fake))) = None" for n
    by (simp_all add: fake_ping_def fake_ensure_network_def new_fake_def no_fake_errors_def log_call_def)
  have "\<exists>b w'. boot_with ?env cfg \<lparr>ts_path = default_token_file, ts_tok = []\<rparr> fake_docker Map.empty new_fake = (Inr b, fs', w') \<and>
      ts_tok (bt_tokens b) = jwt \<and> bt_config b = cfg \<and> bt_node_id b = Some ''n1''"
    using dk
    by (auto simp: boot_with_def reg Let_def split_def split: prod.splits option.splits)
  then show ?thesis
    using p by (auto simp: boot_def a c new_token_store_def read_token_file_def sample_boot_def [of jwt, THEN arg_cong [where f = bo_parse_url]]
        sample_boot_def [of jwt, THEN arg_cong [where f = bo_read_error]] sample_boot_def [of jwt, THEN arg_cong [where f = bo_engine]])
qed

theorem restart_keeps_registration_witness:
  "\<exists>b fs' w'. boot (sample_boot ''jwt-1'') Map.empty new_fake = (Inr b, fs', w') \<and>
     (\<forall>b2. fst (boot (sample_boot ''jwt-2'') fs' w') = Inr b2 \<longrightarrow> bt_node_id b2 = None \<and> ts_tok (bt_tokens b2) = ''jwt-1'')"
proof -
  obtain b fs' w' where b: "boot (sample_boot ''jwt-1'') Map.empty new_fake = (Inr b, fs', w')" "ts_tok (bt_tokens b) = ''jwt-1''"
    "cf_token_file (bt_config b) = default_token_file"
    using sample_boot_ok by blast
  obtain r fs2 v' where r: "boot (sample_boot ''jwt-2'') fs' w' = (r, fs2, v')" by (metis surj_pair)
  have "bo_tmp (sample_boot ''jwt-1'') \<noteq> cf_token_file (bt_config b)"
    by (simp add: b(3) sample_boot_def default_token_file_def)
  moreover have "trim_space ''jwt-1'' = ''jwt-1''" by (simp add: trim_space_def is_space_def)
  moreover have "boot_token_path (bo_getenv (sample_boot ''jwt-2'')) = cf_token_file (bt_config b)"
    by (simp only: sample_boot_path b(3))
  ultimately have "\<forall>b2. r = Inr b2 \<longrightarrow> bt_node_id b2 = None \<and> ts_tok (bt_tokens b2) = ''jwt-1''"
    using restart_keeps_registration [OF b(1) _ _ _ _ r, of "bo_register (sample_boot [])"] b(2) by simp
  with b(1) r show ?thesis by simp
qed

text \<open>
  (error). A token file with white space only counts as a persisted token for the configuration and
  as none for the store: the bootstrap token may be missing, and the worker registers with an empty one.
\<close>

theorem blank_token_file_registers_without_token:
  assumes "fs (boot_token_path (bo_getenv env)) = Some content" and "content \<noteq> []" and "list_all is_space content"
    and "bo_getenv env ''BOOTSTRAP_TOKEN'' = []" and "bo_read_error env = None"
    and "load_from (bo_parse_url env) (announced_env (bo_getenv env) fs) = Inr cfg"
  shows "\<exists>s. new_token_store (cf_token_file cfg) (read_token_file (bo_read_error env) (cf_token_file cfg) fs) = Inr s \<and>
    cf_bootstrap_token cfg = [] \<and>
    (\<forall>facts w. \<exists>req. boot_register env cfg facts s fs w =
       (case register_worker (bo_register env) (cf_control_plane_url cfg) [] req w of
          (Inl e, w) \<Rightarrow> (Inl (fatal ''bootstrap'' e), fs, w)
        | (Inr resp, w) \<Rightarrow>
            (case token_set (bo_tmp env) (rs_worker_jwt resp) (bo_mkdir env) (bo_write env) (bo_short env) (s, fs) of
               (Some e, s, fs) \<Rightarrow> (Inl (fatal ''persist token'' e), fs, w)
             | (None, s, fs) \<Rightarrow> (Inr (Some (rs_node_id resp), s), fs, w))))"
proof -
  have path: "cf_token_file cfg = boot_token_path (bo_getenv env)" using boot_config_path [OF assms(6)] .
  have blank: "trim_space content = []"
    using assms(3) by (auto simp: trim_space_def list_all_iff dest: set_dropWhileD)
  have "cf_bootstrap_token cfg = announced_env (bo_getenv env) fs ''BOOTSTRAP_TOKEN''"
    using assms(6) by (auto simp: load_from_accepts env_config_def)
  then have tok: "cf_bootstrap_token cfg = []" using assms(4) by (simp add: announced_env_def)
  let ?s = "\<lparr>ts_path = cf_token_file cfg, ts_tok = []\<rparr>"
  have "new_token_store (cf_token_file cfg) (read_token_file (bo_read_error env) (cf_token_file cfg) fs) = Inr ?s"
    using assms(1,5) blank by (simp add: new_token_store_def read_token_file_def path)
  moreover have "\<exists>req. boot_register env cfg facts ?s fs w =
       (case register_worker (bo_register env) (cf_control_plane_url cfg) [] req w of
          (Inl e, w) \<Rightarrow> (Inl (fatal ''bootstrap'' e), fs, w)
        | (Inr resp, w) \<Rightarrow>
            (case token_set (bo_tmp env) (rs_worker_jwt resp) (bo_mkdir env) (bo_write env) (bo_short env) (?s, fs) of
               (Some e, s, fs) \<Rightarrow> (Inl (fatal ''persist token'' e), fs, w)
             | (None, s, fs) \<Rightarrow> (Inr (Some (rs_node_id resp), s), fs, w)))" for facts w
    unfolding boot_register_def Let_def tok by (simp del: split_paired_Ex) (rule exI, rule refl)
  ultimately show ?thesis using tok by blast
qed

section \<open>The operator endpoints\<close>

text \<open>
  C3 (error). The middleware compares the path as it was sent, while the router ignores case (Fiber's
  default, which main keeps): a GET of /V1/shell passes the token check and reaches the shell
  endpoint, and without parameters that is a shell on the host itself. No token is needed.
\<close>

theorem host_shell_without_token:
  assumes "\<And>r a b. to_lower a = to_lower b \<Longrightarrow> get r a = get r b"
    and "get ''/v1/shell'' ''/v1/shell''" and "\<not> get ''/v1/logs'' ''/v1/shell''"
    and "to_lower (rq_path rq) = ''/v1/shell''" and "\<not> has_prefix (rq_path rq) ''/v1/''" and "rq_method rq = ''GET''"
  shows "app_route use get expected p ready True rq = EpShell \<and> admin_shell_target cli v (\<lambda>_. []) = Inr None"
proof -
  have "to_lower ''/v1/shell'' = ''/v1/shell''" by (simp add: to_lower_def lower_char_def)
  then have "get r (rq_path rq) = get r ''/v1/shell''" for r
    by (intro assms(1)) (simp only: assms(4))
  with assms(2,3,5,6) show ?thesis
    by (simp add: app_route_def inference_token_middleware_def admin_shell_target_def Let_def)
qed

text \<open>The router's documented matching: case is ignored, and so are trailing slashes.\<close>

definition fiber_match :: "string \<Rightarrow> string \<Rightarrow> bool" where
  "fiber_match r path \<longleftrightarrow> trim_right_slashes (to_lower path) = r"

theorem host_shell_without_token_witness:
  "app_route fiber_match fiber_match ''0123456789abcdef'' sample_proxy True True
     \<lparr>rq_method = ''GET'', rq_path = ''/V1/shell'', rq_query = [], rq_headers = [], rq_body = []\<rparr> = EpShell"
proof -
  let ?rq = "\<lparr>rq_method = ''GET'', rq_path = ''/V1/shell'', rq_query = [], rq_headers = [], rq_body = []\<rparr>"
  have low: "to_lower ''/V1/shell'' = ''/v1/shell''" "to_lower ''/v1/shell'' = ''/v1/shell''"
    by (simp_all add: to_lower_def lower_char_def char_of_def bit_iff_odd)
  have "fiber_match ''/v1/shell'' ''/v1/shell''" "\<not> fiber_match ''/v1/logs'' ''/v1/shell''"
    by (simp_all add: fiber_match_def low trim_right_slashes_def)
  moreover have "to_lower (rq_path ?rq) = ''/v1/shell''" "\<not> has_prefix (rq_path ?rq) ''/v1/''" by (simp_all add: low has_prefix_def)
  ultimately show ?thesis
    using host_shell_without_token [of fiber_match ?rq fiber_match "''0123456789abcdef''" sample_proxy True]
    by (simp add: fiber_match_def)
qed

end
