(* ===== verification/Readiness.thy ===== *)
theory Readiness imports Lifecycle begin

text \<open>
  What makes a load come to its end (internal/runtime/runtime.go): the readiness loop reports a model
  exactly when a probe succeeds before the deadline, and a load whose daemon does its part ends in a
  running deployment.
\<close>

text \<open>The world before round \<open>k\<close> of the readiness loop, when the rounds before it went on.\<close>

fun probe_round :: "'w rt_env \<Rightarrow> string \<Rightarrow> nat \<Rightarrow> 'w \<Rightarrow> 'w" where
  "probe_round env url 0 w = w"
| "probe_round env url (Suc k) w = probe_round env url k (snd (re_poll env (snd (re_probe env url w))))"

definition goes_on :: "'w rt_env \<Rightarrow> string \<Rightarrow> 'w \<Rightarrow> bool" where
  "goes_on env url w \<longleftrightarrow> \<not> fst (re_probe env url w) \<and> \<not> fst (re_poll env (snd (re_probe env url w)))"

text \<open>A probe succeeds before the deadline, and until then the context lives.\<close>

definition comes_up :: "'w rt_env \<Rightarrow> string \<Rightarrow> int \<Rightarrow> 'w \<Rightarrow> bool" where
  "comes_up env url deadline w \<longleftrightarrow>
     (\<exists>k. (\<forall>i < k. goes_on env url (probe_round env url i w)) \<and> re_now env (probe_round env url k w) < deadline \<and>
          fst (re_probe env url (probe_round env url k w)))"

lemma comes_up_unfold:
  assumes "clock_progress env"
  shows "comes_up env url deadline w \<longleftrightarrow> re_now env w < deadline \<and>
    (fst (re_probe env url w) \<or>
     goes_on env url w \<and> comes_up env url deadline (snd (re_poll env (snd (re_probe env url w)))))"
    (is "?l \<longleftrightarrow> ?r")
proof
  have later: "goes_on env url v \<Longrightarrow> re_now env v < re_now env (snd (re_poll env (snd (re_probe env url v))))" for v
    using assms by (auto simp: clock_progress_def goes_on_def intro: order_le_less_trans)
  have before: "\<forall>i < k. goes_on env url (probe_round env url i v) \<Longrightarrow> re_now env v \<le> re_now env (probe_round env url k v)" for k v
  proof (induction k arbitrary: v)
    case (Suc k)
    have "\<forall>i < k. goes_on env url (probe_round env url i (snd (re_poll env (snd (re_probe env url v)))))"
      using Suc.prems by (auto dest: spec [of _ "Suc _"])
    with Suc.IH [OF this] later [of v] Suc.prems show ?case by (auto dest: spec [of _ 0])
  qed simp
  assume ?l
  then obtain k where k: "\<forall>i < k. goes_on env url (probe_round env url i w)" "re_now env (probe_round env url k w) < deadline"
    "fst (re_probe env url (probe_round env url k w))" by (auto simp: comes_up_def)
  have "re_now env w < deadline" using before [OF k(1)] k(2) by simp
  moreover have "fst (re_probe env url w) \<or> goes_on env url w \<and> comes_up env url deadline (snd (re_poll env (snd (re_probe env url w))))"
  proof (cases k)
    case 0
    with k(3) show ?thesis by simp
  next
    case (Suc j)
    with k(1) have "goes_on env url w" "\<forall>i < j. goes_on env url (probe_round env url (Suc i) w)" by auto
    with k(2,3) Suc show ?thesis unfolding comes_up_def by auto
  qed
  ultimately show ?r by simp
next
  assume r: ?r
  show ?l
  proof (cases "fst (re_probe env url w)")
    case True
    with r show ?thesis unfolding comes_up_def by (intro exI [of _ 0]) simp
  next
    case False
    with r obtain k where "goes_on env url w"
      "\<forall>i < k. goes_on env url (probe_round env url (Suc i) w)"
      "re_now env (probe_round env url (Suc k) w) < deadline" "fst (re_probe env url (probe_round env url (Suc k) w))"
      by (auto simp: comes_up_def)
    then show ?thesis unfolding comes_up_def by (intro exI [of _ "Suc k"]) (auto simp: less_Suc_eq_0_disj)
  qed
qed

lemma wait_ready_fuel_comes_up:
  assumes "clock_progress env" and "nat (deadline - re_now env w) < n"
  shows "fst (wait_ready_fuel n env deadline url w) = Some True \<longleftrightarrow> comes_up env url deadline w"
  using assms(2)
proof (induction n arbitrary: w)
  case (Suc n)
  let ?v = "snd (re_poll env (snd (re_probe env url w)))"
  show ?case
  proof (cases "re_now env w < deadline \<and> goes_on env url w")
    case True
    then have "re_now env w < re_now env ?v"
      using assms(1) by (auto simp: clock_progress_def goes_on_def intro: order_le_less_trans)
    with Suc.prems True have "nat (deadline - re_now env ?v) < n" by linarith
    from Suc.IH [OF this] True show ?thesis
      by (simp add: comes_up_unfold [OF assms(1), of url deadline w] goes_on_def split_def Let_def)
  next
    case False
    then show ?thesis
      by (auto simp: comes_up_unfold [OF assms(1), of url deadline w] goes_on_def split_def Let_def)
  qed
qed simp

lemma wait_ready_comes_up:
  assumes "clock_progress env" and "0 \<le> timeout"
  shows "fst (wait_ready env url timeout w) \<longleftrightarrow> comes_up env url (re_now env w + timeout) w"
  using wait_ready_fuel_comes_up [OF assms(1), of "re_now env w + timeout" w "Suc (nat timeout)" url] assms(2)
  by (simp add: wait_ready_def split_def Let_def)

text \<open>
  The daemon does its part for a plan: as long as it is in order (\<open>ok\<close>), the image can be pulled, a
  removal by name leaves the name free (\<open>free\<close>), a container is created under a free name, and the
  container created can be started. Nothing is asked of a world that is not in order, or where the
  name is taken.
\<close>

definition daemon_serves ::
  "'w rt_env \<Rightarrow> plan \<Rightarrow> container_spec \<Rightarrow> ('w \<Rightarrow> bool) \<Rightarrow> (string \<Rightarrow> 'w \<Rightarrow> bool) \<Rightarrow> bool" where
  "daemon_serves env p spec ok free \<longleftrightarrow>
     (\<forall>w. ok w \<longrightarrow> fst (fst (dk_pull (re_docker env) RequestCtx (pl_image p) w)) = None \<and>
        ok (snd (dk_pull (re_docker env) RequestCtx (pl_image p) w))) \<and>
     (\<forall>w. ok w \<longrightarrow> ok (snd (dk_remove_by_name (re_docker env) RequestCtx (cs_name spec) w)) \<and>
        free (cs_name spec) (snd (dk_remove_by_name (re_docker env) RequestCtx (cs_name spec) w))) \<and>
     (\<forall>w. ok w \<and> free (cs_name spec) w \<longrightarrow>
        (\<exists>cid w'. dk_create (re_docker env) RequestCtx spec w = (Inr cid, w') \<and>
           fst (dk_start (re_docker env) RequestCtx cid w') = None))"

text \<open>The container created and started, the model answers before the deadline.\<close>

definition model_comes_up ::
  "'w rt_env \<Rightarrow> plan \<Rightarrow> container_spec \<Rightarrow> ('w \<Rightarrow> bool) \<Rightarrow> (string \<Rightarrow> 'w \<Rightarrow> bool) \<Rightarrow> bool" where
  "model_comes_up env p spec ok free \<longleftrightarrow>
     (\<forall>w cid w' w''. ok w \<and> free (cs_name spec) w \<and> dk_create (re_docker env) RequestCtx spec w = (Inr cid, w') \<and>
        dk_start (re_docker env) RequestCtx cid w' = (None, w'') \<longrightarrow>
        comes_up env (endpoint_of env (pl_host_port p) @ pl_ready_path p) (re_now env w'' + readiness_timeout env p) w'')"

lemma load_pull_succeeds:
  assumes "clock_progress env" and "daemon_serves env p spec ok free" and "model_comes_up env p spec ok free"
    and "build_container_spec p (re_network env) = Inr spec"
    and "env_value (pl_env p) ''INFERIA_OLLAMA_MODEL'' = []" and "0 \<le> readiness_timeout env p" and "ok w"
  shows "fst (load_pull env dep p a s w) = Inr (endpoint_of env (pl_host_port p))"
proof -
  have create: "fst (load_create env dep p a spec s w) = Inr (endpoint_of env (pl_host_port p))" if "ok w" for s w
  proof -
    let ?w1 = "snd (dk_remove_by_name (re_docker env) RequestCtx (cs_name spec) w)"
    have w1: "ok ?w1" "free (cs_name spec) ?w1" using assms(2) that by (simp_all add: daemon_serves_def)
    with assms(2) obtain cid w2 where c: "dk_create (re_docker env) RequestCtx spec ?w1 = (Inr cid, w2)"
      and "fst (dk_start (re_docker env) RequestCtx cid w2) = None" unfolding daemon_serves_def by blast
    then obtain w3 where st: "dk_start (re_docker env) RequestCtx cid w2 = (None, w3)" by (metis prod.collapse)
    with assms(3) w1 c have "comes_up env (endpoint_of env (pl_host_port p) @ pl_ready_path p) (re_now env w3 + readiness_timeout env p) w3"
      unfolding model_comes_up_def by blast
    then have "fst (load_ready env dep p a cid s w3) = Inr (endpoint_of env (pl_host_port p))" for s
      using wait_ready_comes_up [OF assms(1,6)] assms(5)
      by (simp add: load_ready_def ollama_pull_if_needed_def split_def Let_def)
    with c st show ?thesis by (simp add: load_create_def load_start_def split_def Let_def)
  qed
  have "ok (snd (dk_pull (re_docker env) RequestCtx (pl_image p) w))"
    "fst (fst (dk_pull (re_docker env) RequestCtx (pl_image p) w)) = None"
    using assms(2,7) by (simp_all add: daemon_serves_def)
  with assms(4) create show ?thesis by (simp add: load_pull_def split_def Let_def)
qed

text \<open>The plan a load runs and the world it runs it in: without a host port of its own it draws one.\<close>

definition plan_to_run :: "'w rt_env \<Rightarrow> plan \<Rightarrow> 'w \<Rightarrow> (plan \<times> 'w) option" where
  "plan_to_run env p w =
     (if pl_host_port p \<noteq> 0 then Some (p, w)
      else case re_port env w of (Inl e, w) \<Rightarrow> None | (Inr port, w) \<Rightarrow> Some (p\<lparr>pl_host_port := port\<rparr>, w))"

text \<open>
  C9 (liveness). A load of a model that is not pulled by ollama, with a host port of its own or one
  that could be drawn, ends in a running deployment when its surroundings do their part: the daemon is
  in order, so that it pulls the image, frees the container's name of what an earlier run left and
  then creates and starts the container, and the model, once started, answers a probe before the
  readiness deadline while the request is not cancelled. However many probes fail first, the load
  returns the endpoint and the deployment is reported as loaded.
\<close>

theorem healthy_model_is_loaded:
  assumes "clock_progress env" and "plan_to_run env p w = Some (q, w1)" and "ok w1"
    and "daemon_serves env q spec ok free" and "model_comes_up env q spec ok free"
    and "build_container_spec q (re_network env) = Inr spec"
    and "env_value (pl_env q) ''INFERIA_OLLAMA_MODEL'' = []" and "0 \<le> readiness_timeout env q"
    and "status_of s dep \<noteq> StateRunning"
  shows "\<exists>s' w'. load_model env dep p s w = (Inr (endpoint_of env (pl_host_port q)), s', w') \<and> dep \<in> loaded_deployments s'"
proof -
  obtain a s1 where g: "get_or_create dep s = (a, s1)" by fastforce
  with assms(9) have "status_of s1 dep \<noteq> StateRunning"
    by (auto simp: get_or_create_def status_of_def entry_def new_deployment_def Let_def split: option.splits)
  with g assms(2) have "load_model env dep p s w = load_pull env dep q a s1 w1"
    by (auto simp: load_model_def load_locked_def plan_to_run_def split: if_splits sum.splits prod.splits)
  with load_pull_succeeds [OF assms(1,4-8,3), of dep a s1] obtain s' w' where
    l: "load_model env dep p s w = (Inr (endpoint_of env (pl_host_port q)), s', w')" by (metis prod.collapse)
  obtain cid where "running_at dep (endpoint_of env (pl_host_port q)) cid s'"
    using load_locked_success get_or_create_entry [OF g] l g by (fastforce simp: load_model_def)
  with l show ?thesis
    by (auto simp: running_at_def loaded_deployments_def status_of_def entry_def split: option.splits)
qed

text \<open>
  The repository's in-memory daemon, told to fail nothing, does its part; the host of the witness
  still has a container of an earlier run under the name, and its model answers the third probe.
\<close>

definition fake_in_order :: "fake_host \<Rightarrow> bool" where
  "fake_in_order w \<longleftrightarrow> fk_errors w = no_fake_errors \<and> \<not> fk_cancelled w \<and> fh_probes w = [False, False, True]"

definition fake_free :: "string \<Rightarrow> fake_host \<Rightarrow> bool" where
  "fake_free nm w \<longleftrightarrow> fk_names w nm = None"

definition stale_host :: fake_host where
  "stale_host = (new_fake_host [False, False, True])\<lparr>
     fk_containers := [''old'' \<mapsto> \<lparr>is_id = ''old'', is_running = False, is_exit_code = 1, is_status = ''exited''\<rparr>],
     fk_names := [''inferia-vllm-d'' \<mapsto> ''old'']\<rparr>"

lemma fake_serves: "daemon_serves fake_env p spec fake_in_order fake_free"
  by (auto simp: daemon_serves_def fake_in_order_def fake_free_def fake_pull_def fake_remove_by_name_def
      fake_create_def fake_start_def set_inspect_def log_call_def Let_def split: option.splits)

lemma fake_create_start_frame:
  assumes "fake_create c spec w = (Inr cid, w')" "fake_start c' cid w' = (None, w'')" "fake_in_order w"
  shows "fake_in_order w''"
  using assms
  by (auto simp: fake_in_order_def fake_create_def fake_start_def set_inspect_def log_call_def Let_def
      split: option.splits if_splits)

lemma fake_third_probe:
  assumes "fake_in_order w" "1000000000 < t"
  shows "comes_up fake_env u (fh_clock w + t) w"
  using assms unfolding comes_up_def
  by (intro exI [of _ "Suc (Suc 0)"]) (auto simp: fake_in_order_def fake_probe_def fake_poll_def goes_on_def less_Suc_eq)

theorem healthy_model_is_loaded_witness:
  "\<exists>spec e s' w'. build_container_spec (sample_plan 8000) (re_network fake_env) = Inr spec \<and>
     dk_create (re_docker fake_env) RequestCtx spec stale_host = (Inl e, stale_host) \<and>
     load_model fake_env ''d'' (sample_plan 8000) new_runtime stale_host = (Inr (endpoint_of fake_env 19000), s', w') \<and>
     ''d'' \<in> loaded_deployments s'"
proof -
  obtain spec where spec: "build_container_spec (sample_plan 8000) (re_network fake_env) = Inr spec"
    and nm: "cs_name spec = ''inferia-vllm-d''"
    using sample_plan_spec by auto
  have t: "readiness_timeout fake_env (sample_plan 8000) = 180000000000"
    by (simp add: readiness_timeout_def sample_plan_def)
  have up: "model_comes_up fake_env (sample_plan 8000) spec fake_in_order fake_free"
    by (auto simp: model_comes_up_def t dest!: fake_create_start_frame intro!: fake_third_probe)
  have run: "plan_to_run fake_env (sample_plan 8000) stale_host = Some (sample_plan 8000, stale_host)"
    by (simp add: plan_to_run_def)
  have ok: "fake_in_order stale_host" by (simp add: fake_in_order_def stale_host_def)
  have "status_of new_runtime ''d'' \<noteq> StateRunning" by (simp add: new_runtime_def status_of_def entry_def)
  with healthy_model_is_loaded [OF fake_clock_progress run ok fake_serves up spec, of new_runtime "''d''"]
  have "\<exists>s' w'. load_model fake_env ''d'' (sample_plan 8000) new_runtime stale_host =
      (Inr (endpoint_of fake_env 19000), s', w') \<and> ''d'' \<in> loaded_deployments s'"
    by (simp add: t env_value_def)
  moreover have "\<exists>e. dk_create (re_docker fake_env) RequestCtx spec stale_host = (Inl e, stale_host)"
    by (simp add: fake_create_def nm stale_host_def)
  ultimately show ?thesis using spec by blast
qed

end
