(* ===== verification/Isolation.thy ===== *)
theory Isolation imports Group_Lifecycle begin

text \<open>
  The runtime's object store (internal/runtime/runtime.go): each deployment has an object of its own, and
  an operation on one deployment leaves every other one as it was, whatever came before.
\<close>

section \<open>Changes confined to one object\<close>

text \<open>
  From \<open>s\<close> to \<open>s'\<close> only object \<open>a\<close>, the one of \<open>dep\<close>, and its table entry may have changed, the
  latter by being dropped; the groups are as they were.
\<close>

definition confined :: "nat \<Rightarrow> string \<Rightarrow> runtime \<Rightarrow> runtime \<Rightarrow> bool" where
  "confined a dep s s' \<longleftrightarrow> rt_groups s' = rt_groups s \<and>
     (rt_deployments s dep \<in> {Some a, None} \<longrightarrow>
        rt_fresh s' = rt_fresh s \<and> rt_deployments s' dep \<in> {rt_deployments s dep, None} \<and>
        (\<forall>j. j \<noteq> dep \<longrightarrow> rt_deployments s' j = rt_deployments s j) \<and> (\<forall>b. b \<noteq> a \<longrightarrow> rt_objects s' b = rt_objects s b))"

named_theorems confined_intros

lemma confined_refl [confined_intros]: "confined a dep s s"
  by (simp add: confined_def)

lemma confined_trans: "confined a dep s t \<Longrightarrow> confined a dep t u \<Longrightarrow> confined a dep s u"
  by (auto simp: confined_def)

lemma confined_upd: "confined a dep s t \<Longrightarrow> confined a dep s (upd_obj a f t)"
  by (auto simp: confined_def upd_obj_def)

lemma confined_entry: "confined a dep s t \<Longrightarrow> confined a dep s (on_entry dep f t)"
  by (auto simp: confined_def on_entry_def upd_obj_def split: option.split)

lemma confined_drop: "confined a dep s t \<Longrightarrow> confined a dep s (drop_entry dep t)"
  by (auto simp: confined_def drop_entry_def)

lemma confined_basic [confined_intros]:
  "confined a dep s t \<Longrightarrow> confined a dep s (set_state n dep st t)"
  "confined a dep s t \<Longrightarrow> confined a dep s (set_container_id dep cid t)"
  "confined a dep s t \<Longrightarrow> confined a dep s (log_line a l t)"
  by (simp_all add: set_state_def set_container_id_def log_line_def confined_entry confined_upd)

lemma confined_lines [confined_intros]: "confined a dep s t \<Longrightarrow> confined a dep s (fold (log_line a) ls t)"
  by (induction ls arbitrary: t) (simp_all add: confined_intros)

lemmas confined_all = confined_intros confined_upd confined_entry confined_drop

section \<open>The operations\<close>

lemma fail_load_confined: "confined a dep s t \<Longrightarrow> confined a dep s (fst (snd (fail_load env dep a stage e t w)))"
  by (simp add: fail_load_def Let_def confined_all)

lemma abandon_load_confined: "confined a dep s t \<Longrightarrow> confined a dep s (fst (snd (abandon_load env dep cid e t w)))"
  by (simp add: abandon_load_def Let_def split_def confined_all)

lemma load_ready_confined: "confined a dep s t \<Longrightarrow> confined a dep s (fst (snd (load_ready env dep p a cid t w)))"
  by (simp add: load_ready_def Let_def split_def confined_all abandon_load_confined split: option.split)

lemma load_start_confined: "confined a dep s t \<Longrightarrow> confined a dep s (fst (snd (load_start env dep p a cid t w)))"
  by (simp add: load_start_def Let_def split_def confined_all fail_load_confined load_ready_confined split: option.split)

lemma load_create_confined: "confined a dep s t \<Longrightarrow> confined a dep s (fst (snd (load_create env dep p a spec t w)))"
  by (simp add: load_create_def Let_def split_def confined_all fail_load_confined load_start_confined split: option.split sum.split)

lemma load_pull_confined: "confined a dep s t \<Longrightarrow> confined a dep s (fst (snd (load_pull env dep p a t w)))"
  by (simp add: load_pull_def Let_def split_def confined_all fail_load_confined load_create_confined split: option.split sum.split)

lemma load_locked_confined: "confined a dep s (fst (snd (load_locked env dep p a s w)))"
  by (simp add: load_locked_def split_def confined_all load_pull_confined split: sum.split)

lemma unload_locked_confined: "confined a dep s (fst (snd (unload_locked env dep a s w)))"
  by (simp add: unload_locked_def Let_def split_def confined_all split: option.split)

section \<open>Every deployment has its own object\<close>

definition own_objects :: "runtime \<Rightarrow> bool" where
  "own_objects s \<longleftrightarrow> (\<forall>i a. rt_deployments s i = Some a \<longrightarrow> a < rt_fresh s) \<and> inj_on (rt_deployments s) (dom (rt_deployments s))"

lemma own_objectsD: "own_objects s \<Longrightarrow> rt_deployments s i = Some a \<Longrightarrow> rt_deployments s j = Some a \<Longrightarrow> i = j"
  by (auto simp: own_objects_def inj_on_def dom_def)

lemma confined_own:
  assumes "own_objects s" and "rt_deployments s dep = Some a" and "confined a dep s s'"
  shows "own_objects s' \<and> (\<forall>j. j \<noteq> dep \<longrightarrow> entry s' j = entry s j)"
proof -
  have c: "rt_fresh s' = rt_fresh s" "rt_deployments s' dep \<in> {Some a, None}"
    "\<And>j. j \<noteq> dep \<Longrightarrow> rt_deployments s' j = rt_deployments s j" "\<And>b. b \<noteq> a \<Longrightarrow> rt_objects s' b = rt_objects s b"
    using assms(2,3) by (auto simp: confined_def)
  have sub: "rt_deployments s' j = Some b \<Longrightarrow> rt_deployments s j = Some b" for j b
    using c(2,3) assms(2) by (cases "j = dep") auto
  have "inj_on (rt_deployments s') (dom (rt_deployments s'))"
  proof (rule inj_onI)
    fix i j
    assume "i \<in> dom (rt_deployments s')" "rt_deployments s' i = rt_deployments s' j"
    then obtain b where "rt_deployments s' i = Some b" "rt_deployments s' j = Some b" by (auto simp: dom_def)
    then show "i = j" using sub own_objectsD [OF assms(1)] by metis
  qed
  moreover have "entry s' j = entry s j" if "j \<noteq> dep" for j
  proof (cases "rt_deployments s j")
    case (Some b)
    with own_objectsD [OF assms(1) assms(2)] that have "b \<noteq> a" by metis
    with Some c(3,4) that show ?thesis by (simp add: entry_def)
  qed (use c(3) that in \<open>simp add: entry_def\<close>)
  moreover have "b < rt_fresh s'" if "rt_deployments s' j = Some b" for j b
    using sub [OF that] assms(1) c(1) by (simp add: own_objects_def)
  ultimately show ?thesis by (simp add: own_objects_def)
qed

lemma get_or_create_own:
  assumes "own_objects s" and "get_or_create dep s = (a, s1)"
  shows "own_objects s1 \<and> rt_deployments s1 dep = Some a \<and> (\<forall>j. j \<noteq> dep \<longrightarrow> entry s1 j = entry s j)"
proof (cases "rt_deployments s dep")
  case None
  with assms have s1: "a = rt_fresh s" "rt_fresh s1 = Suc (rt_fresh s)" "rt_deployments s1 = (rt_deployments s)(dep \<mapsto> rt_fresh s)"
    "rt_objects s1 = (rt_objects s)(rt_fresh s := new_deployment)"
    by (auto simp: get_or_create_def Let_def)
  have new: "rt_deployments s j \<noteq> Some (rt_fresh s)" for j using assms(1) by (auto simp: own_objects_def)
  have "inj_on (rt_deployments s1) (dom (rt_deployments s1))"
    using assms(1) new by (auto simp: s1(3) own_objects_def inj_on_def split: if_splits)
  moreover have "entry s1 j = entry s j" if "j \<noteq> dep" for j
    using that new [of j] by (cases "rt_deployments s j") (auto simp: entry_def s1)
  ultimately show ?thesis using assms(1) s1 by (auto simp: own_objects_def less_Suc_eq split: if_splits)
qed (use assms in \<open>auto simp: get_or_create_def\<close>)

lemma load_model_own:
  assumes "own_objects s"
  shows "own_objects (fst (snd (load_model env dep p s w))) \<and>
    (\<forall>j. j \<noteq> dep \<longrightarrow> entry (fst (snd (load_model env dep p s w))) j = entry s j)"
proof -
  obtain a s1 where g: "get_or_create dep s = (a, s1)" by fastforce
  note o = get_or_create_own [OF assms g]
  from confined_own [OF _ _ load_locked_confined, of s1 dep a env p w] o g show ?thesis by (simp add: load_model_def)
qed

lemma unload_model_own:
  assumes "own_objects s"
  shows "own_objects (fst (snd (unload_model env dep s w))) \<and>
    (\<forall>j. j \<noteq> dep \<longrightarrow> entry (fst (snd (unload_model env dep s w))) j = entry s j)"
proof (cases "rt_deployments s dep")
  case (Some a)
  from confined_own [OF assms Some unload_locked_confined, of env w] Some show ?thesis by (simp add: unload_model_def)
qed (simp add: unload_model_def assms)

lemma on_entry_own:
  assumes "own_objects s"
  shows "own_objects (on_entry dep f s) \<and> (\<forall>j. j \<noteq> dep \<longrightarrow> entry (on_entry dep f s) j = entry s j)"
proof (cases "rt_deployments s dep")
  case (Some a)
  from confined_own [OF assms Some confined_entry [OF confined_refl], of f] show ?thesis .
qed (simp add: on_entry_def assms)

lemma group_own:
  "own_objects (s\<lparr>rt_groups := g\<rparr>) = own_objects s" "entry (s\<lparr>rt_groups := g\<rparr>) = entry s"
  by (simp_all add: own_objects_def entry_def fun_eq_iff)

lemma group_load_entries:
  assumes "load_deployment_group env d s w = Some (r, s', w')"
  shows "\<exists>g. s' = s\<lparr>rt_groups := g\<rparr>"
  using assms
  by (auto simp: load_deployment_group_def Let_def split_def split: list.splits option.splits prod.splits if_splits
      intro: exI [of _ "rt_groups s"])

lemma group_unload_entries: "\<exists>g. fst (snd (unload_deployment_group env dep s w)) = s\<lparr>rt_groups := g\<rparr>"
  by (auto simp: unload_deployment_group_def Let_def split: option.split)

section \<open>Reachable states\<close>

text \<open>What the runtime can become by its operations, one after the other, on a host that may change in between.\<close>

inductive runtime_reach :: "'w rt_env \<Rightarrow> runtime \<Rightarrow> bool" for env where
  boot: "runtime_reach env new_runtime"
| load: "runtime_reach env s \<Longrightarrow> runtime_reach env (fst (snd (load_model env dep p s w)))"
| unload: "runtime_reach env s \<Longrightarrow> runtime_reach env (fst (snd (unload_model env dep s w)))"
| load_group: "runtime_reach env s \<Longrightarrow> load_deployment_group env d s w = Some (r, s', w') \<Longrightarrow> runtime_reach env s'"
| unload_group: "runtime_reach env s \<Longrightarrow> runtime_reach env (fst (snd (unload_deployment_group env dep s w)))"
| progress: "runtime_reach env s \<Longrightarrow> runtime_reach env (append_progress dep line s)"
| follow: "runtime_reach env s \<Longrightarrow> runtime_reach env (snd (subscribe_progress dep s))"

lemma subscribe_on_entry: "\<exists>f. snd (subscribe_progress dep s) = on_entry dep f s"
proof (cases "progress_of dep s")
  case None
  then have "on_entry dep (\<lambda>d. d) s = s" by (auto simp: progress_of_def entry_def on_entry_def split: option.splits)
  with None show ?thesis by (auto simp: subscribe_progress_def intro: exI [of _ "\<lambda>d. d"])
qed (auto simp: subscribe_progress_def split_def Let_def)

lemma reach_own: "runtime_reach env s \<Longrightarrow> own_objects s"
proof (induction rule: runtime_reach.induct)
  case boot
  show ?case by (simp add: own_objects_def new_runtime_def)
next
  case (load_group s d w r s' w')
  with group_load_entries [OF load_group(2)] show ?case by (auto simp: group_own)
next
  case (unload_group s dep w)
  with group_unload_entries [of env dep s w] show ?case by (auto simp: group_own)
next
  case (follow s dep)
  with subscribe_on_entry [of dep s] on_entry_own show ?case by metis
qed (simp_all add: load_model_own unload_model_own append_progress_def on_entry_own)

text \<open>
  C32 (invariant). Deployments are isolated: after any sequence of loads, unloads, group operations
  and progress reports, failed ones included, no two deployments share an object, and a load, an
  unload, a progress line or a new follower of one deployment leaves the state, the endpoint, the
  container, the plan and the progress of every other deployment as they were.
\<close>

theorem deployments_are_isolated:
  assumes "runtime_reach env s" and "i \<noteq> j"
  shows "(rt_deployments s i \<noteq> None \<longrightarrow> rt_deployments s i \<noteq> rt_deployments s j) \<and>
    entry (fst (snd (load_model env i p s w))) j = entry s j \<and>
    entry (fst (snd (unload_model env i s w))) j = entry s j \<and>
    entry (append_progress i line s) j = entry s j \<and> entry (snd (subscribe_progress i s)) j = entry s j"
proof -
  note own = reach_own [OF assms(1)]
  have "rt_deployments s i \<noteq> None \<longrightarrow> rt_deployments s i \<noteq> rt_deployments s j"
    using own_objectsD [OF own] assms(2) by auto
  moreover obtain f where "snd (subscribe_progress i s) = on_entry i f s" using subscribe_on_entry by blast
  ultimately show ?thesis
    using load_model_own [OF own, of env i p w] unload_model_own [OF own, of env i w] on_entry_own [OF own] assms(2)
    by (simp add: append_progress_def)
qed

theorem deployments_are_isolated_witness:
  "\<exists>s. runtime_reach fake_env s \<and> status_of s ''d'' = StateRunning \<and>
     entry (fst (snd (load_model fake_env ''e'' (sample_plan 0) s (new_fake_host [])))) ''d'' = entry s ''d''"
proof -
  let ?l = "load_model fake_env ''d'' (sample_plan 8000) new_runtime (new_fake_host [True])"
  obtain a s1 where g: "get_or_create ''d'' new_runtime = (a, s1)" by fastforce
  then have "status_of s1 ''d'' = StateAbsent"
    by (auto simp: get_or_create_def new_runtime_def status_of_def entry_def new_deployment_def Let_def)
  from good_plan_runs [OF this, of "new_fake_host [True]" a] g obtain s' w' where
    l: "load_locked fake_env ''d'' (sample_plan 8000) a s1 (new_fake_host [True]) = (Inr (endpoint_of fake_env 19000), s', w')"
    by auto
  then have "status_of s' ''d'' = StateRunning"
    using load_locked_success get_or_create_entry [OF g] by (fastforce simp: running_at_def)
  moreover have "runtime_reach fake_env s'"
    using runtime_reach.load [OF runtime_reach.boot, of fake_env "''d''" "sample_plan 8000" "new_fake_host [True]"] l g
    by (simp add: load_model_def)
  ultimately show ?thesis
    using deployments_are_isolated [of fake_env s' "''e''" "''d''" "sample_plan 0" "new_fake_host []"] by auto
qed

end
