(* ===== verification/Channel_Runs.thy ===== *)
theory Channel_Runs imports Channel begin

text \<open>
  Runs of the control channel: connections come and go, heartbeats are written, frames are handled in
  any order. What the control plane sees of such a run: which frames a connection carries, and that each
  command gets its reply.
\<close>

section \<open>Runs\<close>

text \<open>What the sessions of a tunnel tell it: a starter returned, a shell or a log stream reports.\<close>

datatype session_report =
    Starter nat "go_error + nat"
  | ShellReports string shell_event
  | LogLine string string string
  | LogsOver string string

fun report_event :: "session_report \<Rightarrow> tunnel_event" where
  "report_event (Starter n r) = EvOpenDone n r"
| "report_event (ShellReports sid e) = EvShell sid e"
| "report_event (LogLine sid stream d) = EvLine sid stream d"
| "report_event (LogsOver sid reason) = EvLogsEnd sid reason"

datatype channel_event =
    ChConnect nat
  | ChDrop nat "nat list" "nat list"
  | ChHeartbeat nat "((string \<rightharpoonup> string) \<times> metrics_sample option) option" "string list"
  | ChSession nat session_report
  | ChHandle int nat nat string inbound

text \<open>The channel when \<open>Run\<close> starts.\<close>

definition new_channel :: "int \<Rightarrow> dispatcher \<Rightarrow> 'w \<Rightarrow> 'w channel" where
  "new_channel ttl d w =
     \<lparr>ch_dedup = new_dedup (dedup_ttl ttl), ch_disp = d, ch_world = w, ch_current = None, ch_live = {},
      ch_wire = (\<lambda>_. []), ch_tunnels = (\<lambda>_. new_tunnel)\<rparr>"

fun channel_step :: "'w rt_env \<Rightarrow> environment \<Rightarrow> dispatcher_config \<Rightarrow> runtime_facts \<Rightarrow> channel_event \<Rightarrow> 'w channel \<Rightarrow> 'w channel" where
  "channel_step env getenv cfg facts (ChConnect c) ch = connect facts c ch"
| "channel_step env getenv cfg facts (ChDrop c ss ls) ch = drop_connection c ss ls ch"
| "channel_step env getenv cfg facts (ChHeartbeat c tele models) ch = snd (send_heartbeat tele models c ch)"
| "channel_step env getenv cfg facts (ChSession c r) ch =
     ch\<lparr>ch_tunnels := (ch_tunnels ch)(c := tunnel_step (report_event r) (ch_tunnels ch c))\<rparr>"
| "channel_step env getenv cfg facts (ChHandle now n c eid msg) ch = channel_handle env getenv cfg now n c eid msg ch"

definition channel_run :: "'w rt_env \<Rightarrow> environment \<Rightarrow> dispatcher_config \<Rightarrow> runtime_facts \<Rightarrow> channel_event list \<Rightarrow> 'w channel \<Rightarrow> 'w channel" where
  "channel_run env getenv cfg facts es ch = fold (channel_step env getenv cfg facts) es ch"

lemma channel_run_simps [simp]:
  "channel_run env getenv cfg facts [] ch = ch"
  "channel_run env getenv cfg facts (e # es) ch = channel_run env getenv cfg facts es (channel_step env getenv cfg facts e ch)"
  by (simp_all add: channel_run_def)

lemma channel_run_append:
  "channel_run env getenv cfg facts (es @ fs) ch = channel_run env getenv cfg facts fs (channel_run env getenv cfg facts es ch)"
  by (simp add: channel_run_def)

text \<open>A connection is dialled once: each connect opens a number that was not used before.\<close>

fun dials :: "channel_event list \<Rightarrow> nat list" where
  "dials [] = []"
| "dials (ChConnect c # es) = c # dials es"
| "dials (e # es) = dials es"

fun drops :: "channel_event list \<Rightarrow> nat list" where
  "drops [] = []"
| "drops (ChDrop c ss ls # es) = c # drops es"
| "drops (e # es) = drops es"

text \<open>The ids of the commands handled for a connection, in order.\<close>

fun is_command :: "inbound \<Rightarrow> bool" where
  "is_command (InLoad b) = True"
| "is_command (InUnload b) = True"
| "is_command m = False"

fun commands_on :: "nat \<Rightarrow> channel_event list \<Rightarrow> string list" where
  "commands_on c [] = []"
| "commands_on c (ChHandle now n c' eid msg # es) =
     (if c' = c \<and> is_command msg then eid # commands_on c es else commands_on c es)"
| "commands_on c (e # es) = commands_on c es"

fun replies_in :: "out_body list \<Rightarrow> string list" where
  "replies_in [] = []"
| "replies_in (BCommandResult r # bs) = cr_in_reply_to r # replies_in bs"
| "replies_in (b # bs) = replies_in bs"

lemma replies_in_append [simp]: "replies_in (xs @ ys) = replies_in xs @ replies_in ys"
  by (induction xs rule: replies_in.induct) simp_all

section \<open>Every stored reply is addressed to its command\<close>

definition addressed :: "dedup \<Rightarrow> bool" where
  "addressed d \<longleftrightarrow> (\<forall>k e. dd_entries d k = Some e \<longrightarrow> cr_in_reply_to (de_result e) = k)"

lemma store_addressed: "addressed d \<Longrightarrow> cr_in_reply_to r = k \<Longrightarrow> addressed (dedup_store now k r d)"
  by (auto simp: addressed_def dedup_store_def dedup_gc_def split: option.splits if_splits)

lemma dedup_run_addressed:
  assumes "addressed d" and "\<And>s. cr_in_reply_to (fst (fn s)) = k"
  shows "cr_in_reply_to (fst (fst (dedup_run now k fn (d, s)))) = k \<and> addressed (fst (snd (dedup_run now k fn (d, s))))"
proof -
  obtain r s' where f: "fn s = (r, s')" by fastforce
  with assms(2) [of s] have "cr_in_reply_to r = k" by simp
  with f assms(1) store_addressed [OF assms(1)] show ?thesis
    by (auto simp: dedup_run_def dedup_find_def addressed_def Let_def split: option.splits if_splits)
qed

lemma load_command_addressed: "cr_in_reply_to (fst (load_command env getenv cfg eid body s)) = eid"
  by (simp add: load_command_def ok_result_def failed_result_def split_def split: sum.split)

lemma unload_command_addressed: "cr_in_reply_to (fst (unload_command env eid body s)) = eid"
  by (simp add: unload_command_def ok_result_def failed_result_def split_def split: option.split)

lemma run_command_effect:
  assumes "addressed (ch_dedup ch)" and "\<And>s. cr_in_reply_to (fst (fn s)) = eid"
  shows "\<exists>r dd d w. run_command now eid fn c ch = reply_with c r (ch\<lparr>ch_dedup := dd, ch_disp := d, ch_world := w\<rparr>) \<and>
    cr_in_reply_to r = eid \<and> addressed dd"
proof -
  obtain r hit dd d w where run: "dedup_run now eid fn (ch_dedup ch, (ch_disp ch, ch_world ch)) = ((r, hit), dd, d, w)"
    by (metis prod.collapse)
  with dedup_run_addressed [where fn = fn and k = eid, OF assms, where now = now and s = "(ch_disp ch, ch_world ch)"] show ?thesis
    by (intro exI [of _ r] exI [of _ dd] exI [of _ d] exI [of _ w]) (simp add: run_command_def)
qed

text \<open>
  What handling a frame does: a command gets one reply on its connection, addressed to it, and nothing
  else is written to any wire.
\<close>

lemma handle_effect:
  assumes "addressed (ch_dedup ch)" and "ch' = channel_handle env getenv cfg now n c eid msg ch"
  shows "addressed (ch_dedup ch') \<and> ch_live ch' = ch_live ch \<and> (\<forall>x. x \<noteq> c \<longrightarrow> ch_wire ch' x = ch_wire ch x) \<and>
    (if is_command msg \<and> c \<in> ch_live ch
     then \<exists>r. cr_in_reply_to r = eid \<and> ch_wire ch' c = ch_wire ch c @ [BCommandResult r]
     else ch_wire ch' c = ch_wire ch c)"
proof -
  have reply: "addressed (ch_dedup ch') \<and> ch_live ch' = ch_live ch \<and> (\<forall>x. x \<noteq> c \<longrightarrow> ch_wire ch' x = ch_wire ch x) \<and>
    (if c \<in> ch_live ch then \<exists>r. cr_in_reply_to r = eid \<and> ch_wire ch' c = ch_wire ch c @ [BCommandResult r]
     else ch_wire ch' c = ch_wire ch c)"
    if "ch' = reply_with c r ch2" "cr_in_reply_to r = eid" "addressed (ch_dedup ch2)" "ch_live ch2 = ch_live ch"
      "ch_wire ch2 = ch_wire ch" for r and ch2
    using that by (auto simp: reply_with_def write_frame_def)
  have run: ?thesis if "ch' = run_command now eid fn c ch" "is_command msg" and fn: "\<And>s. cr_in_reply_to (fst (fn s)) = eid" for fn
  proof -
    from run_command_effect [where fn = fn and eid = eid, OF assms(1) fn, where now = now and c = c]
    obtain r dd d w where r: "run_command now eid fn c ch = reply_with c r (ch\<lparr>ch_dedup := dd, ch_disp := d, ch_world := w\<rparr>)"
      "cr_in_reply_to r = eid" "addressed dd" by blast
    from reply [OF that(1) [unfolded r(1)] r(2)] r(3) that(2) show ?thesis by simp
  qed
  have failed: ?thesis if "ch' = reply_with c (failed_result eid detail) ch" "is_command msg" for detail
    using reply [OF that(1)] assms(1) that(2) by (simp add: failed_result_def)
  show ?thesis
  proof (cases msg)
    case (InTunnel f)
    with assms show ?thesis by (simp add: channel_handle_def split: option.splits)
  next
    case (InLoad b)
    show ?thesis
    proof (cases b)
      case None
      with InLoad assms(2) show ?thesis by (intro failed) (simp_all add: channel_handle_def)
    next
      case (Some body)
      with InLoad assms(2) show ?thesis 
        by (intro run [of "load_command env getenv cfg eid body"]) (simp_all add: channel_handle_def load_command_addressed [of env getenv cfg eid body])
    qed
  next
    case (InUnload b)
    show ?thesis
    proof (cases b)
      case None
      with InUnload assms(2) show ?thesis by (intro failed) (simp_all add: channel_handle_def)
    next
      case (Some body)
      with InUnload assms(2) show ?thesis 
        by (intro run [of "unload_command env eid body"]) (simp_all add: channel_handle_def unload_command_addressed [of env eid body])
    qed
  next
    case (InOther t)
    with assms show ?thesis by (simp add: channel_handle_def)
  qed
qed

lemma step_addressed:
  assumes "addressed (ch_dedup ch)"
  shows "addressed (ch_dedup (channel_step env getenv cfg facts e ch))"
proof (cases e)
  case (ChHandle now n c eid msg)
  with handle_effect [OF assms refl, of env getenv cfg now n c eid msg] show ?thesis by simp
qed (use assms in \<open>simp_all add: frame_simps send_heartbeat_def write_frame_def\<close>)

lemma run_addressed: "addressed (ch_dedup ch) \<Longrightarrow> addressed (ch_dedup (channel_run env getenv cfg facts es ch))"
  by (induction es arbitrary: ch) (simp_all add: step_addressed)

lemma new_channel_addressed [simp]: "addressed (ch_dedup (new_channel ttl d w))"
  by (simp add: new_channel_def new_dedup_def addressed_def)

section \<open>What a connection carries\<close>

definition carries :: "runtime_facts \<Rightarrow> nat set \<Rightarrow> 'w channel \<Rightarrow> bool" where
  "carries facts used ch \<longleftrightarrow>
     addressed (ch_dedup ch) \<and> ch_live ch \<subseteq> used \<and>
     (\<forall>c. if c \<in> used
          then \<exists>bs. ch_wire ch c = BHello (hello_of facts) # bs \<and>
                 (\<forall>b \<in> set bs. (\<exists>h. b = BHeartbeat h) \<or> (\<exists>r. b = BCommandResult r))
          else ch_wire ch c = [])"

lemma carries_more:
  assumes "carries facts used ch" and "addressed (ch_dedup ch')" and "ch_live ch' = ch_live ch"
    and "\<And>x. x \<noteq> c \<Longrightarrow> ch_wire ch' x = ch_wire ch x"
    and "ch_wire ch' c = ch_wire ch c \<or> c \<in> ch_live ch \<and> (\<exists>b. ch_wire ch' c = ch_wire ch c @ [b] \<and>
      ((\<exists>h. b = BHeartbeat h) \<or> (\<exists>r. b = BCommandResult r)))"
  shows "carries facts used ch'"
proof -
  have *: "if x \<in> used then \<exists>bs. ch_wire ch x = BHello (hello_of facts) # bs \<and>
                 (\<forall>b \<in> set bs. (\<exists>h. b = BHeartbeat h) \<or> (\<exists>r. b = BCommandResult r)) else ch_wire ch x = []" for x
    using assms(1) unfolding carries_def by blast
  have "if x \<in> used then \<exists>bs. ch_wire ch' x = BHello (hello_of facts) # bs \<and>
                 (\<forall>b \<in> set bs. (\<exists>h. b = BHeartbeat h) \<or> (\<exists>r. b = BCommandResult r)) else ch_wire ch' x = []" for x
  proof (cases "ch_wire ch' x = ch_wire ch x")
    case True
    then show ?thesis using * [of x] by simp
  next
    case False
    with assms(4,5) obtain b where "x = c" "c \<in> ch_live ch" "ch_wire ch' c = ch_wire ch c @ [b]"
      "(\<exists>h. b = BHeartbeat h) \<or> (\<exists>r. b = BCommandResult r)" by metis
    moreover from this(2) assms(1) have "c \<in> used" by (auto simp: carries_def)
    ultimately show ?thesis using * [of c] by auto
  qed
  with assms(1-3) show ?thesis unfolding carries_def by simp
qed

lemma carries_step:
  assumes "carries facts used ch" and "\<And>c. e = ChConnect c \<Longrightarrow> c \<notin> used"
  shows "carries facts (used \<union> set (dials [e])) (channel_step env getenv cfg facts e ch)"
proof (cases e)
  case (ChConnect c)
  with assms show ?thesis
    by (auto simp: carries_def connect_def write_frame_def Let_def frame_simps split: if_splits)
next
  case (ChDrop c ss ls)
  with assms(1) show ?thesis by (auto simp: carries_def drop_connection_def)
next
  case (ChSession c r)
  with assms(1) show ?thesis by (simp add: carries_def)
next
  case (ChHeartbeat c tele models)
  have "addressed (ch_dedup ch)" using assms(1) by (simp add: carries_def)
  then show ?thesis
    unfolding ChHeartbeat by (auto intro!: carries_more [OF assms(1), where c = c] simp: send_heartbeat_def write_frame_def)
next
  case (ChHandle now n c eid msg)
  have "addressed (ch_dedup ch)" using assms(1) by (simp add: carries_def)
  from handle_effect [OF this refl, of env getenv cfg now n c eid msg] show ?thesis
    unfolding ChHandle by (auto intro!: carries_more [OF assms(1), where c = c] split: if_splits)
qed

lemma carries_run:
  "carries facts used ch \<Longrightarrow> distinct (dials es) \<Longrightarrow> set (dials es) \<inter> used = {} \<Longrightarrow>
   carries facts (used \<union> set (dials es)) (channel_run env getenv cfg facts es ch)"
proof (induction es arbitrary: used ch)
  case (Cons e es)
  have d: "dials (e # es) = dials [e] @ dials es" by (cases e) simp_all
  have "carries facts (used \<union> set (dials [e])) (channel_step env getenv cfg facts e ch)"
    using Cons.prems d by (intro carries_step) auto
  from Cons.IH [OF this] Cons.prems(2,3) show ?case by (auto simp: d Un_assoc)
qed simp
text \<open>A live connection that is neither dropped nor dialled again gets the replies of its commands.\<close>

lemma replies_run:
  assumes "c \<in> ch_live ch" and "addressed (ch_dedup ch)" and "c \<notin> set (dials es)" and "c \<notin> set (drops es)"
  shows "replies_in (ch_wire (channel_run env getenv cfg facts es ch) c) = replies_in (ch_wire ch c) @ commands_on c es"
  using assms
proof (induction es arbitrary: ch)
  case (Cons e es)
  let ?ch = "channel_step env getenv cfg facts e ch"
  have a: "addressed (ch_dedup ?ch)" using Cons.prems(2) by (rule step_addressed)
  have "c \<in> ch_live ?ch \<and> replies_in (ch_wire ?ch c) = replies_in (ch_wire ch c) @ commands_on c [e]"
  proof (cases e)
    case (ChHandle now n c' eid msg)
    from handle_effect [OF Cons.prems(2) refl, of env getenv cfg now n c' eid msg] Cons.prems(1) show ?thesis
      unfolding ChHandle by (cases "c' = c") (auto split: if_splits)
  qed (use Cons.prems in \<open>auto simp: connect_def drop_connection_def send_heartbeat_def write_frame_def Let_def\<close>)
  moreover have "c \<notin> set (dials es)" "c \<notin> set (drops es)" "commands_on c (e # es) = commands_on c [e] @ commands_on c es"
    using Cons.prems(3,4) by (cases e; simp)+
  ultimately show ?case using Cons.IH [OF _ a] by simp
qed simp

section \<open>Properties\<close>

text \<open>
  C30 (type). Besides the frames of its tunnel, every connection carries one Hello, first, and then only
  heartbeats and command results, however connections, heartbeats and handlers interleave, and a
  connection that was never dialled carries nothing.
\<close>

theorem connection_begins_with_hello:
  assumes "distinct (dials es)" and "ch = channel_run env getenv cfg facts es (new_channel ttl d w)"
  shows "if c \<in> set (dials es)
    then \<exists>bs. ch_wire ch c = BHello (hello_of facts) # bs \<and>
           (\<forall>b \<in> set bs. (\<exists>h. b = BHeartbeat h) \<or> (\<exists>r. b = BCommandResult r))
    else ch_wire ch c = []"
proof -
  have "carries facts {} (new_channel ttl d w)" by (simp add: carries_def) (simp add: new_channel_def)
  from carries_run [OF this assms(1), of env getenv cfg] show ?thesis unfolding assms(2) carries_def by simp
qed

text \<open>
  (liveness). Every command is answered: as long as its connection lasts, each load or unload
  command that arrives on it, decodable or not, new or repeated, successful or not, gets exactly one
  result, on that connection and addressed to its id, in the order in which they are handled.
\<close>

theorem every_command_is_answered:
  assumes "c \<notin> set (dials fs)" and "c \<notin> set (drops fs)"
    and "ch = channel_run env getenv cfg facts (es @ ChConnect c # fs) (new_channel ttl d w)"
  shows "replies_in (ch_wire ch c) = commands_on c fs"
proof -
  let ?ch = "connect facts c (channel_run env getenv cfg facts es (new_channel ttl d w))"
  have "addressed (ch_dedup ?ch)" by (simp add: frame_simps run_addressed)
  from replies_run [OF connect_wire(2) this assms(1,2), of env getenv cfg facts] assms(3) show ?thesis
    by (simp add: channel_run_append connect_wire(1))
qed

text \<open>A short life: two connections, a repeated unload and a command that cannot be decoded.\<close>

definition sample_events :: "channel_event list" where
  "sample_events =
     [ChHandle 0 0 0 ''e1'' (InUnload (Some \<lparr>um_deployment_id = ''d''\<rparr>)), ChHeartbeat 0 None [], ChDrop 0 [] []]"

definition sample_events2 :: "channel_event list" where
  "sample_events2 =
     [ChHandle 5 1 1 ''e1'' (InUnload (Some \<lparr>um_deployment_id = ''d''\<rparr>)), ChHandle 6 2 1 ''e2'' (InLoad None),
      ChHandle 7 3 0 ''e3'' (InLoad None)]"

definition sample_facts :: runtime_facts where
  "sample_facts = \<lparr>rf_kind = ''local'', rf_instance_id = [], rf_region = [], rf_availability_zone = []\<rparr>"

definition idle_dispatcher :: dispatcher where
  "idle_dispatcher = \<lparr>ds_rt = new_runtime, ds_registry = None, ds_allocator = None, ds_metrics = None\<rparr>"

theorem connection_begins_with_hello_witness:
  "\<exists>bs. ch_wire (channel_run fake_env (\<lambda>_. []) sample_config sample_facts
      (ChConnect 0 # sample_events @ ChConnect 1 # sample_events2) (new_channel 0 idle_dispatcher (new_fake_host []))) 1 =
     BHello (hello_of sample_facts) # bs"
proof -
  let ?es = "ChConnect 0 # sample_events @ ChConnect 1 # sample_events2"
  have "dials ?es = [0, 1]" by (simp add: sample_events_def sample_events2_def)
  then show ?thesis
    using connection_begins_with_hello [of ?es, OF _ refl, of 1 fake_env "\<lambda>_. []" sample_config sample_facts 0 idle_dispatcher "new_fake_host []"]
    by auto
qed

theorem every_command_is_answered_witness:
  "replies_in (ch_wire (channel_run fake_env (\<lambda>_. []) sample_config sample_facts
      ((ChConnect 0 # sample_events) @ ChConnect 1 # sample_events2) (new_channel 0 idle_dispatcher (new_fake_host []))) 1) =
     [''e1'', ''e2'']"
  using every_command_is_answered [of 1 sample_events2, OF _ _ refl, of fake_env "\<lambda>_. []" sample_config sample_facts
      "ChConnect 0 # sample_events" 0 idle_dispatcher "new_fake_host []"]
  by (simp add: sample_events2_def)

section \<open>The reconnect loop\<close>

text \<open>
  How one turn of \<open>Run\<close> went: it was not connected, the Hello could not be written, or it lasted for some
  events and ended with an error. The lists are the sessions of the two tables at the end.
\<close>

datatype turn =
    DialFails go_error
  | HelloFails go_error
  | Established "channel_event list" "nat list" "nat list" go_error

fun connect_once ::
  "'w rt_env \<Rightarrow> environment \<Rightarrow> dispatcher_config \<Rightarrow> runtime_facts \<Rightarrow> nat \<Rightarrow> turn \<Rightarrow> 'w channel \<Rightarrow> go_error \<times> 'w channel" where
  "connect_once env getenv cfg facts c (DialFails e) ch = (wrap_err ''dial'' e, ch)"
| "connect_once env getenv cfg facts c (HelloFails e) ch =
     (wrap_err ''sendHello'' e,
      drop_connection c [] [] (ch\<lparr>ch_current := Some c, ch_tunnels := (ch_tunnels ch)(c := new_tunnel)\<rparr>))"
| "connect_once env getenv cfg facts c (Established es shells logs e) ch =
     (e, drop_connection c shells logs (channel_run env getenv cfg facts es (connect facts c ch)))"

text \<open>The turns of \<open>Run\<close> with their connections and jitter: the waits between them and the channel at the end.\<close>

fun run_channel ::
  "'w rt_env \<Rightarrow> environment \<Rightarrow> dispatcher_config \<Rightarrow> runtime_facts \<Rightarrow> int \<Rightarrow> (nat \<times> turn \<times> rat) list \<Rightarrow> 'w channel \<Rightarrow> int list \<times> 'w channel" where
  "run_channel env getenv cfg facts attempt [] ch = ([], ch)"
| "run_channel env getenv cfg facts attempt ((c, t, jitter) # ts) ch =
     (let (e, ch) = connect_once env getenv cfg facts c t ch;
          attempt = attempt + 1;
          (waits, ch) = run_channel env getenv cfg facts attempt ts ch
      in (backoff_for attempt jitter # waits, ch))"

fun turn_events :: "turn \<Rightarrow> channel_event list" where
  "turn_events (Established es ss ls e) = es"
| "turn_events t = []"

fun opened :: "turn \<Rightarrow> bool" where
  "opened (DialFails e) = False"
| "opened t = True"

text \<open>What the events of one turn do to the tunnel of its connection.\<close>

fun tunnel_turn :: "nat \<Rightarrow> channel_event \<Rightarrow> tunnel \<Rightarrow> tunnel" where
  "tunnel_turn c (ChHandle now n x eid (InTunnel f)) t = snd (tunnel_handle n f t)"
| "tunnel_turn c (ChSession x r) t = (if x = c then tunnel_step (report_event r) t else t)"
| "tunnel_turn c e t = t"

definition tunnel_after :: "nat \<Rightarrow> channel_event list \<Rightarrow> tunnel" where
  "tunnel_after c es = fold (tunnel_turn c) es new_tunnel"

text \<open>The sessions a tunnel would close, and those it has closed.\<close>

definition registered_sessions :: "tunnel \<Rightarrow> nat set" where
  "registered_sessions t = ran (tn_shells t) \<union> ran (tn_logs t)"

definition closed_sessions :: "tunnel \<Rightarrow> nat set" where
  "closed_sessions t = {s. CallClose s \<in> set (tn_calls t)}"

text \<open>The two lists of a turn are the sessions of the tables at its end, in the order they are visited.\<close>

fun visits_all :: "nat \<Rightarrow> turn \<Rightarrow> bool" where
  "visits_all c (Established es ss ls e) \<longleftrightarrow>
     set ss = ran (tn_shells (tunnel_after c es)) \<and> set ls = ran (tn_logs (tunnel_after c es))"
| "visits_all c t \<longleftrightarrow> True"

definition torn_down :: "tunnel \<Rightarrow> bool" where
  "torn_down t \<longleftrightarrow> tn_disposed t \<and> registered_sessions t = {}"

text \<open>What a tunnel may still do after its connection: close more sessions, never hold one again.\<close>

definition only_closes :: "tunnel \<Rightarrow> tunnel \<Rightarrow> bool" where
  "only_closes t t' \<longleftrightarrow> (torn_down t \<longrightarrow> torn_down t') \<and> closed_sessions t \<subseteq> closed_sessions t'"

lemma only_closes_refl [simp]: "only_closes t t"
  by (simp add: only_closes_def)

lemma only_closes_trans: "only_closes t u \<Longrightarrow> only_closes u v \<Longrightarrow> only_closes t v"
  by (auto simp: only_closes_def)

lemma torn_down_iff: "torn_down t \<longleftrightarrow> tn_disposed t \<and> tn_shells t = Map.empty \<and> tn_logs t = Map.empty"
  by (auto simp: torn_down_def registered_sessions_def ran_def fun_eq_iff) (metis option.exhaust)+

lemma report_only_closes: "only_closes t (tunnel_step (report_event r) t)"
proof (cases r)
  case (Starter n q)
  then show ?thesis
    by (auto simp: only_closes_def torn_down_iff closed_sessions_def open_done_def shell_started_def logs_started_def
        send_error_def send_logs_end_def send_body_def call_session_def Let_def split: option.splits sum.splits)
next
  case (ShellReports sid e)
  then show ?thesis
    by (cases e) (auto simp: only_closes_def torn_down_iff closed_sessions_def send_error_def send_body_def drop_shell_def)
qed (auto simp: only_closes_def torn_down_iff closed_sessions_def logs_line_def logs_ended_def send_logs_end_def
    send_body_def drop_logs_def)

text \<open>
  The events of a turn act on the tunnel of the current connection; on the tunnel of an earlier one
  only its own sessions can still report.
\<close>

lemma turn_step:
  assumes "dials [e] = []" and "drops [e] = []" and "ch_current ch = Some c" and "ch' = channel_step env getenv cfg facts e ch"
  shows "ch_current ch' = Some c \<and> ch_live ch' = ch_live ch \<and>
    (\<forall>x. x \<noteq> c \<longrightarrow> only_closes (ch_tunnels ch x) (ch_tunnels ch' x)) \<and> ch_tunnels ch' c = tunnel_turn c e (ch_tunnels ch c)"
proof -
  have reply: "ch_current (reply_with x r k) = ch_current k \<and> ch_live (reply_with x r k) = ch_live k \<and> ch_tunnels (reply_with x r k) = ch_tunnels k"
    for x r and k :: "'w channel" by (simp add: reply_with_def write_frame_def)
  show ?thesis
  proof (cases e)
    case (ChHandle now n x eid msg)
    with assms(3,4) reply show ?thesis
      by (auto simp: channel_handle_def run_command_def split_def Let_def split: inbound.split option.split)
  next
    case (ChSession x r)
    with assms(3,4) show ?thesis by (simp add: report_only_closes)
  qed (use assms in \<open>auto simp: send_heartbeat_def write_frame_def\<close>)
qed

lemma turn_run:
  "dials es = [] \<Longrightarrow> drops es = [] \<Longrightarrow> ch_current ch = Some c \<Longrightarrow> ch' = channel_run env getenv cfg facts es ch \<Longrightarrow>
   ch_current ch' = Some c \<and> ch_live ch' = ch_live ch \<and>
   (\<forall>x. x \<noteq> c \<longrightarrow> only_closes (ch_tunnels ch x) (ch_tunnels ch' x)) \<and>
   ch_tunnels ch' c = fold (tunnel_turn c) es (ch_tunnels ch c)"
proof (induction es arbitrary: ch)
  case (Cons e es)
  have d: "dials [e] = []" "dials es = []" "drops [e] = []" "drops es = []"
    using Cons.prems(1,2) by (cases e; simp)+
  note s = turn_step [OF d(1,3) Cons.prems(3) refl, of env getenv cfg facts]
  from Cons.IH [OF d(2,4) _ Cons.prems(4) [unfolded channel_run_simps]] s show ?case
    by (auto intro: only_closes_trans)
qed simp

fun sessions_at_drop :: "nat \<Rightarrow> turn \<Rightarrow> nat set" where
  "sessions_at_drop c (Established es ss ls e) = registered_sessions (tunnel_after c es)"
| "sessions_at_drop c t = {}"

lemma new_tunnel_empty [simp]: "tn_disposed new_tunnel = False" "registered_sessions new_tunnel = {}"
  by (simp_all add: new_tunnel_def registered_sessions_def)

text \<open>The tables the teardown leaves: no session registered, and a close for each that was.\<close>

lemma handled_not_disposed [simp]: "tn_disposed (snd (tunnel_handle n f t)) = tn_disposed t"
  by (auto simp: tunnel_handle_def shell_open_def shell_input_def shell_resize_def shell_close_def logs_open_def logs_close_def
      send_error_def send_logs_end_def send_body_def call_session_def Let_def split: frame.splits option.splits)

lemma reported_not_disposed [simp]: "tn_disposed (tunnel_step (report_event r) t) = tn_disposed t"
proof (cases r)
  case (Starter n q)
  then show ?thesis
    by (auto simp: open_done_def shell_started_def logs_started_def send_error_def send_logs_end_def send_body_def
        call_session_def Let_def split: option.splits sum.splits)
next
  case (ShellReports sid e)
  then show ?thesis by (cases e) (auto simp: send_error_def send_body_def drop_shell_def)
qed (auto simp: logs_line_def logs_ended_def send_logs_end_def send_body_def drop_logs_def)

lemma turn_not_disposed: "tn_disposed (tunnel_turn c e t) = tn_disposed t"
  by (cases "(c, e, t)" rule: tunnel_turn.cases) simp_all

lemma after_not_disposed: "\<not> tn_disposed (tunnel_after c es)"
proof -
  have "tn_disposed (fold (tunnel_turn c) es t) = tn_disposed t" for t
    by (induction es arbitrary: t) (simp_all add: turn_not_disposed)
  then show ?thesis by (simp add: tunnel_after_def)
qed

lemma close_all_closes:
  assumes "\<not> tn_disposed t" and "set ss = ran (tn_shells t)" and "set ls = ran (tn_logs t)"
  shows "torn_down (close_all ss ls t) \<and> registered_sessions t \<subseteq> closed_sessions (close_all ss ls t)"
  using assms by (auto simp: close_all_def torn_down_def registered_sessions_def closed_sessions_def)

lemma turn_ends:
  assumes "dials (turn_events t) = []" and "drops (turn_events t) = []" and "ch_current ch = None" and "ch_live ch = {}"
    and "visits_all c t" and "ch' = snd (connect_once env getenv cfg facts c t ch)"
  shows "ch_current ch' = None \<and> ch_live ch' = {} \<and> (\<forall>x. x \<noteq> c \<longrightarrow> only_closes (ch_tunnels ch x) (ch_tunnels ch' x)) \<and>
    (opened t \<longrightarrow> torn_down (ch_tunnels ch' c) \<and> sessions_at_drop c t \<subseteq> closed_sessions (ch_tunnels ch' c))"
proof (cases t)
  case (Established es ss ls e)
  let ?ch = "connect facts c ch"
  have "ch_current ?ch = Some c" "ch_live ?ch = {c}" "ch_tunnels ?ch = (ch_tunnels ch)(c := new_tunnel)"
    using assms(4) by (simp_all add: connect_def write_frame_def Let_def)
  with turn_run [OF _ _ this(1) refl, of es env getenv cfg facts] assms(1,2,5,6) Established
    close_all_closes [OF after_not_disposed, of ss c es ls] show ?thesis
    by (simp add: drop_connection_def tunnel_after_def)
qed (use assms in \<open>simp_all add: drop_connection_def close_all_def torn_down_iff new_tunnel_def\<close>)


text \<open>A shell and a log stream are registered and a second shell is still starting when the connection ends.\<close>

definition busy_turn :: turn where
  "busy_turn = Established
     [ChHandle 0 0 1 ''e1'' (InTunnel (open_frame ''a'')), ChSession 1 (Starter 0 (Inr 7)),
      ChSession 1 (ShellReports ''a'' (OnOutput ''hi'')),
      ChHandle 1 1 1 ''e2'' (InTunnel (FLogsOpen (Some \<lparr>lo_stream_id = ''b'', lo_deployment_id = ''d'', lo_container_id = []\<rparr>))),
      ChSession 1 (Starter 1 (Inr 8)), ChHandle 2 2 1 ''e3'' (InTunnel (open_frame ''c''))]
     [7] [8] (Errorf ''EOF'' [])"

lemma busy_turn_tables:
  "tn_shells (tunnel_after 1 (turn_events busy_turn)) = [''a'' \<mapsto> 7] \<and> tn_logs (tunnel_after 1 (turn_events busy_turn)) = [''b'' \<mapsto> 8]"
  by (simp add: busy_turn_def tunnel_after_def open_frame_step [simplified] new_tunnel_def open_done_def shell_started_def
      logs_started_def host_opening_def send_body_def tunnel_handle_def open_frame_def shell_open_def logs_open_def
      starter_of_def shell_config_of_def Let_def)


end
