(* ===== verification/Composition.thy ===== *)
theory Composition imports Worker Channel begin

text \<open>
  The components together: main gives the proxy and the dispatcher the same runtime, metrics and
  registry, so that what a command leaves behind is what the next request finds.
\<close>

text \<open>The proxy as main configures it, over the state the dispatcher has.\<close>

definition proxy_of :: "dispatcher \<Rightarrow> proxy" where
  "proxy_of d = \<lparr>px_header = ''X-Inferia-Deployment-Id'', px_resolver = None, px_runtime = ds_rt d, px_metrics = ds_metrics d,
     px_registry = ds_registry d\<rparr>"

lemma proxy_of_sel [simp]:
  "px_runtime (proxy_of d) = ds_rt d" "px_metrics (proxy_of d) = ds_metrics d" "px_registry (proxy_of d) = ds_registry d"
  by (simp_all add: proxy_of_def)

text \<open>An inference request for a deployment.\<close>

definition inference_request :: "string \<Rightarrow> proxy_request \<Rightarrow> bool" where
  "inference_request dep rq \<longleftrightarrow>
     has_prefix (rq_path rq) ''/v1/'' \<and> header_get ''X-Inferia-Deployment-Id'' (rq_headers rq) = dep \<and> dep \<noteq> []"

definition main_header :: "proxy \<Rightarrow> bool" where
  "main_header p \<longleftrightarrow> px_header p = ''X-Inferia-Deployment-Id'' \<and> px_resolver p = None"

lemma proxy_of_header [simp]: "main_header (proxy_of d)"
  by (simp add: main_header_def proxy_of_def)

lemma inference_request_routed:
  assumes "inference_request dep rq" and "main_header p"
  shows "resolve_deployment p rq = dep" "routed p (rq_path rq) dep"
proof -
  have "\<not> has_prefix (rq_path rq) ''/generate/''"
  proof
    assume "has_prefix (rq_path rq) ''/generate/''"
    moreover have "has_prefix (rq_path rq) ''/v1/''" using assms by (simp add: inference_request_def)
    ultimately obtain a b where "''/generate/'' @ a = ''/v1/'' @ b"
      unfolding has_prefix_def by (metis append_take_drop_id)
    then show False by simp
  qed
  with assms show "resolve_deployment p rq = dep" "routed p (rq_path rq) dep"
    by (simp_all add: inference_request_def resolve_deployment_def main_header_def routed_def)
qed

lemma serve_single:
  assumes "inference_request dep rq" and "main_header p" and "\<forall>r. px_registry p = Some r \<longrightarrow> r dep = None"
  shows "serve_proxy penv rq p v = proxy_single penv rq dep p v"
  using inference_request_routed [OF assms(1,2)] assms(3)
  by (auto simp: serve_proxy_def lookup_by_id_def Let_def split: option.splits)

section \<open>Loading, serving, unloading\<close>

text \<open>The latency histogram of a deployment, a new one when it has none, and how many samples it still takes.\<close>

definition hist_of :: "collector \<Rightarrow> string \<Rightarrow> peak_histogram" where
  "hist_of c dep = mb_hist (get_bucket dep [] [] c)"

definition metrics_ok :: "collector \<Rightarrow> bool" where
  "metrics_ok c \<longleftrightarrow> (\<forall>dep. hist_inv (hist_of c dep))"

definition request_room :: "collector \<Rightarrow> string \<Rightarrow> nat" where
  "request_room c dep = length (ph_buffer (hist_of c dep)) - nat (ph_cur (hist_of c dep))"

lemma get_bucket_hist: "mb_hist (get_bucket dep r m c) = hist_of c dep"
  by (simp add: hist_of_def get_bucket_def new_bucket_def split: option.split)

lemma hist_of_active [simp]: "hist_of (inc_active d c) dep = hist_of c dep" "hist_of (dec_active d c) dep = hist_of c dep"
  by (auto simp: hist_of_def inc_active_def dec_active_def get_bucket_def new_bucket_def Let_def split: option.split)

lemma metrics_frame [simp]:
  "metrics_ok (inc_active d c) = metrics_ok c" "metrics_ok (dec_active d c) = metrics_ok c"
  "request_room (inc_active d c) dep = request_room c dep" "request_room (dec_active d c) dep = request_room c dep"
  by (simp_all add: metrics_ok_def request_room_def)

lemma new_collector_hist: "c dep = None \<Longrightarrow> hist_of c dep = new_peak_histogram 1000 collector_limits"
  by (simp add: hist_of_def get_bucket_def new_bucket_def)

lemma new_collector_ok: "metrics_ok new_collector" "c dep = None \<Longrightarrow> request_room c dep = 1000"
proof -
  have "hist_inv (new_peak_histogram 1000 collector_limits)" by (rule hist_inv_new) (simp add: collector_limits_def)
  then show "metrics_ok new_collector" by (simp add: metrics_ok_def new_collector_hist new_collector_def)
  show "c dep = None \<Longrightarrow> request_room c dep = 1000"
    by (simp add: request_room_def new_collector_hist) (simp add: new_peak_histogram_def)
qed

lemma record_request_room:
  assumes ok: "metrics_ok c"
  shows "if request_room c dep = 0 then record_request dep r m l c = None
    else \<exists>c'. record_request dep r m l c = Some c' \<and> metrics_ok c' \<and> request_room c' dep = request_room c dep - 1"
proof -
  let ?h = "hist_of c dep"
  have inv: "hist_inv ?h" using ok by (simp add: metrics_ok_def)
  then have range: "0 \<le> ph_cur ?h" "ph_cur ?h \<le> int (length (ph_buffer ?h))" by (simp_all add: hist_inv_def)
  show ?thesis
  proof (cases "ph_cur ?h < int (length (ph_buffer ?h))")
    case True
    obtain h' where h': "hist_observe l ?h = Some h'" "hist_inv h'" "ph_cur h' = ph_cur ?h + 1"
      "length (ph_buffer h') = length (ph_buffer ?h)"
      using hist_observe_filling [OF inv True, of l] by metis
    let ?b = "(get_bucket dep r m c)\<lparr>mb_requests := mb_requests (get_bucket dep r m c) + 1, mb_hist := h'\<rparr>"
    have rec: "record_request dep r m l c = Some (c(dep \<mapsto> ?b))"
      by (simp add: record_request_def get_bucket_hist h' Let_def)
    have hist: "hist_of (c(dep \<mapsto> ?b)) d = (if d = dep then h' else hist_of c d)" for d
      by (simp add: hist_of_def get_bucket_def)
    have "metrics_ok (c(dep \<mapsto> ?b))" using ok h'(2) by (simp add: metrics_ok_def hist)
    moreover have "request_room (c(dep \<mapsto> ?b)) dep = request_room c dep - 1" "request_room c dep \<noteq> 0"
      using True range h' by (simp_all add: request_room_def hist)
    ultimately show ?thesis using rec by simp
  next
    case False
    with range have full: "ph_cur ?h = int (length (ph_buffer ?h))" by simp
    then have "record_request dep r m l c = None"
      using hist_observe_full [OF inv full] by (simp add: record_request_def get_bucket_hist Let_def)
    with full show ?thesis by (simp add: request_room_def)
  qed
qed

text \<open>A deployment that runs at an endpoint, as the proxy sees it.\<close>

definition served_at :: "string \<Rightarrow> string \<Rightarrow> collector \<Rightarrow> proxy \<Rightarrow> bool" where
  "served_at dep ep c p \<longleftrightarrow>
     px_metrics p = Some c \<and> metrics_ok c \<and> endpoint_url (px_runtime p) dep = ep \<and> ep \<noteq> [] \<and>
     deployment_info (px_runtime p) dep \<noteq> None \<and> (\<forall>r. px_registry p = Some r \<longrightarrow> r dep = None)"

lemma proxy_single_serves:
  assumes "served_at dep ep c p" and "dep \<noteq> []"
    and "pe_new_request penv (rq_method rq) (hr_url (upstream_request ep rq)) = None"
    and "pe_do penv (upstream_request ep rq) v = (Inr resp, v')"
  shows "if request_room c dep = 0 then proxy_single penv rq dep p v = None
    else \<exists>c'. proxy_single penv rq dep p v = Some (stream_of resp, p\<lparr>px_metrics := Some c'\<rparr>, v') \<and>
      served_at dep ep c' (p\<lparr>px_metrics := Some c'\<rparr>) \<and> request_room c' dep = request_room c dep - 1"
proof -
  let ?q = "count_active dep p" and ?l = "pe_now penv v' - pe_now penv v"
  from assms(1) have p: "px_metrics p = Some c" "metrics_ok c" "endpoint_url (px_runtime p) dep = ep" "ep \<noteq> []"
    by (simp_all add: served_at_def)
  from assms(1) obtain i where i: "deployment_info (px_runtime p) dep = Some i" by (auto simp: served_at_def)
  have q: "?q = p\<lparr>px_metrics := Some (inc_active dep c)\<rparr>" by (simp add: count_active_def p(1))
  have rec: "record_latency dep l ?q =
      map_option (\<lambda>c'. p\<lparr>px_metrics := Some c'\<rparr>) (record_request dep (di_recipe i) (di_model i) (duration_ms l) (inc_active dep c))" for l
    by (simp add: record_latency_def q i)
  have m: "hr_method (upstream_request ep rq) = rq_method rq" by (simp add: upstream_request_def)
  have serve: "proxy_single penv rq dep p v =
      map_option (\<lambda>c'. (stream_of resp, uncount_active dep (p\<lparr>px_metrics := Some c'\<rparr>), v'))
        (record_request dep (di_recipe i) (di_model i) (duration_ms ?l) (inc_active dep c))"
    using assms(2-4) p(3,4) by (auto simp: proxy_single_def send_single_def m rec Let_def split: option.splits)
  show ?thesis
  proof (cases "request_room c dep = 0")
    case True
    with record_request_room [of "inc_active dep c" dep "di_recipe i" "di_model i" "duration_ms ?l"] p(2) serve
    show ?thesis by simp
  next
    case False
    with record_request_room [of "inc_active dep c" dep "di_recipe i" "di_model i" "duration_ms ?l"] p(2)
    obtain c1 where c1: "record_request dep (di_recipe i) (di_model i) (duration_ms ?l) (inc_active dep c) = Some c1"
      "metrics_ok c1" "request_room c1 dep = request_room c dep - 1" by auto
    then have "proxy_single penv rq dep p v = Some (stream_of resp, p\<lparr>px_metrics := Some (dec_active dep c1)\<rparr>, v')"
      using serve by (simp add: uncount_active_def)
    moreover have "served_at dep ep (dec_active dep c1) (p\<lparr>px_metrics := Some (dec_active dep c1)\<rparr>)"
      using assms(1) c1(2) by (simp add: served_at_def)
    ultimately show ?thesis using False c1(3) by auto
  qed
qed

lemma running_has_info:
  "status_of s dep = StateRunning \<Longrightarrow> deployment_info s dep \<noteq> None"
  by (simp add: status_of_def deployment_info_def split: option.splits)

lemma dispatch_single_running:
  assumes "dispatch_single env getenv cfg body d w = (Inr ep, d', w')"
  shows "status_of (ds_rt d') (lm_deployment_id body) = StateRunning \<and> endpoint_url (ds_rt d') (lm_deployment_id body) = ep \<and>
    ep \<noteq> [] \<and> ds_registry d' = ds_registry d \<and> ds_metrics d' = ds_metrics d"
proof -
  let ?dep = "lm_deployment_id body"
  obtain gpus d1 p rt where a: "allocate_for ?dep (lm_gpu_indices body) d = (gpus, d1)"
    and l: "load_model env ?dep p (ds_rt d1) w = (Inr ep, rt, w')" "d' = d1\<lparr>ds_rt := rt\<rparr>"
    using dispatch_single_success [OF assms] by metis
  from a have d1: "ds_registry d1 = ds_registry d" "ds_metrics d1 = ds_metrics d"
    by (auto simp: allocate_for_def split_def Let_def split: option.splits)
  obtain b s1 where g: "get_or_create ?dep (ds_rt d1) = (b, s1)" by fastforce
  with l(1) have "load_locked env ?dep p b s1 w = (Inr ep, rt, w')" by (simp add: load_model_def)
  from load_locked_success [OF this] get_or_create_entry [OF g]
  show ?thesis using l(2) d1 by (auto simp: running_at_def)
qed

section \<open>Serving what was loaded\<close>

text \<open>A sequence of requests, in the order the proxy handles them; \<open>None\<close> when a handler panics.\<close>

fun serve_all :: "'w proxy_env \<Rightarrow> proxy_request list \<Rightarrow> proxy \<Rightarrow> 'w \<Rightarrow> (proxy \<times> 'w) option" where
  "serve_all penv [] p w = Some (p, w)"
| "serve_all penv (rq # rqs) p w =
     (case serve_proxy penv rq p w of None \<Rightarrow> None | Some (r, p, w) \<Rightarrow> serve_all penv rqs p w)"

text \<open>An upstream that answers every request for the endpoint.\<close>

definition upstream_answers :: "'w proxy_env \<Rightarrow> string \<Rightarrow> bool" where
  "upstream_answers penv ep \<longleftrightarrow>
     (\<forall>rq v. pe_new_request penv (rq_method rq) (hr_url (upstream_request ep rq)) = None \<and>
        (\<exists>resp v'. pe_do penv (upstream_request ep rq) v = (Inr resp, v')))"

lemma served_request:
  assumes "served_at dep ep c p" and "main_header p" and "inference_request dep rq"
    and "pe_new_request penv (rq_method rq) (hr_url (upstream_request ep rq)) = None"
    and "pe_do penv (upstream_request ep rq) v = (Inr resp, v')"
  shows "if request_room c dep = 0 then serve_proxy penv rq p v = None
    else \<exists>c'. serve_proxy penv rq p v = Some (stream_of resp, p\<lparr>px_metrics := Some c'\<rparr>, v') \<and>
      served_at dep ep c' (p\<lparr>px_metrics := Some c'\<rparr>) \<and> main_header (p\<lparr>px_metrics := Some c'\<rparr>) \<and>
      request_room c' dep = request_room c dep - 1"
proof -
  have "dep \<noteq> []" using assms(3) by (simp add: inference_request_def)
  moreover have "serve_proxy penv rq p v = proxy_single penv rq dep p v"
    by (rule serve_single [OF assms(3,2)]) (use assms(1) in \<open>simp add: served_at_def\<close>)
  ultimately show ?thesis
    using proxy_single_serves [OF assms(1) _ assms(4,5)] assms(2) by (auto simp: main_header_def)
qed

lemma serve_all_room:
  assumes "served_at dep ep c p" and "main_header p" and "\<forall>rq \<in> set rqs. inference_request dep rq"
    and "upstream_answers penv ep"
  shows "serve_all penv rqs p v \<noteq> None \<longleftrightarrow> length rqs \<le> request_room c dep"
  using assms(1-3)
proof (induction rqs arbitrary: c p v)
  case Nil
  then show ?case by simp
next
  case (Cons rq rqs)
  obtain resp v' where up: "pe_new_request penv (rq_method rq) (hr_url (upstream_request ep rq)) = None"
    "pe_do penv (upstream_request ep rq) v = (Inr resp, v')"
    using assms(4) unfolding upstream_answers_def by metis
  have rq: "inference_request dep rq" using Cons.prems(3) by simp
  note step = served_request [OF Cons.prems(1,2) rq up]
  show ?case
  proof (cases "request_room c dep = 0")
    case True
    with step show ?thesis by simp
  next
    case False
    with step obtain c' where s: "serve_proxy penv rq p v = Some (stream_of resp, p\<lparr>px_metrics := Some c'\<rparr>, v')"
      "served_at dep ep c' (p\<lparr>px_metrics := Some c'\<rparr>)" "main_header (p\<lparr>px_metrics := Some c'\<rparr>)"
      "request_room c' dep = request_room c dep - 1" by auto
    have "serve_all penv rqs (p\<lparr>px_metrics := Some c'\<rparr>) v' \<noteq> None \<longleftrightarrow> length rqs \<le> request_room c dep - 1"
      using Cons.IH [OF s(2,3)] Cons.prems(3) s(4) by simp
    with s(1) False show ?thesis by auto
  qed
qed

lemma loaded_is_served_at:
  assumes "dispatch_single env getenv cfg body d w = (Inr ep, d', w')"
    and "ds_metrics d = Some c" and "metrics_ok c" and "\<forall>r. ds_registry d = Some r \<longrightarrow> r (lm_deployment_id body) = None"
  shows "served_at (lm_deployment_id body) ep c (proxy_of d')"
  using dispatch_single_running [OF assms(1)] running_has_info [of "ds_rt d'" "lm_deployment_id body"] assms(2-4)
  by (simp add: served_at_def del: not_None_eq)

text \<open>
  (functional). A model that was loaded is served: after a load command that returned an endpoint,
  an inference request that names the deployment is sent to that endpoint, with its method, path,
  query, body and end-to-end headers, and the answer of the container is what the client gets.
\<close>

theorem loaded_model_is_served:
  assumes "dispatch_single env getenv cfg body d w = (Inr ep, d', w')"
    and "ds_metrics d = Some c" and "metrics_ok c" and "0 < request_room c (lm_deployment_id body)"
    and "\<forall>r. ds_registry d = Some r \<longrightarrow> r (lm_deployment_id body) = None"
    and "inference_request (lm_deployment_id body) rq"
    and "pe_new_request penv (rq_method rq) (hr_url (upstream_request ep rq)) = None"
    and "pe_do penv (upstream_request ep rq) v = (Inr resp, v')"
  shows "\<exists>p'. serve_proxy penv rq (proxy_of d') v = Some (stream_of resp, p', v')"
  using served_request [OF loaded_is_served_at [OF assms(1,2,3,5)] proxy_of_header assms(6,7,8)] assms(4) by auto

text \<open>
  C35 (error). A deployment serves a thousand requests: with a container that answers every one of
  them, the proxy handles any sequence of up to 1000 inference requests after the load, and panics
  on the next one, once the container has answered it, because the latency histogram is full.
\<close>

theorem deployment_serves_1000_requests:
  assumes "dispatch_single env getenv cfg body d w = (Inr ep, d', w')"
    and "ds_metrics d = Some c" and "metrics_ok c" and "c (lm_deployment_id body) = None"
    and "\<forall>r. ds_registry d = Some r \<longrightarrow> r (lm_deployment_id body) = None"
    and "\<forall>rq \<in> set rqs. inference_request (lm_deployment_id body) rq" and "upstream_answers penv ep"
  shows "serve_all penv rqs (proxy_of d') v \<noteq> None \<longleftrightarrow> length rqs \<le> 1000"
  using serve_all_room [OF loaded_is_served_at [OF assms(1,2,3,5)] proxy_of_header assms(6,7)] new_collector_ok(2) [where c = c and dep = "lm_deployment_id body"] assms(4)
  by simp

section \<open>After an unload\<close>

lemma unload_model_forgets:
  assumes "\<And>v. fst (dk_stop (re_docker env) RequestCtx (container_for_deployment s dep) 10 v) = None"
    and "\<And>v. fst (dk_remove (re_docker env) RequestCtx (container_for_deployment s dep) v) = None"
  shows "rt_deployments (fst (snd (unload_model env dep s w))) dep = None"
proof (cases "rt_deployments s dep")
  case (Some a)
  moreover have "rd_container_id (rt_objects (set_state n dep st s) a) = container_for_deployment s dep" for n st
    using Some by (simp add: set_state_def on_entry_def upd_obj_def container_for_deployment_def entry_def)
  ultimately show ?thesis using assms by (simp add: unload_model_def unload_locked_def Let_def split_def)
qed (simp add: unload_model_def)

text \<open>
  (safety). An unloaded deployment is no longer routed: after an unload command during which the daemon
  stops and removes its container when asked, an inference request that names the deployment, a group
  or not, is answered with 503 and nothing is sent upstream.
\<close>

theorem unloaded_deployment_is_unroutable:
  assumes "dispatch_unload env body d w = (r, d', w')"
    and "\<And>v. fst (dk_stop (re_docker env) RequestCtx (container_for_deployment (ds_rt d) (um_deployment_id body)) 10 v) = None"
    and "\<And>v. fst (dk_remove (re_docker env) RequestCtx (container_for_deployment (ds_rt d) (um_deployment_id body)) v) = None"
    and "inference_request (um_deployment_id body) rq"
  shows "serve_proxy penv rq (proxy_of d') v =
    Some (TextReply [(''Retry-After'', ''5'')] 503 ''deployment not loaded'', proxy_of d', v)"
proof -
  have "ds_registry d' = map_option (deregister (um_deployment_id body)) (ds_registry d)"
    using assms(1) by (auto simp: dispatch_unload_def Let_def split_def split: if_splits)
  then have unreg: "\<forall>r. px_registry (proxy_of d') = Some r \<longrightarrow> r (um_deployment_id body) = None"
    by (auto simp: deregister_def)
  obtain g rt where rt: "rt = (ds_rt d)\<lparr>rt_groups := g\<rparr>"
    "ds_rt d' = fst (snd (unload_model env (um_deployment_id body) rt (snd (snd (unload_deployment_group env (um_deployment_id body) (ds_rt d) w)))))"
    using assms(1) by (auto simp: dispatch_unload_def unload_deployment_group_def Let_def split_def split: if_splits option.splits)
  have "container_for_deployment rt dep = container_for_deployment (ds_rt d) dep" for dep
    by (simp add: rt(1) container_for_deployment_def entry_def)
  with unload_model_forgets [of env rt "um_deployment_id body"] assms(2,3)
  have "rt_deployments (ds_rt d') (um_deployment_id body) = None" by (simp add: rt(2))
  with serve_single [OF assms(4) proxy_of_header unreg, of penv v] show ?thesis
    by (simp add: proxy_single_def endpoint_url_def entry_def)
qed

section \<open>Groups\<close>

text \<open>A deployment the registry knows as a group and the runtime's table does not.\<close>

definition group_at :: "string \<Rightarrow> proxy \<Rightarrow> bool" where
  "group_at dep p \<longleftrightarrow>
     main_header p \<and> deployment_info (px_runtime p) dep = None \<and>
     (\<exists>r e. px_registry p = Some r \<and> r dep = Some e \<and> dn_mode e = ModeDisagg \<and> dg_id (dn_group e) = dep)"

definition same_routes :: "string \<Rightarrow> deployment_group \<Rightarrow> proxy \<Rightarrow> proxy \<Rightarrow> bool" where
  "same_routes dep g p q \<longleftrightarrow>
     px_runtime q = px_runtime p \<and> px_header q = px_header p \<and> px_resolver q = px_resolver p \<and>
     (\<exists>g'. dg_id g' = dg_id g \<and> (px_registry q = px_registry p \<or> px_registry q = px_registry (set_group dep g' p)))"

lemma set_group_twice: "px_registry q = px_registry (set_group dep g p) \<Longrightarrow>
    px_registry (set_group dep g' q) = px_registry (set_group dep g' p)"
  by (cases "px_registry p") (auto simp: set_group_def option.map_comp fun_eq_iff comp_def split: option.splits)

lemma same_routes_set_group:
  assumes "dg_id g1 = dg_id g" and "same_routes dep g1 (set_group dep g1 p) q"
  shows "same_routes dep g p q"
  using assms set_group_twice [of "set_group dep g1 p" dep g1 p]
  by (auto simp: same_routes_def frame_simps) (auto simp: set_group_def)

lemma record_latency_routes:
  assumes "record_latency d l p = Some q"
  shows "px_runtime q = px_runtime p \<and> px_registry q = px_registry p \<and> px_header q = px_header p \<and> px_resolver q = px_resolver p"
  using assms by (auto simp: record_latency_def split: option.splits)

lemma decode_phase_routes:
  assumes "decode_phase env rq dep rid t kv g p w = Some (r, q, w')"
  shows "same_routes dep g p q"
proof -
  let ?g = "snd (next_decode g)"
  have "q = p \<or> q = set_group dep ?g p \<or> (\<exists>d l. record_latency d l (set_group dep ?g p) = Some q)"
    using assms by (auto simp: decode_phase_def Let_def split_def split: option.splits sum.splits)
  moreover have "dg_id ?g = dg_id g" by (simp add: frame_simps)
  ultimately show ?thesis
    by (auto simp: same_routes_def dest!: record_latency_routes) (auto simp: set_group_def)
qed

lemma prefill_phase_routes:
  assumes "prefill_phase env rq dep rid t g p w = Some (r, q, w')"
  shows "same_routes dep g p q"
proof -
  let ?g = "snd (next_prefill g)"
  have id: "dg_id ?g = dg_id g" by (simp add: frame_simps)
  have "q = p \<or> q = set_group dep ?g p \<or>
      (\<exists>kv w1. decode_phase env rq dep rid t kv ?g (set_group dep ?g p) w1 = Some (r, q, w'))"
    using assms by (auto simp: prefill_phase_def Let_def split_def split: option.splits sum.splits)
  then show ?thesis
  proof (elim disjE exE)
    fix kv w1
    assume "decode_phase env rq dep rid t kv ?g (set_group dep ?g p) w1 = Some (r, q, w')"
    from same_routes_set_group [OF id decode_phase_routes [OF this]] show ?thesis .
  qed (use id in \<open>auto simp: same_routes_def set_group_def\<close>)
qed

lemma group_request:
  assumes "group_at dep p" and "inference_request dep rq" and "serve_proxy penv rq p v = Some (r, q, v')"
  shows "group_at dep q" and "requests_of q x = requests_of p x"
proof -
  from assms(1) obtain reg e where e: "px_registry p = Some reg" "reg dep = Some e" "dn_mode e = ModeDisagg"
    "dg_id (dn_group e) = dep" "main_header p" "deployment_info (px_runtime p) dep = None"
    by (auto simp: group_at_def)
  have res: "resolve_deployment p rq = dep" using inference_request_routed [OF assms(2) e(5)] by simp
  have rq: "disagg_request p rq e"
    using inference_request_routed [OF assms(2) e(5)] e by (simp add: disagg_request_def)
  show "requests_of q x = requests_of p x"
    using disagg_unknown_uncounted [OF rq _ assms(3)] e(4,6) by simp
  from assms(3) serve_disagg [OF rq, of penv v] res obtain rid v0 q0 where
    q0: "prefill_phase penv rq dep rid (pe_now penv v0) (dn_group e) (count_active dep p) v0 = Some (r, q0, v')"
    and q: "q = uncount_active dep q0"
    by (auto simp: handle_disagg_def e(4) split: prod.splits)
  from prefill_phase_routes [OF q0] have s: "same_routes dep (dn_group e) (count_active dep p) q0" .
  have c: "px_registry (count_active dep p) = px_registry p" "px_runtime (count_active dep p) = px_runtime p"
    "px_header (count_active dep p) = px_header p" "px_resolver (count_active dep p) = px_resolver p"
    by (simp_all add: count_active_def)
  have u: "px_registry q = px_registry q0" "px_runtime q = px_runtime q0" "px_header q = px_header q0" "px_resolver q = px_resolver q0"
    by (simp_all add: q uncount_active_def)
  from s e c u show "group_at dep q"
    by (auto simp: same_routes_def group_at_def main_header_def set_group_def)
qed

lemma group_requests:
  assumes "group_at dep p" and "\<forall>rq \<in> set rqs. inference_request dep rq" and "serve_all penv rqs p v = Some (q, v')"
  shows "requests_of q x = requests_of p x"
  using assms
proof (induction rqs arbitrary: p v)
  case Nil
  then show ?case by simp
next
  case (Cons rq rqs)
  then obtain r p1 v1 where s: "serve_proxy penv rq p v = Some (r, p1, v1)" "serve_all penv rqs p1 v1 = Some (q, v')"
    by (auto split: option.splits)
  have "inference_request dep rq" using Cons.prems(2) by simp
  from group_request [OF Cons.prems(1) this s(1)] Cons.IH [of p1 v1] Cons.prems(2) s(2) show ?case by simp
qed

text \<open>What a group load leaves: the registry's entry, with the replicas that were started.\<close>

lemma dispatched_group:
  assumes "dispatch_load env getenv cfg body d w = Some (Inr ep, d', w')" and "0 < lm_prefill_replicas body"
    and "ds_registry d = Some reg"
  obtains g and dp :: deployment_plan where "ds_registry d' = Some (reg(lm_deployment_id body \<mapsto> disagg_entry (lm_deployment_id body) (dp_model dp) g))"
    "dg_id g = lm_deployment_id body" "rt_deployments (ds_rt d') = rt_deployments (ds_rt d)"
    "list_all2 launched_as (dp_prefill dp) (dg_prefill g)" "list_all2 launched_as (dp_decode dp) (dg_decode g)"
    "dg_prefill_next g = 0" "dg_decode_next g = 0" "ep = local_endpoint (ci_host_port (hd (dg_prefill g)))" "dg_prefill g \<noteq> []" "dg_decode g \<noteq> []"
proof -
  let ?dep = "lm_deployment_id body"
  from assms(1,2) obtain mc where mc: "multi_get (lm_recipe body) = Inr mc"
    and dg: "dispatch_group env getenv cfg mc body d w = Some (Inr ep, d', w')"
    by (auto simp: dispatch_load_def split: sum.splits)
  from dg obtain pre dec d1 where gpus: "group_gpus cfg body d = (Inr (pre, dec), d1)"
    by (cases "group_gpus cfg body d") (auto simp: dispatch_group_def split: sum.splits)
  then have d1: "ds_rt d1 = ds_rt d" "ds_registry d1 = ds_registry d"
    by (auto simp: group_gpus_def allocate_for_def Let_def split_def split: option.splits if_splits)
  from dg gpus obtain dp where dp: "build_deployment_plan getenv mc (group_input cfg body pre dec) = Inr dp"
    by (auto simp: dispatch_group_def split: sum.splits)
  from dg gpus dp obtain g rt where l: "load_deployment_group env dp (ds_rt d1) w = Some (Inr g, rt, w')"
    and d': "d' = d1\<lparr>ds_rt := rt, ds_registry := map_option (register_disagg ?dep (dp_model dp) g) (ds_registry d1)\<rparr>"
    and ep: "dg_prefill g \<noteq> []" "ep = local_endpoint (ci_host_port (hd (dg_prefill g)))"
    by (auto simp: dispatch_group_def Let_def split: option.splits sum.splits prod.splits list.splits)
  have "dp_deployment_id dp = ?dep"
    using multi_recipe.group_shape [OF registered_multi_recipe [OF mc] dp] by (simp add: group_input_def)
  with group_load_effect [OF l] have "dg_id g = ?dep" "rt_deployments rt = rt_deployments (ds_rt d1)"
    "list_all2 launched_as (dp_prefill dp) (dg_prefill g)" "list_all2 launched_as (dp_decode dp) (dg_decode g)"
    "dg_prefill_next g = 0" "dg_decode_next g = 0" by simp_all
  moreover from this multi_recipe.group_nonempty [OF registered_multi_recipe [OF mc] dp] have "dg_decode g \<noteq> []" by auto
  ultimately show thesis
    using that [of dp g] d' d1 ep assms(3) by (simp add: register_disagg_def)
qed

lemma dispatched_group_at:
  assumes "dispatch_load env getenv cfg body d w = Some (Inr ep, d', w')" and "0 < lm_prefill_replicas body"
    and "ds_registry d \<noteq> None" and "rt_deployments (ds_rt d) (lm_deployment_id body) = None"
  shows "group_at (lm_deployment_id body) (proxy_of d')"
proof -
  let ?dep = "lm_deployment_id body"
  from assms(3) obtain reg where reg: "ds_registry d = Some reg" by auto
  obtain g and dp :: deployment_plan where
    "ds_registry d' = Some (reg(?dep \<mapsto> disagg_entry ?dep (dp_model dp) g))" "dg_id g = ?dep"
      "rt_deployments (ds_rt d') = rt_deployments (ds_rt d)"
    by (rule dispatched_group [OF assms(1,2) reg])
  then show ?thesis using assms(4) by (simp add: group_at_def disagg_entry_def deployment_info_def entry_def)
qed

text \<open>
  (error). The requests of a prefill/decode group are never counted: whatever sequence of inference
  requests is sent to a group that a load command registered, none of them adds to the request counters
  or the latencies of any deployment, because the proxy asks the runtime for the deployment and the
  runtime keeps groups in another table.
\<close>

theorem group_requests_are_never_counted:
  assumes "dispatch_load env getenv cfg body d w = Some (Inr ep, d', w')" and "0 < lm_prefill_replicas body"
    and "ds_registry d \<noteq> None" and "rt_deployments (ds_rt d) (lm_deployment_id body) = None"
    and "\<forall>rq \<in> set rqs. inference_request (lm_deployment_id body) rq"
    and "serve_all penv rqs (proxy_of d') v = Some (q, v')"
  shows "requests_of q x = requests_of (proxy_of d') x"
  by (rule group_requests [OF dispatched_group_at [OF assms(1-4)] assms(5,6)])

text \<open>
  C28 (functional). A group that was loaded is routed to: after a group load command that returned an
  endpoint, every inference request that names the deployment takes the two-phase path over that
  group; the first one's prefill goes to the endpoint the command reported, and there is a decode
  replica for it.
\<close>

theorem loaded_group_is_routed:
  assumes "dispatch_load env getenv cfg body d w = Some (Inr ep, d', w')" and "0 < lm_prefill_replicas body"
    and "ds_registry d \<noteq> None" and "inference_request (lm_deployment_id body) rq"
  shows "\<exists>e. disagg_request (proxy_of d') rq e \<and> fst (next_prefill (dn_group e)) = ep \<and>
    fst (next_decode (dn_group e)) = local_endpoint (ci_host_port (hd (dg_decode (dn_group e)))) \<and> dg_decode (dn_group e) \<noteq> []"
proof -
  let ?dep = "lm_deployment_id body"
  from assms(3) obtain reg where reg: "ds_registry d = Some reg" by auto
  obtain g and dp :: deployment_plan where
    g: "ds_registry d' = Some (reg(?dep \<mapsto> disagg_entry ?dep (dp_model dp) g))"
      "dg_prefill_next g = 0" "dg_decode_next g = 0" "ep = local_endpoint (ci_host_port (hd (dg_prefill g)))"
      "dg_prefill g \<noteq> []" "dg_decode g \<noteq> []"
    by (rule dispatched_group [OF assms(1,2) reg])
  have "fst (next_prefill g) = ep" "fst (next_decode g) = local_endpoint (ci_host_port (hd (dg_decode g)))"
    using g by (simp_all add: next_prefill_def next_decode_def Let_def hd_conv_nth)
  moreover have "disagg_request (proxy_of d') rq (disagg_entry ?dep (dp_model dp) g)"
    using inference_request_routed [OF assms(4) proxy_of_header, of d'] g(1)
    by (simp add: disagg_request_def disagg_entry_def)
  ultimately show ?thesis using g(6) by (intro exI [of _ "disagg_entry ?dep (dp_model dp) g"]) (simp add: disagg_entry_def)
qed

section \<open>Witnesses on the in-memory host\<close>

lemma fake_replica_starts:
  assumes w: "fk_errors w = no_fake_errors" "fk_names w name = None" "fh_probes w = True # bs"
    and cp: "cp_image cp \<noteq> []" "0 < cp_container_port cp" "name \<noteq> []" "0 < port"
  shows "\<exists>cid w'. create_and_start fake_env (to_plan cp name port) w = (Inr cid, w') \<and> fk_errors w' = no_fake_errors \<and>
    fk_names w' = (fk_names w)(name \<mapsto> cid) \<and> fh_probes w' = bs \<and> fh_decode_ports w' = fh_decode_ports w"
proof -
  obtain spec where spec: "build_container_spec (to_plan cp name port) ''inferia-models'' = Inr spec" "cs_name spec = name"
    using cp by (auto simp: build_container_spec_def to_plan_def)
  have ready: "wait_ready fake_env u t v = (True, v\<lparr>fh_probes := bs\<rparr>)" if "fh_probes v = True # bs" "0 < t" for u t v
    using that by (simp add: wait_ready_def fake_probe_def)
  show ?thesis using w spec cp(3)
    by (auto simp: create_and_start_def fake_create_def fake_start_def set_inspect_def log_call_def ready Let_def
        split: option.splits)
qed

lemma pair_group_loads:
  assumes dp: "dp_prefill dp = [a]" "dp_decode dp = [b]" "cp_image a \<noteq> []" "0 < cp_container_port a"
      "cp_image b \<noteq> []" "0 < cp_container_port b"
  shows "\<exists>g s' w'. load_deployment_group fake_env dp s (new_fake_host [True, True]) = Some (Inr g, s', w')"
proof -
  define w0 where "w0 = snd (fake_pull RequestCtx (cp_image a) (new_fake_host [True, True]))"
  define np nd where "np = replica_name (group_prefix dp) ''p'' (dp_deployment_id dp) 0"
    and "nd = replica_name (group_prefix dp) ''d'' (dp_deployment_id dp) 0"
  have names: "np \<noteq> []" "nd \<noteq> []" "np \<noteq> nd" by (simp_all add: np_def nd_def replica_name_def)
  have pull: "fake_pull RequestCtx (cp_image a) (new_fake_host [True, True]) = ((None, []), w0)"
    by (simp add: w0_def fake_pull_def log_call_def)
  have ports: "re_prefill_port fake_env = (\<lambda>w. let (r, a) = port_next (fh_prefill_ports w) in (r, w\<lparr>fh_prefill_ports := a\<rparr>))"
    "re_decode_port fake_env = (\<lambda>w. let (r, a) = port_next (fh_decode_ports w) in (r, w\<lparr>fh_decode_ports := a\<rparr>))"
    by (simp_all add: fake_env_def)
  have next_port: "port_next (new_port_allocator lo hi) = (Inr lo, \<lparr>pa_lo = lo, pa_hi = hi, pa_used = {lo}\<rparr>)" if "lo \<le> hi" for lo hi
    using that by (simp add: port_next_def new_port_allocator_def scan_ports_first)
  have w: "fk_errors w0 = no_fake_errors" "fk_names w0 = Map.empty" "fh_probes w0 = [True, True]"
    "fh_prefill_ports w0 = new_port_allocator 19000 19499" "fh_decode_ports w0 = new_port_allocator 19500 19999"
    by (simp_all add: w0_def fake_pull_def log_call_def new_fake_host_def fake_client.defs new_fake_def)
  define w1 where "w1 = w0\<lparr>fh_prefill_ports := \<lparr>pa_lo = 19000, pa_hi = 19499, pa_used = {19000}\<rparr>\<rparr>"
  have w1: "fk_errors w1 = no_fake_errors" "fk_names w1 np = None" "fh_probes w1 = True # [True]"
    "fk_names w1 = Map.empty" "fh_decode_ports w1 = new_port_allocator 19500 19999"
    using w by (simp_all add: w1_def)
  obtain c1 w2 where c1: "create_and_start fake_env (to_plan a np 19000) w1 = (Inr c1, w2)" "fk_errors w2 = no_fake_errors"
    "fk_names w2 = (fk_names w1)(np \<mapsto> c1)" "fh_probes w2 = [True]" "fh_decode_ports w2 = fh_decode_ports w1"
    using fake_replica_starts [OF w1(1-3) dp(3,4) names(1), of 19000] by auto
  define w3 where "w3 = w2\<lparr>fh_decode_ports := \<lparr>pa_lo = 19500, pa_hi = 19999, pa_used = {19500}\<rparr>\<rparr>"
  have w3: "fk_errors w3 = no_fake_errors" "fk_names w3 nd = None" "fh_probes w3 = True # []"
    using c1 w1(4) names(3) by (simp_all add: w3_def)
  obtain c2 w4 where c2: "create_and_start fake_env (to_plan b nd 19500) w3 = (Inr c2, w4)"
    using fake_replica_starts [OF w3 dp(5,6) names(2), of 19500] by auto
  have l1: "re_prefill_port fake_env w0 = (Inr 19000, w1)" using w(4) next_port [of 19000 19499] by (simp add: ports w1_def)
  have l2: "re_decode_port fake_env w2 = (Inr 19500, w3)" using c1(5) w1(5) next_port [of 19500 19999] by (simp add: ports w3_def)
  have r1: "launch_replicas fake_env (re_prefill_port fake_env) ''prefill'' (replica_name (group_prefix dp) ''p'' (dp_deployment_id dp)) 0 [a] w0 =
      ((None, [\<lparr>ci_container_id = c1, ci_host_port = 19000, ci_role = cp_role a, ci_replica_idx = cp_replica_idx a\<rparr>]), w2)"
    by (simp only: launch_replicas.simps l1 np_def [symmetric] c1(1) prod.case sum.case Let_def)
  have r2: "launch_replicas fake_env (re_decode_port fake_env) ''decode'' (replica_name (group_prefix dp) ''d'' (dp_deployment_id dp)) 0 [b] w2 =
      ((None, [\<lparr>ci_container_id = c2, ci_host_port = 19500, ci_role = cp_role b, ci_replica_idx = cp_replica_idx b\<rparr>]), w4)"
    by (simp only: launch_replicas.simps l2 nd_def [symmetric] c2 prod.case sum.case Let_def)
  show ?thesis
    by (simp add: load_deployment_group_def dp(1,2) pull r1 r2 Let_def split_def del: launch_replicas.simps)
qed

definition sample_group_load :: load_model_body where
  "sample_group_load = (sample_load ''sglang-prefill-decode'' [0])\<lparr>lm_prefill_replicas := 1, lm_decode_replicas := 1\<rparr>"

definition bare_dispatcher :: "collector option \<Rightarrow> dispatcher" where
  "bare_dispatcher mc = \<lparr>ds_rt = new_runtime, ds_registry = Some Map.empty, ds_allocator = None, ds_metrics = mc\<rparr>"

lemma sample_group_dispatches:
  "\<exists>ep d' w'. dispatch_load fake_env (\<lambda>_. []) sample_config sample_group_load (bare_dispatcher mc) (new_fake_host [True, True]) =
     Some (Inr ep, d', w')"
proof -
  let ?i = "group_input sample_config sample_group_load [0] [0]" and ?r = "SglangPrefillDecode sglang_engine"
  have get: "multi_get (lm_recipe sample_group_load) = Inr ?r"
    by (simp add: multi_get_def multi_registry_def sample_group_load_def)
  have ok: "validate_input ?i = None" "bi_gpu_indices ?i = [0]" "replica_count (bi_prefill_replicas ?i) = 1"
    "replica_count (bi_decode_replicas ?i) = 1"
    by (simp_all add: validate_input_def group_input_def sample_group_load_def sample_load_def sample_uri_ok max_config_keys_def
        replica_count_def)
  then obtain dp where dp: "build_deployment_plan (\<lambda>_. []) ?r ?i = Inr dp"
    using multi_recipe.group_accepts_iff [OF registered_multi_recipe [OF get], of "\<lambda>_. []" ?i] by auto
  note shape = multi_recipe.group_shape [OF registered_multi_recipe [OF get] dp]
    multi_recipe.group_members [OF registered_multi_recipe [OF get] dp]
  from shape ok obtain a b where ab: "dp_prefill dp = [a]" "dp_decode dp = [b]"
    by (metis One_nat_def length_0_conv length_Suc_conv)
  with shape(2) have "cp_image a \<noteq> []" "0 < cp_container_port a" "cp_image b \<noteq> []" "0 < cp_container_port b"
    by (auto simp: well_formed_replicas_def)
  from pair_group_loads [OF ab this, of new_runtime] obtain g s' w' where
    l: "load_deployment_group fake_env dp new_runtime (new_fake_host [True, True]) = Some (Inr g, s', w')" by blast
  have "dg_prefill g \<noteq> []" using group_load_effect [OF l] ab by auto
  moreover have "group_gpus sample_config sample_group_load (bare_dispatcher mc) = (Inr ([0], [0]), bare_dispatcher mc)"
    by (simp add: group_gpus_def own_or_general_def sample_group_load_def sample_load_def bare_dispatcher_def)
  moreover have "0 < lm_prefill_replicas sample_group_load" by (simp add: sample_group_load_def)
  ultimately show ?thesis
    using get dp l by (auto simp: dispatch_load_def dispatch_group_def bare_dispatcher_def Let_def split: list.splits)
qed

definition sample_inference :: proxy_request where
  "sample_inference = \<lparr>rq_method = ''POST'', rq_path = ''/v1/chat/completions'', rq_query = [],
     rq_headers = [(''X-Inferia-Deployment-Id'', ''d'')], rq_body = ''{}''\<rparr>"

lemma sample_inference_request: "inference_request ''d'' sample_inference"
  by (simp add: inference_request_def sample_inference_def has_prefix_def header_get_def equal_fold_def)

lemma sample_upstream_answers: "upstream_answers sample_proxy_env ep"
  by (simp add: upstream_answers_def)

definition metered_dispatcher :: dispatcher where
  "metered_dispatcher = \<lparr>ds_rt = new_runtime, ds_registry = Some Map.empty, ds_allocator = Some (new_gpu_allocator 2),
     ds_metrics = Some new_collector\<rparr>"

lemma sample_single_dispatches:
  "\<exists>ep d' w'. dispatch_single fake_env (\<lambda>_. []) sample_config (sample_load ''triton'' []) metered_dispatcher (new_fake_host [True]) =
     (Inr ep, d', w')"
  unfolding metered_dispatcher_def by (rule sample_dispatch_runs)

lemma metered_dispatcher_ok:
  "ds_metrics metered_dispatcher = Some new_collector" "new_collector d = None"
  "\<forall>r. ds_registry metered_dispatcher = Some r \<longrightarrow> r d = None"
  by (simp_all add: metered_dispatcher_def new_collector_def)

theorem loaded_model_is_served_witness:
  "\<exists>ep d' w' p' v'. dispatch_single fake_env (\<lambda>_. []) sample_config (sample_load ''triton'' []) metered_dispatcher
       (new_fake_host [True]) = (Inr ep, d', w') \<and>
     serve_proxy sample_proxy_env sample_inference (proxy_of d') [] =
       Some (stream_of \<lparr>hs_status = 200, hs_headers = [], hs_body = []\<rparr>, p', v') \<and> v' = [upstream_request ep sample_inference]"
proof -
  obtain ep d' w' where l: "dispatch_single fake_env (\<lambda>_. []) sample_config (sample_load ''triton'' []) metered_dispatcher
       (new_fake_host [True]) = (Inr ep, d', w')" using sample_single_dispatches by blast
  have room: "0 < request_room new_collector ''d''"
    using new_collector_ok(2) [of new_collector "''d''"] metered_dispatcher_ok(2) by simp
  from loaded_model_is_served [OF l metered_dispatcher_ok(1) new_collector_ok(1) _ metered_dispatcher_ok(3),
      of sample_inference sample_proxy_env "[]" "\<lparr>hs_status = 200, hs_headers = [], hs_body = []\<rparr>"
         "[upstream_request ep sample_inference]"] room sample_inference_request l
  show ?thesis by auto
qed

theorem deployment_serves_1000_requests_witness:
  "\<exists>ep d' w'. dispatch_single fake_env (\<lambda>_. []) sample_config (sample_load ''triton'' []) metered_dispatcher
       (new_fake_host [True]) = (Inr ep, d', w') \<and>
     serve_all sample_proxy_env (replicate 1001 sample_inference) (proxy_of d') [] = None"
proof -
  obtain ep d' w' where l: "dispatch_single fake_env (\<lambda>_. []) sample_config (sample_load ''triton'' []) metered_dispatcher
       (new_fake_host [True]) = (Inr ep, d', w')" using sample_single_dispatches by blast
  have rqs: "\<forall>rq \<in> set (replicate n sample_inference). inference_request (lm_deployment_id (sample_load ''triton'' [])) rq" for n
    using sample_inference_request by (simp add: in_set_replicate)
  have "serve_all sample_proxy_env (replicate n sample_inference) (proxy_of d') [] \<noteq> None \<longleftrightarrow>
      length (replicate n sample_inference) \<le> 1000" for n
    by (rule deployment_serves_1000_requests [OF l metered_dispatcher_ok(1) new_collector_ok(1) metered_dispatcher_ok(2,3)
        rqs sample_upstream_answers])
  from this [of 1001] have "serve_all sample_proxy_env (replicate 1001 sample_inference) (proxy_of d') [] = None"
    by (simp only: length_replicate) (simp del: not_None_eq)
  with l show ?thesis by blast
qed

text \<open>The in-memory host with a daemon that stops and removes whatever it is asked to.\<close>

definition sample_unload_env :: "fake_host rt_env" where
  "sample_unload_env = fake_env\<lparr>re_docker := fake_docker\<lparr>dk_stop := (\<lambda>c cid n w. (None, w)), dk_remove := (\<lambda>c cid w. (None, w))\<rparr>\<rparr>"

theorem unloaded_deployment_is_unroutable_witness:
  "\<exists>r d' w'. dispatch_unload sample_unload_env \<lparr>um_deployment_id = ''d''\<rparr> (bare_dispatcher None) (new_fake_host []) = (r, d', w') \<and>
     serve_proxy sample_proxy_env sample_inference (proxy_of d') [] =
       Some (TextReply [(''Retry-After'', ''5'')] 503 ''deployment not loaded'', proxy_of d', [])"
proof -
  obtain r d' w' where u: "dispatch_unload sample_unload_env \<lparr>um_deployment_id = ''d''\<rparr> (bare_dispatcher None) (new_fake_host []) = (r, d', w')"
    by (metis surj_pair)
  from unloaded_deployment_is_unroutable [OF u, of sample_inference sample_proxy_env "[]"] sample_inference_request u
  show ?thesis by (simp add: sample_unload_env_def)
qed

lemma sample_group_serves:
  assumes "group_at ''d'' p"
  shows "\<exists>r q v'. serve_proxy sample_proxy_env sample_inference p v = Some (r, q, v')"
proof -
  from assms obtain reg e where e: "px_registry p = Some reg" "reg ''d'' = Some e" "dn_mode e = ModeDisagg"
    "dg_id (dn_group e) = ''d''" "main_header p" "deployment_info (px_runtime p) ''d'' = None"
    by (auto simp: group_at_def)
  have rq: "disagg_request p sample_inference e"
    using inference_request_routed [OF sample_inference_request e(5)] e by (simp add: disagg_request_def)
  have body: "build_prefill_body sample_proxy_env (rq_body sample_inference) rid = Some (Inr ''{}'')"
    "build_decode_body sample_proxy_env (rq_body sample_inference) kv rid = Some (Inr ''{}'')" for rid kv
    by (simp_all add: build_prefill_body_def build_decode_body_def rebuild_body_def sample_inference_def)
  have send: "send_phase sample_proxy_env ph req w = (Inr \<lparr>hs_status = 200, hs_headers = [], hs_body = []\<rparr>, req # w)" for ph req w
    by (simp add: send_phase_def)
  have decode: "decode_phase sample_proxy_env sample_inference dep rid t kv g q w \<noteq> None"
    if "deployment_info (px_runtime q) (dg_id g) = None" for dep rid t kv g q w
    using record_latency_unknown [of "set_group dep (snd (next_decode g)) q" "dg_id g"] that
    by (auto simp: decode_phase_def body send frame_simps Let_def split_def)
  have "prefill_phase sample_proxy_env sample_inference dep rid t g q w \<noteq> None"
    if "deployment_info (px_runtime q) (dg_id g) = None" for dep rid t g q w
    using that decode by (auto simp: prefill_phase_def body send frame_simps Let_def split_def simp del: not_None_eq split: sum.splits)
  with e(4,6) have "handle_disagg sample_proxy_env sample_inference ''d'' e p v \<noteq> None"
    by (simp add: handle_disagg_def frame_simps del: not_None_eq)
  then show ?thesis
    using serve_disagg [OF rq, of sample_proxy_env v] inference_request_routed(1) [OF sample_inference_request e(5)] by auto
qed

theorem group_requests_are_never_counted_witness:
  "\<exists>ep d' w' q v'. dispatch_load fake_env (\<lambda>_. []) sample_config sample_group_load (bare_dispatcher (Some new_collector))
       (new_fake_host [True, True]) = Some (Inr ep, d', w') \<and>
     serve_all sample_proxy_env [sample_inference] (proxy_of d') [] = Some (q, v') \<and> requests_of q ''d'' = requests_of (proxy_of d') ''d''"
proof -
  obtain ep d' w' where l: "dispatch_load fake_env (\<lambda>_. []) sample_config sample_group_load (bare_dispatcher (Some new_collector))
       (new_fake_host [True, True]) = Some (Inr ep, d', w')" using sample_group_dispatches by blast
  have h: "0 < lm_prefill_replicas sample_group_load" "ds_registry (bare_dispatcher (Some new_collector)) \<noteq> None"
    "rt_deployments (ds_rt (bare_dispatcher (Some new_collector))) (lm_deployment_id sample_group_load) = None"
    by (simp_all add: sample_group_load_def bare_dispatcher_def new_runtime_def)
  note count = group_requests_are_never_counted [OF l h, of "[sample_inference]" sample_proxy_env "[]"]
  have "group_at ''d'' (proxy_of d')"
    using dispatched_group_at [OF l h] by (simp add: sample_group_load_def sample_load_def)
  from sample_group_serves [OF this, of "[]"] obtain q v' where
    "serve_all sample_proxy_env [sample_inference] (proxy_of d') [] = Some (q, v')" by auto
  with count [OF _ this] l sample_inference_request show ?thesis by (auto simp: sample_group_load_def sample_load_def)
qed

theorem loaded_group_is_routed_witness:
  "\<exists>ep d' w' e. dispatch_load fake_env (\<lambda>_. []) sample_config sample_group_load (bare_dispatcher None)
       (new_fake_host [True, True]) = Some (Inr ep, d', w') \<and>
     disagg_request (proxy_of d') sample_inference e \<and> fst (next_prefill (dn_group e)) = ep"
proof -
  obtain ep d' w' where l: "dispatch_load fake_env (\<lambda>_. []) sample_config sample_group_load (bare_dispatcher None)
       (new_fake_host [True, True]) = Some (Inr ep, d', w')" using sample_group_dispatches by blast
  have "0 < lm_prefill_replicas sample_group_load" "ds_registry (bare_dispatcher None) \<noteq> None"
    "inference_request (lm_deployment_id sample_group_load) sample_inference"
    using sample_inference_request by (simp_all add: sample_group_load_def bare_dispatcher_def)
  from loaded_group_is_routed [OF l this] l show ?thesis by blast
qed

end
