(* ===== verification/Service.thy ===== *)
theory Service imports Channel_Runs Composition begin

text \<open>
  The service as its two users see it: the control plane, which sends commands on the channel and reads
  their results, and the client, whose requests pass the token check and the proxy.
\<close>

text \<open>A load command that is not in the window executes, and its result is the outcome of the dispatcher.\<close>

lemma fresh_load:
  assumes "eid = [] \<or> dedup_find now eid (ch_dedup ch) = None" and "c \<in> ch_live ch" and "\<not> 0 < lm_prefill_replicas body"
    and "dispatch_single env getenv cfg body (ch_disp ch) (ch_world ch) = (out, d, w)"
  shows "ch_disp (channel_handle env getenv cfg now n c eid (InLoad (Some body)) ch) = d \<and>
    ch_world (channel_handle env getenv cfg now n c eid (InLoad (Some body)) ch) = w \<and>
    ch_wire (channel_handle env getenv cfg now n c eid (InLoad (Some body)) ch) c = ch_wire ch c @
      [BCommandResult (case out of Inl e \<Rightarrow> failed_result eid (err_text e) | Inr ep \<Rightarrow> ok_result eid ep)]"
proof -
  let ?fn = "load_command env getenv cfg eid body" and ?r = "case out of Inl e \<Rightarrow> failed_result eid (err_text e) | Inr ep \<Rightarrow> ok_result eid ep"
  have "?fn (ch_disp ch, ch_world ch) = (?r, d, w)"
    using assms(3,4) by (simp add: load_command_def dispatch_load_def split: sum.splits)
  with assms(1) obtain dd where
    "dedup_run now eid ?fn (ch_dedup ch, (ch_disp ch, ch_world ch)) = ((?r, False), dd, d, w)"
    by (cases "eid = []") (simp_all add: dedup_run_def)
  with assms(2) show ?thesis
    by (simp add: channel_handle_def run_command_def reply_with_def write_frame_def)
qed


text \<open>The in-memory host loads a model on the command of the control plane.\<close>

definition metered_channel :: "fake_host channel" where
  "metered_channel = connect sample_facts 0 (new_channel 0 metered_dispatcher (new_fake_host [True]))"

definition authorised_inference :: proxy_request where
  "authorised_inference = sample_inference\<lparr>rq_headers := (''Authorization'', ''Bearer s3cret'') # rq_headers sample_inference\<rparr>"


end
