(* ===== verification/Orphans.thy ===== *)
theory Orphans imports Isolation begin

text \<open>
  Which containers the runtime can still find (internal/runtime/runtime.go): the containers on the
  host against those the deployment and the group tables record, over whole histories of loads and
  unloads, and the one history in which a container is lost.
\<close>

section \<open>What the tables record\<close>

definition group_containers :: "deployment_group \<Rightarrow> string set" where
  "group_containers g = ci_container_id ` set (dg_prefill g @ dg_decode g)"

definition entry_containers :: "runtime \<Rightarrow> string \<Rightarrow> string set" where
  "entry_containers s dep = (case entry s dep of None \<Rightarrow> {} | Some d \<Rightarrow> {rd_container_id d} - {[]})"

definition recorded_containers :: "runtime \<Rightarrow> string set" where
  "recorded_containers s = (\<Union>dep. entry_containers s dep) \<union> (\<Union>g\<in>ran (rt_groups s). group_containers g)"

definition settled :: "runtime \<Rightarrow> string \<Rightarrow> bool" where
  "settled s dep \<longleftrightarrow> rt_deployments s dep = None \<or>
     status_of s dep = StateRunning \<and> endpoint_url s dep \<noteq> [] \<or> status_of s dep = StateStopping \<or>
     status_of s dep = StateAbsent \<and> container_for_deployment s dep = []"

lemma entry_containers_simps:
  "rt_deployments s dep = None \<Longrightarrow> entry_containers s dep = {}"
  "rt_deployments s dep = Some a \<Longrightarrow> entry_containers s dep = {container_for_deployment s dep} - {[]}"
  by (simp_all add: entry_containers_def entry_def container_for_deployment_def)

lemma recorded_entries:
  assumes "\<And>j. j \<noteq> dep \<Longrightarrow> entry s' j = entry s j" and "rt_groups s' = rt_groups s"
  shows "recorded_containers s \<subseteq> entry_containers s dep \<union> recorded_containers s'"
proof -
  have "entry_containers s j \<subseteq> entry_containers s dep \<union> recorded_containers s'" for j
  proof (cases "j = dep")
    case False
    with assms(1) have "entry_containers s j = entry_containers s' j" by (simp add: entry_containers_def)
    then show ?thesis by (auto simp: recorded_containers_def)
  qed simp
  with assms(2) show ?thesis by (auto simp: recorded_containers_def)
qed

text \<open>
  What can be lost. A load that is cut off while it creates loses the container Docker made all the
  same; a load of a deployment whose unload failed half way loses the container of the old record
  (\<open>failed_reload_orphans_container\<close>); a group load that fails after its request was cancelled loses
  what its rollback could not remove; a group loaded under a taken id loses the group before it; an
  unload of a group whose request is cancelled loses the group. Nothing else does.
\<close>

definition cut_off_container ::
  "('w \<Rightarrow> string set) \<Rightarrow> (ctx \<Rightarrow> 'w \<Rightarrow> bool) \<Rightarrow> go_error + string \<Rightarrow> 'w \<Rightarrow> 'w \<Rightarrow> string set" where
  "cut_off_container own live r w w' =
     (case r of Inl e \<Rightarrow> if create_cut_off live e w' then own w' - own w else {} | Inr _ \<Rightarrow> {})"

definition overwritten_record :: "runtime \<Rightarrow> string \<Rightarrow> string set" where
  "overwritten_record s dep = (if status_of s dep = StateStopping then entry_containers s dep else {})"

definition group_at :: "runtime \<Rightarrow> string \<Rightarrow> string set" where
  "group_at s dep = (case rt_groups s dep of None \<Rightarrow> {} | Some g \<Rightarrow> group_containers g)"

definition group_load_lost ::
  "('w \<Rightarrow> string set) \<Rightarrow> (ctx \<Rightarrow> 'w \<Rightarrow> bool) \<Rightarrow> runtime \<Rightarrow> string \<Rightarrow> go_error + deployment_group \<Rightarrow> 'w \<Rightarrow> 'w \<Rightarrow> string set" where
  "group_load_lost own live s dep r w w' =
     (case r of Inl e \<Rightarrow> if live RequestCtx w' then {} else own w' - own w | Inr g \<Rightarrow> group_at s dep)"

section \<open>A load records what it starts\<close>

context worker_host
begin

lemma load_start_recorded:
  assumes "load_start env dep p a cid s w = (Inr ep, s', w')" "sound w" "rt_deployments s dep = Some a"
  shows "own w' = own w \<and> container_for_deployment s' dep = cid"
  using load_start_own [OF assms(1,2)] load_start_success [OF assms(1,3)] by (simp add: running_at_def)

lemma load_create_recorded:
  assumes "load_create env dep p a spec s w = (Inr ep, s', w')" "sound w" "rt_deployments s dep = Some a"
  shows "own w' \<subseteq> own w \<union> ({container_for_deployment s' dep} - {[]})"
proof -
  let ?w1 = "snd (dk_remove_by_name (re_docker env) RequestCtx (cs_name spec) w)"
  let ?w2 = "snd (dk_create (re_docker env) RequestCtx spec ?w1)"
  have 1: "own ?w1 \<subseteq> own w" "sound ?w2" using assms(2) by (simp_all add: remove_by_name_own sound_kept)
  from assms(1) obtain cid s1 where c: "fst (dk_create (re_docker env) RequestCtx spec ?w1) = Inr cid"
    and l: "load_start env dep p a cid s1 ?w2 = (Inr ep, s', w')" and s1: "rt_deployments s1 dep = Some a"
    using assms(3) by (auto simp: load_create_def Let_def split_def fail_load_def frame_simps split: sum.splits option.splits)
  have "own ?w2 = insert cid (own ?w1)" "cid \<noteq> []"
    using create_own [OF c] create_id [OF c] by simp_all
  with load_start_recorded [OF l 1(2) s1] 1(1) show ?thesis by auto
qed

lemma load_pull_recorded:
  assumes "load_pull env dep p a s w = (Inr ep, s', w')" "sound w" "rt_deployments s dep = Some a"
  shows "own w' \<subseteq> own w \<union> ({container_for_deployment s' dep} - {[]})"
proof -
  let ?q = "dk_pull (re_docker env) RequestCtx (pl_image p) w"
  have 1: "own (snd ?q) = own w" "sound (snd ?q)" using assms(2) by (simp_all add: pull_own sound_kept)
  from assms(1) obtain spec s1 where
    l: "load_create env dep p a spec s1 (snd ?q) = (Inr ep, s', w')" and s1: "rt_deployments s1 dep = Some a"
    using assms(3) by (auto simp: load_pull_def Let_def split_def fail_load_def frame_simps split: sum.splits option.splits)
  from load_create_recorded [OF l 1(2) s1] 1(1) show ?thesis by simp
qed

text \<open>A load runs and records what is new.\<close>

lemma load_pull_settled:
  assumes "load_pull env dep p a s w = (r, s', w')" "sound w" "rt_deployments s dep = Some a"
  shows "sound w' \<and> settled s' dep \<and> rt_groups s' = rt_groups s \<and>
    own w' \<subseteq> own w \<union> entry_containers s' dep \<union> cut_off_container own live r w w'"
proof -
  have "rt_groups s' = rt_groups s"
    using load_pull_confined [OF confined_refl, of a dep s env p w] assms(1) by (simp add: confined_def)
  moreover have "sound w'" using load_pull_own [OF assms(1,2)] by simp
  moreover have "settled s' dep \<and> own w' \<subseteq> own w \<union> entry_containers s' dep \<union> cut_off_container own live r w w'"
  proof (cases r)
    case (Inl err)
    with load_pull_own [OF assms(1,2)] load_pull_effect [OF assms(1)] show ?thesis
      by (auto simp: load_effect_def settled_def entry_containers_simps cut_off_container_def cleaned_up_def)
  next
    case (Inr ep)
    with assms(1) have p: "load_pull env dep p a s w = (Inr ep, s', w')" by simp
    from load_pull_recorded [OF p assms(2,3)] load_pull_effect [OF p] load_pull_success [OF p assms(3)] assms(3) show ?thesis
      by (auto simp: load_effect_def settled_def running_at_def entry_containers_simps)
  qed
  ultimately show ?thesis by simp
qed

lemma load_model_recorded:
  assumes "load_model env dep p s w = (r, s', w')" "sound w" "settled s dep"
  shows "sound w' \<and> settled s' dep \<and> rt_groups s' = rt_groups s \<and>
    own w' \<subseteq> own w \<union> entry_containers s' dep \<union> cut_off_container own live r w w' \<and>
    entry_containers s dep \<subseteq> entry_containers s' dep \<union> overwritten_record s dep"
proof -
  obtain a s1 where g: "get_or_create dep s = (a, s1)" by fastforce
  with assms(1) have l: "load_locked env dep p a s1 w = (r, s', w')" by (simp add: load_model_def)
  have e: "rt_deployments s1 dep = Some a" using get_or_create_entry [OF g] by simp
  have gr: "rt_groups s1 = rt_groups s" using g by (auto simp: get_or_create_def Let_def split: option.splits)
  show ?thesis
  proof (cases "status_of s dep = StateRunning")
    case True
    then obtain b where "rt_deployments s dep = Some b" by (auto simp: status_of_def entry_def split: option.splits)
    with g have s1: "s1 = s" by (simp add: get_or_create_def)
    with True assms(3) have "status_of s1 dep = StateRunning \<and> endpoint_url s1 dep \<noteq> []"
      by (auto simp: settled_def status_of_def entry_def)
    with l have "s' = s1 \<and> w' = w" by (simp add: load_locked_def)
    with s1 assms(2,3) show ?thesis by auto
  next
    case False
    have lost: "entry_containers s dep \<subseteq> overwritten_record s dep"
    proof (cases "rt_deployments s dep")
      case (Some b)
      with False assms(3) have "status_of s dep = StateStopping \<or> container_for_deployment s dep = []"
        by (auto simp: settled_def)
      with Some show ?thesis by (auto simp: overwritten_record_def entry_containers_simps)
    qed (simp add: entry_containers_simps)
    from False have run: "status_of s1 dep \<noteq> StateRunning" "settled s1 dep"
      using g assms(3) by (auto simp: get_or_create_def status_of_def entry_def settled_def container_for_deployment_def
          new_deployment_def Let_def split: option.splits)
    have "sound w' \<and> settled s' dep \<and> rt_groups s' = rt_groups s1 \<and>
      own w' \<subseteq> own w \<union> entry_containers s' dep \<union> cut_off_container own live r w w'"
    proof (cases "pl_host_port p = 0")
      case False
      with l run(1) have "load_pull env dep p a s1 w = (r, s', w')" by (simp add: load_locked_def)
      from load_pull_settled [OF this assms(2) e] show ?thesis .
    next
      case True
      obtain x w1 where x: "re_port env w = (x, w1)" by fastforce
      with host_own(4) [of w] host_sound(4) [of w] assms(2) have w1: "own w1 = own w" "sound w1" by simp_all
      show ?thesis
      proof (cases x)
        case (Inl err)
        with l True run x w1 show ?thesis by (auto simp: load_locked_def)
      next
        case (Inr port)
        with l True run(1) x have "load_pull env dep (p\<lparr>pl_host_port := port\<rparr>) a s1 w1 = (r, s', w')"
          by (simp add: load_locked_def)
        from load_pull_settled [OF this w1(2) e] show ?thesis by (simp only: cut_off_container_def w1(1))
      qed
    qed
    with lost gr show ?thesis by auto
  qed
qed

lemma load_group_recorded:
  assumes "load_deployment_group env d s w = Some (Inr g, s', w')" "sound w"
  shows "sound w' \<and> own w' \<subseteq> own w \<union> group_containers g \<and> [] \<notin> group_containers g"
proof -
  from assms(1) obtain first rest where f: "dp_prefill d = first # rest"
    by (auto simp: load_deployment_group_def split: list.splits)
  let ?q = "dk_pull (re_docker env) RequestCtx (cp_image first) w"
  have w1: "own (snd ?q) = own w" "sound (snd ?q)" using assms(2) by (simp_all add: pull_own sound_kept)
  let ?l1 = "launch_replicas env (re_prefill_port env) ''prefill''
      (replica_name (group_prefix d) ''p'' (dp_deployment_id d)) 0 (dp_prefill d) (snd ?q)"
  obtain e1 pre w2 where l1: "?l1 = ((e1, pre), w2)" by (metis prod.collapse)
  note o1 = launch_replicas_own [OF l1 w1(2) host_own(5) host_sound(5)]
  let ?l2 = "launch_replicas env (re_decode_port env) ''decode''
      (replica_name (group_prefix d) ''d'' (dp_deployment_id d)) 0 (dp_decode d) w2"
  obtain e2 dec w3 where l2: "?l2 = ((e2, dec), w3)" by (metis prod.collapse)
  note o2 = launch_replicas_own [OF l2 o1 [THEN conjunct1] host_own(6) host_sound(6)]
  from assms(1) f l1 l2 have "dg_prefill g = pre" "dg_decode g = dec" "e1 = None" "e2 = None"
    "w' = snd (dk_remove_image (re_docker env) RequestCtx (cp_image first) w3)"
    by (auto simp: load_deployment_group_def split_def Let_def split: option.splits)
  with o1 o2 w1 show ?thesis by (auto simp: group_containers_def image_Un remove_image_own sound_kept)
qed

lemma teardown_frame: "own (fold (stop_and_remove env n) cis w) \<subseteq> own w"
  by (induction cis arbitrary: w) (auto dest: subsetD [OF stop_and_remove_frame(2)])

lemma rollback_sound: "sound (fold (stop_and_remove env n) cis w) = sound w"
  by (induction cis arbitrary: w) (simp_all add: stop_and_remove_frame)

lemma load_group_sound:
  assumes "load_deployment_group env d s w = Some (Inl e, s', w')" "sound w"
  shows "sound w'"
proof -
  from assms(1) obtain first rest where f: "dp_prefill d = first # rest"
    by (auto simp: load_deployment_group_def split: list.splits)
  let ?q = "dk_pull (re_docker env) RequestCtx (cp_image first) w"
  have w1: "sound (snd ?q)" using assms(2) by (simp add: sound_kept)
  let ?l1 = "launch_replicas env (re_prefill_port env) ''prefill''
      (replica_name (group_prefix d) ''p'' (dp_deployment_id d)) 0 (dp_prefill d) (snd ?q)"
  obtain e1 pre w2 where l1: "?l1 = ((e1, pre), w2)" by (metis prod.collapse)
  note o1 = launch_replicas_own [OF l1 w1 host_own(5) host_sound(5)]
  let ?l2 = "launch_replicas env (re_decode_port env) ''decode''
      (replica_name (group_prefix d) ''d'' (dp_deployment_id d)) 0 (dp_decode d) w2"
  obtain e2 dec w3 where l2: "?l2 = ((e2, dec), w3)" by (metis prod.collapse)
  note o2 = launch_replicas_own [OF l2 o1 [THEN conjunct1] host_own(6) host_sound(6)]
  from assms(1) f l1 l2 w1 o1 o2 show ?thesis
    by (auto simp: load_deployment_group_def split_def Let_def rollback_group_def rollback_sound split: option.splits)
qed

lemma unload_model_recorded:
  assumes "unload_model env dep s w = (e, s', w')" "sound w" "settled s dep"
  shows "sound w' \<and> settled s' dep \<and> rt_groups s' = rt_groups s \<and>
    own w' \<subseteq> own w - (entry_containers s dep - entry_containers s' dep)"
proof (cases "rt_deployments s dep")
  case None
  with assms show ?thesis by (auto simp: unload_model_def entry_containers_simps)
next
  case (Some a)
  define cid where "cid = rd_container_id (rt_objects s a)"
  define w1 where "w1 = snd (dk_stop (re_docker env) RequestCtx cid 10 w)"
  define w2 where "w2 = snd (dk_remove (re_docker env) RequestCtx cid w1)"
  define s1 where "s1 = set_state (re_now env w) dep StateStopping s"
  have s1: "rt_deployments s1 = rt_deployments s" "rt_groups s1 = rt_groups s" "status_of s1 dep = StateStopping"
    "entry_containers s1 dep = {cid} - {[]}" "entry_containers s dep = {cid} - {[]}" "rd_container_id (rt_objects s1 a) = cid"
    using Some by (simp_all add: s1_def cid_def set_state_def on_entry_def upd_obj_def status_of_def entry_def entry_containers_def)
  note w12 = stop_remove_own [of RequestCtx cid 10 w, folded w1_def, folded w2_def]
    stop_remove_sound [of RequestCtx cid 10 w, folded w1_def, folded w2_def]
    stop_remove_done [of RequestCtx cid 10 w, folded w1_def, folded w2_def]
    stop_own [of RequestCtx cid 10 w, folded w1_def] sound_kept(4) [of RequestCtx cid 10 w, folded w1_def]
  from Some assms(1) have u: "unload_locked env dep a s w = (e, s', w')" by (simp add: unload_model_def)
  then have u: "(e, s', w') = (if cid = [] then (None, drop_entry dep s1, w)
      else case fst (dk_stop (re_docker env) RequestCtx cid 10 w) of Some err \<Rightarrow> (Some (wrap_err ''stop'' err), s1, w1)
        | None \<Rightarrow> case fst (dk_remove (re_docker env) RequestCtx cid w1) of Some err \<Rightarrow> (Some (wrap_err ''remove'' err), s1, w2)
            | None \<Rightarrow> (None, drop_entry dep s1, w2))"
    unfolding unload_locked_def Let_def split_def s1_def [symmetric] s1(6) w1_def [symmetric] w2_def [symmetric] by (rule sym)
  consider "cid = []" "s' = drop_entry dep s1" "w' = w" | "s' = s1" "w' = w1" | "s' = s1" "w' = w2"
    | "s' = drop_entry dep s1" "w' = w2" "fst (dk_remove (re_docker env) RequestCtx cid w1) = None"
    using u by (auto split: if_splits option.splits)
  then show ?thesis
    by cases (use assms(2) s1 w12 in \<open>auto simp: settled_def drop_entry_def entry_containers_simps\<close>)
qed

end

section \<open>Histories\<close>

text \<open>
  What a worker and its host can become from a host state \<open>w0\<close>: any operations, one after the other,
  and in between whatever else happens on the host as long as no container appears and the daemon goes
  on to carry out removals. The last argument collects what the operations so far have lost.
\<close>

inductive worker_history ::
  "'w rt_env \<Rightarrow> ('w \<Rightarrow> string set) \<Rightarrow> ('w \<Rightarrow> bool) \<Rightarrow> (ctx \<Rightarrow> 'w \<Rightarrow> bool) \<Rightarrow> 'w \<Rightarrow> runtime \<Rightarrow> 'w \<Rightarrow> string set \<Rightarrow> bool"
  for env own sound live w0 where
  boot: "sound w0 \<Longrightarrow> worker_history env own sound live w0 new_runtime w0 {}"
| elapse: "worker_history env own sound live w0 s w L \<Longrightarrow> own w' \<subseteq> own w \<Longrightarrow> sound w' \<Longrightarrow>
    worker_history env own sound live w0 s w' L"
| load: "worker_history env own sound live w0 s w L \<Longrightarrow> load_model env dep p s w = (r, s', w') \<Longrightarrow>
    worker_history env own sound live w0 s' w' (L \<union> overwritten_record s dep \<union> cut_off_container own live r w w')"
| unload: "worker_history env own sound live w0 s w L \<Longrightarrow> unload_model env dep s w = (e, s', w') \<Longrightarrow>
    worker_history env own sound live w0 s' w' L"
| load_group: "worker_history env own sound live w0 s w L \<Longrightarrow> load_deployment_group env d s w = Some (g, s', w') \<Longrightarrow>
    worker_history env own sound live w0 s' w' (L \<union> group_load_lost own live s (dp_deployment_id d) g w w')"
| unload_group: "worker_history env own sound live w0 s w L \<Longrightarrow> unload_deployment_group env dep s w = (e, s', w') \<Longrightarrow>
    worker_history env own sound live w0 s' w' (L \<union> (if live RequestCtx w' then {} else group_at s dep))"

definition accounted :: "('w \<Rightarrow> string set) \<Rightarrow> ('w \<Rightarrow> bool) \<Rightarrow> string set \<Rightarrow> runtime \<Rightarrow> 'w \<Rightarrow> bool" where
  "accounted own sound B s w \<longleftrightarrow> sound w \<and> own_objects s \<and> (\<forall>dep. settled s dep) \<and>
     (\<forall>g\<in>ran (rt_groups s). [] \<notin> group_containers g) \<and> own w \<subseteq> B \<union> recorded_containers s"

lemma settled_entry: "entry s' j = entry s j \<Longrightarrow> settled s j \<Longrightarrow> settled s' j"
  by (auto simp: settled_def status_of_def endpoint_url_def container_for_deployment_def entry_def split: option.splits)

lemma settled_groups: "settled (s\<lparr>rt_groups := g\<rparr>) j = settled s j"
  by (simp add: settled_def status_of_def endpoint_url_def container_for_deployment_def entry_def split: option.split)

lemma recorded_groups:
  "rt_deployments s' = rt_deployments s \<Longrightarrow> rt_objects s' = rt_objects s \<Longrightarrow>
   recorded_containers s' = (\<Union>dep. entry_containers s dep) \<union> (\<Union>g\<in>ran (rt_groups s'). group_containers g)"
  by (simp add: recorded_containers_def entry_containers_def entry_def)

context worker_host
begin

lemma load_accounted:
  assumes "accounted own sound B s w" "load_model env dep p s w = (r, s', w')"
  shows "accounted own sound (B \<union> overwritten_record s dep \<union> cut_off_container own live r w w') s' w'"
proof -
  from assms(1) have a: "sound w" "own_objects s" "\<And>j. settled s j" "\<forall>g\<in>ran (rt_groups s). [] \<notin> group_containers g"
    "own w \<subseteq> B \<union> recorded_containers s" by (simp_all add: accounted_def)
  note l = load_model_recorded [OF assms(2) a(1) a(3)]
  have o: "own_objects s'" "\<And>j. j \<noteq> dep \<Longrightarrow> entry s' j = entry s j"
    using load_model_own [OF a(2), of env dep p w] assms(2) by simp_all
  have "settled s' j" for j using o(2) [of j] l a(3) settled_entry by (cases "j = dep") auto
  moreover have "own w' \<subseteq> B \<union> overwritten_record s dep \<union> cut_off_container own live r w w' \<union> recorded_containers s'"
  proof -
    have 1: "recorded_containers s \<subseteq> entry_containers s dep \<union> recorded_containers s'"
      using o(2) l by (intro recorded_entries) auto
    have 2: "entry_containers s' dep \<subseteq> recorded_containers s'" by (auto simp: recorded_containers_def)
    show ?thesis using 1 2 l a(5) by blast
  qed
  ultimately show ?thesis using l o(1) a(4) by (simp add: accounted_def)
qed

lemma unload_accounted:
  assumes "accounted own sound B s w" "unload_model env dep s w = (e, s', w')"
  shows "accounted own sound B s' w'"
proof -
  from assms(1) have a: "sound w" "own_objects s" "\<And>j. settled s j" "\<forall>g\<in>ran (rt_groups s). [] \<notin> group_containers g"
    "own w \<subseteq> B \<union> recorded_containers s" by (simp_all add: accounted_def)
  note u = unload_model_recorded [OF assms(2) a(1) a(3)]
  have o: "own_objects s'" "\<And>j. j \<noteq> dep \<Longrightarrow> entry s' j = entry s j"
    using unload_model_own [OF a(2), of env dep w] assms(2) by simp_all
  have "settled s' j" for j using o(2) [of j] u a(3) settled_entry by (cases "j = dep") auto
  moreover have "own w' \<subseteq> B \<union> recorded_containers s'"
  proof -
    have 1: "recorded_containers s \<subseteq> entry_containers s dep \<union> recorded_containers s'"
      using o(2) u by (intro recorded_entries) auto
    have 2: "entry_containers s' dep \<subseteq> recorded_containers s'" by (auto simp: recorded_containers_def)
    have 3: "own w' \<subseteq> own w - (entry_containers s dep - entry_containers s' dep)" using u by simp
    show ?thesis using 1 2 3 a(5) by fast
  qed
  ultimately show ?thesis using u o(1) a(4) by (simp add: accounted_def)
qed

text \<open>What the group table loses when an entry is replaced or removed.\<close>

lemma recorded_group_update:
  assumes "s' = s\<lparr>rt_groups := gs\<rparr>" "\<And>j. j \<noteq> dep \<Longrightarrow> gs j = rt_groups s j"
  shows "recorded_containers s \<subseteq> recorded_containers s' \<union> group_at s dep"
proof -
  have "group_containers h \<subseteq> (\<Union>g\<in>ran gs. group_containers g) \<union> group_at s dep" if "h \<in> ran (rt_groups s)" for h
  proof -
    from that obtain j where j: "rt_groups s j = Some h" by (auto simp: ran_def)
    show ?thesis
    proof (cases "j = dep")
      case True
      with j show ?thesis by (simp add: group_at_def)
    next
      case False
      with j assms(2) [of j] have "gs j = Some h" by simp
      then have "h \<in> ran gs" by (rule ranI)
      then show ?thesis by blast
    qed
  qed
  moreover have "recorded_containers s' = (\<Union>dep. entry_containers s dep) \<union> (\<Union>g\<in>ran gs. group_containers g)"
    using recorded_groups [of s' s] assms(1) by simp
  ultimately show ?thesis unfolding recorded_containers_def [of s] by blast
qed

lemma load_group_accounted:
  assumes "accounted own sound B s w" "load_deployment_group env d s w = Some (r, s', w')"
  shows "accounted own sound (B \<union> group_load_lost own live s (dp_deployment_id d) r w w') s' w'"
proof (cases r)
  case (Inl e)
  with assms(2) have l: "load_deployment_group env d s w = Some (Inl e, s', w')" by simp
  have a: "sound w" using assms(1) by (simp add: accounted_def)
  have s': "s' = s" using l
    by (auto simp: load_deployment_group_def rollback_group_def split_def Let_def split: list.splits option.splits)
  show ?thesis
  proof (cases "live RequestCtx w'")
    case True
    from group_load_failure_own [OF l a True] load_group_sound [OF l a] assms(1) Inl show ?thesis
      by (auto simp: accounted_def)
  next
    case False
    with load_group_sound [OF l a] assms(1) Inl s' show ?thesis
      by (auto simp: accounted_def group_load_lost_def)
  qed
next
  case (Inr g)
  with assms(2) have l: "load_deployment_group env d s w = Some (Inr g, s', w')" by simp
  have a: "sound w" using assms(1) by (simp add: accounted_def)
  note rec = load_group_recorded [OF l a]
  obtain gs where gs: "s' = s\<lparr>rt_groups := gs\<rparr>" using group_load_entries [OF l] by blast
  with group_load_effect [OF l] have gs': "gs = (rt_groups s)(dp_deployment_id d \<mapsto> g)" by simp
  have "recorded_containers s \<subseteq> recorded_containers s' \<union> group_at s (dp_deployment_id d)"
    by (rule recorded_group_update [OF gs]) (simp add: gs')
  moreover have "group_containers g \<subseteq> recorded_containers s'"
    unfolding recorded_containers_def gs gs' by (auto intro!: bexI [of _ g] ranI [of _ "dp_deployment_id d"])
  moreover have "own w \<subseteq> B \<union> recorded_containers s" using assms(1) by (simp add: accounted_def)
  ultimately have "own w' \<subseteq> B \<union> group_at s (dp_deployment_id d) \<union> recorded_containers s'" using rec by blast
  moreover have "settled s' j = settled s j" for j by (simp add: gs settled_groups)
  moreover have "\<forall>h\<in>ran (rt_groups s'). [] \<notin> group_containers h"
    using assms(1) rec by (auto simp: accounted_def gs gs' ran_def split: if_splits)
  ultimately show ?thesis using rec assms(1) Inr by (auto simp: accounted_def gs group_own group_load_lost_def)
qed

lemma unload_group_accounted:
  assumes "accounted own sound B s w" "unload_deployment_group env dep s w = (e, s', w')"
  shows "accounted own sound (B \<union> (if live RequestCtx w' then {} else group_at s dep)) s' w'"
proof -
  from assms(2) have s': "s' = s\<lparr>rt_groups := (rt_groups s)(dep := None)\<rparr>"
    by (auto simp: unload_deployment_group_def Let_def split: option.splits)
  have sub: "ran (rt_groups s') \<subseteq> ran (rt_groups s)" by (auto simp: s' ran_def split: if_splits)
  have own: "own w \<subseteq> B \<union> recorded_containers s" using assms(1) by (simp add: accounted_def)
  have rec: "recorded_containers s \<subseteq> recorded_containers s' \<union> group_at s dep"
    by (rule recorded_group_update [OF s']) simp
  have w': "sound w' \<and> own w' \<subseteq> B \<union> (if live RequestCtx w' then {} else group_at s dep) \<union> recorded_containers s'"
  proof (cases "rt_groups s dep")
    case None
    with assms(1,2) own rec show ?thesis
      by (auto simp: unload_deployment_group_def accounted_def group_at_def)
  next
    case (Some g)
    with assms(2) have w': "w' = fold (stop_and_remove env 10) (dg_prefill g @ dg_decode g) w"
      by (simp add: unload_deployment_group_def Let_def)
    have "own w' \<subseteq> own w" unfolding w' by (rule teardown_frame)
    moreover have "own w' \<subseteq> own w - group_containers g" if "live RequestCtx w'"
      using assms(1) Some that unfolding w' group_containers_def
      by (intro teardown_own) (auto simp: accounted_def group_containers_def ran_def)
    moreover have "group_at s dep = group_containers g" using Some by (simp add: group_at_def)
    ultimately have "own w' \<subseteq> B \<union> (if live RequestCtx w' then {} else group_at s dep) \<union> recorded_containers s'"
      using own rec by (cases "live RequestCtx w'") (simp, blast)+
    then show ?thesis using assms(1) by (simp add: w' rollback_sound accounted_def)
  qed
  moreover have "settled s' j = settled s j" for j by (simp add: s' settled_groups)
  moreover have "own_objects s' = own_objects s" by (simp add: s' group_own)
  ultimately show ?thesis using assms(1) sub by (auto simp: accounted_def)
qed

lemma history_accounted: "worker_history env own sound live w0 s w L \<Longrightarrow> accounted own sound (own w0 \<union> L) s w"
proof (induction rule: worker_history.induct)
  case boot
  then show ?case by (auto simp: accounted_def own_objects_def settled_def new_runtime_def)
next
  case (elapse s w L w')
  then show ?case by (auto simp: accounted_def)
next
  case (load s w L dep p r s' w')
  from load_accounted [OF load.IH load.hyps(2)] show ?case by (simp add: Un_assoc)
next
  case (unload s w L dep e s' w')
  from unload_accounted [OF unload.IH unload.hyps(2)] show ?case .
next
  case (load_group s w L d g s' w')
  from load_group_accounted [OF load_group.IH load_group.hyps(2)] show ?case by (simp add: Un_assoc)
next
  case (unload_group s w L dep e s' w')
  from unload_group_accounted [OF unload_group.IH unload_group.hyps(2)] show ?case by (simp add: Un_assoc)
qed

end


text \<open>The history of the witness: a load that runs.\<close>

lemma sample_load:
  "\<exists>s w. load_model fake_env ''d'' (sample_plan 8000) new_runtime (new_fake_host [True]) =
      (Inr (endpoint_of fake_env 19000), s, w) \<and> status_of s ''d'' = StateRunning"
proof -
  obtain a s1 where g: "get_or_create ''d'' new_runtime = (a, s1)" by fastforce
  then have "status_of s1 ''d'' = StateAbsent"
    by (auto simp: get_or_create_def new_runtime_def status_of_def entry_def new_deployment_def Let_def)
  from good_plan_runs [OF this, of "new_fake_host [True]" a] g obtain s w where
    l: "load_locked fake_env ''d'' (sample_plan 8000) a s1 (new_fake_host [True]) = (Inr (endpoint_of fake_env 19000), s, w)"
    by auto
  with load_locked_success [OF l] get_or_create_entry [OF g] g show ?thesis
    by (auto simp: load_model_def running_at_def)
qed


section \<open>The load that loses a container\<close>

text \<open>
  (error). Why a history does not load a deployment whose unload failed: such an unload keeps the
  container's record, but the load forgets the deployment when the image cannot be pulled, and
  the container, still on the host, is recorded nowhere; a further unload succeeds and does nothing.
\<close>

theorem failed_reload_orphans_container:
  assumes "worker_host env own sound live" and "own_objects s" and "pl_host_port p \<noteq> 0"
    and "unload_model env dep s w = (Some e, s1, w1)" and "cid = container_for_deployment s dep"
    and "\<forall>j. j \<noteq> dep \<longrightarrow> cid \<notin> entry_containers s j" and "\<forall>g\<in>ran (rt_groups s). cid \<notin> group_containers g"
    and "fst (fst (dk_pull (re_docker env) RequestCtx (pl_image p) w1)) = Some err"
    and "load_model env dep p s1 w1 = (r, s2, w2)"
  shows "own w2 = own w1 \<and> cid \<in> entry_containers s1 dep \<and> cid \<notin> recorded_containers s2 \<and>
    unload_model env dep s2 w3 = (None, s2, w3)"
proof -
  from assms(4) obtain a where a: "rt_deployments s dep = Some a"
    by (auto simp: unload_model_def split: option.splits)
  with assms(5) have cid: "cid = rd_container_id (rt_objects s a)"
    by (simp add: container_for_deployment_def entry_def)
  define t where "t = set_state (re_now env w) dep StateStopping s"
  have t: "rt_deployments t = rt_deployments s" "rt_groups t = rt_groups s" "status_of t dep = StateStopping"
    "rd_container_id (rt_objects t a) = cid" "container_for_deployment t dep = cid"
    "\<And>j. j \<noteq> dep \<Longrightarrow> entry t j = entry s j"
    using a cid on_entry_own [OF assms(2)]
    by (simp_all add: t_def set_state_def, simp_all add: on_entry_def upd_obj_def status_of_def entry_def container_for_deployment_def)
  have s1: "s1 = t" "cid \<noteq> []"
    using assms(4) a t(4) by (auto simp: unload_model_def unload_locked_def t_def Let_def split_def split: if_splits option.splits)
  have g: "get_or_create dep s1 = (a, s1)" using a t(1) s1(1) by (simp add: get_or_create_def)
  with assms(3,9) t(3) s1(1) have p: "load_pull env dep p a s1 w1 = (r, s2, w2)"
    by (simp add: load_model_def load_locked_def)
  with assms(8) have l: "w2 = snd (dk_pull (re_docker env) RequestCtx (pl_image p) w1)" "\<exists>x. r = Inl x"
    by (auto simp: load_pull_def Let_def split_def dest!: fail_load_effect)
  with load_pull_effect [OF p] have gone: "rt_deployments s2 dep = None" by (auto simp: load_effect_def)
  have "docker_client (re_docker env) own sound live" using assms(1) by (simp add: worker_host_def)
  then have "own w2 = own w1" unfolding l(1) by (rule docker_client.pull_own)
  moreover have "cid \<notin> recorded_containers s2"
  proof -
    have "confined a dep s1 s2" using load_pull_confined [OF confined_refl, of a dep s1 env p w1] p by simp
    moreover have own: "own_objects s1"
      using on_entry_own [OF assms(2)] by (simp add: s1(1) t_def set_state_def)
    ultimately have "entry s2 j = entry s j" if "j \<noteq> dep" for j
      using confined_own [OF own, of dep a s2] a t(1,6) s1(1) that by simp
    then have "cid \<notin> entry_containers s2 j" for j
      using assms(6) gone by (cases "j = dep") (auto simp: entry_containers_def entry_def)
    moreover have "rt_groups s2 = rt_groups s"
      using \<open>confined a dep s1 s2\<close> t(2) s1(1) by (simp add: confined_def)
    ultimately show ?thesis using assms(7) by (simp add: recorded_containers_def)
  qed
  moreover have "cid \<in> entry_containers s1 dep"
    using a t(1,5) s1 by (simp add: entry_containers_simps)
  ultimately show ?thesis using gone by (simp add: unload_model_def)
qed

definition stuck_host :: fake_host where
  "stuck_host = leaky_host\<lparr>fk_cancelled := False, fk_errors := no_fake_errors
     \<lparr>fe_stop := Some (Errorf ''daemon is down'' []), fe_pull := Some (Errorf ''registry is down'' [])\<rparr>\<rparr>"

definition serving_runtime :: runtime where
  "serving_runtime = \<lparr>rt_objects = (\<lambda>_. new_deployment\<lparr>rd_container_id := ''c'', rd_endpoint := ''u'', rd_state := StateRunning\<rparr>),
     rt_fresh = 1, rt_deployments = [''d'' \<mapsto> 0], rt_groups = Map.empty\<rparr>"

theorem failed_reload_orphans_container_witness:
  "\<exists>e s1 w1 r s2 w2. unload_model fake_env ''d'' serving_runtime stuck_host = (Some e, s1, w1) \<and>
     load_model fake_env ''d'' (sample_plan 8000) s1 w1 = (r, s2, w2) \<and>
     ''c'' \<in> fake_own w2 \<and> ''c'' \<notin> recorded_containers s2 \<and> unload_model fake_env ''d'' s2 w2 = (None, s2, w2)"
proof -
  obtain e s1 w1 where u: "unload_model fake_env ''d'' serving_runtime stuck_host = (Some e, s1, w1)" "w1 = stuck_host"
    by (simp add: serving_runtime_def unload_model_def unload_locked_def set_state_def on_entry_def upd_obj_def
        fake_stop_def stuck_host_def no_fake_errors_def Let_def)
  obtain r s2 w2 where l: "load_model fake_env ''d'' (sample_plan 8000) s1 w1 = (r, s2, w2)" by (metis prod.collapse)
  have "own_objects serving_runtime" by (simp add: own_objects_def serving_runtime_def)
  moreover have "''c'' = container_for_deployment serving_runtime ''d''"
    by (simp add: serving_runtime_def container_for_deployment_def entry_def)
  moreover have "\<forall>j. j \<noteq> ''d'' \<longrightarrow> ''c'' \<notin> entry_containers serving_runtime j"
    by (simp add: serving_runtime_def entry_containers_def entry_def)
  moreover have "\<forall>g\<in>ran (rt_groups serving_runtime). ''c'' \<notin> group_containers g" by (simp add: serving_runtime_def)
  moreover have "fst (fst (dk_pull (re_docker fake_env) RequestCtx (pl_image (sample_plan 8000)) w1)) = Some (Errorf ''registry is down'' [])"
    by (simp add: u(2) stuck_host_def fake_pull_def)
  ultimately have "fake_own w2 = fake_own w1 \<and> ''c'' \<in> entry_containers s1 ''d'' \<and> ''c'' \<notin> recorded_containers s2 \<and>
      unload_model fake_env ''d'' s2 w2 = (None, s2, w2)"
    by (intro failed_reload_orphans_container [OF fake_worker.worker_host_axioms _ _ u(1) _ _ _ _ l]) simp_all
  moreover have "''c'' \<in> fake_own w1" by (simp add: u(2) stuck_host_def leaky_host_def fake_own_def)
  ultimately show ?thesis using u(1) l by blast
qed

end
