(* ===== verification/Port_Use.thy ===== *)
theory Port_Use imports Isolation begin

text \<open>
  How the runtime uses its port allocators (internal/runtime/runtime.go with portalloc.go): every load
  that brings no port of its own takes one, and nothing gives a port back; the allocators of single
  deployments and of groups hand out the same ports.
\<close>

section \<open>What a host keeps\<close>

text \<open>A property of the host that none of the operations touches, the three port allocators apart.\<close>

locale host_keeps =
  fixes env :: "'w rt_env" and P :: "'w \<Rightarrow> bool"
  assumes keeps_docker:
      "P w \<Longrightarrow> P (snd (dk_pull (re_docker env) c img w))" "P w \<Longrightarrow> P (snd (dk_create (re_docker env) c spec w))"
      "P w \<Longrightarrow> P (snd (dk_start (re_docker env) c cid w))" "P w \<Longrightarrow> P (snd (dk_stop (re_docker env) c cid n w))"
      "P w \<Longrightarrow> P (snd (dk_remove (re_docker env) c cid w))" "P w \<Longrightarrow> P (snd (dk_remove_image (re_docker env) c img w))"
      "P w \<Longrightarrow> P (snd (dk_remove_by_name (re_docker env) c nm w))"
    and keeps_host: "P w \<Longrightarrow> P (snd (re_probe env u w))" "P w \<Longrightarrow> P (snd (re_poll env w))"
      "P w \<Longrightarrow> P (snd (re_post env u b w))"
begin

lemma keeps_wait: "P w \<Longrightarrow> P (snd (wait_ready env u t w))"
proof -
  assume "P w"
  then have "P (snd (wait_ready_fuel n env d u w))" for n d
    by (induction n arbitrary: w) (auto simp: split_def Let_def keeps_host)
  then show ?thesis by (simp add: wait_ready_def split_def Let_def del: wait_ready_fuel.simps)
qed

lemma keeps_ollama: "P w \<Longrightarrow> P (snd (ollama_pull_if_needed (re_post env) d p ep w))"
  by (rule ollama_pull_frame) (simp_all add: keeps_host)

lemma keeps_load_ready: "P w \<Longrightarrow> P (snd (snd (load_ready env dep p a cid s w)))"
  by (simp add: load_ready_def abandon_load_def Let_def split_def keeps_docker keeps_wait keeps_ollama split: option.split)

lemma keeps_load_start: "P w \<Longrightarrow> P (snd (snd (load_start env dep p a cid s w)))"
  by (simp add: load_start_def fail_load_def Let_def split_def keeps_docker keeps_load_ready split: option.split)

lemma keeps_load_create: "P w \<Longrightarrow> P (snd (snd (load_create env dep p a spec s w)))"
  by (simp add: load_create_def fail_load_def Let_def split_def keeps_docker keeps_load_start split: option.split sum.split)

lemma keeps_load_pull: "P w \<Longrightarrow> P (snd (snd (load_pull env dep p a s w)))"
  by (simp add: load_pull_def fail_load_def Let_def split_def keeps_docker keeps_load_create split: option.split sum.split)

lemma keeps_load:
  assumes "\<And>w. P w \<Longrightarrow> P (snd (re_port env w))"
  shows "P w \<Longrightarrow> P (snd (snd (load_model env dep p s w)))"
  by (auto simp: load_model_def load_locked_def Let_def split_def assms keeps_load_pull split: sum.split)

lemma keeps_unload: "P w \<Longrightarrow> P (snd (snd (unload_model env dep s w)))"
  by (simp add: unload_model_def unload_locked_def Let_def split_def keeps_docker split: option.split)

lemma keeps_create_and_start: "P w \<Longrightarrow> P (snd (create_and_start env p w))"
  by (simp add: create_and_start_def Let_def split_def keeps_docker keeps_wait split: sum.split option.split)

lemma keeps_teardown: "P w \<Longrightarrow> P (fold (stop_and_remove env n) cis w)"
  by (induction cis arbitrary: w) (simp_all add: stop_and_remove_def Let_def split_def keeps_docker)

lemma keeps_launch:
  assumes "\<And>w. P w \<Longrightarrow> P (snd (draw w))"
  shows "P w \<Longrightarrow> P (snd (launch_replicas env draw role name i cps w))"
proof (induction cps arbitrary: i w)
  case (Cons cp cps)
  then show ?case by (simp add: Let_def split_def assms keeps_create_and_start split: sum.split)
qed simp

lemma keeps_group_load:
  assumes "\<And>w. P w \<Longrightarrow> P (snd (re_prefill_port env w))" and "\<And>w. P w \<Longrightarrow> P (snd (re_decode_port env w))"
    and "load_deployment_group env d s w = Some (r, s', w')" and "P w"
  shows "P w'"
  using assms(3,4)
  by (auto simp: load_deployment_group_def rollback_group_def Let_def split_def keeps_docker keeps_launch assms(1,2)
      keeps_teardown simp del: fold_append launch_replicas.simps split: list.splits option.splits)

lemma keeps_group_unload: "P w \<Longrightarrow> P (snd (snd (unload_deployment_group env dep s w)))"
  by (simp add: unload_deployment_group_def Let_def keeps_teardown del: fold_append split: option.split)

end

section \<open>The host's allocators\<close>

text \<open>The port source of single deployments is the allocator \<open>ports w\<close>, which nothing else touches.\<close>

locale port_host =
  fixes env :: "'w rt_env" and ports :: "'w \<Rightarrow> port_allocator"
  assumes draws: "fst (re_port env w) = fst (port_next (ports w))" "ports (snd (re_port env w)) = snd (port_next (ports w))"
    and kept: "host_keeps env (\<lambda>w. ports w = x)"
    and group_draws: "ports (snd (re_prefill_port env w)) = ports w" "ports (snd (re_decode_port env w)) = ports w"

text \<open>Whether a load draws a port: it brings none, and the deployment is not running already.\<close>

definition draws_port :: "plan \<Rightarrow> runtime \<Rightarrow> string \<Rightarrow> bool" where
  "draws_port p s dep \<longleftrightarrow> pl_host_port p = 0 \<and> \<not> (status_of s dep = StateRunning \<and> endpoint_url s dep \<noteq> [])"

lemma get_or_create_queries:
  "get_or_create dep s = (a, s1) \<Longrightarrow> status_of s1 dep = status_of s dep \<and> endpoint_url s1 dep = endpoint_url s dep"
  by (auto simp: get_or_create_def status_of_def endpoint_url_def entry_def new_deployment_def Let_def split: option.splits)

context port_host
begin

lemma load_draws:
  assumes "load_model env dep p s w = (r, s', w')"
  shows "ports w' = (if draws_port p s dep then snd (port_next (ports w)) else ports w) \<and>
    (draws_port p s dep \<longrightarrow> (\<forall>e. fst (port_next (ports w)) = Inl e \<longrightarrow> r = Inl (wrap_err ''port allocation'' e)))"
proof -
  obtain a s1 where g: "get_or_create dep s = (a, s1)" by fastforce
  note q = get_or_create_queries [OF g]
  from g assms have l: "load_locked env dep p a s1 w = (r, s', w')" by (simp add: load_model_def)
  have pull: "ports (snd (snd (load_pull env dep p' a s1 v))) = ports v" for p' v
    by (rule host_keeps.keeps_load_pull [OF kept]) simp
  show ?thesis
  proof (cases "draws_port p s dep")
    case False
    with l q pull [of p w] show ?thesis by (auto simp: draws_port_def load_locked_def split: if_splits)
  next
    case True
    obtain x w1 where x: "re_port env w = (x, w1)" by fastforce
    with draws [of w] have w1: "fst (port_next (ports w)) = x" "ports w1 = snd (port_next (ports w))" by simp_all
    from True l q x have l: "(r, s', w') = (case x of Inl e \<Rightarrow> (Inl (wrap_err ''port allocation'' e), s1, w1)
        | Inr port \<Rightarrow> load_pull env dep (p\<lparr>pl_host_port := port\<rparr>) a s1 w1)"
      by (auto simp: draws_port_def load_locked_def)
    show ?thesis
    proof (cases x)
      case (Inr port)
      with l have "w' = snd (snd (load_pull env dep (p\<lparr>pl_host_port := port\<rparr>) a s1 w1))" by (metis snd_conv sum.simps(6))
      with True w1 Inr pull show ?thesis by simp
    qed (use True w1 l in simp)
  qed
qed

lemma unload_keeps: "unload_model env dep s w = (e, s', w') \<Longrightarrow> ports w' = ports w"
  using host_keeps.keeps_unload [OF kept, of w "ports w" dep s] by simp

lemma group_load_keeps: "load_deployment_group env d s w = Some (r, s', w') \<Longrightarrow> ports w' = ports w"
  by (rule host_keeps.keeps_group_load [OF kept]) (simp_all add: group_draws)

lemma group_unload_keeps: "unload_deployment_group env dep s w = (e, s', w') \<Longrightarrow> ports w' = ports w"
  using host_keeps.keeps_group_unload [OF kept, of w "ports w" dep s] by simp

end

section \<open>Ports run out\<close>

text \<open>A history of a worker with \<open>n\<close> loads that drew a port, whatever came of them.\<close>

inductive port_history :: "'w rt_env \<Rightarrow> ('w \<Rightarrow> port_allocator) \<Rightarrow> 'w \<Rightarrow> nat \<Rightarrow> runtime \<Rightarrow> 'w \<Rightarrow> bool"
  for env ports w0 where
  boot: "port_history env ports w0 0 new_runtime w0"
| elapse: "port_history env ports w0 n s w \<Longrightarrow> ports w' = ports w \<Longrightarrow> port_history env ports w0 n s w'"
| load: "port_history env ports w0 n s w \<Longrightarrow> load_model env dep p s w = (r, s', w') \<Longrightarrow>
    port_history env ports w0 (if draws_port p s dep then Suc n else n) s' w'"
| unload: "port_history env ports w0 n s w \<Longrightarrow> unload_model env dep s w = (e, s', w') \<Longrightarrow> port_history env ports w0 n s' w'"
| load_group: "port_history env ports w0 n s w \<Longrightarrow> load_deployment_group env d s w = Some (g, s', w') \<Longrightarrow>
    port_history env ports w0 n s' w'"
| unload_group: "port_history env ports w0 n s w \<Longrightarrow> unload_deployment_group env dep s w = (e, s', w') \<Longrightarrow>
    port_history env ports w0 n s' w'"

text \<open>The allocator after \<open>n\<close> draws from a fresh one: a prefix of the range is in use.\<close>

definition drawn :: "int \<Rightarrow> int \<Rightarrow> nat \<Rightarrow> port_allocator" where
  "drawn l h n = \<lparr>pa_lo = l, pa_hi = h, pa_used = {l ..< l + int (min n (nat (h - l + 1)))}\<rparr>"

lemma drawn_0: "drawn l h 0 = new_port_allocator l h"
  by (simp add: drawn_def new_port_allocator_def)

lemma port_next_drawn:
  "port_next (drawn l h n) =
     (if int n < h - l + 1 then Inr (l + int n) else Inl (Errorf ''port range exhausted'' []), drawn l h (Suc n))"
proof (cases "int n < h - l + 1")
  case True
  then have m: "min n (nat (h - l + 1)) = n" "min (Suc n) (nat (h - l + 1)) = Suc n" by linarith+
  have "scan_ports {l ..< l + int n} l h = scan_ports {l ..< l + int n} (l + int n) h"
    using True by (intro scan_ports_skip) auto
  also have "\<dots> = Some (l + int n)" using True by (intro scan_ports_first) auto
  finally show ?thesis using True by (auto simp: port_next_def drawn_def m)
next
  case False
  then have m: "min n (nat (h - l + 1)) = nat (h - l + 1)" "min (Suc n) (nat (h - l + 1)) = nat (h - l + 1)" by linarith+
  have "scan_ports {l ..< l + int (nat (h - l + 1))} l h = None" by (simp add: scan_ports_None)
  with False show ?thesis by (simp add: port_next_def drawn_def m)
qed

lemma history_drawn:
  assumes "port_host env ports" and "ports w0 = new_port_allocator l h"
  shows "port_history env ports w0 n s w \<Longrightarrow> ports w = drawn l h n"
proof (induction rule: port_history.induct)
  case boot
  then show ?case by (simp add: assms(2) drawn_0)
next
  case (load n s w dep p r s' w')
  from port_host.load_draws [OF assms(1) load(2)] load(3) show ?case by (simp add: port_next_drawn)
qed (auto dest: port_host.unload_keeps [OF assms(1)] port_host.group_load_keeps [OF assms(1)] port_host.group_unload_keeps [OF assms(1)])

text \<open>
  C7 (bounds). A worker serves only so many loads. Each load without a port of its own, failed ones
  included, takes the next port of the range and no unload gives it back, so that after \<open>n\<close> such loads
  the next one gets the port \<open>lo + n\<close>, and after \<open>hi - lo + 1\<close> of them (1000 with the default range)
  every further one fails, with nothing running any more.
\<close>

theorem ports_run_out:
  assumes "port_host env ports" and "ports w0 = new_port_allocator lo hi"
    and "port_history env ports w0 n s w"
  shows "pa_used (ports w) = {lo ..< lo + int (min n (nat (hi - lo + 1)))} \<and>
    (draws_port p s dep \<and> hi - lo + 1 \<le> int n \<longrightarrow>
       fst (load_model env dep p s w) = Inl (wrap_err ''port allocation'' (Errorf ''port range exhausted'' [])))"
proof -
  note d = history_drawn [OF assms]
  obtain r s' w' where l: "load_model env dep p s w = (r, s', w')" by (metis prod.collapse)
  from port_host.load_draws [OF assms(1) l] d l show ?thesis
    by (simp add: port_next_drawn) (simp add: drawn_def)
qed

text \<open>The in-memory host draws from \<open>fh_ports\<close>.\<close>

interpretation fake_ports: port_host fake_env fh_ports
proof (rule port_host.intro)
  have "fh_ports (snd (dk_pull (re_docker fake_env) c img w)) = fh_ports w"
    "fh_ports (snd (dk_create (re_docker fake_env) c spec w)) = fh_ports w"
    "fh_ports (snd (dk_start (re_docker fake_env) c cid w)) = fh_ports w"
    "fh_ports (snd (dk_stop (re_docker fake_env) c cid n w)) = fh_ports w"
    "fh_ports (snd (dk_remove (re_docker fake_env) c cid w)) = fh_ports w"
    "fh_ports (snd (dk_remove_image (re_docker fake_env) c img w)) = fh_ports w"
    "fh_ports (snd (dk_remove_by_name (re_docker fake_env) c nm w)) = fh_ports w" for c img spec cid n nm w
    by (auto simp: fake_ops_defs fake_state_defs Let_def split_def split: option.splits)
  moreover have "fh_ports (snd (re_probe fake_env u w)) = fh_ports w" "fh_ports (snd (re_poll fake_env w)) = fh_ports w"
    "fh_ports (snd (re_post fake_env u b w)) = fh_ports w" for u b w
    by (auto simp: fake_host_defs split: list.splits)
  ultimately show "host_keeps fake_env (\<lambda>w. fh_ports w = x)" for x by unfold_locales simp_all
qed (simp_all add: fake_env_def Let_def split_def)

theorem ports_run_out_witness:
  "\<exists>s w. port_history fake_env fh_ports ((new_fake_host [])\<lparr>fh_ports := new_port_allocator 19000 19000\<rparr>) 1 s w \<and>
     fst (load_model fake_env ''e'' ((sample_plan 8000)\<lparr>pl_host_port := 0\<rparr>) s w) =
       Inl (wrap_err ''port allocation'' (Errorf ''port range exhausted'' []))"
proof -
  let ?w0 = "(new_fake_host [])\<lparr>fh_ports := new_port_allocator 19000 19000\<rparr>"
  let ?p = "(sample_plan 0)\<lparr>pl_host_port := 0\<rparr>"
  obtain r s w where l: "load_model fake_env ''d'' ?p new_runtime ?w0 = (r, s, w)" by (metis prod.collapse)
  have "draws_port ?p new_runtime ''d''" by (simp add: draws_port_def status_of_def entry_def new_runtime_def)
  with port_history.load [OF port_history.boot l, of fh_ports] have h: "port_history fake_env fh_ports ?w0 1 s w" by simp
  have "rt_deployments s ''e'' = None"
  proof -
    have "own_objects new_runtime" by (simp add: own_objects_def new_runtime_def)
    from load_model_own [OF this, of fake_env "''d''" ?p ?w0] l show ?thesis
      by (auto simp: entry_def new_runtime_def)
  qed
  then have "draws_port ((sample_plan 8000)\<lparr>pl_host_port := 0\<rparr>) s ''e''" by (simp add: draws_port_def status_of_def entry_def)
  with ports_run_out [OF fake_ports.port_host_axioms _ h, of 19000 19000 "(sample_plan 8000)\<lparr>pl_host_port := 0\<rparr>" "''e''"] h
  show ?thesis by auto
qed

section \<open>Two allocators over one range\<close>

locale group_port_host = port_host env ports
  for env :: "'w rt_env" and ports :: "'w \<Rightarrow> port_allocator" +
  fixes prefill :: "'w \<Rightarrow> port_allocator"
  assumes prefill_draws: "fst (re_prefill_port env w) = fst (port_next (prefill w))"
    and prefill_kept: "host_keeps env (\<lambda>w. prefill w = x)" "prefill (snd (re_port env w)) = prefill w"
begin

lemma load_keeps_prefill: "load_model env dep p s w = (r, s', w') \<Longrightarrow> prefill w' = prefill w"
  using host_keeps.keeps_load [OF prefill_kept(1), of "prefill w" w dep p s] by (simp add: prefill_kept(2))

text \<open>A load that draws the port \<open>port\<close> and succeeds serves at it.\<close>

lemma load_serves_drawn:
  assumes "load_model env dep p s w = (Inr ep, s', w')" "draws_port p s dep" "fst (port_next (ports w)) = Inr port"
  shows "ep = endpoint_of env port"
proof -
  obtain a s1 where g: "get_or_create dep s = (a, s1)" by fastforce
  with assms(1) have l: "load_locked env dep p a s1 w = (Inr ep, s', w')" by (simp add: load_model_def)
  obtain w1 where x: "re_port env w = (Inr port, w1)" using draws(1) [of w] assms(3) by (metis prod.collapse)
  with l assms(2) get_or_create_queries [OF g]
  have "load_pull env dep (p\<lparr>pl_host_port := port\<rparr>) a s1 w1 = (Inr ep, s', w')"
    by (auto simp: draws_port_def load_locked_def)
  from load_pull_success [OF this] get_or_create_entry [OF g] show ?thesis by simp
qed

end

text \<open>
  (safety). Single deployments and groups draw from allocators of their own over the same ports,
  both beginning at 19000. On a fresh worker with the default ranges, once a deployment without a port
  of its own runs, Docker refuses the first prefill container of every group, as its port is
  bound, and the group load fails.
\<close>

theorem single_port_blocks_group:
  assumes "group_port_host env ports prefill" and "ro_port_range c = (0, 0)" and "ro_prefill_range c = (0, 0)"
    and "ports w = case_prod new_port_allocator (ro_port_range (default_options c))"
    and "prefill w = case_prod new_port_allocator (ro_prefill_range (default_options c))"
    and "load_model env i p s w = (Inr ep, s1, w1)" and "draws_port p s i"
    and "\<And>v. bound v \<Longrightarrow> bound (snd (dk_pull (re_docker env) RequestCtx img v))"
    and "\<And>v. bound v \<Longrightarrow> bound (snd (re_prefill_port env v))" and "bound w2" and "prefill w2 = prefill w1"
    and "\<And>q v. pl_host_port q = 19000 \<Longrightarrow> bound v \<Longrightarrow> \<exists>e. fst (create_and_start env q v) = Inl e"
    and "dp_prefill d = first # rest" and "cp_image first = img"
  shows "ep = endpoint_of env 19000 \<and> (\<exists>e s3 w3. load_deployment_group env d s1 w2 = Some (Inl e, s3, w3))"
proof
  have fresh: "ports w = drawn 19000 19999 0" "prefill w = drawn 19000 19499 0"
    using assms(2-5) by (simp_all add: default_options_def drawn_0)
  show "ep = endpoint_of env 19000"
    using group_port_host.load_serves_drawn [OF assms(1,6,7)] fresh(1) by (simp add: port_next_drawn)
  let ?q = "dk_pull (re_docker env) RequestCtx (cp_image first) w2"
  have "prefill (snd ?q) = prefill w2"
    using host_keeps.keeps_docker(1) [OF group_port_host.prefill_kept(1) [OF assms(1)], of w2 "prefill w2"] by simp
  also have "\<dots> = drawn 19000 19499 0" using group_port_host.load_keeps_prefill [OF assms(1,6)] fresh(2) assms(11) by simp
  finally have "fst (re_prefill_port env (snd ?q)) = Inr 19000"
    using group_port_host.prefill_draws [OF assms(1), of "snd ?q"] by (simp add: port_next_drawn)
  then obtain v where v: "re_prefill_port env (snd ?q) = (Inr 19000, v)" by (metis prod.collapse)
  have "bound (snd ?q)" using assms(8) [OF assms(10)] assms(14) by simp
  with assms(9) [of "snd ?q"] v have "bound v" by simp
  let ?cp = "to_plan first (replica_name (group_prefix d) ''p'' (dp_deployment_id d) 0) 19000"
  have "pl_host_port ?cp = 19000" by (simp add: to_plan_def)
  from assms(12) [OF this \<open>bound v\<close>] obtain e w3 where "create_and_start env ?cp v = (Inl e, w3)" by (metis prod.collapse)
  with v show "\<exists>e s3 w3. load_deployment_group env d s1 w2 = Some (Inl e, s3, w3)"
    by (auto simp: load_deployment_group_def assms(13) Let_def split_def split: option.split)
qed

text \<open>On the in-memory client every start is refused while a start error is set.\<close>

interpretation fake_group_ports: group_port_host fake_env fh_ports fh_prefill_ports
proof (rule group_port_host.intro [OF fake_ports.port_host_axioms], rule group_port_host_axioms.intro)
  have "fh_prefill_ports (snd (dk_pull (re_docker fake_env) c img w)) = fh_prefill_ports w"
    "fh_prefill_ports (snd (dk_create (re_docker fake_env) c spec w)) = fh_prefill_ports w"
    "fh_prefill_ports (snd (dk_start (re_docker fake_env) c cid w)) = fh_prefill_ports w"
    "fh_prefill_ports (snd (dk_stop (re_docker fake_env) c cid n w)) = fh_prefill_ports w"
    "fh_prefill_ports (snd (dk_remove (re_docker fake_env) c cid w)) = fh_prefill_ports w"
    "fh_prefill_ports (snd (dk_remove_image (re_docker fake_env) c img w)) = fh_prefill_ports w"
    "fh_prefill_ports (snd (dk_remove_by_name (re_docker fake_env) c nm w)) = fh_prefill_ports w" for c img spec cid n nm w
    by (auto simp: fake_ops_defs fake_state_defs Let_def split_def split: option.splits)
  moreover have "fh_prefill_ports (snd (re_probe fake_env u w)) = fh_prefill_ports w"
    "fh_prefill_ports (snd (re_poll fake_env w)) = fh_prefill_ports w"
    "fh_prefill_ports (snd (re_post fake_env u b w)) = fh_prefill_ports w" for u b w
    by (auto simp: fake_host_defs split: list.splits)
  ultimately show "host_keeps fake_env (\<lambda>w. fh_prefill_ports w = x)" for x by unfold_locales simp_all
qed (simp_all add: fake_env_def Let_def split_def)

lemma fake_create_errors: "fk_errors (snd (fake_create c spec v)) = fk_errors v"
  by (simp add: fake_create_def log_call_def Let_def split: option.split)

lemma refused_start: "fe_start (fk_errors v) = Some e \<Longrightarrow> \<exists>e. fst (create_and_start fake_env q v) = Inl e"
  by (auto simp: create_and_start_def fake_start_def fake_create_errors split_def split: sum.split)

theorem single_port_blocks_group_witness:
  "\<exists>s1 w1 w2 e s3 w3. load_model fake_env ''d'' ((sample_plan 8000)\<lparr>pl_host_port := 0\<rparr>) new_runtime (new_fake_host [True]) =
      (Inr (endpoint_of fake_env 19000), s1, w1) \<and> fh_prefill_ports w2 = fh_prefill_ports w1 \<and>
     load_deployment_group fake_env (sample_group ''g'') s1 w2 = Some (Inl e, s3, w3)"
proof -
  let ?p = "(sample_plan 8000)\<lparr>pl_host_port := 0\<rparr>" and ?w = "new_fake_host [True]"
  let ?q = "?p\<lparr>pl_host_port := 19000\<rparr>"
  define c where "c = \<lparr>ro_pull_timeout = 0, ro_readiness_timeout = 0, ro_poll_interval = 0, ro_advertise_host = [],
    ro_port_range = (0, 0), ro_prefill_range = (0, 0), ro_decode_range = (0, 0)\<rparr>"
  obtain a s where g: "get_or_create ''d'' new_runtime = (a, s)" by fastforce
  then have abs: "status_of s ''d'' = StateAbsent"
    by (auto simp: get_or_create_def new_runtime_def status_of_def entry_def new_deployment_def Let_def)
  have ports: "fh_ports ?w = drawn 19000 19999 0" "fh_prefill_ports ?w = new_port_allocator 19000 19499"
    by (simp_all add: new_fake_host_def fake_client.defs drawn_0)
  obtain s1 w1 where l: "load_model fake_env ''d'' ?p new_runtime ?w = (Inr (endpoint_of fake_env 19000), s1, w1)"
  proof -
    obtain spec where "build_container_spec (sample_plan 8000) ''inferia-models'' = Inr spec" using sample_plan_spec by blast
    then have "build_container_spec ?q ''inferia-models'' \<noteq> Inl e" for e
      by (auto simp: build_container_spec_def sample_plan_def split: if_splits)
    then obtain spec where spec: "build_container_spec ?q ''inferia-models'' = Inr spec"
      by (cases "build_container_spec ?q ''inferia-models''") auto
    let ?v = "?w\<lparr>fh_ports := drawn 19000 19999 1\<rparr>"
    have "\<exists>s1 w1. load_locked fake_env ''d'' ?q a s ?v = (Inr (endpoint_of fake_env (pl_host_port ?q)), s1, w1)"
      by (rule plan_runs [OF abs _ _ _ _ spec]) (simp_all add: env_value_def)
    then obtain s1 w1 where "load_pull fake_env ''d'' ?q a s ?v = (Inr (endpoint_of fake_env 19000), s1, w1)"
      using abs by (auto simp: load_locked_def)
    moreover have "re_port fake_env ?w = (Inr 19000, ?v)"
      by (simp add: fake_env_def ports(1) port_next_drawn Let_def)
    ultimately show ?thesis using that abs g by (simp add: load_model_def load_locked_def)
  qed
  define w2 where "w2 = w1\<lparr>fk_errors := (fk_errors w1)\<lparr>fe_start := Some (Errorf ''port is already allocated'' [])\<rparr>\<rparr>"
  have dp: "draws_port ?p new_runtime ''d''" by (simp add: draws_port_def status_of_def entry_def new_runtime_def)
  have "endpoint_of fake_env 19000 = endpoint_of fake_env 19000 \<and>
      (\<exists>e s3 w3. load_deployment_group fake_env (sample_group ''g'') s1 w2 = Some (Inl e, s3, w3))"
  proof (rule single_port_blocks_group [OF fake_group_ports.group_port_host_axioms, of c ?w, OF _ _ _ _ l dp,
        where bound = "\<lambda>v. fe_start (fk_errors v) \<noteq> None" and ?w2.0 = w2 and d = "sample_group ''g''" and img = "''i''"])
    show "dp_prefill (sample_group ''g'') = hd (dp_prefill (sample_group ''g'')) # []" by (simp add: sample_group_def)
    show "\<exists>e. fst (create_and_start fake_env q v) = Inl e" if "fe_start (fk_errors v) \<noteq> None" for q v
      using that refused_start by blast
  qed (auto simp: c_def ports drawn_0 default_options_def w2_def sample_group_def fake_pull_def log_call_def fake_env_def Let_def split_def
      split: option.splits)
  moreover have "fh_prefill_ports w2 = fh_prefill_ports w1" by (simp add: w2_def)
  ultimately show ?thesis using l by blast
qed

end
