(* ===== verification/Serving_Table.thy ===== *)
theory Serving_Table imports Isolation begin

text \<open>
  What the runtime (internal/runtime/runtime.go) is to those who ask it: a table from deployments to the
  endpoints they are served at. The operations on objects, entries and states implement the updates of
  that table, and a history of operations is told from their results alone.
\<close>

section \<open>The abstract table\<close>

definition serving :: "runtime \<Rightarrow> (string \<rightharpoonup> string)" where
  "serving s dep =
     (if status_of s dep = StateRunning \<and> endpoint_url s dep \<noteq> [] then Some (endpoint_url s dep) else None)"

text \<open>An operation with the outcome its caller saw.\<close>

datatype outcome =
    Loaded string string
  | LoadFailed string
  | Unloaded string
  | Untouched

fun table_step :: "outcome \<Rightarrow> (string \<rightharpoonup> string) \<Rightarrow> (string \<rightharpoonup> string)" where
  "table_step (Loaded dep ep) t = t(dep \<mapsto> ep)"
| "table_step (LoadFailed dep) t = t(dep := None)"
| "table_step (Unloaded dep) t = t(dep := None)"
| "table_step Untouched t = t"

definition load_outcome :: "string \<Rightarrow> go_error + string \<Rightarrow> outcome" where
  "load_outcome dep r = (case r of Inl e \<Rightarrow> LoadFailed dep | Inr ep \<Rightarrow> Loaded dep ep)"

section \<open>One operation\<close>

lemma serving_entry: "entry s' j = entry s j \<Longrightarrow> serving s' j = serving s j"
  by (simp add: serving_def status_of_def endpoint_url_def)

lemma serving_unknown: "rt_deployments s dep = None \<Longrightarrow> serving s dep = None"
  by (simp add: serving_def status_of_def entry_def)

lemma serving_update:
  assumes "\<And>j. j \<noteq> dep \<Longrightarrow> entry s' j = entry s j" and "serving s' dep = v"
  shows "serving s' = (serving s)(dep := v)"
proof
  fix j
  show "serving s' j = ((serving s)(dep := v)) j"
    using serving_entry [OF assms(1)] assms(2) by (cases "j = dep") simp_all
qed

lemma load_serving:
  assumes "own_objects s" and "load_model env dep p s w = (r, s', w')"
  shows "serving s' = table_step (load_outcome dep r) (serving s)"
proof -
  obtain a s1 where g: "get_or_create dep s = (a, s1)" by fastforce
  with assms(2) have l: "load_locked env dep p a s1 w = (r, s', w')" by (simp add: load_model_def)
  note e = get_or_create_entry [OF g]
  have others: "entry s' j = entry s j" if "j \<noteq> dep" for j
    using load_model_own [OF assms(1), of env dep p w] assms(2) that by simp
  show ?thesis
  proof (cases r)
    case (Inr ep)
    with l e load_locked_success [of env dep p a s1 w ep s' w'] have "serving s' dep = Some ep"
      by (auto simp: serving_def running_at_def)
    with serving_update [OF others] Inr show ?thesis by (simp add: load_outcome_def)
  next
    case (Inl err)
    have "serving s' dep = None"
    proof (cases "no_port env p w")
      case True
      with load_locked_failure [of env dep p a s1 w err s' w'] l Inl have "s' = s1" by simp
      moreover from l Inl have "\<not> (status_of s1 dep = StateRunning \<and> endpoint_url s1 dep \<noteq> [])"
        by (auto simp: load_locked_def split: if_splits)
      ultimately show ?thesis by (auto simp: serving_def)
    next
      case False
      with load_locked_failure [of env dep p a s1 w err s' w'] l Inl show ?thesis by (simp add: serving_unknown)
    qed
    with serving_update [OF others] Inl show ?thesis by (simp add: load_outcome_def)
  qed
qed

lemma unload_serving:
  assumes "own_objects s" and "unload_model env dep s w = (e, s', w')"
  shows "serving s' = table_step (Unloaded dep) (serving s)"
proof -
  have others: "entry s' j = entry s j" if "j \<noteq> dep" for j
    using unload_model_own [OF assms(1), of env dep w] assms(2) that by simp
  have "serving s' dep = None"
  proof (cases "rt_deployments s dep")
    case None
    with assms(2) show ?thesis by (simp add: unload_model_def serving_unknown)
  next
    case (Some a)
    define t where "t = set_state (re_now env w) dep StateStopping s"
    have "status_of t dep = StateStopping"
      using Some by (simp add: t_def set_state_def on_entry_def upd_obj_def status_of_def entry_def)
    moreover have "s' = t \<or> s' = drop_entry dep t"
      using assms(2) Some by (auto simp: unload_model_def unload_locked_def t_def Let_def split_def split: if_splits option.splits)
    moreover have "serving (drop_entry dep t) dep = None" by (simp add: serving_unknown)
    moreover have "serving t dep = None" using calculation(1) by (simp add: serving_def)
    ultimately show ?thesis by auto
  qed
  with serving_update [OF others] show ?thesis by simp
qed

lemma groups_serving: "serving (s\<lparr>rt_groups := g\<rparr>) = serving s"
  by (simp add: fun_eq_iff serving_def status_of_def endpoint_url_def group_own(2))

lemma on_entry_progress_serving: "serving (on_entry dep (rd_prog_update f) s) = serving s"
  by (auto simp: fun_eq_iff serving_def status_of_def endpoint_url_def entry_def on_entry_def upd_obj_def split: option.split)

lemma subscribe_serving: "serving (snd (subscribe_progress dep s)) = serving s"
  by (auto simp: subscribe_progress_def split_def Let_def on_entry_progress_serving split: option.split)

section \<open>Histories\<close>

text \<open>A history with the outcomes of its operations, on a host that may change in between.\<close>

inductive served_history :: "'w rt_env \<Rightarrow> outcome list \<Rightarrow> runtime \<Rightarrow> bool" for env where
  boot: "served_history env [] new_runtime"
| load: "served_history env os s \<Longrightarrow> load_model env dep p s w = (r, s', w') \<Longrightarrow>
    served_history env (os @ [load_outcome dep r]) s'"
| unload: "served_history env os s \<Longrightarrow> unload_model env dep s w = (e, s', w') \<Longrightarrow>
    served_history env (os @ [Unloaded dep]) s'"
| load_group: "served_history env os s \<Longrightarrow> load_deployment_group env d s w = Some (g, s', w') \<Longrightarrow>
    served_history env (os @ [Untouched]) s'"
| unload_group: "served_history env os s \<Longrightarrow> unload_deployment_group env dep s w = (e, s', w') \<Longrightarrow>
    served_history env (os @ [Untouched]) s'"
| progress: "served_history env os s \<Longrightarrow> served_history env (os @ [Untouched]) (append_progress dep line s)"
| follow: "served_history env os s \<Longrightarrow> served_history env (os @ [Untouched]) (snd (subscribe_progress dep s))"

lemma history_reach: "served_history env os s \<Longrightarrow> runtime_reach env s"
proof (induction rule: served_history.induct)
  case (load os s dep p w r s' w')
  with runtime_reach.load [OF load.IH, of dep p w] show ?case by simp
next
  case (unload os s dep w e s' w')
  with runtime_reach.unload [OF unload.IH, of dep w] show ?case by simp
next
  case (unload_group os s dep w e s' w')
  with runtime_reach.unload_group [OF unload_group.IH, of dep w] show ?case by simp
qed (auto intro: runtime_reach.intros)

text \<open>
  C24 (refinement). The runtime implements a table: after any history the endpoint a deployment is served
  at is what updating an empty table with the outcomes of the operations gives, a load that returned an
  endpoint setting it, one that failed and an unload, even one that failed, clearing it, and nothing else
  changing it. A load of a served deployment returns its endpoint and leaves the runtime and host alone.
\<close>

theorem runtime_implements_table:
  assumes "served_history env os s"
  shows "serving s = fold table_step os Map.empty \<and>
    (\<forall>dep ep p w. serving s dep = Some ep \<longrightarrow> load_model env dep p s w = (Inr ep, s, w))"
proof -
  have "serving s = fold table_step os Map.empty"
    using assms
  proof (induction rule: served_history.induct)
    case boot
    show ?case by (simp add: fun_eq_iff serving_unknown new_runtime_def)
  next
    case (load os s dep p w r s' w')
    from load_serving [OF reach_own [OF history_reach [OF load.hyps(1)]] load.hyps(2)] load.IH show ?case by simp
  next
    case (unload os s dep w e s' w')
    from unload_serving [OF reach_own [OF history_reach [OF unload.hyps(1)]] unload.hyps(2)] unload.IH show ?case by simp
  next
    case (load_group os s d w g s' w')
    from group_load_entries [OF load_group.hyps(2)] load_group.IH show ?case by (auto simp: groups_serving)
  next
    case (unload_group os s dep w e s' w')
    from group_unload_entries [of env dep s w] unload_group show ?case by (auto simp: groups_serving)
  qed (simp_all add: append_progress_def on_entry_progress_serving subscribe_serving)
  moreover have "load_model env dep p s w = (Inr ep, s, w)" if "serving s dep = Some ep" for dep ep p w
  proof -
    from that have r: "status_of s dep = StateRunning" "endpoint_url s dep \<noteq> []" "endpoint_url s dep = ep"
      by (auto simp: serving_def split: if_splits)
    then obtain a where "rt_deployments s dep = Some a" by (auto simp: status_of_def entry_def split: option.splits)
    with r show ?thesis by (simp add: load_model_def load_locked_def get_or_create_def)
  qed
  ultimately show ?thesis by blast
qed

theorem runtime_implements_table_witness:
  "\<exists>s. served_history fake_env [Loaded ''d'' (endpoint_of fake_env 19000), Unloaded ''d'', Untouched] s \<and> serving s = Map.empty"
proof -
  obtain a s1 where g: "get_or_create ''d'' new_runtime = (a, s1)" by fastforce
  then have "status_of s1 ''d'' = StateAbsent"
    by (auto simp: get_or_create_def new_runtime_def status_of_def entry_def new_deployment_def Let_def)
  from good_plan_runs [OF this, of "new_fake_host [True]" a] g obtain s w where
    l: "load_model fake_env ''d'' (sample_plan 8000) new_runtime (new_fake_host [True]) = (Inr (endpoint_of fake_env 19000), s, w)"
    by (auto simp: load_model_def)
  obtain e s2 w2 where u: "unload_model fake_env ''d'' s w = (e, s2, w2)" by (metis prod.collapse)
  have "served_history fake_env ([] @ [load_outcome ''d'' (Inr (endpoint_of fake_env 19000))]) s"
    by (rule served_history.load [OF served_history.boot l])
  from served_history.progress [OF served_history.unload [OF this u], of "''d''" "''x''"]
  have h: "served_history fake_env [Loaded ''d'' (endpoint_of fake_env 19000), Unloaded ''d'', Untouched] (append_progress ''d'' ''x'' s2)"
    by (simp add: load_outcome_def)
  from runtime_implements_table [OF h] h show ?thesis by auto
qed

end
