(* ===== verification/Handlers.thy ===== *)
theory Handlers imports Channel_Runs "HOL-Library.Multiset" begin

text \<open>
  The handlers of the control channel as goroutines (internal/control/channel.go, \<open>readLoop\<close> and
  \<open>handle\<close>): each frame that is read gets a goroutine of its own, which starts, looks its command up,
  executes it and replies whenever it is scheduled. What holds under every schedule, and what a
  schedule can do to the order of the frames.
\<close>

section \<open>Goroutines\<close>

text \<open>
  Where a handler is: not started, executing a command it entered the window for at the given time, or
  about to write a reply. A frame is the goroutine's number, the connection, the id and the body.
\<close>

datatype job =
    Spawned nat nat string inbound
  | Executing int nat string inbound
  | Replying nat command_result_body

record 'w handlers =
  hn_channel :: "'w channel"
  hn_jobs :: "job list"
  hn_read :: "nat \<Rightarrow> string list"

datatype handler_event =
    HConnect nat
  | HDrop nat "nat list" "nat list"
  | HHeartbeat nat "((string \<rightharpoonup> string) \<times> metrics_sample option) option" "string list"
  | HRead nat nat string inbound
  | HStart int nat
  | HDone nat
  | HReply nat

definition remove_job :: "nat \<Rightarrow> job list \<Rightarrow> job list" where
  "remove_job i js = take i js @ drop (Suc i) js"

text \<open>\<open>readLoop\<close>: a frame is read from a live connection. The commands among them are recorded.\<close>

definition read_frame :: "nat \<Rightarrow> nat \<Rightarrow> string \<Rightarrow> inbound \<Rightarrow> 'w handlers \<Rightarrow> 'w handlers" where
  "read_frame n c eid msg h =
     (if c \<in> ch_live (hn_channel h)
      then h\<lparr>hn_jobs := hn_jobs h @ [Spawned n c eid msg],
             hn_read := (if is_command msg then (hn_read h)(c := hn_read h c @ [eid]) else hn_read h)\<rparr>
      else h)"

text \<open>A handler starts: a tunnel frame is done with, a command is looked up in the window.\<close>

definition start_job :: "int \<Rightarrow> nat \<Rightarrow> 'w handlers \<Rightarrow> 'w handlers" where
  "start_job now i h =
     (case (if i < length (hn_jobs h) then Some (hn_jobs h ! i) else None) of
        Some (Spawned n c eid msg) \<Rightarrow>
          (case msg of
             InTunnel f \<Rightarrow>
               h\<lparr>hn_jobs := remove_job i (hn_jobs h),
                 hn_channel := (case ch_current (hn_channel h) of
                    None \<Rightarrow> hn_channel h
                  | Some cur \<Rightarrow> (hn_channel h)\<lparr>ch_tunnels := (ch_tunnels (hn_channel h))
                      (cur := snd (tunnel_handle n f (ch_tunnels (hn_channel h) cur)))\<rparr>)\<rparr>
           | InOther _ \<Rightarrow> h\<lparr>hn_jobs := remove_job i (hn_jobs h)\<rparr>
           | InLoad None \<Rightarrow> h\<lparr>hn_jobs := (hn_jobs h)[i := Replying c (failed_result eid ''bad LoadModel body'')]\<rparr>
           | InUnload None \<Rightarrow> h\<lparr>hn_jobs := (hn_jobs h)[i := Replying c (failed_result eid ''bad UnloadModel body'')]\<rparr>
           | _ \<Rightarrow>
               (case (if eid = [] then None else dedup_find now eid (ch_dedup (hn_channel h))) of
                  Some r \<Rightarrow> h\<lparr>hn_jobs := (hn_jobs h)[i := Replying c r]\<rparr>
                | None \<Rightarrow> h\<lparr>hn_jobs := (hn_jobs h)[i := Executing now c eid msg]\<rparr>))
      | _ \<Rightarrow> h)"

text \<open>The command of a handler is executed and its result stored.\<close>

definition finish_job :: "'w rt_env \<Rightarrow> environment \<Rightarrow> dispatcher_config \<Rightarrow> nat \<Rightarrow> 'w handlers \<Rightarrow> 'w handlers" where
  "finish_job env getenv cfg i h =
     (case (if i < length (hn_jobs h) then Some (hn_jobs h ! i) else None) of
        Some (Executing now c eid msg) \<Rightarrow>
          (case command_fn env getenv cfg eid msg of
             None \<Rightarrow> h
           | Some fn \<Rightarrow>
               let ch = hn_channel h; (r, d, w) = fn (ch_disp ch, ch_world ch)
               in h\<lparr>hn_jobs := (hn_jobs h)[i := Replying c r],
                    hn_channel := ch\<lparr>ch_dedup := (if eid = [] then ch_dedup ch else dedup_store now eid r (ch_dedup ch)),
                      ch_disp := d, ch_world := w\<rparr>\<rparr>)
      | _ \<Rightarrow> h)"

definition reply_job :: "nat \<Rightarrow> 'w handlers \<Rightarrow> 'w handlers" where
  "reply_job i h =
     (case (if i < length (hn_jobs h) then Some (hn_jobs h ! i) else None) of
        Some (Replying c r) \<Rightarrow> h\<lparr>hn_jobs := remove_job i (hn_jobs h), hn_channel := reply_with c r (hn_channel h)\<rparr>
      | _ \<Rightarrow> h)"

fun handler_step :: "'w rt_env \<Rightarrow> environment \<Rightarrow> dispatcher_config \<Rightarrow> runtime_facts \<Rightarrow> handler_event \<Rightarrow> 'w handlers \<Rightarrow> 'w handlers" where
  "handler_step env getenv cfg facts (HConnect c) h = h\<lparr>hn_channel := connect facts c (hn_channel h)\<rparr>"
| "handler_step env getenv cfg facts (HDrop c ss ls) h = h\<lparr>hn_channel := drop_connection c ss ls (hn_channel h)\<rparr>"
| "handler_step env getenv cfg facts (HHeartbeat c tele models) h = h\<lparr>hn_channel := snd (send_heartbeat tele models c (hn_channel h))\<rparr>"
| "handler_step env getenv cfg facts (HRead n c eid msg) h = read_frame n c eid msg h"
| "handler_step env getenv cfg facts (HStart now i) h = start_job now i h"
| "handler_step env getenv cfg facts (HDone i) h = finish_job env getenv cfg i h"
| "handler_step env getenv cfg facts (HReply i) h = reply_job i h"

definition handler_run :: "'w rt_env \<Rightarrow> environment \<Rightarrow> dispatcher_config \<Rightarrow> runtime_facts \<Rightarrow> handler_event list \<Rightarrow> 'w handlers \<Rightarrow> 'w handlers" where
  "handler_run env getenv cfg facts es h = fold (handler_step env getenv cfg facts) es h"

definition new_handlers :: "'w channel \<Rightarrow> 'w handlers" where
  "new_handlers ch = \<lparr>hn_channel = ch, hn_jobs = [], hn_read = (\<lambda>_. [])\<rparr>"

text \<open>The connections dialled by a list of events.\<close>

fun dialled :: "handler_event list \<Rightarrow> nat list" where
  "dialled [] = []"
| "dialled (HConnect c # es) = c # dialled es"
| "dialled (e # es) = dialled es"

section \<open>No reply is lost\<close>

text \<open>The command a goroutine still owes a reply to, on connection \<open>c\<close>.\<close>

fun owed :: "nat \<Rightarrow> job \<Rightarrow> string multiset" where
  "owed c (Spawned n c' eid msg) = (if c' = c \<and> is_command msg then {#eid#} else {#})"
| "owed c (Executing now c' eid msg) = (if c' = c then {#eid#} else {#})"
| "owed c (Replying c' r) = (if c' = c then {#cr_in_reply_to r#} else {#})"

fun job_connection :: "job \<Rightarrow> nat" where
  "job_connection (Spawned n c eid msg) = c"
| "job_connection (Executing now c eid msg) = c"
| "job_connection (Replying c r) = c"

fun job_sound :: "job \<Rightarrow> bool" where
  "job_sound (Executing now c eid msg) = (\<exists>b. msg = InLoad (Some b) \<or> (\<exists>u. msg = InUnload (Some u)))"
| "job_sound j = True"

definition owed_on :: "nat \<Rightarrow> job list \<Rightarrow> string multiset" where
  "owed_on c js = sum_list (map (owed c) js)"

lemma owed_on_simps [simp]: "owed_on c [] = {#}" "owed_on c (js @ ks) = owed_on c js + owed_on c ks"
  "owed_on c (j # js) = owed c j + owed_on c js"
  by (simp_all add: owed_on_def)

lemma owed_split: "i < length js \<Longrightarrow> owed_on c js = owed_on c (take i js) + (owed c (js ! i) + owed_on c (drop (Suc i) js))"
  using id_take_nth_drop [of i js] by (metis owed_on_simps(2,3))

lemma owed_remove: "i < length js \<Longrightarrow> owed_on c js = owed c (js ! i) + owed_on c (remove_job i js)"
  using owed_split [of i js c] by (simp add: remove_job_def ac_simps)

lemma owed_update: "i < length js \<Longrightarrow> owed c j = owed c (js ! i) \<Longrightarrow> owed_on c (js[i := j]) = owed_on c js"
  using owed_split [of i js c] by (simp add: upd_conv_take_nth_drop)

lemma set_remove_job: "set (remove_job i js) \<subseteq> set js"
  by (auto simp: remove_job_def dest: in_set_takeD in_set_dropD)

text \<open>What holds between two steps, with \<open>used\<close> the connections dialled so far.\<close>

definition balanced :: "nat set \<Rightarrow> 'w handlers \<Rightarrow> bool" where
  "balanced used h \<longleftrightarrow>
     addressed (ch_dedup (hn_channel h)) \<and> ch_live (hn_channel h) \<subseteq> used \<and>
     (\<forall>j\<in>set (hn_jobs h). job_sound j \<and> job_connection j \<in> used) \<and> (\<forall>c. c \<notin> used \<longrightarrow> hn_read h c = []) \<and>
     (\<forall>c\<in>ch_live (hn_channel h).
        mset (hn_read h c) = mset (replies_in (ch_wire (hn_channel h) c)) + owed_on c (hn_jobs h))"

lemma owed_elsewhere: "\<forall>j\<in>set js. job_connection j \<noteq> c \<Longrightarrow> owed_on c js = {#}"
proof (induction js)
  case (Cons j js)
  then show ?case by (cases j) auto
qed simp

text \<open>A step that only turns goroutine \<open>i\<close> into one that owes the same.\<close>

lemma balanced_update:
  assumes "balanced used h" and "i < length (hn_jobs h)" and "\<And>c. owed c j = owed c (hn_jobs h ! i)"
    and "job_sound j" "job_connection j = job_connection (hn_jobs h ! i)"
    and "addressed (ch_dedup ch)" "ch_live ch = ch_live (hn_channel h)" "ch_wire ch = ch_wire (hn_channel h)"
  shows "balanced used (h\<lparr>hn_jobs := (hn_jobs h)[i := j], hn_channel := ch\<rparr>)"
proof -
  have "hn_jobs h ! i \<in> set (hn_jobs h)" using assms(2) by simp
  with assms(1,5) have "job_connection j \<in> used" by (auto simp: balanced_def)
  with assms show ?thesis
    by (auto simp: balanced_def owed_update dest: set_update_subset_insert [THEN subsetD])
qed

text \<open>A step that ends goroutine \<open>i\<close>, with the reply it owed on the wire if its connection lives.\<close>

lemma balanced_remove:
  assumes "balanced used h" and "i < length (hn_jobs h)"
    and "addressed (ch_dedup ch)" "ch_live ch = ch_live (hn_channel h)"
    and "\<And>c. c \<in> ch_live ch \<Longrightarrow>
      mset (replies_in (ch_wire ch c)) = mset (replies_in (ch_wire (hn_channel h) c)) + owed c (hn_jobs h ! i)"
  shows "balanced used (h\<lparr>hn_jobs := remove_job i (hn_jobs h), hn_channel := ch\<rparr>)"
  using assms set_remove_job [of i "hn_jobs h"]
  by (auto simp: balanced_def owed_remove [of i "hn_jobs h"])

lemma balanced_start:
  assumes "balanced used h"
  shows "balanced used (start_job now i h)"
proof (cases "\<exists>n c eid msg. i < length (hn_jobs h) \<and> hn_jobs h ! i = Spawned n c eid msg")
  case False
  then have "start_job now i h = h" by (auto simp: start_job_def split: job.split)
  with assms show ?thesis by simp
next
  case True
  then obtain n c eid msg where i: "i < length (hn_jobs h)" and j: "hn_jobs h ! i = Spawned n c eid msg" by blast
  have a: "addressed (ch_dedup (hn_channel h))" using assms by (simp add: balanced_def)
  have upd: "balanced used (h\<lparr>hn_jobs := (hn_jobs h)[i := k]\<rparr>)"
    if "\<And>x. owed x k = owed x (Spawned n c eid msg)" "job_sound k" "job_connection k = c" for k
    using balanced_update [OF assms i, of k "hn_channel h"] that j a by simp
  have look: "balanced used (case (if eid = [] then None else dedup_find now eid (ch_dedup (hn_channel h))) of
                  Some r \<Rightarrow> h\<lparr>hn_jobs := (hn_jobs h)[i := Replying c r]\<rparr>
                | None \<Rightarrow> h\<lparr>hn_jobs := (hn_jobs h)[i := Executing now c eid msg]\<rparr>)"
    if "is_command msg" "job_sound (Executing now c eid msg)"
  proof -
    have "cr_in_reply_to r = eid" if "dedup_find now eid (ch_dedup (hn_channel h)) = Some r" for r
      using that a by (auto simp: dedup_find_def addressed_def split: option.splits if_splits)
    with that show ?thesis by (auto intro!: upd split: option.split)
  qed
  show ?thesis
  proof (cases msg)
    case (InTunnel f)
    let ?ch = "case ch_current (hn_channel h) of None \<Rightarrow> hn_channel h
                  | Some cur \<Rightarrow> (hn_channel h)\<lparr>ch_tunnels := (ch_tunnels (hn_channel h))
                      (cur := snd (tunnel_handle n f (ch_tunnels (hn_channel h) cur)))\<rparr>"
    have "balanced used (h\<lparr>hn_jobs := remove_job i (hn_jobs h), hn_channel := ?ch\<rparr>)"
      using a j InTunnel by (intro balanced_remove [OF assms i]) (auto split: option.split)
    with InTunnel i j show ?thesis by (simp add: start_job_def)
  next
    case (InOther t)
    from balanced_remove [OF assms i, of "hn_channel h"] a j InOther
    have "balanced used (h\<lparr>hn_jobs := remove_job i (hn_jobs h)\<rparr>)" by simp
    with InOther i j show ?thesis by (simp add: start_job_def)
  next
    case (InLoad b)
    show ?thesis
    proof (cases b)
      case None
      with InLoad i j upd show ?thesis by (simp add: start_job_def failed_result_def)
    next
      case (Some body)
      with InLoad i j look [unfolded InLoad Some] show ?thesis by (cases "eid = []") (simp_all add: start_job_def)
    qed
  next
    case (InUnload b)
    show ?thesis
    proof (cases b)
      case None
      with InUnload i j upd show ?thesis by (simp add: start_job_def failed_result_def)
    next
      case (Some body)
      with InUnload i j look [unfolded InUnload Some] show ?thesis by (cases "eid = []") (simp_all add: start_job_def)
    qed
  qed
qed

lemma command_fn_addressed:
  "command_fn env getenv cfg eid msg = Some fn \<Longrightarrow> cr_in_reply_to (fst (fn s)) = eid"
  by (auto simp: command_fn_def load_command_addressed unload_command_addressed split: inbound.splits option.splits)

lemma balanced_finish:
  assumes "balanced used h"
  shows "balanced used (finish_job env getenv cfg i h)"
proof (cases "\<exists>now c eid msg fn. i < length (hn_jobs h) \<and> hn_jobs h ! i = Executing now c eid msg \<and>
    command_fn env getenv cfg eid msg = Some fn")
  case False
  then have "finish_job env getenv cfg i h = h" by (auto simp: finish_job_def split: job.split option.split)
  with assms show ?thesis by simp
next
  case True
  then obtain now c eid msg fn where i: "i < length (hn_jobs h)" and j: "hn_jobs h ! i = Executing now c eid msg"
    and fn: "command_fn env getenv cfg eid msg = Some fn" by blast
  let ?ch = "hn_channel h"
  obtain r d w where r: "fn (ch_disp ?ch, ch_world ?ch) = (r, d, w)" by (metis prod.collapse)
  with command_fn_addressed [OF fn, of "(ch_disp ?ch, ch_world ?ch)"] have reply: "cr_in_reply_to r = eid" by simp
  have "addressed (ch_dedup ?ch)" using assms by (simp add: balanced_def)
  then have "balanced used (h\<lparr>hn_jobs := (hn_jobs h)[i := Replying c r], hn_channel := ?ch\<lparr>
        ch_dedup := (if eid = [] then ch_dedup ?ch else dedup_store now eid r (ch_dedup ?ch)), ch_disp := d, ch_world := w\<rparr>\<rparr>)"
    using reply j by (intro balanced_update [OF assms i]) (auto simp: store_addressed)
  with i j fn r show ?thesis by (simp add: finish_job_def Let_def)
qed

lemma balanced_reply:
  assumes "balanced used h"
  shows "balanced used (reply_job i h)"
proof (cases "\<exists>c r. i < length (hn_jobs h) \<and> hn_jobs h ! i = Replying c r")
  case False
  then have "reply_job i h = h" by (auto simp: reply_job_def split: job.split)
  with assms show ?thesis by simp
next
  case True
  then obtain c r where i: "i < length (hn_jobs h)" and j: "hn_jobs h ! i = Replying c r" by blast
  have "addressed (ch_dedup (hn_channel h))" using assms by (simp add: balanced_def)
  then have "balanced used (h\<lparr>hn_jobs := remove_job i (hn_jobs h), hn_channel := reply_with c r (hn_channel h)\<rparr>)"
    using j by (intro balanced_remove [OF assms i]) (auto simp: frame_simps reply_with_def write_frame_def)
  with i j show ?thesis by (simp add: reply_job_def)
qed

lemma balanced_step:
  assumes "balanced used h" and "\<And>c. e = HConnect c \<Longrightarrow> c \<notin> used"
  shows "balanced (used \<union> set (dialled [e])) (handler_step env getenv cfg facts e h)"
proof (cases e)
  case (HConnect c)
  with assms(2) have c: "c \<notin> used" by simp
  with assms(1) have "hn_read h c = []" "owed_on c (hn_jobs h) = {#}"
    by (auto simp: balanced_def intro!: owed_elsewhere)
  with assms(1) c HConnect show ?thesis
    by (auto simp: balanced_def connect_def write_frame_def Let_def)
next
  case (HDrop c ss ls)
  with assms(1) show ?thesis by (auto simp: balanced_def drop_connection_def)
next
  case (HHeartbeat c tele models)
  with assms(1) show ?thesis by (auto simp: balanced_def send_heartbeat_def write_frame_def)
next
  case (HRead n c eid msg)
  with assms(1) show ?thesis by (auto simp: balanced_def read_frame_def)
qed (use assms(1) in \<open>simp_all add: balanced_start balanced_finish balanced_reply\<close>)

lemma balanced_run:
  "balanced used h \<Longrightarrow> distinct (dialled es) \<Longrightarrow> set (dialled es) \<inter> used = {} \<Longrightarrow>
   balanced (used \<union> set (dialled es)) (handler_run env getenv cfg facts es h)"
proof (induction es arbitrary: used h)
  case (Cons e es)
  have d: "dialled (e # es) = dialled [e] @ dialled es" by (cases e) simp_all
  have "balanced (used \<union> set (dialled [e])) (handler_step env getenv cfg facts e h)"
    using Cons.prems d by (intro balanced_step) auto
  from Cons.IH [OF this] Cons.prems(2,3) show ?case by (auto simp: d Un_assoc handler_run_def)
qed (simp add: handler_run_def)

text \<open>
  C6 (invariant). However the handlers are scheduled, no reply is lost, doubled or misaddressed: on a
  live connection the commands that were read are, as a multiset, the replies written on it together with
  those still owed by running handlers. Once no handler runs, every command has exactly one reply.
\<close>

theorem no_reply_is_lost:
  assumes "distinct (dialled es)" and "c \<in> ch_live (hn_channel h)"
    and "h = handler_run env getenv cfg facts es (new_handlers (new_channel ttl d w))"
  shows "mset (hn_read h c) = mset (replies_in (ch_wire (hn_channel h) c)) + owed_on c (hn_jobs h) \<and>
    (hn_jobs h = [] \<longrightarrow> mset (replies_in (ch_wire (hn_channel h) c)) = mset (hn_read h c))"
proof -
  have "balanced {} (new_handlers (new_channel ttl d w))"
    by (simp add: balanced_def new_handlers_def) (simp add: new_channel_def)
  from balanced_run [OF this assms(1), of env getenv cfg facts] assms(2,3)
  have "mset (hn_read h c) = mset (replies_in (ch_wire (hn_channel h) c)) + owed_on c (hn_jobs h)"
    by (simp add: balanced_def)
  then show ?thesis by simp
qed

theorem no_reply_is_lost_witness:
  "\<exists>h. h = handler_run fake_env (\<lambda>_. []) sample_config sample_facts
        [HConnect 0, HRead 0 0 ''e1'' (InUnload (Some \<lparr>um_deployment_id = ''d''\<rparr>)), HRead 1 0 ''e2'' (InLoad None),
         HStart 5 1, HStart 6 0, HReply 1, HDone 0, HReply 0] (new_handlers (new_channel 0 idle_dispatcher (new_fake_host []))) \<and>
     hn_read h 0 = [''e1'', ''e2''] \<and> mset (replies_in (ch_wire (hn_channel h) 0)) = {#''e1'', ''e2''#} - owed_on 0 (hn_jobs h)"
proof -
  define es where "es = [HConnect 0, HRead 0 0 ''e1'' (InUnload (Some \<lparr>um_deployment_id = ''d''\<rparr>)), HRead 1 0 ''e2'' (InLoad None),
         HStart 5 1, HStart 6 0, HReply 1, HDone 0, HReply 0]"
  define h where "h = handler_run fake_env (\<lambda>_. []) sample_config sample_facts es
    (new_handlers (new_channel 0 idle_dispatcher (new_fake_host [])))"
  have keep: "hn_read (start_job now i k) = hn_read k" "hn_read (finish_job fake_env g cf i k) = hn_read k" "hn_read (reply_job i k) = hn_read k"
    "ch_live (hn_channel (start_job now i k)) = ch_live (hn_channel k)"
    "ch_live (hn_channel (finish_job fake_env g cf i k)) = ch_live (hn_channel k)"
    "ch_live (hn_channel (reply_job i k)) = ch_live (hn_channel k)" for now i g cf and k :: "fake_host handlers"
    by (auto simp: start_job_def finish_job_def reply_job_def reply_with_def write_frame_def Let_def split_def
        split: job.split inbound.split option.split)
  have "hn_read h 0 = [''e1'', ''e2'']" "0 \<in> ch_live (hn_channel h)"
    by (simp_all add: h_def es_def handler_run_def keep read_frame_def new_handlers_def connect_def write_frame_def Let_def)
  moreover have "distinct (dialled es)" by (simp add: es_def)
  ultimately have "{#''e1'', ''e2''#} = mset (replies_in (ch_wire (hn_channel h) 0)) + owed_on 0 (hn_jobs h)"
    using no_reply_is_lost [OF _ _ h_def, of 0] by simp
  then have "mset (replies_in (ch_wire (hn_channel h) 0)) = {#''e1'', ''e2''#} - owed_on 0 (hn_jobs h)"
    by (metis add_diff_cancel_right')
  with \<open>hn_read h 0 = _\<close> h_def [unfolded es_def] show ?thesis by blast
qed

section \<open>No order is kept\<close>

text \<open>A handler that runs from its start to its end with no other between does what \<open>channel_handle\<close> says.\<close>

definition idle_job :: "job \<Rightarrow> bool" where
  "idle_job j \<longleftrightarrow> (\<exists>n c eid msg. j = Spawned n c eid msg)"

lemma handle_alone:
  assumes "\<forall>j\<in>set (hn_jobs h). idle_job j" and "i < length (hn_jobs h)" and "hn_jobs h ! i = Spawned n c eid msg"
  shows "handler_run env getenv cfg facts [HStart now i, HDone i, HReply i] h =
    h\<lparr>hn_jobs := remove_job i (hn_jobs h), hn_channel := channel_handle env getenv cfg now n c eid msg (hn_channel h)\<rparr>"
proof -
  have idle: "finish_job env getenv cfg i k = k" "reply_job i k = k"
    if "\<forall>j\<in>set (hn_jobs k). idle_job j" for k :: "'a handlers"
    using that by (auto simp: finish_job_def reply_job_def idle_job_def dest!: nth_mem)
  have gone: "\<forall>j\<in>set (remove_job i (hn_jobs h)). idle_job j" using assms(1) set_remove_job by blast
  have upd: "remove_job i ((hn_jobs h)[i := j]) = remove_job i (hn_jobs h)" for j
    by (simp add: remove_job_def)
  have reply: "reply_job i (h\<lparr>hn_jobs := (hn_jobs h)[i := Replying c r], hn_channel := ch\<rparr>) =
      h\<lparr>hn_jobs := remove_job i (hn_jobs h), hn_channel := reply_with c r ch\<rparr>" for r and ch :: "'a channel"
    using assms(2) by (simp add: reply_job_def upd)
  have failed: "handler_run env getenv cfg facts [HStart now i, HDone i, HReply i] h =
      h\<lparr>hn_jobs := remove_job i (hn_jobs h), hn_channel := reply_with c r (hn_channel h)\<rparr>"
    if "start_job now i h = h\<lparr>hn_jobs := (hn_jobs h)[i := Replying c r]\<rparr>" for r
    using that reply [where r = r and ch = "hn_channel h"] assms(2) by (simp add: handler_run_def finish_job_def)
  have run: "handler_run env getenv cfg facts [HStart now i, HDone i, HReply i] h =
      h\<lparr>hn_jobs := remove_job i (hn_jobs h), hn_channel := run_command now eid fn c (hn_channel h)\<rparr>"
    if fn: "command_fn env getenv cfg eid msg = Some fn" and start: "start_job now i h =
      (case (if eid = [] then None else dedup_find now eid (ch_dedup (hn_channel h))) of
         Some r \<Rightarrow> h\<lparr>hn_jobs := (hn_jobs h)[i := Replying c r]\<rparr>
       | None \<Rightarrow> h\<lparr>hn_jobs := (hn_jobs h)[i := Executing now c eid msg]\<rparr>)" for fn
  proof (cases "if eid = [] then None else dedup_find now eid (ch_dedup (hn_channel h))")
    case (Some r)
    with start have "start_job now i h = h\<lparr>hn_jobs := (hn_jobs h)[i := Replying c r]\<rparr>" by simp
    from failed [OF this] Some show ?thesis
      by (auto simp: run_command_def dedup_run_def Let_def split: if_splits)
  next
    case None
    obtain r d w where r: "fn (ch_disp (hn_channel h), ch_world (hn_channel h)) = (r, d, w)" by (metis prod.collapse)
    from None start have "start_job now i h = h\<lparr>hn_jobs := (hn_jobs h)[i := Executing now c eid msg]\<rparr>" by simp
    then show ?thesis
      using reply [where r = r] None r fn assms(2)
      by (auto simp: handler_run_def finish_job_def run_command_def dedup_run_def Let_def split: if_splits)
  qed
  show ?thesis
  proof (cases msg)
    case (InTunnel f)
    with assms gone show ?thesis
      by (simp add: handler_run_def start_job_def channel_handle_def idle split: option.split)
  next
    case (InOther t)
    with assms gone show ?thesis by (simp add: handler_run_def start_job_def channel_handle_def idle)
  next
    case (InLoad b)
    show ?thesis
    proof (cases b)
      case None
      with InLoad assms show ?thesis by (subst failed) (auto simp: start_job_def channel_handle_def)
    next
      case (Some body)
      with InLoad assms show ?thesis
        by (subst run [of "load_command env getenv cfg eid body"])
          (auto simp: start_job_def channel_handle_def command_fn_def)
    qed
  next
    case (InUnload b)
    show ?thesis
    proof (cases b)
      case None
      with InUnload assms show ?thesis by (subst failed) (auto simp: start_job_def channel_handle_def)
    next
      case (Some body)
      with InUnload assms show ?thesis
        by (subst run [of "unload_command env eid body"])
          (auto simp: start_job_def channel_handle_def command_fn_def)
    qed
  qed
qed

text \<open>Frames with the time each is handled at: how they are read, and what handling one alone does.\<close>

type_synonym timed_frame = "int \<times> nat \<times> string \<times> inbound"

fun reading :: "nat \<Rightarrow> timed_frame \<Rightarrow> handler_event" where
  "reading c (now, n, eid, msg) = HRead n c eid msg"

fun spawned :: "nat \<Rightarrow> timed_frame \<Rightarrow> job" where
  "spawned c (now, n, eid, msg) = Spawned n c eid msg"

fun handling :: "'w rt_env \<Rightarrow> environment \<Rightarrow> dispatcher_config \<Rightarrow> nat \<Rightarrow> timed_frame \<Rightarrow> 'w channel \<Rightarrow> 'w channel" where
  "handling env getenv cfg c (now, n, eid, msg) ch = channel_handle env getenv cfg now n c eid msg ch"

fun scheduling :: "handler_event \<Rightarrow> bool" where
  "scheduling (HStart now i) = True"
| "scheduling (HDone i) = True"
| "scheduling (HReply i) = True"
| "scheduling e = False"

lemma handler_run_append: "handler_run env getenv cfg facts (es @ fs) h =
    handler_run env getenv cfg facts fs (handler_run env getenv cfg facts es h)"
  by (simp add: handler_run_def)

lemma read_frames:
  assumes "c \<in> ch_live (hn_channel h)"
  shows "hn_jobs (handler_run env getenv cfg facts (map (reading c) fs) h) = hn_jobs h @ map (spawned c) fs \<and>
    hn_channel (handler_run env getenv cfg facts (map (reading c) fs) h) = hn_channel h"
  using assms
proof (induction fs arbitrary: h)
  case (Cons f fs)
  obtain now n eid msg where f: "f = (now, n, eid, msg)" by (metis prod.exhaust)
  with Cons.prems have "hn_jobs (read_frame n c eid msg h) = hn_jobs h @ [Spawned n c eid msg]"
    "hn_channel (read_frame n c eid msg h) = hn_channel h" by (simp_all add: read_frame_def)
  with Cons.IH [of "read_frame n c eid msg h"] Cons.prems f show ?case by (simp add: handler_run_def)
qed (simp add: handler_run_def)

lemma idle_spawned: "set js \<subseteq> range (spawned c) \<Longrightarrow> \<forall>j\<in>set js. idle_job j"
  by (fastforce simp: idle_job_def)

lemma run_in_order:
  assumes "mset (hn_jobs h) = mset (map (spawned c) gs)"
  shows "\<exists>sched. list_all scheduling sched \<and> hn_jobs (handler_run env getenv cfg facts sched h) = [] \<and>
    hn_channel (handler_run env getenv cfg facts sched h) = fold (handling env getenv cfg c) gs (hn_channel h)"
  using assms
proof (induction gs arbitrary: h)
  case Nil
  then show ?case by (intro exI [of _ "[]"]) (simp add: handler_run_def)
next
  case (Cons g gs)
  obtain now n eid msg where g: "g = (now, n, eid, msg)" by (metis prod.exhaust)
  have "set (hn_jobs h) = set (map (spawned c) (g # gs))" using Cons.prems by (metis set_mset_mset)
  then have jobs: "set (hn_jobs h) \<subseteq> range (spawned c)" "spawned c g \<in> set (hn_jobs h)" by auto
  then obtain i where i: "i < length (hn_jobs h)" "hn_jobs h ! i = Spawned n c eid msg"
    by (auto simp: in_set_conv_nth g)
  let ?s = "[HStart now i, HDone i, HReply i]"
  let ?h = "h\<lparr>hn_jobs := remove_job i (hn_jobs h), hn_channel := handling env getenv cfg c g (hn_channel h)\<rparr>"
  have alone: "handler_run env getenv cfg facts ?s h = ?h"
    using handle_alone [OF idle_spawned [OF jobs(1)] i] by (simp add: g)
  have "mset (hn_jobs h) = {#spawned c g#} + mset (remove_job i (hn_jobs h))"
  proof -
    have "mset (hn_jobs h) = mset (take i (hn_jobs h) @ hn_jobs h ! i # drop (Suc i) (hn_jobs h))"
      using id_take_nth_drop [OF i(1)] by simp
    with i(2) show ?thesis by (simp add: remove_job_def g)
  qed
  with Cons.prems have "mset (hn_jobs ?h) = mset (map (spawned c) gs)" by simp
  from Cons.IH [OF this] obtain sched where s: "list_all scheduling sched"
    "hn_jobs (handler_run env getenv cfg facts sched ?h) = []"
    "hn_channel (handler_run env getenv cfg facts sched ?h) = fold (handling env getenv cfg c) gs (hn_channel ?h)" by blast
  have "handler_run env getenv cfg facts (?s @ sched) h = handler_run env getenv cfg facts sched ?h"
    by (simp only: handler_run_append alone)
  with s show ?case by (intro exI [of _ "?s @ sched"]) simp
qed

text \<open>
  (equivalence). The frames of a connection may be handled in any order: for every permutation of the
  frames that were read there is a schedule of their handlers after which the channel is exactly what
  handling them one after the other in that order makes of it. In particular an unload that was sent
  after a load can be executed before it.
\<close>

theorem handlers_run_in_any_order:
  assumes "c \<in> ch_live (hn_channel h)" and "hn_jobs h = []" and "mset gs = mset fs"
  shows "\<exists>sched. list_all scheduling sched \<and>
    hn_channel (handler_run env getenv cfg facts (map (reading c) fs @ sched) h) =
      fold (handling env getenv cfg c) gs (hn_channel h)"
proof -
  let ?h = "handler_run env getenv cfg facts (map (reading c) fs) h"
  have r: "hn_jobs ?h = map (spawned c) fs" "hn_channel ?h = hn_channel h"
    using read_frames [OF assms(1), of env getenv cfg facts fs] assms(2) by simp_all
  with assms(3) have "mset (hn_jobs ?h) = mset (map (spawned c) gs)" by simp
  from run_in_order [OF this, of env getenv cfg facts] r(2) show ?thesis by (auto simp: handler_run_append)
qed

theorem handlers_run_in_any_order_witness:
  "\<exists>sched. list_all scheduling sched \<and>
     hn_channel (handler_run fake_env (\<lambda>_. []) sample_config sample_facts
       (map (reading 0) [(0, 0, ''e1'', InLoad None), (0, 1, ''e2'', InUnload None)] @ sched)
       (new_handlers (connect sample_facts 0 (new_channel 0 idle_dispatcher (new_fake_host []))))) =
     fold (handling fake_env (\<lambda>_. []) sample_config 0) [(0, 1, ''e2'', InUnload None), (0, 0, ''e1'', InLoad None)]
       (connect sample_facts 0 (new_channel 0 idle_dispatcher (new_fake_host [])))"
  using handlers_run_in_any_order [of 0 "new_handlers (connect sample_facts 0 (new_channel 0 idle_dispatcher (new_fake_host [])))"
      "[(0, 1, ''e2'', InUnload None), (0, 0, ''e1'', InLoad None)]" "[(0, 0, ''e1'', InLoad None), (0, 1, ''e2'', InUnload None)]"]
  by (simp add: new_handlers_def connect_wire(2))

text \<open>The input of a shell, as frames.\<close>

definition typed :: "string \<Rightarrow> string \<Rightarrow> timed_frame" where
  "typed sid d = (0, 0, [], InTunnel (FShellInput (Some \<lparr>si_stream_id = sid, si_data = d\<rparr>)))"

lemma typed_input:
  assumes "ch_current ch = Some cur" and "tn_shells (ch_tunnels ch cur) sid = Some s"
  shows "ch_current (fold (handling env getenv cfg c) (map (typed sid) ds) ch) = Some cur \<and>
    tn_shells (ch_tunnels (fold (handling env getenv cfg c) (map (typed sid) ds) ch) cur) sid = Some s \<and>
    tn_calls (ch_tunnels (fold (handling env getenv cfg c) (map (typed sid) ds) ch) cur) =
      tn_calls (ch_tunnels ch cur) @ map (CallWrite s) ds"
  using assms
proof (induction ds arbitrary: ch)
  case (Cons d ds)
  let ?ch = "handling env getenv cfg c (typed sid d) ch"
  have "ch_current ?ch = Some cur" "tn_shells (ch_tunnels ?ch cur) sid = Some s"
    "tn_calls (ch_tunnels ?ch cur) = tn_calls (ch_tunnels ch cur) @ [CallWrite s d]"
    using Cons.prems by (simp_all add: typed_def channel_handle_def tunnel_handle_def shell_input_def call_session_def)
  with Cons.IH [of ?ch] show ?case by simp
qed simp

text \<open>
  C13 (safety). What an operator types may reach the shell in another order: input frames are handled
  in goroutines of their own, which nothing orders, so for every permutation of the frames read from a
  connection some schedule writes them to the session in that order.
\<close>

theorem keystrokes_may_be_reordered:
  assumes "c \<in> ch_live (hn_channel h)" and "hn_jobs h = []" and "ch_current (hn_channel h) = Some cur"
    and "tn_shells (ch_tunnels (hn_channel h) cur) sid = Some s" and "mset es = mset ds"
  shows "\<exists>sched. list_all scheduling sched \<and>
    tn_calls (ch_tunnels (hn_channel (handler_run env getenv cfg facts (map (reading c \<circ> typed sid) ds @ sched) h)) cur) =
      tn_calls (ch_tunnels (hn_channel h) cur) @ map (CallWrite s) es"
proof -
  have "mset (map (typed sid) es) = mset (map (typed sid) ds)" using assms(5) by simp
  from handlers_run_in_any_order [OF assms(1,2) this, of env getenv cfg facts] typed_input [OF assms(3,4), of env getenv cfg c es]
  show ?thesis by auto
qed

theorem keystrokes_may_be_reordered_witness:
  "\<exists>h sched. tn_calls (ch_tunnels (hn_channel (handler_run fake_env (\<lambda>_. []) sample_config sample_facts
       (map (reading 0 \<circ> typed ''s'') [''l'', ''s''] @ sched) h)) 0) = [CallWrite 7 ''s'', CallWrite 7 ''l'']"
proof -
  let ?ch = "connect sample_facts 0 (new_channel 0 idle_dispatcher (new_fake_host []))"
  define h where "h = new_handlers (?ch\<lparr>ch_tunnels := (\<lambda>_. new_tunnel\<lparr>tn_shells := [''s'' \<mapsto> 7]\<rparr>)\<rparr>)"
  have h: "0 \<in> ch_live (hn_channel h)" "hn_jobs h = []" "ch_current (hn_channel h) = Some 0"
    "tn_shells (ch_tunnels (hn_channel h) 0) ''s'' = Some 7" "tn_calls (ch_tunnels (hn_channel h) 0) = []"
    by (simp_all add: h_def new_handlers_def connect_def write_frame_def new_tunnel_def Let_def)
  from keystrokes_may_be_reordered [OF h(1-4), of "[''s'', ''l'']" "[''l'', ''s'']" fake_env "\<lambda>_. []" sample_config sample_facts]
  obtain sched where "tn_calls (ch_tunnels (hn_channel (handler_run fake_env (\<lambda>_. []) sample_config sample_facts
      (map (reading 0 \<circ> typed ''s'') [''l'', ''s''] @ sched) h)) 0) = [CallWrite 7 ''s'', CallWrite 7 ''l'']"
    by (simp only: h(5) append_Nil list.map mset.simps add_mset_commute) blast
  then show ?thesis by blast
qed

section \<open>Frames that come early\<close>

text \<open>Frames for a shell stream that is there already, as far as the sender knows.\<close>

fun frame_for :: "string \<Rightarrow> frame \<Rightarrow> bool" where
  "frame_for sid (FShellInput (Some b)) = (si_stream_id b = sid)"
| "frame_for sid (FShellResize (Some b)) = (sr_stream_id b = sid)"
| "frame_for sid (FShellClose (Some b)) = (sc_stream_id b = sid)"
| "frame_for sid f = False"

lemma early_frame:
  assumes "frame_for sid f" and "tn_shells t sid = None"
  shows "snd (tunnel_handle m f t) = t"
proof -
  have "(tn_shells t)(sid := None) = tn_shells t" using assms(2) by (simp add: fun_upd_idem)
  with assms show ?thesis
    by (auto simp: tunnel_handle_def shell_input_def shell_resize_def shell_close_def
        split: frame.splits option.splits elim!: frame_for.elims)
qed

text \<open>
  (safety). A shell stream does not exist for its own frames until its session has started: what is
  typed and the close sent meanwhile are dropped without a word. The session is then registered all
  the same, and stays, for want of a second close, until the connection ends.
\<close>

theorem close_during_open_is_lost:
  assumes "so_stream_id b \<noteq> []" and "\<not> tn_disposed t" and "tn_shells t (so_stream_id b) = None"
    and "list_all (frame_for (so_stream_id b)) fs"
    and "t1 = fold (\<lambda>f t. snd (tunnel_handle m f t)) fs (shell_open n b t)" and "t2 = open_done n (Inr s) t1"
  shows "t1 = shell_open n b t \<and> tn_shells t2 (so_stream_id b) = Some s \<and> tn_calls t2 = tn_calls t \<and> tn_sent t2 = tn_sent t"
proof -
  let ?t = "shell_open n b t"
  have "tn_shells ?t (so_stream_id b) = None" using assms(1-3) by (simp add: shell_open_def Let_def)
  then have "fold (\<lambda>f t. snd (tunnel_handle m f t)) fs ?t = ?t"
    using assms(4) by (induction fs) (simp_all add: early_frame [of "so_stream_id b"])
  with assms show ?thesis by (simp add: shell_open_def open_done_def shell_started_def Let_def)
qed

theorem close_during_open_is_lost_witness:
  "tn_shells (open_done 0 (Inr 7) (fold (\<lambda>f t. snd (tunnel_handle 1 f t)) [FShellClose (Some \<lparr>sc_stream_id = ''s''\<rparr>)]
      (shell_open 0 \<lparr>so_stream_id = ''s'', so_shell = [], so_user = [], so_deployment_id = [], so_container_id = [],
         so_cols = 80, so_rows = 24\<rparr> new_tunnel))) ''s'' = Some 7"
  (is "tn_shells (open_done 0 (Inr 7) (fold _ ?fs (shell_open 0 ?b _))) _ = _")
proof -
  have "so_stream_id ?b \<noteq> []" "\<not> tn_disposed new_tunnel" "tn_shells new_tunnel (so_stream_id ?b) = None"
    by (simp_all add: new_tunnel_def)
  moreover have "list_all (frame_for (so_stream_id ?b)) ?fs" by simp
  ultimately have "tn_shells (open_done 0 (Inr 7) (fold (\<lambda>f t. snd (tunnel_handle 1 f t)) ?fs (shell_open 0 ?b new_tunnel)))
      (so_stream_id ?b) = Some 7"
    using close_during_open_is_lost [OF _ _ _ _ refl refl, of ?b new_tunnel ?fs 1 0 7] by blast
  then show ?thesis by (simp only: shell_open_body.simps)
qed

section \<open>Handlers come to their end\<close>

fun job_rank :: "job \<Rightarrow> nat" where
  "job_rank (Spawned n c eid msg) = 3"
| "job_rank (Executing now c eid msg) = 2"
| "job_rank (Replying c r) = 1"

definition work_left :: "'w handlers \<Rightarrow> nat" where
  "work_left h = sum_list (map job_rank (hn_jobs h))"

lemma rank_remove: "i < length js \<Longrightarrow> sum_list (map job_rank js) = job_rank (js ! i) + sum_list (map job_rank (remove_job i js))"
  by (subst id_take_nth_drop [of i js]) (simp_all add: remove_job_def)

lemma rank_update: "i < length js \<Longrightarrow>
    sum_list (map job_rank (js[i := j])) + job_rank (js ! i) = sum_list (map job_rank js) + job_rank j"
  using rank_remove [of i js] rank_remove [of i "js[i := j]"] by (simp add: remove_job_def)

text \<open>The next step of the first goroutine, which always brings the work down.\<close>

fun next_step :: "int \<Rightarrow> job \<Rightarrow> handler_event" where
  "next_step now (Spawned n c eid msg) = HStart now 0"
| "next_step now (Executing t c eid msg) = HDone 0"
| "next_step now (Replying c r) = HReply 0"

lemma next_step_works:
  assumes "hn_jobs h = j # js" and "job_sound j"
  shows "work_left (handler_step env getenv cfg facts (next_step now j) h) < work_left h \<and> scheduling (next_step now j)"
proof -
  have i: "0 < length (hn_jobs h)" "hn_jobs h ! 0 = j" using assms(1) by simp_all
  have less: "work_left k < work_left h"
    if "hn_jobs k = remove_job 0 (hn_jobs h) \<or> (\<exists>m. hn_jobs k = (hn_jobs h)[0 := m] \<and> job_rank m < job_rank j)" for k :: "'a handlers"
    using that rank_remove [OF i(1)] rank_update [OF i(1)] i(2) by (cases j) (auto simp: work_left_def)
  show ?thesis
  proof (cases j)
    case (Spawned n c eid msg)
    have "hn_jobs (start_job now 0 h) = remove_job 0 (hn_jobs h) \<or>
      (\<exists>m. hn_jobs (start_job now 0 h) = (hn_jobs h)[0 := m] \<and> job_rank m < job_rank j)"
      using i Spawned by (auto simp: start_job_def split: inbound.split option.split)
    with less Spawned show ?thesis by simp
  next
    case (Executing t c eid msg)
    with assms(2) obtain fn where "command_fn env getenv cfg eid msg = Some fn" by (auto simp: command_fn_def)
    then have "\<exists>m. hn_jobs (finish_job env getenv cfg 0 h) = (hn_jobs h)[0 := m] \<and> job_rank m < job_rank j"
      using i Executing by (auto simp: finish_job_def Let_def split_def)
    with less Executing show ?thesis by simp
  next
    case (Replying c r)
    then have "hn_jobs (reply_job 0 h) = remove_job 0 (hn_jobs h)" using i by (simp add: reply_job_def)
    with less Replying show ?thesis by simp
  qed
qed

lemma schedule_dials: "list_all scheduling sched \<Longrightarrow> dialled sched = []"
proof (induction sched)
  case (Cons e sched)
  then show ?case by (cases e) simp_all
qed simp

lemma dialled_append: "dialled (es @ fs) = dialled es @ dialled fs"
  by (induction es rule: dialled.induct) simp_all

lemma drain:
  assumes "balanced used h"
  shows "\<exists>sched. list_all scheduling sched \<and> length sched \<le> work_left h \<and> hn_jobs (handler_run env getenv cfg facts sched h) = []"
  using assms
proof (induction "work_left h" arbitrary: h rule: less_induct)
  case less
  show ?case
  proof (cases "hn_jobs h")
    case Nil
    then show ?thesis by (intro exI [of _ "[]"]) (simp add: handler_run_def)
  next
    case (Cons j js)
    let ?e = "next_step 0 j"
    let ?h = "handler_step env getenv cfg facts ?e h"
    from less.prems Cons have "job_sound j" by (simp add: balanced_def)
    from next_step_works [OF Cons this, of env getenv cfg facts 0] have n: "work_left ?h < work_left h" "scheduling ?e" by simp_all
    have "dialled [?e] = []" using schedule_dials [of "[?e]"] n(2) by simp
    with balanced_step [OF less.prems, of ?e env getenv cfg facts] n(2) have "balanced used ?h" by (cases ?e) auto
    from less.hyps [OF n(1) this] obtain sched where s: "list_all scheduling sched" "length sched \<le> work_left ?h"
      "hn_jobs (handler_run env getenv cfg facts sched ?h) = []" by blast
    then show ?thesis using n by (intro exI [of _ "?e # sched"]) (simp add: handler_run_def)
  qed
qed



end
