(* ===== verification/Stale_Streams.thy ===== *)
theory Stale_Streams imports Handlers begin

text \<open>
  What outlives its stream or its connection: sessions of the tunnel that end before they are
  registered (internal/control/shell_tunnel.go, \<open>handleShellOpen\<close> and \<open>handleLogsOpen\<close>), and frames
  whose handler starts after the connection they were read from was replaced (internal/control/channel.go,
  \<open>handle\<close>).
\<close>

section \<open>Sessions that end early\<close>

lemma open_of_known_stream:
  assumes "table_of t k = Some s" and "\<not> tn_disposed t" and "fst k \<noteq> []" and "frame_stream f = Some k"
  shows "tunnel_handle m f t = (True, t)"
  using assms by (auto simp: tunnel_handle_def table_of_def shell_open_def logs_open_def Let_def
      elim!: frame_stream.elims)

lemma end_reported:
  fixes reason :: string
  assumes "tunnel_reach strict y" and "alive y s" and "ty_stream y s = Some k" and "is_end e"
  defines "t \<equiv> (if snd k then tunnel_step (EvLogsEnd (fst k) reason) else tunnel_step (EvShell (fst k) e)) (ty_tunnel y)"
  shows "tunnel_reach strict (y\<lparr>ty_tunnel := t, ty_ended := insert s (ty_ended y)\<rparr>)"
  using tunnel_reach.ended [OF assms(1-4), of reason] unfolding t_def on_tunnel_def by (simp split: if_splits)

text \<open>
  (safety). A session that ends while its open has not come back yet takes itself out of a table
  it is not in, and is registered afterwards. The dead session keeps the stream: until a close frame
  or the end of the connection every open of it is dropped, and nothing is sent that would say so.
\<close>

theorem early_end_leaves_dead_stream:
  assumes "tunnel_reach True y" and "ty_pending y n = Some s" and "alive y s" and "ty_stream y s = Some k"
    and "fst k \<noteq> []" and "\<not> tn_disposed (ty_tunnel y)"
  shows "\<exists>y'. tunnel_reach True y' \<and> s \<in> ty_ended y' \<and> table_of (ty_tunnel y') k = Some s \<and>
    tn_calls (ty_tunnel y') = tn_calls (ty_tunnel y) \<and>
    (\<forall>m f. frame_stream f = Some k \<longrightarrow> tunnel_handle m f (ty_tunnel y') = (True, ty_tunnel y'))"
proof -
  let ?e = "OnExit 0 ''exited''"
  define t where "t = (if snd k then tunnel_step (EvLogsEnd (fst k) ''eof'') else tunnel_step (EvShell (fst k) ?e)) (ty_tunnel y)"
  define y1 where "y1 = y\<lparr>ty_tunnel := t, ty_ended := insert s (ty_ended y)\<rparr>"
  define y2 where "y2 = on_tunnel (tunnel_step (EvOpenDone n (Inr s))) y1\<lparr>ty_pending := (ty_pending y1)(n := None)\<rparr>"
  have e: "is_end ?e" by (simp add: is_end_def)
  have r1: "tunnel_reach True y1" unfolding y1_def t_def by (rule end_reported [OF assms(1,3,4) e])
  have p: "ty_pending y1 n = Some s" using assms(2) by (simp add: y1_def)
  have r2: "tunnel_reach True y2" unfolding y2_def by (rule tunnel_reach.registered [OF r1 p])
  note inv = reach_inv [OF assms(1), unfolded tunnel_inv_def]
  obtain q where q: "tn_opening (ty_tunnel y) n = Some q" "stream_of_opening q = k"
    using tinvD(2) [OF inv assms(2)] assms(4) by (auto simp: opening_streams_def)
  have t: "tn_opening t n = Some q" "\<not> tn_disposed t"
    using ended_effect [OF e, of k "''eof''" "ty_tunnel y"] q(1) assms(6) by (simp_all add: t_def)
  have y2: "ty_tunnel y2 = open_done n (Inr s) t" by (simp add: y2_def y1_def on_tunnel_def)
  have u: "table_of (ty_tunnel y2) k = Some s" "\<not> tn_disposed (ty_tunnel y2)"
    using open_done_effect [OF t(1), of s] t(2) q(2) by (simp_all add: y2)
  have "tn_calls (ty_tunnel y2) = tn_calls (ty_tunnel y)"
    using t by (simp add: y2 open_done_def shell_started_def logs_started_def Let_def)
      (simp add: t_def logs_ended_def drop_logs_def send_logs_end_def drop_shell_def)
  then show ?thesis
    using r2 u open_of_known_stream [OF u assms(5)] by (intro exI [of _ y2]) (simp add: y2_def y1_def on_tunnel_def)
qed

theorem early_end_leaves_dead_stream_witness:
  "\<exists>y. tunnel_reach True y \<and> 7 \<in> ty_ended y \<and> tn_shells (ty_tunnel y) ''s'' = Some 7 \<and>
     tunnel_handle 1 (open_frame ''s'') (ty_tunnel y) = (True, ty_tunnel y)"
proof -
  let ?y = "\<lambda>str pen. \<lparr>ty_tunnel = new_tunnel\<lparr>tn_opening := [0 \<mapsto> host_opening ''s'']\<rparr>, ty_stream = str, ty_pending = pen,
     ty_ended = {}, ty_used = {(''s'', False)}\<rparr>"
  have 1: "tunnel_reach True (?y Map.empty Map.empty)"
    using tunnel_reach.frame [OF tunnel_reach.start [of True], of 0 "open_frame ''s''"]
    by (simp add: on_tunnel_def open_frame_step new_tunnel_def del: tunnel_step.simps)
  have 2: "tunnel_reach True (?y [7 \<mapsto> (''s'', False)] [0 \<mapsto> 7])"
    using tunnel_reach.spawn [OF 1, of 0 "host_opening ''s''" 7] by simp
  show ?thesis
    using early_end_leaves_dead_stream [OF 2, of 0 7 "(''s'', False)"] open_frame_stream [of "''s''"]
    by (auto simp: alive_def new_tunnel_def table_of_def)
qed

section \<open>Frames that come late\<close>

text \<open>A frame that is read just before its connection is replaced, and handled just after.\<close>

definition late_events :: "nat \<Rightarrow> nat \<Rightarrow> string \<Rightarrow> frame \<Rightarrow> nat list \<Rightarrow> nat list \<Rightarrow> nat \<Rightarrow> int \<Rightarrow> nat \<Rightarrow> handler_event list" where
  "late_events n c eid f ss ls c' now i = [HRead n c eid (InTunnel f), HDrop c ss ls, HConnect c', HStart now i]"

text \<open>
  (safety). A handler asks for the tunnel of the current connection, not for that of its frame:
  an open read from a connection that was replaced before its handler ran is under way in the tunnel
  of the new connection, which never carried it. The tunnel of the old one is closed all the same, and
  those of other connections are untouched.
\<close>

theorem frame_crosses_connections:
  assumes "c \<in> ch_live (hn_channel h)" and "c' \<noteq> c" and "f = FShellOpen (Some b)" and "so_stream_id b \<noteq> []"
    and "h' = handler_run env getenv cfg facts (late_events n c eid f ss ls c' now (length (hn_jobs h))) h"
  shows "hn_jobs h' = hn_jobs h \<and> ch_current (hn_channel h') = Some c' \<and>
    map_option op_stream (tn_opening (ch_tunnels (hn_channel h') c') n) = Some (so_stream_id b) \<and>
    ch_tunnels (hn_channel h') c = close_all ss ls (ch_tunnels (hn_channel h) c) \<and>
    (\<forall>d. d \<noteq> c \<longrightarrow> d \<noteq> c' \<longrightarrow> ch_tunnels (hn_channel h') d = ch_tunnels (hn_channel h) d)"
  using assms(1-4) unfolding assms(5)
  by (simp add: handler_run_def late_events_def read_frame_def start_job_def remove_job_def nth_append connect_def
      write_frame_def drop_connection_def tunnel_handle_def shell_open_def new_tunnel_def Let_def)

theorem frame_crosses_connections_witness:
  "map_option op_stream (tn_opening (ch_tunnels (hn_channel (handler_run fake_env (\<lambda>_. []) sample_config sample_facts
     (late_events 5 0 ''e'' (open_frame ''s'') [] [] 1 9 0)
     (new_handlers (connect sample_facts 0 (new_channel 0 idle_dispatcher (new_fake_host [])))))) 1) 5) = Some ''s''"
proof -
  define h where "h = new_handlers (connect sample_facts 0 (new_channel 0 idle_dispatcher (new_fake_host [])))"
  have "0 \<in> ch_live (hn_channel h)" "hn_jobs h = []" by (simp_all add: h_def new_handlers_def connect_wire(2))
  with frame_crosses_connections [OF _ _ open_frame_def _ refl, of 0 h 1 "''s''"] show ?thesis
    by (simp add: h_def)
qed

end
