(* ===== verification/Writers.thy ===== *)
theory Writers imports Main begin

text \<open>
  The writers of a channel connection (internal/control/channel.go: \<open>serializedWrite\<close>, \<open>channelSender\<close>
  and \<open>writeEnvelopeOn\<close>). Heartbeats, replies and session output are written by goroutines of their own;
  the mutex of a connection state is there to keep their frames apart. A connection and the state made
  for it have the same number. What a writer does is a sequence of atomic steps: it picks the state,
  takes its mutex, writes, and gives the mutex back.
\<close>

section \<open>Steps\<close>

record frame_writer =
  wr_conn :: nat
  wr_state :: "nat option"
  wr_writing :: bool

text \<open>\<open>ws_mutex s\<close> is the goroutine that holds the mutex of state \<open>s\<close>; writers are keyed by goroutine.\<close>

record write_sys =
  ws_current :: "nat option"
  ws_dialled :: "nat set"
  ws_mutex :: "nat \<rightharpoonup> nat"
  ws_writers :: "nat \<rightharpoonup> frame_writer"

definition no_writers :: write_sys where
  "no_writers = \<lparr>ws_current = None, ws_dialled = {}, ws_mutex = Map.empty, ws_writers = Map.empty\<rparr>"

definition install_state :: "nat \<Rightarrow> write_sys \<Rightarrow> write_sys" where
  "install_state c y = y\<lparr>ws_current := Some c, ws_dialled := insert c (ws_dialled y)\<rparr>"

definition clear_state :: "nat \<Rightarrow> write_sys \<Rightarrow> write_sys" where
  "clear_state c y = (if ws_current y = Some c then y\<lparr>ws_current := None\<rparr> else y)"

text \<open>\<open>serializedWrite\<close> on connection \<open>c\<close> takes the state that is current, a tunnel's sender its own.\<close>

definition serialized_write :: "nat \<Rightarrow> nat \<Rightarrow> write_sys \<Rightarrow> write_sys" where
  "serialized_write g c y =
     y\<lparr>ws_writers := (ws_writers y)(g \<mapsto> \<lparr>wr_conn = c, wr_state = ws_current y, wr_writing = False\<rparr>)\<rparr>"

definition sender_write :: "nat \<Rightarrow> nat \<Rightarrow> write_sys \<Rightarrow> write_sys" where
  "sender_write g c y =
     y\<lparr>ws_writers := (ws_writers y)(g \<mapsto> \<lparr>wr_conn = c, wr_state = Some c, wr_writing = False\<rparr>)\<rparr>"

text \<open>\<open>writeEnvelopeOn\<close>: the lock is waited for, and without a state there is none.\<close>

definition can_lock :: "nat \<Rightarrow> write_sys \<Rightarrow> bool" where
  "can_lock g y =
     (case ws_writers y g of
        None \<Rightarrow> False
      | Some w \<Rightarrow> \<not> wr_writing w \<and> (case wr_state w of None \<Rightarrow> True | Some s \<Rightarrow> ws_mutex y s = None))"

definition lock_and_write :: "nat \<Rightarrow> write_sys \<Rightarrow> write_sys" where
  "lock_and_write g y =
     (case ws_writers y g of
        None \<Rightarrow> y
      | Some w \<Rightarrow>
          y\<lparr>ws_writers := (ws_writers y)(g \<mapsto> w\<lparr>wr_writing := True\<rparr>),
            ws_mutex := (case wr_state w of None \<Rightarrow> ws_mutex y | Some s \<Rightarrow> (ws_mutex y)(s \<mapsto> g))\<rparr>)"

text \<open>The write returned, with or without an error; the deferred unlock runs.\<close>

definition write_done :: "nat \<Rightarrow> write_sys \<Rightarrow> write_sys" where
  "write_done g y =
     (case ws_writers y g of
        None \<Rightarrow> y
      | Some w \<Rightarrow>
          y\<lparr>ws_writers := (ws_writers y)(g := None),
            ws_mutex := (case wr_state w of None \<Rightarrow> ws_mutex y | Some s \<Rightarrow> (ws_mutex y)(s := None))\<rparr>)"

text \<open>An envelope that cannot be encoded is given up before the lock.\<close>

definition give_up :: "nat \<Rightarrow> write_sys \<Rightarrow> write_sys" where
  "give_up g y = y\<lparr>ws_writers := (ws_writers y)(g := None)\<rparr>"

section \<open>Runs\<close>

inductive write_reach :: "write_sys \<Rightarrow> bool" where
  start: "write_reach no_writers"
| dial: "write_reach y \<Longrightarrow> c \<notin> ws_dialled y \<Longrightarrow> write_reach (install_state c y)"
| drop: "write_reach y \<Longrightarrow> write_reach (clear_state c y)"
| serialized: "write_reach y \<Longrightarrow> c \<in> ws_dialled y \<Longrightarrow> ws_writers y g = None \<Longrightarrow> write_reach (serialized_write g c y)"
| sender: "write_reach y \<Longrightarrow> c \<in> ws_dialled y \<Longrightarrow> ws_writers y g = None \<Longrightarrow> write_reach (sender_write g c y)"
| locked: "write_reach y \<Longrightarrow> can_lock g y \<Longrightarrow> write_reach (lock_and_write g y)"
| finished: "write_reach y \<Longrightarrow> ws_writers y g = Some w \<Longrightarrow> wr_writing w \<Longrightarrow> write_reach (write_done g y)"
| given_up: "write_reach y \<Longrightarrow> ws_writers y g = Some w \<Longrightarrow> \<not> wr_writing w \<Longrightarrow> write_reach (give_up g y)"

text \<open>
  A mutex is held by a writer of its state that is writing, and each such writer holds it. A
  writer that picked another state than its connection's came after the connection was replaced.
\<close>

definition writers_ok :: "write_sys \<Rightarrow> bool" where
  "writers_ok y \<longleftrightarrow>
     (\<forall>g w s. ws_writers y g = Some w \<longrightarrow> wr_writing w \<longrightarrow> wr_state w = Some s \<longrightarrow> ws_mutex y s = Some g) \<and>
     (\<forall>s g. ws_mutex y s = Some g \<longrightarrow> (\<exists>w. ws_writers y g = Some w \<and> wr_writing w \<and> wr_state w = Some s)) \<and>
     (\<forall>g w. ws_writers y g = Some w \<longrightarrow> wr_conn w \<in> ws_dialled y) \<and>
     (\<forall>g w. ws_writers y g = Some w \<longrightarrow> wr_state w \<noteq> Some (wr_conn w) \<longrightarrow> ws_current y \<noteq> Some (wr_conn w)) \<and>
     (\<forall>c. ws_current y = Some c \<longrightarrow> c \<in> ws_dialled y)"

lemma writers_okD:
  assumes "writers_ok y"
  shows "ws_writers y g = Some w \<Longrightarrow> wr_writing w \<Longrightarrow> wr_state w = Some s \<Longrightarrow> ws_mutex y s = Some g"
    "ws_mutex y s = Some g \<Longrightarrow> \<exists>w. ws_writers y g = Some w \<and> wr_writing w \<and> wr_state w = Some s"
    "ws_writers y g = Some w \<Longrightarrow> wr_conn w \<in> ws_dialled y"
    "ws_writers y g = Some w \<Longrightarrow> wr_state w \<noteq> Some (wr_conn w) \<Longrightarrow> ws_current y \<noteq> Some (wr_conn w)"
    "ws_current y = Some c \<Longrightarrow> c \<in> ws_dialled y"
  using assms unfolding writers_ok_def by blast+

lemma writers_okI:
  assumes "\<And>g w s. ws_writers y g = Some w \<Longrightarrow> wr_writing w \<Longrightarrow> wr_state w = Some s \<Longrightarrow> ws_mutex y s = Some g"
    and "\<And>s g. ws_mutex y s = Some g \<Longrightarrow> \<exists>w. ws_writers y g = Some w \<and> wr_writing w \<and> wr_state w = Some s"
    and "\<And>g w. ws_writers y g = Some w \<Longrightarrow> wr_conn w \<in> ws_dialled y"
    and "\<And>g w. ws_writers y g = Some w \<Longrightarrow> wr_state w \<noteq> Some (wr_conn w) \<Longrightarrow> ws_current y \<noteq> Some (wr_conn w)"
    and "\<And>c. ws_current y = Some c \<Longrightarrow> c \<in> ws_dialled y"
  shows "writers_ok y"
  using assms unfolding writers_ok_def by blast

lemma lock_keeps:
  assumes ok: "writers_ok y" and lock: "can_lock g y"
  shows "writers_ok (lock_and_write g y)"
proof -
  from lock obtain w where w: "ws_writers y g = Some w" "\<not> wr_writing w" "\<And>s. wr_state w = Some s \<Longrightarrow> ws_mutex y s = None"
    by (auto simp: can_lock_def split: option.splits)
  show ?thesis
  proof (rule writers_okI)
    fix h v s assume "ws_writers (lock_and_write g y) h = Some v" "wr_writing v" "wr_state v = Some s"
    then show "ws_mutex (lock_and_write g y) s = Some h"
      using w writers_okD(1) [OF ok, of h v s] by (auto simp: lock_and_write_def split: if_splits option.splits)
  next
    fix s h assume "ws_mutex (lock_and_write g y) s = Some h"
    then show "\<exists>v. ws_writers (lock_and_write g y) h = Some v \<and> wr_writing v \<and> wr_state v = Some s"
      using w writers_okD(2) [OF ok, of s h] by (auto simp: lock_and_write_def split: if_splits option.splits)
  next
    fix h v assume v: "ws_writers (lock_and_write g y) h = Some v" "wr_state v \<noteq> Some (wr_conn v)"
    have "\<exists>u. ws_writers y h = Some u \<and> wr_state u = wr_state v \<and> wr_conn u = wr_conn v"
      using v(1) w(1) by (auto simp: lock_and_write_def split: if_splits)
    then show "ws_current (lock_and_write g y) \<noteq> Some (wr_conn v)"
      using v(2) w(1) writers_okD(4) [OF ok, of h] by (fastforce simp: lock_and_write_def)
  qed (use w writers_okD(3,5) [OF ok] in \<open>auto simp: lock_and_write_def split: if_splits\<close>)
qed

lemma done_keeps:
  assumes ok: "writers_ok y" and w: "ws_writers y g = Some w" "wr_writing w"
  shows "writers_ok (write_done g y)"
proof (rule writers_okI)
  fix h v s assume "ws_writers (write_done g y) h = Some v" "wr_writing v" "wr_state v = Some s"
  then show "ws_mutex (write_done g y) s = Some h"
    using w writers_okD(1) [OF ok, of h v s] writers_okD(1) [OF ok w, of s]
    by (auto simp: write_done_def split: if_splits option.splits)
next
  fix s h assume "ws_mutex (write_done g y) s = Some h"
  then show "\<exists>v. ws_writers (write_done g y) h = Some v \<and> wr_writing v \<and> wr_state v = Some s"
    using w writers_okD(2) [OF ok, of s h] by (auto simp: write_done_def split: if_splits option.splits)
qed (use w writers_okD(3,4,5) [OF ok] in \<open>auto simp: write_done_def split: if_splits\<close>)

lemma write_reach_ok: "write_reach y \<Longrightarrow> writers_ok y"
proof (induction rule: write_reach.induct)
  case start
  show ?case by (simp add: writers_ok_def no_writers_def)
next
  case (dial y c)
  then show ?case
    by (intro writers_okI) (use writers_okD [OF dial.IH] in \<open>auto simp: install_state_def\<close>)
next
  case (drop y c)
  then show ?case
    by (intro writers_okI) (use writers_okD [OF drop.IH] in \<open>auto simp: clear_state_def split: if_splits\<close>)
next
  case (serialized y c g)
  have "ws_mutex y s \<noteq> Some g" for s using writers_okD(2) [OF serialized.IH, of s g] serialized.hyps by auto
  then show ?case
    by (intro writers_okI) (use writers_okD [OF serialized.IH] serialized.hyps in \<open>auto simp: serialized_write_def split: if_splits\<close>)
next
  case (sender y c g)
  have "ws_mutex y s \<noteq> Some g" for s using writers_okD(2) [OF sender.IH, of s g] sender.hyps by auto
  then show ?case
    by (intro writers_okI) (use writers_okD [OF sender.IH] sender.hyps in \<open>auto simp: sender_write_def split: if_splits\<close>)
next
  case (given_up y g w)
  have "ws_mutex y s \<noteq> Some g" for s using writers_okD(2) [OF given_up.IH, of s g] given_up.hyps by auto
  then show ?case
    by (intro writers_okI) (use writers_okD [OF given_up.IH] in \<open>auto simp: give_up_def split: if_splits\<close>)
qed (auto intro: lock_keeps done_keeps)

section \<open>Frames are kept apart on the current connection only\<close>

text \<open>
  C33 (invariant). Two frames are never written to the current connection at the same time, whoever writes
  them. Frames can overlap only on a connection that has been replaced or dropped, and then one of the
  writers picked its mutex after that.
\<close>

theorem frames_overlap_only_when_stale:
  assumes "write_reach y" and "ws_writers y g = Some v" and "ws_writers y h = Some w" and "g \<noteq> h"
    and "wr_writing v" and "wr_writing w" and "wr_conn v = c" and "wr_conn w = c"
  shows "ws_current y \<noteq> Some c \<and> (wr_state v \<noteq> Some c \<or> wr_state w \<noteq> Some c)"
proof -
  note ok = write_reach_ok [OF assms(1)]
  have "\<not> (wr_state v = Some c \<and> wr_state w = Some c)"
    using writers_okD(1) [OF ok assms(2,5), of c] writers_okD(1) [OF ok assms(3,6), of c] assms(4) by auto
  then show ?thesis using writers_okD(4) [OF ok assms(2)] writers_okD(4) [OF ok assms(3)] assms(7,8) by auto
qed

text \<open>
  They do overlap there: a reply for a connection whose successor is current takes the mutex of
  the successor, next to the output of a session that holds the mutex of its own.
\<close>

lemma stale_writers_overlap:
  "\<exists>y v w. write_reach y \<and> ws_writers y 0 = Some v \<and> ws_writers y 1 = Some w \<and> wr_writing v \<and> wr_writing w \<and>
     wr_conn v = 0 \<and> wr_conn w = 0 \<and> ws_current y = Some 1"
proof -
  let ?y = "install_state 1 (sender_write 0 0 (install_state 0 no_writers))"
  let ?z = "serialized_write 1 0 (lock_and_write 0 ?y)"
  have 1: "write_reach ?y"
    by (intro write_reach.intros) (simp_all add: install_state_def no_writers_def sender_write_def)
  have 2: "write_reach ?z"
    by (intro write_reach.serialized write_reach.locked 1)
      (simp_all add: install_state_def no_writers_def sender_write_def lock_and_write_def can_lock_def)
  have "write_reach (lock_and_write 1 ?z)"
    by (rule write_reach.locked [OF 2])
      (simp add: install_state_def no_writers_def sender_write_def serialized_write_def lock_and_write_def can_lock_def)
  then show ?thesis
    by (intro exI [of _ "lock_and_write 1 ?z"])
      (simp add: install_state_def no_writers_def sender_write_def serialized_write_def lock_and_write_def)
qed

theorem frames_overlap_only_when_stale_witness:
  "\<exists>y v w. write_reach y \<and> ws_writers y 0 = Some v \<and> ws_writers y 1 = Some w \<and>
     (wr_state v \<noteq> Some 0 \<or> wr_state w \<noteq> Some (0::nat))"
proof -
  obtain y v w where o: "write_reach y" "ws_writers y 0 = Some v" "ws_writers y 1 = Some w" "wr_writing v" "wr_writing w"
    "wr_conn v = 0" "wr_conn w = 0" using stale_writers_overlap by blast
  from frames_overlap_only_when_stale [OF o(1-3) zero_neq_one o(4-7)] o(1-3) show ?thesis by blast
qed

text \<open>
  (liveness). The mutexes cannot block the writers for good: while any writer is left, one of them can
  go on, so a writer that waits is behind one that is writing.
\<close>

theorem writers_make_progress:
  assumes "write_reach y" and "ws_writers y g = Some w"
  shows "\<exists>h v. ws_writers y h = Some v \<and> (wr_writing v \<or> can_lock h y) \<and>
    (wr_writing w \<or> can_lock g y \<or> wr_writing v \<and> wr_state v = wr_state w)"
proof (cases "wr_writing w \<or> can_lock g y")
  case False
  then obtain s h where "wr_state w = Some s" "ws_mutex y s = Some h"
    using assms(2) by (auto simp: can_lock_def split: option.splits)
  with writers_okD(2) [OF write_reach_ok [OF assms(1)], of s h] show ?thesis by auto
qed (use assms(2) in blast)

theorem writers_make_progress_witness:
  "\<exists>y w. write_reach y \<and> ws_writers y 3 = Some w \<and> (wr_writing w \<or> can_lock 3 y)"
proof -
  let ?y = "sender_write 3 0 (install_state 0 no_writers)"
  have r: "write_reach ?y"
    by (intro write_reach.intros) (simp_all add: install_state_def no_writers_def)
  have w: "ws_writers ?y 3 = Some \<lparr>wr_conn = 0, wr_state = Some 0, wr_writing = False\<rparr>" by (simp add: sender_write_def)
  from writers_make_progress [OF r w] have "wr_writing \<lparr>wr_conn = 0, wr_state = Some 0, wr_writing = False\<rparr> \<or> can_lock 3 ?y"
    by (auto simp: can_lock_def install_state_def no_writers_def sender_write_def split: if_splits)
  with r w show ?thesis by blast
qed

end
