(* ===== verification/Supervisor.thy ===== *)
theory Supervisor imports Worker begin

text \<open>
  The running process (cmd/worker/main.go from StartScraper on, internal/healthz, and the loops of
  internal/control/channel.go and dispatcher.go main starts): the HTTP server, the control channel, the
  scraper and the readiness timer as goroutines, the signal that main waits for, and the shutdown. Their
  interleavings are a step relation. The channel is at one of the points of \<open>Run\<close> and \<open>connectOnce\<close>, so
  that it returns when it looks at the context there, and not before.
\<close>

section \<open>The process\<close>

text \<open>
  Main waits for a signal, shuts the server down, waits for its two goroutines, and is gone. The
  server's goroutine runs (\<open>pr_serving\<close>) until Listen returns; its listener exists (\<open>pr_listening\<close>)
  only some time after its start, and \<open>pr_shut\<close> says that a shutdown found it. \<open>pr_run\<close> is the point
  the channel has got to; \<open>pr_cancelled\<close> is the root context.
\<close>

datatype main_phase = AwaitSignal | ShutServer | AwaitGoroutines | Gone

datatype run_phase =
  RunTop | Dialling | Greeting | Looping | TearingDown | AfterConnection | Backoff | RunDone

record process =
  pr_phase :: main_phase
  pr_serving :: bool
  pr_listening :: bool
  pr_shut :: bool
  pr_run :: run_phase
  pr_scraper :: bool
  pr_timer :: bool
  pr_ready :: bool
  pr_cancelled :: bool

definition pr_channel :: "process \<Rightarrow> bool" where
  "pr_channel p \<longleftrightarrow> pr_run p \<noteq> RunDone"

definition started :: process where
  "started = \<lparr>pr_phase = AwaitSignal, pr_serving = True, pr_listening = False, pr_shut = False, pr_run = RunTop,
     pr_scraper = True, pr_timer = True, pr_ready = False, pr_cancelled = False\<rparr>"

definition mark_ready :: "process \<Rightarrow> process" where
  "mark_ready p = p\<lparr>pr_ready := True\<rparr>"

text \<open>
  The steps. Of the channel: the check at the top of the loop, the end of the dial and of the Hello
  (with success or without), the end of the two loops, the teardown, the check after the connection,
  and the end of the wait (at the timer or, with \<open>True\<close>, at the end of the context).
\<close>

datatype process_event =
    Signal
  | ListenerUp
  | ListenReturns "go_error option"
  | RunChecks
  | DialEnds bool
  | HelloEnds bool
  | LoopEnds
  | TornDown
  | RunRechecks
  | BackoffEnds bool
  | ScraperTick
  | ScraperStops
  | ReadyTimer
  | ServerShut
  | GoroutinesDone

text \<open>
  \<open>Listen\<close> returns nothing only when a shutdown found its listener, and an error when it cannot listen
  or go on listening. The dial, the Hello and the loops can fail at any time, so they end; that they
  do so soon once the context is cancelled is what the websocket library documents.
\<close>

fun possible :: "process_event \<Rightarrow> process \<Rightarrow> bool" where
  "possible Signal p = (pr_phase p = AwaitSignal)"
| "possible ListenerUp p = (pr_serving p \<and> \<not> pr_listening p)"
| "possible (ListenReturns None) p = (pr_serving p \<and> pr_listening p \<and> pr_shut p)"
| "possible (ListenReturns (Some e)) p = pr_serving p"
| "possible RunChecks p = (pr_run p = RunTop)"
| "possible (DialEnds ok) p = (pr_run p = Dialling)"
| "possible (HelloEnds ok) p = (pr_run p = Greeting)"
| "possible LoopEnds p = (pr_run p = Looping)"
| "possible TornDown p = (pr_run p = TearingDown)"
| "possible RunRechecks p = (pr_run p = AfterConnection)"
| "possible (BackoffEnds ended) p = (pr_run p = Backoff \<and> (ended \<longrightarrow> pr_cancelled p))"
| "possible ScraperTick p = pr_scraper p"
| "possible ScraperStops p = (pr_scraper p \<and> pr_cancelled p)"
| "possible ReadyTimer p = pr_timer p"
| "possible ServerShut p = (pr_phase p = ShutServer)"
| "possible GoroutinesDone p = (pr_phase p = AwaitGoroutines \<and> \<not> pr_serving p \<and> pr_run p = RunDone)"

definition enabled :: "process_event \<Rightarrow> process \<Rightarrow> bool" where
  "enabled e p \<longleftrightarrow> pr_phase p \<noteq> Gone \<and> possible e p"

definition err_server_closed :: go_error where
  "err_server_closed = Errorf ''http: Server closed'' []"

definition listen_returned :: "go_error option \<Rightarrow> process \<Rightarrow> process" where
  "listen_returned e p =
     (let p = p\<lparr>pr_serving := False\<rparr>
      in if e \<noteq> None \<and> e \<noteq> Some err_server_closed then p\<lparr>pr_cancelled := True\<rparr> else p)"

text \<open>A shutdown that finds no listener does nothing.\<close>

fun process_step :: "process_event \<Rightarrow> process \<Rightarrow> process" where
  "process_step Signal p = p\<lparr>pr_phase := ShutServer, pr_cancelled := True\<rparr>"
| "process_step ListenerUp p = p\<lparr>pr_listening := True\<rparr>"
| "process_step (ListenReturns e) p = listen_returned e p"
| "process_step RunChecks p = p\<lparr>pr_run := (if pr_cancelled p then RunDone else Dialling)\<rparr>"
| "process_step (DialEnds ok) p = p\<lparr>pr_run := (if ok then Greeting else AfterConnection)\<rparr>"
| "process_step (HelloEnds ok) p = p\<lparr>pr_run := (if ok then Looping else TearingDown)\<rparr>"
| "process_step LoopEnds p = p\<lparr>pr_run := TearingDown\<rparr>"
| "process_step TornDown p = p\<lparr>pr_run := AfterConnection\<rparr>"
| "process_step RunRechecks p = p\<lparr>pr_run := (if pr_cancelled p then RunDone else Backoff)\<rparr>"
| "process_step (BackoffEnds ended) p = p\<lparr>pr_run := (if ended then RunDone else RunTop)\<rparr>"
| "process_step ScraperTick p = p"
| "process_step ScraperStops p = p\<lparr>pr_scraper := False\<rparr>"
| "process_step ReadyTimer p = mark_ready (p\<lparr>pr_timer := False\<rparr>)"
| "process_step ServerShut p = p\<lparr>pr_phase := AwaitGoroutines, pr_shut := pr_listening p\<rparr>"
| "process_step GoroutinesDone p = p\<lparr>pr_phase := Gone\<rparr>"

inductive process_path :: "process \<Rightarrow> process_event list \<Rightarrow> process \<Rightarrow> bool" where
  here: "process_path p [] p"
| onward: "process_path p es q \<Longrightarrow> enabled e q \<Longrightarrow> process_path p (es @ [e]) (process_step e q)"

inductive_cases process_path_snoc: "process_path p (es @ [e]) q"

lemmas step_defs = enabled_def listen_returned_def mark_ready_def Let_def

lemma process_path_after:
  "process_path r es q \<Longrightarrow> r = process_step e p \<Longrightarrow> enabled e p \<Longrightarrow> process_path p (e # es) q"
proof (induction rule: process_path.induct)
  case (here r)
  with process_path.onward [OF process_path.here here(2)] show ?case by simp
next
  case (onward r es q f)
  from process_path.onward [OF onward.IH [OF onward.prems] onward.hyps(2)] show ?case by simp
qed

lemma process_path_cons: "enabled e p \<Longrightarrow> process_path (process_step e p) es q \<Longrightarrow> process_path p (e # es) q"
  by (rule process_path_after [OF _ refl])

text \<open>A path is cut at any of its events.\<close>

lemma process_path_split:
  "process_path p es q \<Longrightarrow> es = fs @ e # gs \<Longrightarrow> \<exists>r. process_path p fs r \<and> enabled e r \<and> process_path (process_step e r) gs q"
proof (induction arbitrary: gs rule: process_path.induct)
  case (onward p es q f)
  show ?case
  proof (cases gs rule: rev_cases)
    case Nil
    with onward.prems onward.hyps show ?thesis by (auto intro: process_path.here)
  next
    case (snoc hs h)
    with onward.prems have "es = fs @ e # hs" "h = f" by auto
    with onward.IH snoc onward.hyps(2) show ?thesis by (blast intro: process_path.onward)
  qed
qed simp

section \<open>Shutdown ends\<close>

text \<open>The steps that are left once the context is cancelled.\<close>

fun phase_rank :: "main_phase \<Rightarrow> nat" where
  "phase_rank AwaitSignal = 3"
| "phase_rank ShutServer = 2"
| "phase_rank AwaitGoroutines = 1"
| "phase_rank Gone = 0"

fun run_rank :: "run_phase \<Rightarrow> nat" where
  "run_rank Dialling = 5"
| "run_rank Greeting = 4"
| "run_rank Looping = 3"
| "run_rank TearingDown = 2"
| "run_rank Backoff = 2"
| "run_rank RunTop = 1"
| "run_rank AfterConnection = 1"
| "run_rank RunDone = 0"

definition steps_left :: "process \<Rightarrow> nat" where
  "steps_left p = phase_rank (pr_phase p) + run_rank (pr_run p) + of_bool (pr_scraper p) + of_bool (pr_timer p) +
     (if pr_serving p then (if pr_listening p then 1 else 2) else 0)"

lemma step_ranks:
  "enabled e p \<Longrightarrow> pr_cancelled p \<Longrightarrow>
   pr_cancelled (process_step e p) \<and>
   (if e = ScraperTick then process_step e p = p else steps_left (process_step e p) < steps_left p)"
  by (cases "(e, p)" rule: possible.cases) (auto simp: steps_left_def step_defs)

lemma path_ranks:
  "process_path p es q \<Longrightarrow> pr_cancelled p \<Longrightarrow>
   pr_cancelled q \<and> steps_left q + length (filter (\<lambda>e. e \<noteq> ScraperTick) es) \<le> steps_left p"
proof (induction rule: process_path.induct)
  case (onward p es q e)
  with step_ranks [of e q] show ?case by (auto split: if_splits)
qed simp

lemma run_rank_le: "run_rank r \<le> 5"
  by (cases r) simp_all

lemma after_signal_bound:
  assumes "process_path (process_step Signal r) gs q"
  shows "pr_cancelled q \<and> length (filter (\<lambda>e. e \<noteq> ScraperTick) gs) \<le> 11"
proof -
  have "of_bool b \<le> (1 :: nat)" for b by simp
  then have "steps_left (process_step Signal r) \<le> 2 + 5 + 1 + 1 + 2"
    unfolding steps_left_def by (intro add_mono) (simp_all add: run_rank_le)
  with path_ranks [OF assms] show ?thesis by simp
qed

text \<open>What holds all along.\<close>

definition process_inv :: "process_event list \<Rightarrow> process \<Rightarrow> bool" where
  "process_inv es p \<longleftrightarrow> (pr_phase p \<noteq> AwaitSignal \<longleftrightarrow> Signal \<in> set es) \<and>
     (pr_phase p \<noteq> AwaitSignal \<longrightarrow> pr_cancelled p) \<and> (pr_phase p = Gone \<longrightarrow> \<not> pr_serving p \<and> pr_run p = RunDone)"

lemma process_invariant: "process_path started es p \<Longrightarrow> process_inv es p"
proof (induction started es p rule: process_path.induct)
  case (onward es q e)
  then show ?case
    by (cases "(e, q)" rule: possible.cases) (auto simp: process_inv_def step_defs)
qed (simp add: process_inv_def started_def)

text \<open>The channel can always go on, and so can everything else but a listener nobody will shut.\<close>

lemma channel_goes_on: "pr_phase p \<noteq> Gone \<Longrightarrow> pr_run p \<noteq> RunDone \<Longrightarrow> \<exists>e. enabled e p \<and> (\<forall>x. e \<noteq> ListenReturns x) \<and> e \<noteq> Signal"
proof -
  assume p: "pr_phase p \<noteq> Gone" "pr_run p \<noteq> RunDone"
  have "enabled RunChecks p \<or> enabled (DialEnds True) p \<or> enabled (HelloEnds True) p \<or> enabled LoopEnds p \<or>
      enabled TornDown p \<or> enabled RunRechecks p \<or> enabled (BackoffEnds False) p"
    using p by (cases "pr_run p") (simp_all add: enabled_def)
  then show ?thesis by blast
qed


text \<open>A shutdown in full, from a connection that lives.\<close>

definition sample_stop :: "process_event list" where
  "sample_stop = [ListenerUp, RunChecks, DialEnds True, HelloEnds True, ReadyTimer, ScraperTick, Signal, ServerShut,
     LoopEnds, ListenReturns None, TornDown, ScraperStops, RunRechecks, GoroutinesDone]"

definition stopped :: process where
  "stopped = \<lparr>pr_phase = Gone, pr_serving = False, pr_listening = True, pr_shut = True, pr_run = RunDone, pr_scraper = False,
     pr_timer = False, pr_ready = True, pr_cancelled = True\<rparr>"

lemma sample_shutdown: "process_path started sample_stop stopped"
  unfolding sample_stop_def stopped_def
  by (rule process_path_cons, simp add: started_def step_defs)+
    (simp add: started_def step_defs process_path.here)


text \<open>
  A signal that comes before the server has its listener: the shutdown finds nothing to shut, Listen goes
  on to serve, and main waits for it for ever, deaf to further signals.
\<close>

lemma early_signal_hangs:
  "\<exists>p. process_path started [Signal, ServerShut, ListenerUp, RunChecks, ScraperStops, ReadyTimer] p \<and>
     pr_phase p = AwaitGoroutines \<and> pr_serving p \<and> (\<forall>e. enabled e p \<longrightarrow> (\<exists>x. e = ListenReturns (Some x)))"
proof -
  define p where "p = \<lparr>pr_phase = AwaitGoroutines, pr_serving = True, pr_listening = True, pr_shut = False, pr_run = RunDone,
     pr_scraper = False, pr_timer = False, pr_ready = True, pr_cancelled = True\<rparr>"
  have "process_path started [Signal, ServerShut, ListenerUp, RunChecks, ScraperStops, ReadyTimer] p"
    unfolding p_def
    by (rule process_path_cons, simp add: started_def step_defs)+ (simp add: started_def step_defs process_path.here)
  moreover have "\<exists>x. e = ListenReturns (Some x)" if "enabled e p" for e
    using that by (cases "(e, p)" rule: possible.cases) (auto simp: enabled_def p_def)
  ultimately show ?thesis by (intro exI [of _ p]) (simp add: p_def)
qed

section \<open>A server that cannot listen\<close>

text \<open>Once the context is cancelled the channel, the scraper and the timer can be brought to their end.\<close>

lemma channel_winds_down:
  "pr_phase p \<noteq> Gone \<Longrightarrow> pr_cancelled p \<Longrightarrow> \<exists>fs. process_path p fs (p\<lparr>pr_run := RunDone\<rparr>)"
proof -
  assume p: "pr_phase p \<noteq> Gone" "pr_cancelled p"
  have "\<exists>fs. process_path p fs (p\<lparr>pr_run := RunDone\<rparr>)" if "n = run_rank (pr_run p)" "pr_phase p \<noteq> Gone" "pr_cancelled p" for n p
    using that
  proof (induction n arbitrary: p rule: less_induct)
    case (less n)
    have step: ?case if "enabled e p" and to: "process_step e p = p\<lparr>pr_run := r\<rparr>" and "run_rank r < n" for e r
    proof -
      have "\<exists>fs. process_path (p\<lparr>pr_run := r\<rparr>) fs ((p\<lparr>pr_run := r\<rparr>)\<lparr>pr_run := RunDone\<rparr>)"
        using less.prems that(3) by (intro less.IH [OF _ refl]) simp_all
      then obtain fs where "process_path (process_step e p) fs (p\<lparr>pr_run := RunDone\<rparr>)" using to by auto
      with that(1) have "process_path p (e # fs) (p\<lparr>pr_run := RunDone\<rparr>)" by (rule process_path_cons)
      then show ?thesis ..
    qed
    show ?case
    proof (cases "pr_run p")
      case RunDone
      then have "p\<lparr>pr_run := RunDone\<rparr> = p" by simp
      then show ?thesis using process_path.here [of p] by auto
    qed (use less.prems in \<open>auto simp: enabled_def intro: step [of RunChecks RunDone] step [of "DialEnds False" AfterConnection]
        step [of "HelloEnds False" TearingDown] step [of LoopEnds TearingDown] step [of TornDown AfterConnection]
        step [of RunRechecks RunDone] step [of "BackoffEnds True" RunDone]\<close>)
  qed
  with p show ?thesis by blast
qed

lemma process_path_trans: "process_path q gs r \<Longrightarrow> process_path p fs q \<Longrightarrow> process_path p (fs @ gs) r"
proof (induction rule: process_path.induct)
  case (onward q es r e)
  from process_path.onward [OF onward.IH [OF onward.prems] onward.hyps(2)] show ?case by simp
qed simp

text \<open>
  C18 (safety). When the HTTP server cannot listen, its error is logged and the context cancelled, but
  main goes on waiting for a signal: without one the process is never gone. It ends up with no server, no
  channel and no scraper, in a state where nothing can happen any more but a signal.
\<close>

theorem failed_listener_leaves_zombie:
  assumes "process_path started es p" and "ListenReturns (Some e) \<in> set es" and "e \<noteq> err_server_closed"
    and "Signal \<notin> set es"
  shows "pr_phase p = AwaitSignal \<and> \<not> pr_serving p \<and> pr_cancelled p \<and>
    ((\<forall>f. enabled f p \<longrightarrow> f = Signal) \<longrightarrow> \<not> pr_channel p \<and> \<not> pr_scraper p) \<and>
    (\<exists>fs q. process_path p fs q \<and> (\<forall>f. enabled f q \<longleftrightarrow> f = Signal))"
proof -
  have wait: "pr_phase p = AwaitSignal"
    using process_invariant [OF assms(1)] assms(4) by (simp add: process_inv_def)
  have inv: "ListenReturns (Some e) \<in> set es \<longrightarrow> \<not> pr_serving p \<and> pr_cancelled p"
    using assms(1)
  proof (induction started es p rule: process_path.induct)
    case (onward es q f)
    then show ?case using assms(3)
      by (cases "(f, q)" rule: possible.cases) (auto simp: step_defs)
  qed simp
  have down: "\<not> pr_channel q \<and> \<not> pr_scraper q" if "\<forall>f. enabled f q \<longrightarrow> f = Signal" "pr_cancelled q" "pr_phase q \<noteq> Gone" for q
  proof -
    have "\<not> enabled ScraperStops q" using that(1) by blast
    moreover have "pr_run q = RunDone" using channel_goes_on [OF that(3)] that(1) by blast
    ultimately show ?thesis using that(2,3) by (simp add: enabled_def pr_channel_def)
  qed
  define r where "r = p\<lparr>pr_run := RunDone\<rparr>"
  define q where "q = r\<lparr>pr_scraper := False, pr_timer := False, pr_ready := pr_ready r \<or> pr_timer r\<rparr>"
  have "\<exists>fs. process_path p fs q"
  proof -
    obtain fs where "process_path p fs r" using channel_winds_down [of p] inv assms(2) wait by (auto simp: r_def)
    moreover let ?add = "\<lambda>b e. if b then [e] else []"
    have "process_path r (?add (pr_scraper r) ScraperStops @ ?add (pr_timer r) ReadyTimer) q"
      using inv assms(2) wait
      by (cases "pr_scraper r"; cases "pr_timer r"; cases p)
        (auto simp: r_def q_def step_defs intro!: process_path_cons process_path.here)
    ultimately show ?thesis using process_path_trans by blast
  qed
  moreover have "enabled f q \<longleftrightarrow> f = Signal" for f
    using wait inv assms(2) by (cases "(f, q)" rule: possible.cases) (simp_all add: q_def r_def enabled_def)
  ultimately show ?thesis using wait inv assms(2) down [of p] by auto
qed

theorem failed_listener_leaves_zombie_witness:
  "\<exists>p. process_path started [ListenReturns (Some (Errorf ''address already in use'' [])), RunChecks, ReadyTimer] p \<and>
     pr_phase p = AwaitSignal \<and> \<not> pr_serving p"
proof -
  define p where "p = process_step ReadyTimer (process_step RunChecks
      (process_step (ListenReturns (Some (Errorf ''address already in use'' []))) started))"
  have path: "process_path started [ListenReturns (Some (Errorf ''address already in use'' [])), RunChecks, ReadyTimer] p"
    unfolding p_def
    by (rule process_path_cons, simp add: started_def step_defs err_server_closed_def)+
      (rule process_path.here)
  from failed_listener_leaves_zombie [OF path, of "Errorf ''address already in use'' []"] path show ?thesis
    by (auto simp: err_server_closed_def)
qed

end
