(* ===== verification/Wire_Text.thy ===== *)
theory Wire_Text imports Tunnel begin

text \<open>
  What the control plane reads of a shell's output (internal/control/shell_tunnel.go with the JSON
  encoder of channel.go): the output is bytes, cut where the reads of the pump end, and each piece is
  sent as a JSON string of its own, in which only whole UTF-8 characters survive.
\<close>

section \<open>Strings in JSON\<close>

text \<open>The encoder's view of a byte string: the length of the character it begins with, zero for none.\<close>

definition byte_in :: "nat \<Rightarrow> nat \<Rightarrow> char \<Rightarrow> bool" where
  "byte_in l h c \<longleftrightarrow> l \<le> of_char c \<and> of_char c \<le> h"

definition cont_byte :: "char \<Rightarrow> bool" where
  "cont_byte = byte_in 0x80 0xBF"

text \<open>The lead bytes of longer characters, with the range of the byte that follows.\<close>

definition second_range :: "char \<Rightarrow> nat \<times> nat" where
  "second_range c =
     (let b = of_char c :: nat in
      if b = 0xE0 then (0xA0, 0xBF) else if b = 0xED then (0x80, 0x9F)
      else if b = 0xF0 then (0x90, 0xBF) else if b = 0xF4 then (0x80, 0x8F) else (0x80, 0xBF))"

definition lead_size :: "char \<Rightarrow> nat" where
  "lead_size c =
     (if byte_in 0 0x7F c then 1 else if byte_in 0xC2 0xDF c then 2
      else if byte_in 0xE0 0xEF c then 3 else if byte_in 0xF0 0xF4 c then 4 else 0)"

definition rune_size :: "string \<Rightarrow> nat" where
  "rune_size s =
     (case s of [] \<Rightarrow> 0
      | c # cs \<Rightarrow>
          let n = lead_size c; (l, h) = second_range c in
          if n = 1 then 1
          else if 1 < n \<and> n \<le> length s \<and> byte_in l h (cs ! 0) \<and> list_all cont_byte (take (n - 2) (tl cs)) then n else 0)"

text \<open>U+FFFD in UTF-8.\<close>

definition replacement :: string where
  "replacement = [char_of (0xEF :: nat), char_of (0xBF :: nat), char_of (0xBD :: nat)]"

text \<open>The bytes that come out of the decoder at the other end.\<close>

function json_text :: "string \<Rightarrow> string" where
  "json_text [] = []"
| "json_text (c # cs) =
     (if rune_size (c # cs) = 0 then replacement @ json_text cs
      else take (rune_size (c # cs)) (c # cs) @ json_text (drop (rune_size (c # cs)) (c # cs)))"
  by pat_completeness auto
termination
  by (relation "measure length") auto

declare json_text.simps(2) [simp del]

section \<open>Whole and cut characters\<close>

lemma rune_size_le: "rune_size s \<le> length s"
  by (cases s) (auto simp: rune_size_def lead_size_def Let_def split: prod.split)

lemma rune_size_lead: "rune_size (c # cs) \<noteq> 0 \<Longrightarrow> rune_size (c # cs) = lead_size c"
  by (auto simp: rune_size_def Let_def split: prod.splits if_splits)

lemma rune_size_append: "rune_size s \<noteq> 0 \<Longrightarrow> rune_size (s @ t) = rune_size s"
  by (cases s) (auto simp: rune_size_def Let_def nth_append split: prod.splits if_splits)

lemma json_text_rune:
  assumes "rune_size s = length s" and "s \<noteq> []"
  shows "json_text (s @ t) = s @ json_text t"
proof -
  from assms obtain c cs where s: "s = c # cs" by (cases s) auto
  have "rune_size (s @ t) = length s" using assms rune_size_append [of s t] by simp
  with s show ?thesis by (simp add: json_text.simps(2))
qed

text \<open>Text that consists of whole characters arrives as it is, however many there are.\<close>

inductive whole :: "string \<Rightarrow> bool" where
  none: "whole []"
| char: "rune_size s = length s \<Longrightarrow> s \<noteq> [] \<Longrightarrow> whole t \<Longrightarrow> whole (s @ t)"

lemma json_text_whole: "whole s \<Longrightarrow> json_text s = s"
  by (induction rule: whole.induct) (simp_all add: json_text_rune)

lemma whole_ascii: "list_all (\<lambda>c. (of_char c :: nat) < 0x80) s \<Longrightarrow> whole s"
proof (induction s)
  case (Cons c s)
  have "rune_size [c] = 1" using Cons.prems by (simp add: rune_size_def lead_size_def byte_in_def)
  with whole.char [of "[c]" s] Cons show ?case by simp
qed (rule whole.none)

lemma no_rune: "rune_size (c # cs) = 0 \<Longrightarrow> json_text (c # cs) = replacement @ json_text cs"
  by (simp add: json_text.simps(2))

lemma cont_no_rune: "cont_byte c \<Longrightarrow> rune_size (c # cs) = 0"
  by (simp add: rune_size_def lead_size_def cont_byte_def byte_in_def Let_def split: prod.split)

lemma json_text_cont: "list_all cont_byte s \<Longrightarrow> json_text s = concat (replicate (length s) replacement)"
  by (induction s) (simp_all add: no_rune cont_no_rune)

text \<open>A character of several bytes: a lead byte and continuation bytes.\<close>

lemma rune_conts:
  assumes "rune_size (c # cs) = Suc (length cs)" and "cs \<noteq> []"
  shows "list_all cont_byte cs"
proof -
  obtain d ds where cs: "cs = d # ds" using assms(2) by (cases cs) auto
  have n: "lead_size c = Suc (length cs)" using rune_size_lead [of c cs] assms(1) by simp
  have two: "cont_byte x" if "byte_in (fst (second_range c)) (snd (second_range c)) x" for x
    using that by (auto simp: second_range_def byte_in_def cont_byte_def Let_def split: if_splits)
  from assms(1) n cs show ?thesis
    by (auto simp: rune_size_def Let_def split_def dest!: two split: if_splits)
qed

lemma cut_rune:
  assumes "rune_size s = length s" and "0 < k" and "k < length s"
  shows "json_text (take k s) = concat (replicate k replacement)"
    and "json_text (drop k s) = concat (replicate (length s - k) replacement)"
proof -
  from assms obtain c cs j where s: "s = c # cs" and k: "k = Suc j" by (cases s; cases k) auto
  then have ne: "cs \<noteq> []" using assms by auto
  have conts: "list_all cont_byte cs" using rune_conts [of c cs] assms s ne by simp
  have n: "lead_size c = Suc (length cs)" using rune_size_lead [of c cs] assms(1) s by simp
  have "rune_size (c # take j cs) = 0"
    using rune_size_lead [of c "take j cs"] rune_size_le [of "c # take j cs"] n assms(3) s k by fastforce
  moreover have "list_all cont_byte (take j cs)" "list_all cont_byte (drop j cs)"
    using conts by (auto simp: list_all_iff dest: in_set_takeD in_set_dropD)
  ultimately show "json_text (take k s) = concat (replicate k replacement)"
    "json_text (drop k s) = concat (replicate (length s - k) replacement)"
    using s k assms(3) by (simp_all add: no_rune json_text_cont)
qed

section \<open>A shell's output\<close>

text \<open>What the control plane reads of the output frames of a stream, one after the other.\<close>

fun output_text :: "string \<Rightarrow> out_body list \<Rightarrow> string" where
  "output_text sid [] = []"
| "output_text sid (BShellOutput b # bs) =
     (if sout_stream_id b = sid then json_text (sout_data b) @ output_text sid bs else output_text sid bs)"
| "output_text sid (b # bs) = output_text sid bs"

lemma output_text_append: "output_text sid (xs @ ys) = output_text sid xs @ output_text sid ys"
  by (induction sid xs rule: output_text.induct) simp_all

lemma output_sent:
  "tn_sent (fold (\<lambda>d. shell_callback sid (OnOutput d)) ds t) =
     tn_sent t @ map (\<lambda>d. BShellOutput \<lparr>sout_stream_id = sid, sout_data = d\<rparr>) ds"
  by (induction ds arbitrary: t) (simp_all add: send_body_def)

lemma output_of_pieces:
  "output_text sid (tn_sent (fold (\<lambda>d. shell_callback sid (OnOutput d)) ds t)) =
     output_text sid (tn_sent t) @ concat (map json_text ds)"
proof -
  have "output_text sid (map (\<lambda>d. BShellOutput \<lparr>sout_stream_id = sid, sout_data = d\<rparr>) ds) = concat (map json_text ds)"
    by (induction ds) simp_all
  then show ?thesis by (simp add: output_sent output_text_append)
qed

text \<open>
  (safety). The output of a shell reaches the control plane unchanged when every piece the pump read
  consists of whole characters, ASCII always. A character of several bytes that is cut by the end of a
  read is lost: each of its bytes arrives as a replacement character.
\<close>

theorem cut_character_is_lost:
  assumes "\<forall>d\<in>set ds. whole d" and "\<forall>d\<in>set es. whole d" and "rune_size s = length s" and "0 < k" and "k < length s"
    and "tn_sent t = []"
  shows "output_text sid (tn_sent (fold (\<lambda>d. shell_callback sid (OnOutput d)) ds t)) = concat ds \<and>
    output_text sid (tn_sent (fold (\<lambda>d. shell_callback sid (OnOutput d)) (ds @ [take k s, drop k s] @ es) t)) =
      concat ds @ concat (replicate (length s) replacement) @ concat es"
proof -
  have map: "concat (map json_text xs) = concat xs" if "\<forall>d\<in>set xs. whole d" for xs
    using that by (induction xs) (simp_all add: json_text_whole)
  have "replicate (length s) replacement = replicate k replacement @ replicate (length s - k) replacement"
    using assms(5) by (metis le_add_diff_inverse less_imp_le replicate_add)
  then have cut: "concat (map json_text [take k s, drop k s]) = concat (replicate (length s) replacement)"
    using cut_rune [OF assms(3,4,5)] by simp
  have "concat (map json_text (ds @ [take k s, drop k s] @ es)) =
      concat ds @ concat (replicate (length s) replacement) @ concat es"
    unfolding map_append concat_append cut map [OF assms(1)] map [OF assms(2)] ..
  then show ?thesis unfolding output_of_pieces assms(6) map [OF assms(1)] by simp
qed

text \<open>The two bytes of U+00E9.\<close>

definition e_acute :: string where
  "e_acute = [char_of (0xC3 :: nat), char_of (0xA9 :: nat)]"

theorem cut_character_is_lost_witness:
  "output_text ''s'' (tn_sent (fold (\<lambda>d. shell_callback ''s'' (OnOutput d)) ([''ls''] @ [take 1 e_acute, drop 1 e_acute] @ []) new_tunnel)) =
     ''ls'' @ replacement @ replacement"
proof -
  have "whole ''ls''" by (rule whole_ascii) simp
  moreover have "rune_size e_acute = length e_acute" "length e_acute = 2"
    by (simp_all add: e_acute_def rune_size_def lead_size_def second_range_def byte_in_def Let_def)
  moreover have "tn_sent new_tunnel = []" by (simp add: new_tunnel_def)
  ultimately show ?thesis
    using cut_character_is_lost [of "[''ls'']" "[]" e_acute 1 new_tunnel "''s''"] by (simp add: numeral_2_eq_2)
qed

end
