(* ===== verification/Collector_Heap.thy ===== *)
theory Collector_Heap imports Collector begin

text \<open>
  The metrics collector with its objects (internal/metrics/collector.go). Buckets and the maps of engine
  metrics are objects that the table, a scrape in flight and a snapshot share: \<open>Snapshot\<close> puts the map
  itself into the heartbeat, and \<open>ScrapeVLLM\<close> holds a bucket while it waits for the engine. As long as
  nothing runs in between, the objects implement the values of Collector.
\<close>

section \<open>Objects\<close>

record bucket_object =
  bo_requests :: int
  bo_active :: int
  bo_hist :: peak_histogram
  bo_recipe :: string
  bo_model :: string
  bo_engine :: "nat option"

text \<open>Addresses from \<open>hp_next\<close> and \<open>hp_next_map\<close> on are free. A map that is nil has no address.\<close>

record collector_heap =
  hp_table :: "string \<rightharpoonup> nat"
  hp_buckets :: "nat \<Rightarrow> bucket_object"
  hp_maps :: "nat \<Rightarrow> (string \<rightharpoonup> f64)"
  hp_next :: nat
  hp_next_map :: nat

definition new_bucket_object :: "string \<Rightarrow> string \<Rightarrow> bucket_object" where
  "new_bucket_object recipe model =
     \<lparr>bo_requests = 0, bo_active = 0, bo_hist = new_peak_histogram 1000 collector_limits,
      bo_recipe = recipe, bo_model = model, bo_engine = None\<rparr>"

definition empty_heap :: collector_heap where
  "empty_heap = \<lparr>hp_table = Map.empty, hp_buckets = (\<lambda>_. new_bucket_object [] []), hp_maps = (\<lambda>_. Map.empty),
     hp_next = 0, hp_next_map = 0\<rparr>"

definition set_bucket :: "nat \<Rightarrow> bucket_object \<Rightarrow> collector_heap \<Rightarrow> collector_heap" where
  "set_bucket a b h = h\<lparr>hp_buckets := (hp_buckets h)(a := b)\<rparr>"

text \<open>\<open>getBucket\<close> returns the object.\<close>

definition heap_get_bucket :: "string \<Rightarrow> string \<Rightarrow> string \<Rightarrow> collector_heap \<Rightarrow> nat \<times> collector_heap" where
  "heap_get_bucket dep recipe model h =
     (case hp_table h dep of
        Some a \<Rightarrow>
          (a, set_bucket a ((hp_buckets h a)\<lparr>bo_recipe := (if recipe \<noteq> [] then recipe else bo_recipe (hp_buckets h a)),
                bo_model := (if model \<noteq> [] then model else bo_model (hp_buckets h a))\<rparr>) h)
      | None \<Rightarrow>
          (hp_next h, set_bucket (hp_next h) (new_bucket_object recipe model)
             (h\<lparr>hp_table := (hp_table h)(dep \<mapsto> hp_next h), hp_next := hp_next h + 1\<rparr>)))"

definition heap_record :: "string \<Rightarrow> string \<Rightarrow> string \<Rightarrow> int \<Rightarrow> collector_heap \<Rightarrow> collector_heap option" where
  "heap_record dep recipe model lat h =
     (let (a, h) = heap_get_bucket dep recipe model h; b = hp_buckets h a in do {
        hist \<leftarrow> hist_observe lat (bo_hist b);
        Some (set_bucket a (b\<lparr>bo_requests := bo_requests b + 1, bo_hist := hist\<rparr>) h)
      })"

definition heap_inc :: "string \<Rightarrow> collector_heap \<Rightarrow> collector_heap" where
  "heap_inc dep h =
     (let (a, h) = heap_get_bucket dep [] [] h; b = hp_buckets h a in set_bucket a (b\<lparr>bo_active := bo_active b + 1\<rparr>) h)"

definition heap_dec :: "string \<Rightarrow> collector_heap \<Rightarrow> collector_heap" where
  "heap_dec dep h =
     (let (a, h) = heap_get_bucket dep [] [] h; b = hp_buckets h a in set_bucket a (b\<lparr>bo_active := bo_active b - 1\<rparr>) h)"

definition heap_remove :: "string \<Rightarrow> collector_heap \<Rightarrow> collector_heap" where
  "heap_remove dep h = h\<lparr>hp_table := (hp_table h)(dep := None)\<rparr>"

section \<open>Scraping in steps\<close>

text \<open>The bucket of a scrape, or none when its recipe has nothing to scrape.\<close>

definition heap_scrape_start :: "string \<Rightarrow> collector_heap \<Rightarrow> nat option \<times> collector_heap" where
  "heap_scrape_start dep h =
     (let (a, h) = heap_get_bucket dep [] [] h in
      (if is_vllm_recipe (bo_recipe (hp_buckets h a)) then Some a else None, h))"

text \<open>The response is there: the map of the bucket, which is made when there is none.\<close>

definition heap_scrape_open :: "nat \<Rightarrow> collector_heap \<Rightarrow> nat \<times> collector_heap" where
  "heap_scrape_open a h =
     (case bo_engine (hp_buckets h a) of
        Some m \<Rightarrow> (m, h)
      | None \<Rightarrow>
          (hp_next_map h, set_bucket a ((hp_buckets h a)\<lparr>bo_engine := Some (hp_next_map h)\<rparr>)
             (h\<lparr>hp_maps := (hp_maps h)(hp_next_map h := Map.empty), hp_next_map := hp_next_map h + 1\<rparr>)))"

text \<open>One round of the scanner's loop.\<close>

definition heap_scrape_line :: "nat \<Rightarrow> string \<Rightarrow> collector_heap \<Rightarrow> collector_heap" where
  "heap_scrape_line m l h =
     (case parse_metric_line l of
        None \<Rightarrow> h
      | Some (k, v) \<Rightarrow>
          h\<lparr>hp_maps := (hp_maps h)(m := (hp_maps h m)(k \<mapsto> (case parse_f64 v of Some x \<Rightarrow> x | None \<Rightarrow> Dec 0 0)))\<rparr>)"

definition heap_scrape_lines :: "nat \<Rightarrow> string list \<Rightarrow> collector_heap \<Rightarrow> collector_heap" where
  "heap_scrape_lines m ls h = fold (heap_scrape_line m) ls h"

definition heap_scrape ::
  "(string \<Rightarrow> go_error + string list) \<Rightarrow> string \<Rightarrow> string \<Rightarrow> collector_heap \<Rightarrow> go_error option \<times> collector_heap" where
  "heap_scrape http_get dep url h =
     (case heap_scrape_start dep h of
        (None, h) \<Rightarrow> (None, h)
      | (Some a, h) \<Rightarrow>
          (case http_get (url @ ''/metrics'') of
             Inl e \<Rightarrow> (Some e, h)
           | Inr ls \<Rightarrow> (let (m, h) = heap_scrape_open a h in (None, heap_scrape_lines m ls h))))"

section \<open>Snapshots hold references\<close>

text \<open>What \<open>Snapshot\<close> puts into the heartbeat: numbers and texts, and the map of the bucket itself.\<close>

record metric_ref =
  mr_metric :: deployment_metric
  mr_engine :: "nat option"

definition abs_bucket :: "collector_heap \<Rightarrow> bucket_object \<Rightarrow> metrics_bucket" where
  "abs_bucket h b =
     \<lparr>mb_requests = bo_requests b, mb_active = bo_active b, mb_hist = bo_hist b, mb_recipe = bo_recipe b,
      mb_model = bo_model b, mb_engine = map_option (hp_maps h) (bo_engine b)\<rparr>"

definition heap_snapshot :: "(string \<rightharpoonup> runtime_info) \<Rightarrow> collector_heap \<Rightarrow> (string \<rightharpoonup> metric_ref)" where
  "heap_snapshot infos h = (\<lambda>dep. map_option (\<lambda>a.
     let b = hp_buckets h a in
     \<lparr>mr_metric = (bucket_metric (infos dep) dep (abs_bucket h b))\<lparr>dm_engine_metrics := None\<rparr>, mr_engine = bo_engine b\<rparr>)
     (hp_table h dep))"

definition heap_get_vllm_metrics :: "string \<Rightarrow> collector_heap \<Rightarrow> nat option" where
  "heap_get_vllm_metrics dep h = (case hp_table h dep of Some a \<Rightarrow> bo_engine (hp_buckets h a) | None \<Rightarrow> None)"

text \<open>The encoder reads the map when the heartbeat is written.\<close>

definition marshal_metric :: "collector_heap \<Rightarrow> metric_ref \<Rightarrow> deployment_metric" where
  "marshal_metric h r = (mr_metric r)\<lparr>dm_engine_metrics := map_option (hp_maps h) (mr_engine r)\<rparr>"

section \<open>The objects implement the values\<close>

definition abs_collector :: "collector_heap \<Rightarrow> collector" where
  "abs_collector h = (\<lambda>dep. map_option (\<lambda>a. abs_bucket h (hp_buckets h a)) (hp_table h dep))"

text \<open>No two deployments share a bucket, no two buckets, removed ones included, a map.\<close>

definition heap_ok :: "collector_heap \<Rightarrow> bool" where
  "heap_ok h \<longleftrightarrow>
     (\<forall>d a. hp_table h d = Some a \<longrightarrow> a < hp_next h) \<and>
     (\<forall>d e a. hp_table h d = Some a \<longrightarrow> hp_table h e = Some a \<longrightarrow> d = e) \<and>
     (\<forall>a m. a < hp_next h \<longrightarrow> bo_engine (hp_buckets h a) = Some m \<longrightarrow> m < hp_next_map h) \<and>
     (\<forall>a b m. a < hp_next h \<longrightarrow> b < hp_next h \<longrightarrow> bo_engine (hp_buckets h a) = Some m \<longrightarrow>
        bo_engine (hp_buckets h b) = Some m \<longrightarrow> a = b)"

lemma heap_okD:
  assumes "heap_ok h"
  shows "hp_table h d = Some a \<Longrightarrow> a < hp_next h"
    "hp_table h d = Some a \<Longrightarrow> hp_table h e = Some a \<Longrightarrow> d = e"
    "a < hp_next h \<Longrightarrow> bo_engine (hp_buckets h a) = Some m \<Longrightarrow> m < hp_next_map h"
    "a < hp_next h \<Longrightarrow> b < hp_next h \<Longrightarrow> bo_engine (hp_buckets h a) = Some m \<Longrightarrow>
       bo_engine (hp_buckets h b) = Some m \<Longrightarrow> a = b"
  using assms unfolding heap_ok_def by blast+

lemma heap_okI:
  assumes "\<And>d a. hp_table h d = Some a \<Longrightarrow> a < hp_next h"
    and "\<And>d e a. hp_table h d = Some a \<Longrightarrow> hp_table h e = Some a \<Longrightarrow> d = e"
    and "\<And>a m. a < hp_next h \<Longrightarrow> bo_engine (hp_buckets h a) = Some m \<Longrightarrow> m < hp_next_map h"
    and "\<And>a b m. a < hp_next h \<Longrightarrow> b < hp_next h \<Longrightarrow> bo_engine (hp_buckets h a) = Some m \<Longrightarrow>
      bo_engine (hp_buckets h b) = Some m \<Longrightarrow> a = b"
  shows "heap_ok h"
  using assms unfolding heap_ok_def by blast

lemma set_bucket_simps [simp]:
  "hp_table (set_bucket a b h) = hp_table h" "hp_maps (set_bucket a b h) = hp_maps h"
  "hp_next (set_bucket a b h) = hp_next h" "hp_next_map (set_bucket a b h) = hp_next_map h"
  "hp_buckets (set_bucket a b h) = (hp_buckets h)(a := b)" "abs_bucket (set_bucket a b h) = abs_bucket h"
  by (simp_all add: set_bucket_def abs_bucket_def fun_eq_iff)

lemma set_bucket_abs:
  assumes "heap_ok h" and "hp_table h dep = Some a"
  shows "abs_collector (set_bucket a b h) = (abs_collector h)(dep \<mapsto> abs_bucket h b)"
proof
  fix d
  show "abs_collector (set_bucket a b h) d = ((abs_collector h)(dep \<mapsto> abs_bucket h b)) d"
    using assms heap_okD(2) [OF assms(1), of d a dep] by (cases "hp_table h d") (auto simp: abs_collector_def)
qed

lemma set_bucket_ok:
  assumes "heap_ok h" and "bo_engine b = bo_engine (hp_buckets h a)"
  shows "heap_ok (set_bucket a b h)"
proof -
  have eq: "bo_engine (hp_buckets (set_bucket a b h) c) = bo_engine (hp_buckets h c)" for c using assms(2) by simp
  show ?thesis using assms(1) unfolding heap_ok_def eq set_bucket_simps(1,3,4) .
qed

lemma get_bucket_refines:
  assumes "heap_ok h" and "heap_get_bucket dep recipe model h = (a, h')"
  shows "heap_ok h'" "hp_table h' dep = Some a" "abs_bucket h' (hp_buckets h' a) = get_bucket dep recipe model (abs_collector h)"
    "abs_collector h' = (abs_collector h)(dep \<mapsto> get_bucket dep recipe model (abs_collector h))"
proof -
  have "heap_ok h' \<and> hp_table h' dep = Some a \<and> abs_bucket h' (hp_buckets h' a) = get_bucket dep recipe model (abs_collector h) \<and>
    abs_collector h' = (abs_collector h)(dep \<mapsto> get_bucket dep recipe model (abs_collector h))"
  proof (cases "hp_table h dep")
    case (Some c)
    define b where "b = (hp_buckets h c)\<lparr>bo_recipe := (if recipe \<noteq> [] then recipe else bo_recipe (hp_buckets h c)),
      bo_model := (if model \<noteq> [] then model else bo_model (hp_buckets h c))\<rparr>"
    have "heap_get_bucket dep recipe model h = (c, set_bucket c b h)" by (simp add: heap_get_bucket_def b_def Some)
    then have h: "a = c" "h' = set_bucket c b h" using assms(2) by simp_all
    have g: "get_bucket dep recipe model (abs_collector h) = abs_bucket h b"
      using Some by (simp add: get_bucket_def abs_collector_def abs_bucket_def b_def)
    have "bo_engine b = bo_engine (hp_buckets h c)" by (simp add: b_def)
    from set_bucket_abs [OF assms(1) Some, of b] set_bucket_ok [OF assms(1) this] Some g show ?thesis by (simp add: h)
  next
    case None
    let ?b = "new_bucket_object recipe model"
    have h: "a = hp_next h" "h' = set_bucket (hp_next h) ?b (h\<lparr>hp_table := (hp_table h)(dep \<mapsto> hp_next h), hp_next := hp_next h + 1\<rparr>)"
      using assms(2) None by (auto simp: heap_get_bucket_def)
    have g: "get_bucket dep recipe model (abs_collector h) = abs_bucket h' ?b"
      using None by (simp add: get_bucket_def abs_collector_def abs_bucket_def new_bucket_def new_bucket_object_def)
    have fresh: "c \<noteq> hp_next h" if "hp_table h d = Some c" for d c using heap_okD(1) [OF assms(1) that] by simp
    have parts: "hp_table h' = (hp_table h)(dep \<mapsto> hp_next h)" "hp_next h' = Suc (hp_next h)" "hp_next_map h' = hp_next_map h"
      "bo_engine (hp_buckets h' c) = (if c = hp_next h then None else bo_engine (hp_buckets h c))" for c
      by (simp_all add: h(2) new_bucket_object_def)
    have ok: "heap_ok h'"
    proof (rule heap_okI; unfold parts)
      fix d c assume "((hp_table h)(dep \<mapsto> hp_next h)) d = Some c"
      then show "c < Suc (hp_next h)" using heap_okD(1) [OF assms(1), of d c] by (auto split: if_splits)
    next
      fix d e c assume "((hp_table h)(dep \<mapsto> hp_next h)) d = Some c" "((hp_table h)(dep \<mapsto> hp_next h)) e = Some c"
      then show "d = e" using fresh [of d c] fresh [of e c] heap_okD(2) [OF assms(1), of d c e] by (auto split: if_splits)
    next
      fix c k assume "c < Suc (hp_next h)" "(if c = hp_next h then None else bo_engine (hp_buckets h c)) = Some k"
      then show "k < hp_next_map h" using heap_okD(3) [OF assms(1), of c k] by (auto split: if_splits)
    next
      fix b c k assume "b < Suc (hp_next h)" "c < Suc (hp_next h)" "(if b = hp_next h then None else bo_engine (hp_buckets h b)) = Some k"
        "(if c = hp_next h then None else bo_engine (hp_buckets h c)) = Some k"
      then show "b = c" using heap_okD(4) [OF assms(1), of b c k] by (auto split: if_splits)
    qed
    have "abs_collector h' d = ((abs_collector h)(dep \<mapsto> abs_bucket h' ?b)) d" for d
      using fresh [of d] by (cases "hp_table h d") (auto simp: h abs_collector_def abs_bucket_def)
    with ok g h show ?thesis by (auto simp: fun_eq_iff)
  qed
  then show "heap_ok h'" "hp_table h' dep = Some a" "abs_bucket h' (hp_buckets h' a) = get_bucket dep recipe model (abs_collector h)"
    "abs_collector h' = (abs_collector h)(dep \<mapsto> get_bucket dep recipe model (abs_collector h))" by simp_all
qed

lemma scrape_lines_fold: "hp_maps (heap_scrape_lines m ls h) = (hp_maps h)(m := scrape_lines ls (hp_maps h m))"
proof (induction ls arbitrary: h)
  case (Cons l ls)
  then show ?case
    by (auto simp: heap_scrape_lines_def heap_scrape_line_def fun_eq_iff split: option.split)
qed (simp add: heap_scrape_lines_def)

lemma scrape_lines_frame [simp]:
  "hp_table (heap_scrape_lines m ls h) = hp_table h" "hp_buckets (heap_scrape_lines m ls h) = hp_buckets h"
  "hp_next (heap_scrape_lines m ls h) = hp_next h" "hp_next_map (heap_scrape_lines m ls h) = hp_next_map h"
  by (induction ls arbitrary: h) (auto simp: heap_scrape_lines_def heap_scrape_line_def split: option.split)

lemma scrape_lines_ok: "heap_ok (heap_scrape_lines m ls h) = heap_ok h"
  by (simp add: heap_ok_def)

lemma scrape_lines_abs:
  assumes "heap_ok h" and "hp_table h dep = Some a" and "bo_engine (hp_buckets h a) = Some m"
  shows "abs_collector (heap_scrape_lines m ls h) =
    (abs_collector h)(dep \<mapsto> (abs_bucket h (hp_buckets h a))\<lparr>mb_engine := Some (scrape_lines ls (hp_maps h m))\<rparr>)"
proof
  fix d
  have "bo_engine (hp_buckets h c) \<noteq> Some m" if "hp_table h d = Some c" "d \<noteq> dep" for c
    using that assms heap_okD(1,2,4) [OF assms(1)] by metis
  then show "abs_collector (heap_scrape_lines m ls h) d =
    ((abs_collector h)(dep \<mapsto> (abs_bucket h (hp_buckets h a))\<lparr>mb_engine := Some (scrape_lines ls (hp_maps h m))\<rparr>)) d"
    using assms by (cases "hp_table h d"; cases "bo_engine (hp_buckets h (the (hp_table h d)))")
      (auto simp: abs_collector_def abs_bucket_def scrape_lines_fold)
qed

lemma scrape_open_refines:
  assumes "heap_ok h" and "hp_table h dep = Some a" and "heap_scrape_open a h = (m, h')"
  shows "heap_ok h'" "hp_table h' = hp_table h" "bo_engine (hp_buckets h' a) = Some m"
    "hp_maps h' m = (case bo_engine (hp_buckets h a) of None \<Rightarrow> Map.empty | Some n \<Rightarrow> hp_maps h n)"
    "abs_collector h' = (abs_collector h)(dep \<mapsto> (abs_bucket h (hp_buckets h a))\<lparr>mb_engine := Some (hp_maps h' m)\<rparr>)"
proof -
  have "heap_ok h' \<and> hp_table h' = hp_table h \<and> bo_engine (hp_buckets h' a) = Some m \<and>
    hp_maps h' m = (case bo_engine (hp_buckets h a) of None \<Rightarrow> Map.empty | Some n \<Rightarrow> hp_maps h n) \<and>
    abs_collector h' = (abs_collector h)(dep \<mapsto> (abs_bucket h (hp_buckets h a))\<lparr>mb_engine := Some (hp_maps h' m)\<rparr>)"
  proof (cases "bo_engine (hp_buckets h a)")
    case (Some n)
    then have "m = n" "h' = h" using assms(3) by (simp_all add: heap_scrape_open_def)
    with assms Some show ?thesis by (auto simp: abs_collector_def abs_bucket_def fun_eq_iff)
  next
    case None
    let ?n = "hp_next_map h"
    have h: "m = ?n" "h' = set_bucket a ((hp_buckets h a)\<lparr>bo_engine := Some ?n\<rparr>) (h\<lparr>hp_maps := (hp_maps h)(?n := Map.empty), hp_next_map := ?n + 1\<rparr>)"
      using assms(3) None by (auto simp: heap_scrape_open_def)
    have eng: "k < ?n" if "bo_engine (hp_buckets h c) = Some k" "hp_table h d = Some c" for c d k
      using that heap_okD(1,3) [OF assms(1)] by blast
    have parts: "hp_table h' = hp_table h" "hp_next h' = hp_next h" "hp_next_map h' = Suc ?n"
      "bo_engine (hp_buckets h' c) = (if c = a then Some ?n else bo_engine (hp_buckets h c))" for c
      by (simp_all add: h(2))
    have ok: "heap_ok h'"
    proof (rule heap_okI; unfold parts)
      fix c k assume "c < hp_next h" "(if c = a then Some ?n else bo_engine (hp_buckets h c)) = Some k"
      then show "k < Suc ?n" using heap_okD(3) [OF assms(1), of c k] by (auto split: if_splits)
    next
      fix b c k assume "b < hp_next h" "c < hp_next h" "(if b = a then Some ?n else bo_engine (hp_buckets h b)) = Some k"
        "(if c = a then Some ?n else bo_engine (hp_buckets h c)) = Some k"
      then show "b = c" using heap_okD(3) [OF assms(1), of b k] heap_okD(3) [OF assms(1), of c k] heap_okD(4) [OF assms(1), of b c k]
        by (auto split: if_splits)
    qed (use heap_okD(1,2) [OF assms(1)] in blast)+
    have "abs_collector h' d = ((abs_collector h)(dep \<mapsto> (abs_bucket h (hp_buckets h a))\<lparr>mb_engine := Some (hp_maps h' m)\<rparr>)) d" for d
    proof (cases "hp_table h d")
      case (Some c)
      then have "d = dep \<or> c \<noteq> a" using heap_okD(2) [OF assms(1)] assms(2) by auto
      with Some assms(2) eng [of c _ d] show ?thesis
        by (cases "bo_engine (hp_buckets h c)") (auto simp: h abs_collector_def abs_bucket_def)
    qed (use assms(2) in \<open>auto simp: h abs_collector_def\<close>)
    with ok h None show ?thesis by (auto simp: fun_eq_iff)
  qed
  then show "heap_ok h'" "hp_table h' = hp_table h" "bo_engine (hp_buckets h' a) = Some m"
    "hp_maps h' m = (case bo_engine (hp_buckets h a) of None \<Rightarrow> Map.empty | Some n \<Rightarrow> hp_maps h n)"
    "abs_collector h' = (abs_collector h)(dep \<mapsto> (abs_bucket h (hp_buckets h a))\<lparr>mb_engine := Some (hp_maps h' m)\<rparr>)" by simp_all
qed

lemma counters_refine:
  assumes "heap_ok h"
  shows "heap_ok (heap_inc dep h) \<and> abs_collector (heap_inc dep h) = inc_active dep (abs_collector h)"
    and "heap_ok (heap_dec dep h) \<and> abs_collector (heap_dec dep h) = dec_active dep (abs_collector h)"
proof -
  obtain a h' where g: "heap_get_bucket dep [] [] h = (a, h')" by fastforce
  note r = get_bucket_refines [OF assms g]
  have "heap_ok (set_bucket a ((hp_buckets h' a)\<lparr>bo_active := n\<rparr>) h') \<and>
      abs_collector (set_bucket a ((hp_buckets h' a)\<lparr>bo_active := n\<rparr>) h') =
      (abs_collector h)(dep \<mapsto> (get_bucket dep [] [] (abs_collector h))\<lparr>mb_active := n\<rparr>)" for n
    using set_bucket_ok [OF r(1), of _ a] set_bucket_abs [OF r(1,2)] r(4) unfolding r(3) [symmetric] by (simp add: abs_bucket_def)
  moreover have "bo_active (hp_buckets h' a) = mb_active (get_bucket dep [] [] (abs_collector h))"
    unfolding r(3) [symmetric] by (simp add: abs_bucket_def)
  ultimately show "heap_ok (heap_inc dep h) \<and> abs_collector (heap_inc dep h) = inc_active dep (abs_collector h)"
    and "heap_ok (heap_dec dep h) \<and> abs_collector (heap_dec dep h) = dec_active dep (abs_collector h)"
    by (simp_all add: heap_inc_def heap_dec_def inc_active_def dec_active_def g Let_def)
qed

lemma remove_refines:
  assumes "heap_ok h"
  shows "heap_ok (heap_remove dep h) \<and> abs_collector (heap_remove dep h) = remove_deployment dep (abs_collector h)"
proof -
  have "heap_ok (heap_remove dep h)"
    by (rule heap_okI) (use heap_okD [OF assms] in \<open>auto simp: heap_remove_def split: if_splits\<close>)
  then show ?thesis by (auto simp: heap_remove_def remove_deployment_def abs_collector_def abs_bucket_def fun_eq_iff)
qed

lemma record_refines:
  assumes "heap_ok h"
  shows "map_option abs_collector (heap_record dep recipe model lat h) = record_request dep recipe model lat (abs_collector h)"
    and "heap_record dep recipe model lat h = Some k \<Longrightarrow> heap_ok k"
proof -
  obtain a h' where g: "heap_get_bucket dep recipe model h = (a, h')" by fastforce
  note r = get_bucket_refines [OF assms g]
  define c where "c = get_bucket dep recipe model (abs_collector h)"
  have parts: "mb_hist c = bo_hist (hp_buckets h' a)" "mb_requests c = bo_requests (hp_buckets h' a)"
    using r(3) by (simp_all add: c_def [symmetric] abs_bucket_def)
      (metis metrics_bucket.select_convs)+
  let ?b = "\<lambda>hist. (hp_buckets h' a)\<lparr>bo_requests := bo_requests (hp_buckets h' a) + 1, bo_hist := hist\<rparr>"
  have "abs_collector (set_bucket a (?b hist) h') = (abs_collector h)(dep \<mapsto> c\<lparr>mb_requests := mb_requests c + 1, mb_hist := hist\<rparr>)" for hist
    using set_bucket_abs [OF r(1,2)] r(4) unfolding parts c_def r(3) [symmetric] by (simp add: abs_bucket_def)
  then show "map_option abs_collector (heap_record dep recipe model lat h) = record_request dep recipe model lat (abs_collector h)"
    by (cases "hist_observe lat (bo_hist (hp_buckets h' a))")
      (simp_all add: heap_record_def record_request_def g parts Let_def flip: c_def)
  show "heap_ok k" if "heap_record dep recipe model lat h = Some k"
    using that set_bucket_ok [OF r(1), of _ a] by (auto simp: heap_record_def g Let_def split: bind_splits)
qed

lemma scrape_refines:
  assumes "heap_ok h"
  shows "heap_ok (snd (heap_scrape http_get dep url h))"
    and "map_prod id abs_collector (heap_scrape http_get dep url h) = scrape_vllm http_get dep url (abs_collector h)"
proof -
  obtain a h' where g: "heap_get_bucket dep [] [] h = (a, h')" by fastforce
  note r = get_bucket_refines [OF assms g]
  define c where "c = get_bucket dep [] [] (abs_collector h)"
  have recipe: "mb_recipe c = bo_recipe (hp_buckets h' a)" and eng: "mb_engine c = map_option (hp_maps h') (bo_engine (hp_buckets h' a))"
    unfolding c_def r(3) [symmetric] by (simp_all add: abs_bucket_def)
  obtain m k where o: "heap_scrape_open a h' = (m, k)" by fastforce
  note s = scrape_open_refines [OF r(1,2) o]
  have "abs_collector (heap_scrape_lines m ls k) = (abs_collector h)(dep \<mapsto> c\<lparr>mb_engine := Some (scrape_lines ls
      (case mb_engine c of None \<Rightarrow> Map.empty | Some m \<Rightarrow> m))\<rparr>)" for ls
  proof -
    have "abs_bucket k (hp_buckets k a) = c\<lparr>mb_engine := Some (hp_maps k m)\<rparr>"
    proof -
      have "abs_collector k dep = Some (c\<lparr>mb_engine := Some (hp_maps k m)\<rparr>)"
        using fun_cong [OF s(5), of dep] by (simp add: r(3) c_def)
      moreover have "abs_collector k dep = Some (abs_bucket k (hp_buckets k a))" by (simp add: abs_collector_def s(2) r(2))
      ultimately show ?thesis by simp
    qed
    moreover have "hp_maps k m = (case mb_engine c of None \<Rightarrow> Map.empty | Some m \<Rightarrow> m)"
      using s(4) by (simp add: eng split: option.split)
    ultimately show ?thesis
      using scrape_lines_abs [OF s(1) _ s(3), of dep ls] s(2,5) r(2,3,4) by (simp add: c_def)
  qed
  then show "heap_ok (snd (heap_scrape http_get dep url h))"
    and "map_prod id abs_collector (heap_scrape http_get dep url h) = scrape_vllm http_get dep url (abs_collector h)"
    using r(1,4) s(1)
    by (simp_all add: heap_scrape_def heap_scrape_start_def scrape_vllm_def g o recipe scrape_lines_ok Let_def flip: c_def split: sum.split)
qed

section \<open>Runs\<close>

datatype heap_event =
    HpInc string
  | HpDec string
  | HpRecord string string string int
  | HpRemove string
  | HpScrape "string \<Rightarrow> go_error + string list" string string

fun heap_step :: "heap_event \<Rightarrow> collector_heap \<Rightarrow> collector_heap option" where
  "heap_step (HpInc dep) h = Some (heap_inc dep h)"
| "heap_step (HpDec dep) h = Some (heap_dec dep h)"
| "heap_step (HpRecord dep r m lat) h = heap_record dep r m lat h"
| "heap_step (HpRemove dep) h = Some (heap_remove dep h)"
| "heap_step (HpScrape get dep url) h = Some (snd (heap_scrape get dep url h))"

fun value_step :: "heap_event \<Rightarrow> collector \<Rightarrow> collector option" where
  "value_step (HpInc dep) c = Some (inc_active dep c)"
| "value_step (HpDec dep) c = Some (dec_active dep c)"
| "value_step (HpRecord dep r m lat) c = record_request dep r m lat c"
| "value_step (HpRemove dep) c = Some (remove_deployment dep c)"
| "value_step (HpScrape get dep url) c = Some (snd (scrape_vllm get dep url c))"

fun heap_run :: "heap_event list \<Rightarrow> collector_heap \<Rightarrow> collector_heap option" where
  "heap_run [] h = Some h"
| "heap_run (e # es) h = heap_step e h \<bind> heap_run es"

fun value_run :: "heap_event list \<Rightarrow> collector \<Rightarrow> collector option" where
  "value_run [] c = Some c"
| "value_run (e # es) c = value_step e c \<bind> value_run es"

lemma heap_step_refines:
  assumes "heap_ok h"
  shows "map_option abs_collector (heap_step e h) = value_step e (abs_collector h)"
    and "heap_step e h = Some h' \<Longrightarrow> heap_ok h'"
proof -
  have "abs_collector (snd (heap_scrape get dep url h)) = snd (scrape_vllm get dep url (abs_collector h))" for get dep url
    using arg_cong [OF scrape_refines(2) [OF assms, of get dep url], of snd] by simp
  then show "map_option abs_collector (heap_step e h) = value_step e (abs_collector h)"
    using counters_refine [OF assms] remove_refines [OF assms] record_refines(1) [OF assms] by (cases e) simp_all
  show "heap_step e h = Some h' \<Longrightarrow> heap_ok h'"
    using counters_refine [OF assms] remove_refines [OF assms] record_refines(2) [OF assms] scrape_refines(1) [OF assms]
    by (cases e) auto
qed

lemma heap_run_refines:
  "heap_ok h \<Longrightarrow> map_option abs_collector (heap_run es h) = value_run es (abs_collector h) \<and>
     (\<forall>h'. heap_run es h = Some h' \<longrightarrow> heap_ok h')"
proof (induction es arbitrary: h)
  case (Cons e es)
  note step = heap_step_refines [OF Cons.prems, of e]
  show ?case
  proof (cases "heap_step e h")
    case None
    with step(1) show ?thesis by (simp flip: step(1))
  next
    case (Some h')
    with step(1) Cons.IH [OF step(2) [OF Some]] show ?thesis by (simp flip: step(1))
  qed
qed simp

lemma empty_heap_ok: "heap_ok empty_heap" "abs_collector empty_heap = new_collector"
  by (simp_all add: heap_ok_def empty_heap_def abs_collector_def new_collector_def fun_eq_iff)

lemma snapshot_refines: "(\<lambda>dep. map_option (marshal_metric h) (heap_snapshot infos h dep)) = metrics_snapshot infos (abs_collector h)"
proof
  fix dep
  show "map_option (marshal_metric h) (heap_snapshot infos h dep) = metrics_snapshot infos (abs_collector h) dep"
    by (cases "hp_table h dep")
      (simp_all add: heap_snapshot_def metrics_snapshot_def abs_collector_def marshal_metric_def bucket_metric_def abs_bucket_def Let_def)
qed

text \<open>
  C34 (refinement). The objects implement the values: after any run of the collector's methods the objects
  stand for what the value functions give, a panic included, and a heartbeat that is encoded before
  anything else happens carries the snapshot of those values.
\<close>

theorem collector_heap_refines:
  "map_option (\<lambda>h. (abs_collector h, \<lambda>dep. map_option (marshal_metric h) (heap_snapshot infos h dep))) (heap_run es empty_heap) =
   map_option (\<lambda>c. (c, metrics_snapshot infos c)) (value_run es new_collector)"
proof -
  have "value_run es new_collector = map_option abs_collector (heap_run es empty_heap)"
    using heap_run_refines [OF empty_heap_ok(1), of es] by (simp add: empty_heap_ok(2))
  then show ?thesis by (cases "heap_run es empty_heap") (simp_all add: snapshot_refines)
qed

section \<open>What goes on while a heartbeat waits to be encoded\<close>

lemma scrape_start_refines:
  assumes "heap_ok h" and "heap_scrape_start dep h = (Some a, h')"
  shows "heap_ok h'" "hp_table h' dep = Some a" "hp_maps h' = hp_maps h"
    "hp_table h dep = Some b \<Longrightarrow> a = b \<and> bo_engine (hp_buckets h' a) = bo_engine (hp_buckets h a)"
    "abs_collector h' = (abs_collector h)(dep \<mapsto> get_bucket dep [] [] (abs_collector h))"
proof -
  from assms(2) have g: "heap_get_bucket dep [] [] h = (a, h')"
    by (auto simp: heap_scrape_start_def Let_def split: prod.splits if_splits)
  show "heap_ok h'" "hp_table h' dep = Some a" "abs_collector h' = (abs_collector h)(dep \<mapsto> get_bucket dep [] [] (abs_collector h))"
    using get_bucket_refines [OF assms(1) g] by simp_all
  show "hp_maps h' = hp_maps h" "hp_table h dep = Some b \<Longrightarrow> a = b \<and> bo_engine (hp_buckets h' a) = bo_engine (hp_buckets h a)"
    using g by (auto simp: heap_get_bucket_def split: option.splits)
qed

lemma marshal_later:
  assumes "hp_table h dep = Some b"
  shows "\<exists>r. metrics_snapshot infos (abs_collector h) dep = Some r \<and>
    dm_engine_metrics r = map_option (hp_maps h) (bo_engine (hp_buckets h b)) \<and>
    (\<forall>h'. map_option (marshal_metric h') (heap_snapshot infos h dep) =
       Some (r\<lparr>dm_engine_metrics := map_option (hp_maps h') (bo_engine (hp_buckets h b))\<rparr>))"
  using assms
  by (cases "infos dep") (simp_all add: heap_snapshot_def metrics_snapshot_def abs_collector_def marshal_metric_def bucket_metric_def
      abs_bucket_def Let_def)

text \<open>
  (safety). The heartbeat is not a snapshot. Its counters are those of the moment \<open>Snapshot\<close> ran; its
  engine metrics are those of the moment it is encoded, because the map is shared: when a scrape runs
  in between, after each line that was read the heartbeat would be encoded with exactly the lines up to
  there. A deployment without a map at the snapshot stays without one.
\<close>

theorem heartbeat_shows_half_a_scrape:
  assumes "heap_run es empty_heap = Some h" and "heap_scrape_start dep h = (Some a, h1)"
    and "heap_scrape_open a h1 = (m, h2)" and "h3 = heap_scrape_lines m (take k ls) h2"
  shows "map_option (marshal_metric h3) (heap_snapshot infos h dep) =
    map_option (\<lambda>r. r\<lparr>dm_engine_metrics := map_option (scrape_lines (take k ls)) (dm_engine_metrics r)\<rparr>)
      (metrics_snapshot infos (abs_collector h) dep)"
proof (cases "hp_table h dep")
  case (Some b)
  have ok: "heap_ok h" using heap_run_refines [OF empty_heap_ok(1), of es] assms(1) by blast
  note start = scrape_start_refines [OF ok assms(2)]
  have b: "a = b" "bo_engine (hp_buckets h1 a) = bo_engine (hp_buckets h b)" using start(4) [OF Some] by auto
  from marshal_later [OF Some, of infos] obtain r where r: "metrics_snapshot infos (abs_collector h) dep = Some r"
    "dm_engine_metrics r = map_option (hp_maps h) (bo_engine (hp_buckets h b))"
    "map_option (marshal_metric h3) (heap_snapshot infos h dep) =
       Some (r\<lparr>dm_engine_metrics := map_option (hp_maps h3) (bo_engine (hp_buckets h b))\<rparr>)" by blast
  have "hp_maps h3 n = scrape_lines (take k ls) (hp_maps h n)" if "bo_engine (hp_buckets h b) = Some n" for n
    using that b assms(3) start(3) by (auto simp: assms(4) heap_scrape_open_def scrape_lines_fold)
  with r show ?thesis by (cases "bo_engine (hp_buckets h b)") simp_all
qed (simp add: heap_snapshot_def metrics_snapshot_def abs_collector_def)

text \<open>
  (safety). A scrape and an unload. One that was waiting for the engine when its deployment was removed
  writes into objects nobody sees any more. One that starts after the removal asks nothing of the
  engine, but makes the bucket anew, and later heartbeats report it.
\<close>

theorem scrape_around_unload:
  assumes "heap_run es empty_heap = Some h" and "heap_scrape_start dep h = (Some a, h1)"
    and "heap_scrape_open a (heap_remove dep h1) = (m, h2)"
  shows "abs_collector (heap_scrape_lines m ls h2) = remove_deployment dep (abs_collector h) \<and>
    scrape_vllm http_get dep url (remove_deployment dep (abs_collector h)) =
      (None, (abs_collector h)(dep \<mapsto> new_bucket [] []))"
proof (rule conjI)
  have ok: "heap_ok h" using heap_run_refines [OF empty_heap_ok(1), of es] assms(1) by blast
  note start = scrape_start_refines [OF ok assms(2)]
  have others: "hp_buckets h2 c = hp_buckets h1 c \<and> bo_engine (hp_buckets h1 c) \<noteq> Some m"
    if "hp_table h1 d = Some c" "d \<noteq> dep" for c d
  proof -
    have c: "c < hp_next h1" "a < hp_next h1" "c \<noteq> a" using that start(2) heap_okD(1,2) [OF start(1)] by blast+
    show ?thesis
    proof (cases "bo_engine (hp_buckets h1 a)")
      case None
      then have "m = hp_next_map h1" using assms(3) by (auto simp: heap_scrape_open_def heap_remove_def)
      with None c heap_okD(3) [OF start(1) c(1), of m] show ?thesis using assms(3)
        by (auto simp: heap_scrape_open_def heap_remove_def)
    next
      case (Some n)
      with c heap_okD(4) [OF start(1) c(1,2)] show ?thesis using assms(3)
        by (auto simp: heap_scrape_open_def heap_remove_def)
    qed
  qed
  show "abs_collector (heap_scrape_lines m ls h2) = remove_deployment dep (abs_collector h)"
  proof
    fix d
    have maps: "hp_maps h2 x = hp_maps h1 x" if "x \<noteq> m" for x
      using that assms(3) by (auto simp: heap_scrape_open_def heap_remove_def split: option.splits)
    have table: "hp_table h2 = (hp_table h1)(dep := None)"
      using assms(3) by (auto simp: heap_scrape_open_def heap_remove_def split: option.splits)
    have "abs_collector h1 d = abs_collector h d" if "d \<noteq> dep" using start(5) that by simp
    moreover have "abs_collector (heap_scrape_lines m ls h2) d = abs_collector h1 d" if "d \<noteq> dep"
    proof (cases "hp_table h1 d")
      case (Some c)
      with others [OF Some that] that show ?thesis
        by (cases "bo_engine (hp_buckets h1 c)") (auto simp: abs_collector_def abs_bucket_def table scrape_lines_fold maps)
    qed (simp add: abs_collector_def table that)
    moreover have "abs_collector (heap_scrape_lines m ls h2) dep = None" by (simp add: abs_collector_def table)
    ultimately show "abs_collector (heap_scrape_lines m ls h2) d = remove_deployment dep (abs_collector h) d"
      by (cases "d = dep") (simp_all add: remove_deployment_def)
  qed
  show "scrape_vllm http_get dep url (remove_deployment dep (abs_collector h)) = (None, (abs_collector h)(dep \<mapsto> new_bucket [] []))"
    by (simp add: scrape_vllm_def get_bucket_def remove_deployment_def new_bucket_def is_vllm_recipe_def contains_str_def has_prefix_def Let_def)
qed

text \<open>A collector that counted one request of a vLLM deployment and scraped it once.\<close>

definition scraped_once :: "heap_event list" where
  "scraped_once = [HpRecord ''d'' ''vllm'' ''m'' 5, HpScrape (\<lambda>_. Inr [''vllm:q 1'']) ''d'' []]"

lemma metric_line: "parse_metric_line ''vllm:q 1'' = Some (''vllm:q'', ''1'')" "parse_metric_line ''vllm:q 2'' = Some (''vllm:q'', ''2'')"
  by code_simp+

lemma metric_value: "parse_f64 ''1'' = Some (Dec 1 0)" "parse_f64 ''2'' = Some (Dec 2 0)"
  by code_simp+

lemma scraped_once_run:
  "\<exists>h. heap_run scraped_once empty_heap = Some h \<and> hp_table h = [''d'' \<mapsto> 0] \<and> bo_recipe (hp_buckets h 0) = ''vllm'' \<and>
     bo_engine (hp_buckets h 0) = Some 0 \<and> hp_maps h 0 = [''vllm:q'' \<mapsto> Dec 1 0]"
proof -
  have "hist_inv (new_peak_histogram 1000 collector_limits)" by (rule hist_inv_new) (simp add: collector_limits_def)
  moreover have "ph_cur (new_peak_histogram 1000 collector_limits) < int (length (ph_buffer (new_peak_histogram 1000 collector_limits)))"
    by (simp add: new_peak_histogram_def)
  ultimately obtain hist where hist: "hist_observe 5 (new_peak_histogram 1000 collector_limits) = Some hist"
    using hist_observe_filling by blast
  show ?thesis
    by (simp add: scraped_once_def empty_heap_def heap_record_def heap_get_bucket_def new_bucket_object_def hist heap_scrape_def
        heap_scrape_start_def heap_scrape_open_def heap_scrape_lines_def heap_scrape_line_def is_vllm_recipe_def set_bucket_def
        metric_line metric_value Let_def)
qed

theorem heartbeat_shows_half_a_scrape_witness:
  "\<exists>h h1 m h2. heap_run scraped_once empty_heap = Some h \<and> heap_scrape_start ''d'' h = (Some 0, h1) \<and>
     heap_scrape_open 0 h1 = (m, h2) \<and>
     map_option dm_engine_metrics (map_option (marshal_metric (heap_scrape_lines m (take 1 [''vllm:q 2'', ''vllm:q 1'']) h2))
       (heap_snapshot (\<lambda>_. None) h ''d'')) = Some (Some [''vllm:q'' \<mapsto> Dec 2 0])"
proof -
  obtain h where h: "heap_run scraped_once empty_heap = Some h" "hp_table h = [''d'' \<mapsto> 0]" "bo_recipe (hp_buckets h 0) = ''vllm''"
    "bo_engine (hp_buckets h 0) = Some 0" "hp_maps h 0 = [''vllm:q'' \<mapsto> Dec 1 0]" using scraped_once_run by blast
  obtain h1 where start: "heap_scrape_start ''d'' h = (Some 0, h1)"
    using h(2,3) by (simp add: heap_scrape_start_def heap_get_bucket_def is_vllm_recipe_def Let_def)
  obtain m h2 where open_map: "heap_scrape_open 0 h1 = (m, h2)" by fastforce
  from marshal_later [of h "''d''" 0 "\<lambda>_. None"] h(2,4,5)
  have "map_option dm_engine_metrics (metrics_snapshot (\<lambda>_. None) (abs_collector h) ''d'') = Some (Some [''vllm:q'' \<mapsto> Dec 1 0])" by auto
  with heartbeat_shows_half_a_scrape [OF h(1) start open_map refl, of 1 "[''vllm:q 2'', ''vllm:q 1'']" "\<lambda>_. None"]
  have "map_option dm_engine_metrics (map_option (marshal_metric (heap_scrape_lines m (take 1 [''vllm:q 2'', ''vllm:q 1'']) h2))
    (heap_snapshot (\<lambda>_. None) h ''d'')) = Some (Some [''vllm:q'' \<mapsto> Dec 2 0])"
    by (auto simp: metric_line metric_value)
  with h(1) start open_map show ?thesis by blast
qed

theorem scrape_around_unload_witness:
  "\<exists>h h1 m h2. heap_run scraped_once empty_heap = Some h \<and> heap_scrape_start ''d'' h = (Some 0, h1) \<and>
     heap_scrape_open 0 (heap_remove ''d'' h1) = (m, h2) \<and> abs_collector (heap_scrape_lines m [''vllm:q 2''] h2) ''d'' = None"
proof -
  obtain h where h: "heap_run scraped_once empty_heap = Some h" "hp_table h = [''d'' \<mapsto> 0]" "bo_recipe (hp_buckets h 0) = ''vllm''"
    using scraped_once_run by blast
  obtain h1 where start: "heap_scrape_start ''d'' h = (Some 0, h1)"
    using h(2,3) by (simp add: heap_scrape_start_def heap_get_bucket_def is_vllm_recipe_def Let_def)
  obtain m h2 where "heap_scrape_open 0 (heap_remove ''d'' h1) = (m, h2)" by fastforce
  with scrape_around_unload [OF h(1) start this, of "[''vllm:q 2'']"] h(1) start show ?thesis
    by (auto simp: remove_deployment_def)
qed

end
