(* ===== verification/Session_Close.thy ===== *)
theory Session_Close imports Shellbridge begin

text \<open>
  Closing a shell session while its read pump runs (internal/shellbridge/shell.go, \<open>Close\<close> and
  \<open>readPump\<close>). Both are goroutines that share the closed flag and the done channel. The callbacks of
  the session are recorded in the order they fire; the tunnel and the admin endpoint set all three.
\<close>

section \<open>Two goroutines\<close>

text \<open>
  The pump reads, delivers what it read, looks at the flag when the read failed, and waits for the exit
  status when the flag was not set. The done channel is closed when it has exited.
\<close>

datatype pump_phase =
    Reading
  | Delivering string "read_error option"
  | Checking read_error
  | Waiting read_error
  | Exited

text \<open>\<open>Close\<close> sets the flag and cancels, closes the stream, and returns; the mark tells whether by timeout.\<close>

datatype closer_phase = Idle | Flagged | AwaitingDone | Returned bool

record session_life =
  sl_closed :: bool
  sl_pump :: pump_phase
  sl_closer :: closer_phase
  sl_events :: "shell_event list"

definition new_life :: session_life where
  "new_life = \<lparr>sl_closed = False, sl_pump = Reading, sl_closer = Idle, sl_events = []\<rparr>"

datatype life_event =
    PumpRead string "read_error option"
  | PumpDeliver
  | PumpCheck
  | PumpWait "int \<times> read_error option"
  | CloseFlag
  | CloseStream
  | CloseReturn bool

text \<open>A step that is not the next one of its goroutine changes nothing.\<close>

definition pump_read :: "string \<Rightarrow> read_error option \<Rightarrow> session_life \<Rightarrow> session_life" where
  "pump_read d r l = (case sl_pump l of Reading \<Rightarrow> l\<lparr>sl_pump := Delivering d r\<rparr> | _ \<Rightarrow> l)"

definition pump_deliver :: "session_life \<Rightarrow> session_life" where
  "pump_deliver l =
     (case sl_pump l of
        Delivering d r \<Rightarrow>
          l\<lparr>sl_events := sl_events l @ (if d \<noteq> [] then [OnOutput d] else []),
            sl_pump := (case r of None \<Rightarrow> Reading | Some e \<Rightarrow> Checking e)\<rparr>
      | _ \<Rightarrow> l)"

definition pump_check :: "session_life \<Rightarrow> session_life" where
  "pump_check l =
     (case sl_pump l of Checking e \<Rightarrow> l\<lparr>sl_pump := (if sl_closed l then Exited else Waiting e)\<rparr> | _ \<Rightarrow> l)"

definition pump_wait :: "int \<times> read_error option \<Rightarrow> session_life \<Rightarrow> session_life" where
  "pump_wait wait l =
     (case sl_pump l of
        Waiting e \<Rightarrow> l\<lparr>sl_events := sl_events l @ [pump_end e wait], sl_pump := Exited\<rparr>
      | _ \<Rightarrow> l)"

text \<open>Only the first \<open>Close\<close> gets past the compare-and-swap.\<close>

definition close_flag :: "session_life \<Rightarrow> session_life" where
  "close_flag l = (if sl_closed l then l else l\<lparr>sl_closed := True, sl_closer := Flagged\<rparr>)"

definition close_stream :: "session_life \<Rightarrow> session_life" where
  "close_stream l = (case sl_closer l of Flagged \<Rightarrow> l\<lparr>sl_closer := AwaitingDone\<rparr> | _ \<Rightarrow> l)"

definition close_return :: "bool \<Rightarrow> session_life \<Rightarrow> session_life" where
  "close_return timeout l =
     (case sl_closer l of
        AwaitingDone \<Rightarrow> if timeout \<or> sl_pump l = Exited then l\<lparr>sl_closer := Returned timeout\<rparr> else l
      | _ \<Rightarrow> l)"

fun life_step :: "life_event \<Rightarrow> session_life \<Rightarrow> session_life" where
  "life_step (PumpRead d r) l = pump_read d r l"
| "life_step PumpDeliver l = pump_deliver l"
| "life_step PumpCheck l = pump_check l"
| "life_step (PumpWait wait) l = pump_wait wait l"
| "life_step CloseFlag l = close_flag l"
| "life_step CloseStream l = close_stream l"
| "life_step (CloseReturn timeout) l = close_return timeout l"

definition life_run :: "life_event list \<Rightarrow> session_life \<Rightarrow> session_life" where
  "life_run es l = fold life_step es l"

lemma life_run_simps [simp]:
  "life_run [] l = l" "life_run (e # es) l = life_run es (life_step e l)"
  by (simp_all add: life_run_def)

lemma life_run_append: "life_run (es @ fs) l = life_run fs (life_run es l)"
  by (simp add: life_run_def)

lemmas life_defs = pump_read_def pump_deliver_def pump_check_def pump_wait_def close_flag_def close_stream_def close_return_def

section \<open>The pump on its own\<close>

text \<open>The steps of the pump for the reads of \<open>read_pump\<close>, in a session nobody closes.\<close>

fun pump_steps :: "(string \<times> read_error option) list \<Rightarrow> int \<times> read_error option \<Rightarrow> life_event list" where
  "pump_steps [] wait = []"
| "pump_steps ((d, r) # reads) wait =
     [PumpRead d r, PumpDeliver] @ (case r of None \<Rightarrow> pump_steps reads wait | Some _ \<Rightarrow> [PumpCheck, PumpWait wait])"

lemma pump_alone:
  assumes "\<not> sl_closed l" and "sl_pump l = Reading"
  shows "sl_events (life_run (pump_steps reads wait) l) =
    sl_events l @ read_pump (map (\<lambda>(d, r). (d, map_option (\<lambda>e. (e, False)) r)) reads) wait"
  using assms
proof (induction reads arbitrary: l)
  case (Cons x reads)
  obtain d r where x: "x = (d, r)" by fastforce
  show ?case
  proof (cases r)
    case None
    let ?l = "life_step PumpDeliver (life_step (PumpRead d r) l)"
    have "\<not> sl_closed ?l" "sl_pump ?l = Reading" "sl_events ?l = sl_events l @ (if d \<noteq> [] then [OnOutput d] else [])"
      using Cons.prems None by (simp_all add: life_defs)
    with Cons.IH [of ?l] show ?thesis by (simp add: x None)
  qed (use Cons.prems in \<open>simp add: x life_defs\<close>)
qed simp

section \<open>What a close leaves to be reported\<close>

text \<open>
  What the pump may still report, by where it is and whether the flag is set: output and then an end,
  output only, one end, or nothing.
\<close>

fun allowed :: "pump_phase \<Rightarrow> bool \<Rightarrow> string list \<Rightarrow> shell_event list \<Rightarrow> bool" where
  "allowed Exited closed outs fin = (outs = [] \<and> fin = [])"
| "allowed (Waiting e) closed outs fin = (outs = [] \<and> (fin = [] \<or> (\<exists>wait. fin = [pump_end e wait])))"
| "allowed (Checking e) closed outs fin = (outs = [] \<and> (fin = [] \<or> \<not> closed \<and> (\<exists>wait. fin = [pump_end e wait])))"
| "allowed _ closed outs fin = (fin = [] \<or> \<not> closed \<and> (\<exists>e wait. fin = [pump_end e wait]))"

definition may_follow :: "session_life \<Rightarrow> shell_event list \<Rightarrow> bool" where
  "may_follow l evs \<longleftrightarrow> (\<exists>outs fin. evs = map OnOutput outs @ fin \<and> allowed (sl_pump l) (sl_closed l) outs fin)"

lemma may_followI: "allowed (sl_pump l) (sl_closed l) outs fin \<Longrightarrow> may_follow l (map OnOutput outs @ fin)"
  by (auto simp: may_follow_def)

lemma may_follow_nil [simp]: "may_follow l []"
  using may_followI [of l "[]" "[]"] by (cases "sl_pump l") simp_all

lemma allowed_open: "allowed ph True outs fin \<Longrightarrow> allowed ph False outs fin"
  by (cases ph) auto

lemma follow_deliver:
  assumes "sl_pump l = Delivering d r" and "may_follow (pump_deliver l) evs"
  shows "may_follow l ((if d \<noteq> [] then [OnOutput d] else []) @ evs)"
proof -
  obtain outs fin where o: "evs = map OnOutput outs @ fin" "allowed (sl_pump (pump_deliver l)) (sl_closed l) outs fin"
    using assms by (auto simp: may_follow_def pump_deliver_def)
  then have "allowed (sl_pump l) (sl_closed l) ((if d \<noteq> [] then [d] else []) @ outs) fin"
    using assms(1) by (cases r) (auto simp: pump_deliver_def)
  from may_followI [OF this] o(1) show ?thesis by (simp split: if_splits)
qed

lemma follow_check:
  "sl_pump l = Checking e \<Longrightarrow> may_follow (pump_check l) evs \<Longrightarrow> may_follow l evs"
  by (cases "sl_closed l") (auto simp: may_follow_def pump_check_def)

lemma follow_wait:
  assumes "sl_pump l = Waiting e" and "may_follow (pump_wait wait l) evs"
  shows "may_follow l ([pump_end e wait] @ evs)"
proof -
  have "evs = []" using assms by (auto simp: may_follow_def pump_wait_def)
  moreover have "allowed (sl_pump l) (sl_closed l) [] [pump_end e wait]" using assms(1) by (cases wait) auto
  ultimately show ?thesis using may_followI [of l "[]" "[pump_end e wait]"] by simp
qed

lemma follow_step:
  assumes "may_follow (life_step e l) evs"
  shows "\<exists>new. sl_events (life_step e l) = sl_events l @ new \<and> may_follow l (new @ evs)"
proof (cases e)
  case (PumpRead d r)
  with assms have "may_follow l evs"
    by (cases "sl_pump l") (auto simp: may_follow_def pump_read_def)
  with PumpRead show ?thesis by (intro exI [of _ "[]"]) (simp add: pump_read_def split: pump_phase.split)
next
  case PumpDeliver
  show ?thesis
  proof (cases "\<exists>d r. sl_pump l = Delivering d r")
    case True
    then obtain d r where d: "sl_pump l = Delivering d r" by blast
    from follow_deliver [OF d] assms PumpDeliver d show ?thesis
      by (intro exI [of _ "if d \<noteq> [] then [OnOutput d] else []"]) (simp add: pump_deliver_def)
  next
    case False
    then have "pump_deliver l = l" by (simp add: pump_deliver_def split: pump_phase.split)
    with assms PumpDeliver show ?thesis by simp
  qed
next
  case PumpCheck
  with assms follow_check [of l] have "may_follow l evs"
    by (cases "sl_pump l") (auto simp: pump_check_def)
  with PumpCheck show ?thesis by (intro exI [of _ "[]"]) (simp add: pump_check_def split: pump_phase.split)
next
  case (PumpWait wait)
  show ?thesis
  proof (cases "\<exists>e. sl_pump l = Waiting e")
    case True
    then obtain x where x: "sl_pump l = Waiting x" by blast
    from follow_wait [OF x] assms PumpWait x show ?thesis
      by (intro exI [of _ "[pump_end x wait]"]) (simp add: pump_wait_def)
  next
    case False
    then have "pump_wait wait l = l" by (simp add: pump_wait_def split: pump_phase.split)
    with assms PumpWait show ?thesis by simp
  qed
next
  case CloseFlag
  with assms have "may_follow l evs"
    by (cases "sl_closed l") (auto simp: may_follow_def close_flag_def intro: allowed_open)
  with CloseFlag show ?thesis by (intro exI [of _ "[]"]) (simp add: close_flag_def)
next
  case CloseStream
  with assms have "may_follow l evs" by (auto simp: may_follow_def close_stream_def split: closer_phase.splits)
  with CloseStream show ?thesis by (intro exI [of _ "[]"]) (simp add: close_stream_def split: closer_phase.split)
next
  case (CloseReturn t)
  with assms have "may_follow l evs" by (auto simp: may_follow_def close_return_def split: closer_phase.splits if_splits)
  with CloseReturn show ?thesis by (intro exI [of _ "[]"]) (simp add: close_return_def split: closer_phase.split)
qed

lemma follow_run: "\<exists>evs. sl_events (life_run es l) = sl_events l @ evs \<and> may_follow l evs"
proof (induction es arbitrary: l)
  case (Cons e es)
  from Cons.IH [of "life_step e l"] obtain evs where
    evs: "sl_events (life_run es (life_step e l)) = sl_events (life_step e l) @ evs" "may_follow (life_step e l) evs" by blast
  from follow_step [OF evs(2)] evs(1) show ?case by auto
qed simp

lemma returned_exited: "sl_closer (life_run es new_life) = Returned False \<Longrightarrow> sl_pump (life_run es new_life) = Exited"
proof -
  have "sl_closer l = Returned False \<longrightarrow> sl_pump l = Exited \<Longrightarrow>
    sl_closer (life_step e l) = Returned False \<longrightarrow> sl_pump (life_step e l) = Exited" for e l
    by (cases e; cases "sl_pump l"; cases "sl_closer l") (auto simp: life_defs split: if_splits)
  then have "sl_closer l = Returned False \<longrightarrow> sl_pump l = Exited \<Longrightarrow>
    sl_closer (life_run es l) = Returned False \<longrightarrow> sl_pump (life_run es l) = Exited" for l
    by (induction es arbitrary: l) auto
  from this [of new_life] show "sl_closer (life_run es new_life) = Returned False \<Longrightarrow> sl_pump (life_run es new_life) = Exited"
    by (simp add: new_life_def)
qed

text \<open>
  C38 (safety). What a close leaves to be reported, whatever the order of the two goroutines. After the flag
  is set the pump still delivers what its reads return, and no end of the session, unless it was
  already waiting for the exit status: then that one end still fires. Once \<open>Close\<close>
  has returned because the pump was done, nothing fires any more.
\<close>

theorem close_silences_session:
  assumes "l = life_run es new_life" and "sl_closed l"
  shows "(\<exists>outs fin. sl_events (life_run es' l) = sl_events l @ map OnOutput outs @ fin \<and>
      (fin = [] \<or> (\<exists>e wait. sl_pump l = Waiting e \<and> outs = [] \<and> fin = [pump_end e wait]))) \<and>
    (sl_closer l = Returned False \<longrightarrow> sl_events (life_run es' l) = sl_events l)"
proof -
  obtain outs fin where e: "sl_events (life_run es' l) = sl_events l @ map OnOutput outs @ fin" "allowed (sl_pump l) (sl_closed l) outs fin"
    using follow_run [of es' l] by (auto simp: may_follow_def)
  then have "fin = [] \<or> (\<exists>e wait. sl_pump l = Waiting e \<and> outs = [] \<and> fin = [pump_end e wait])"
    using assms(2) by (cases "sl_pump l") auto
  moreover have "outs = [] \<and> fin = []" if "sl_closer l = Returned False"
    using e(2) returned_exited [of es] that assms(1) by simp
  ultimately show ?thesis using e(1) by (intro conjI impI exI [of _ outs] exI [of _ fin]) simp_all
qed

text \<open>
  A session whose shell ends as the operator closes it: the pump found the flag unset, \<open>Close\<close> gave up
  waiting for it after two seconds, and the exit is reported after \<open>Close\<close> returned.
\<close>

definition close_during_wait :: "life_event list" where
  "close_during_wait = [PumpRead [] (Some ReadEOF), PumpDeliver, PumpCheck, CloseFlag, CloseStream, CloseReturn True]"

lemma exit_after_close:
  "sl_closer (life_run close_during_wait new_life) = Returned True \<and> sl_events (life_run close_during_wait new_life) = [] \<and>
   sl_events (life_run (close_during_wait @ [PumpWait (0, None)]) new_life) = [OnExit 0 []]"
  by (simp add: close_during_wait_def new_life_def life_defs pump_end_def)

theorem close_silences_session_witness:
  "sl_events (life_run [PumpRead ''x'' None, PumpDeliver, PumpRead [] (Some ReadEOF), PumpDeliver, PumpCheck, PumpWait (0, None)]
     (life_run [CloseFlag, CloseStream] new_life)) = [OnOutput ''x'']"
proof -
  have c: "sl_closed (life_run [CloseFlag, CloseStream] new_life)" by (simp add: new_life_def life_defs)
  from close_silences_session [OF refl c, of "[PumpRead ''x'' None, PumpDeliver, PumpRead [] (Some ReadEOF), PumpDeliver, PumpCheck, PumpWait (0, None)]"]
  show ?thesis by (simp add: new_life_def life_defs)
qed

text \<open>
  (equivalence). With nobody closing it the pump, step by step, reports what \<open>read_pump\<close> says: the
  reads up to the first that fails, and one end.
\<close>

theorem pump_steps_report:
  "sl_events (life_run (pump_steps reads wait) new_life) =
     read_pump (map (\<lambda>(d, r). (d, map_option (\<lambda>e. (e, False)) r)) reads) wait"
  using pump_alone [of new_life reads wait] by (simp add: new_life_def)

end
