(* ===== verification/Shell_Stack.thy ===== *)
theory Shell_Stack imports Sessions Tunnel begin

text \<open>
  From a frame to Docker: the factories of internal/shellbridge that main installs, the starters the
  tunnel calls, and an open frame followed through them when nothing else runs. The world is the
  daemon's together with the id of the exec instance or sidecar the session's backend remembers.
\<close>

section \<open>Backends and starters\<close>

record 'w shell_docker =
  sd_lister :: container_lister
  sd_exec :: "'w exec_docker"
  sd_exec_control :: "'w exec_control"
  sd_host :: "'w host_docker"
  sd_host_control :: "'w host_control"

definition docker_shell_backend :: "'w shell_docker \<Rightarrow> string \<Rightarrow> ('w \<times> string) shell_backend" where
  "docker_shell_backend dk cid =
     \<lparr>sb_spawn = (\<lambda>cfg (w, x). case docker_spawn (sd_exec dk) cid cfg w of
          (Inl e, w) \<Rightarrow> (Inl e, (w, x)) | (Inr eid, w) \<Rightarrow> (Inr (), (w, eid))),
      sb_resize = (\<lambda>cols rows (w, x). let (e, w) = docker_resize (sd_exec_control dk) x cols rows w in (e, (w, x)))\<rparr>"

text \<open>\<open>NewHostShellBackend\<close> reads the image from the environment.\<close>

definition host_shell_backend :: "'w shell_docker \<Rightarrow> (string \<Rightarrow> string) \<Rightarrow> ('w \<times> string) shell_backend" where
  "host_shell_backend dk getenv =
     \<lparr>sb_spawn = (\<lambda>cfg (w, x). case host_spawn (sd_host dk) (host_shell_image getenv) cfg w of
          (Inl e, w) \<Rightarrow> (Inl e, (w, x)) | (Inr cid, w) \<Rightarrow> (Inr (), (w, cid))),
      sb_resize = (\<lambda>cols rows (w, x). let (e, w) = host_resize (sd_host_control dk) x cols rows w in (e, (w, x)))\<rparr>"

text \<open>
  The package variables \<open>DefaultSpawn\<close>, \<open>DefaultHostSpawn\<close> and \<open>DefaultLogsSpawn\<close>. The factories
  keep the runtime, so each call sees what it answers then; \<open>known\<close> is \<open>DeploymentKnown\<close>.
\<close>

record 'w shell_defaults =
  df_spawn :: "(rt_view \<Rightarrow> shell_session_config \<Rightarrow> go_error + ('w \<times> string) shell_backend) option"
  df_host_spawn :: "(shell_session_config \<Rightarrow> go_error + ('w \<times> string) shell_backend) option"
  df_logs_spawn :: "(rt_view \<Rightarrow> (string \<Rightarrow> bool) \<Rightarrow> logs_session_config \<Rightarrow> go_error + logs_backend) option"

definition no_defaults :: "'w shell_defaults" where
  "no_defaults = \<lparr>df_spawn = None, df_host_spawn = None, df_logs_spawn = None\<rparr>"

definition set_docker_client :: "'w shell_docker \<Rightarrow> 'w shell_defaults \<Rightarrow> 'w shell_defaults" where
  "set_docker_client dk d = d\<lparr>df_spawn := Some (\<lambda>v cfg. case default_spawn (sd_lister dk) (Some v) cfg of
     Inl e \<Rightarrow> Inl e | Inr cid \<Rightarrow> Inr (docker_shell_backend dk cid))\<rparr>"

definition set_docker_logs_backend :: "'w shell_docker \<Rightarrow> 'w shell_defaults \<Rightarrow> 'w shell_defaults" where
  "set_docker_logs_backend dk d =
     d\<lparr>df_logs_spawn := Some (\<lambda>v known cfg. default_logs_spawn (sd_lister dk) (Some v) known cfg)\<rparr>"

definition set_host_shell_backend :: "'w shell_docker \<Rightarrow> (string \<Rightarrow> string) \<Rightarrow> 'w shell_defaults \<Rightarrow> 'w shell_defaults" where
  "set_host_shell_backend dk getenv d = d\<lparr>df_host_spawn := Some (\<lambda>cfg. Inr (host_shell_backend dk getenv))\<rparr>"

text \<open>What main installs: nothing when the Docker client of the runtime has no raw client.\<close>

definition install_backends :: "'w shell_docker option \<Rightarrow> (string \<Rightarrow> string) \<Rightarrow> 'w shell_defaults \<Rightarrow> 'w shell_defaults" where
  "install_backends raw getenv d =
     (case raw of
        None \<Rightarrow> d
      | Some dk \<Rightarrow> set_host_shell_backend dk getenv (set_docker_logs_backend dk (set_docker_client dk d)))"

definition start_shell ::
  "'w shell_defaults \<Rightarrow> rt_view \<Rightarrow> shell_session_config \<Rightarrow> 'w \<times> string \<Rightarrow> (go_error + shell_session_config) \<times> 'w \<times> string" where
  "start_shell d v cfg st = start_shell_with (map_option (\<lambda>f. f v) (df_spawn d)) cfg st"

definition start_host_shell ::
  "'w shell_defaults \<Rightarrow> shell_session_config \<Rightarrow> 'w \<times> string \<Rightarrow> (go_error + shell_session_config) \<times> 'w \<times> string" where
  "start_host_shell d cfg st = start_shell_with (df_host_spawn d) cfg st"

definition start_logs ::
  "'w shell_defaults \<Rightarrow> rt_view \<Rightarrow> (string \<Rightarrow> bool) \<Rightarrow> logs_session_config \<Rightarrow> go_error + logs_session_config \<times> logs_backend" where
  "start_logs d v known cfg = start_logs_with (map_option (\<lambda>f. f v known) (df_logs_spawn d)) cfg"

section \<open>An open, from the frame to the session\<close>

text \<open>The starter of a shell that is being opened.\<close>

definition run_starter ::
  "'w shell_defaults \<Rightarrow> rt_view \<Rightarrow> pending_open \<Rightarrow> 'w \<times> string \<Rightarrow> (go_error + shell_session_config) \<times> 'w \<times> string" where
  "run_starter d v q st =
     (if op_starter q = StartHostShell then start_host_shell d (op_config q) st else start_shell d v (op_config q) st)"

text \<open>\<open>handleShellOpen\<close> in goroutine \<open>n\<close> with nothing in between; \<open>s\<close> is the session it would start.\<close>

definition handle_shell_open ::
  "'w shell_defaults \<Rightarrow> rt_view \<Rightarrow> nat \<Rightarrow> nat \<Rightarrow> shell_open_body \<Rightarrow> tunnel \<times> 'w \<times> string \<Rightarrow> tunnel \<times> 'w \<times> string" where
  "handle_shell_open d v n s b y =
     (let (t, st) = y; t = shell_open n b t in
      case tn_opening t n of
        None \<Rightarrow> (t, st)
      | Some q \<Rightarrow> (let (r, st) = run_starter d v q st in (open_done n (map_sum id (\<lambda>_. s) r) t, st)))"

text \<open>\<open>handleLogsOpen\<close> likewise, with the backend the session reads from.\<close>

definition handle_logs_open ::
  "'w shell_defaults \<Rightarrow> rt_view \<Rightarrow> (string \<Rightarrow> bool) \<Rightarrow> nat \<Rightarrow> nat \<Rightarrow> logs_open_body \<Rightarrow> tunnel \<Rightarrow> tunnel \<times> logs_backend option" where
  "handle_logs_open d v known n s b t =
     (let t = logs_open n b t in
      case tn_opening t n of
        None \<Rightarrow> (t, None)
      | Some q \<Rightarrow>
          (let r = start_logs d v known \<lparr>lc_deployment = cfg_deployment (op_config q), lc_container = cfg_container (op_config q), lc_tail = 0\<rparr>
           in (open_done n (map_sum id (\<lambda>_. s) r) t, case r of Inl _ \<Rightarrow> None | Inr (cfg, lb) \<Rightarrow> Some lb)))"

section \<open>Properties\<close>

text \<open>The command line of a shell once the default is filled in.\<close>

definition effective_config :: "shell_open_body \<Rightarrow> shell_session_config" where
  "effective_config b = (let cfg = shell_config_of b in if cfg_shell cfg = [] then cfg\<lparr>cfg_shell := ''/bin/bash''\<rparr> else cfg)"

text \<open>What Docker is asked for an open, and how the terminal is sized afterwards.\<close>

definition open_on_docker ::
  "'w shell_docker \<Rightarrow> (string \<Rightarrow> string) \<Rightarrow> rt_view \<Rightarrow> shell_open_body \<Rightarrow> 'w \<Rightarrow> (go_error + string) \<times> 'w" where
  "open_on_docker dk getenv v b w =
     (if so_deployment_id b = [] \<and> so_container_id b = []
      then host_spawn (sd_host dk) (host_shell_image getenv) (effective_config b) w
      else case resolve_container (sd_lister dk) (Some v) (so_container_id b) (so_deployment_id b) of
             Inl e \<Rightarrow> (Inl e, w)
           | Inr cid \<Rightarrow> docker_spawn (sd_exec dk) cid (effective_config b) w)"

definition size_on_docker :: "'w shell_docker \<Rightarrow> shell_open_body \<Rightarrow> string \<Rightarrow> 'w \<Rightarrow> 'w" where
  "size_on_docker dk b x w =
     (let cols = uint16safe (so_cols b); rows = uint16safe (so_rows b) in
      if cols > 0 \<and> rows > 0
      then snd (if so_deployment_id b = [] \<and> so_container_id b = [] then host_resize (sd_host_control dk) x cols rows w
                else docker_resize (sd_exec_control dk) x cols rows w)
      else w)"

lemma shell_open_fresh:
  assumes "so_stream_id b \<noteq> []" and "\<not> tn_disposed t" and "tn_shells t (so_stream_id b) = None"
  shows "shell_open n b t = t\<lparr>tn_opening := (tn_opening t)(n \<mapsto>
    \<lparr>op_stream = so_stream_id b, op_logs = False, op_starter = starter_of b, op_config = shell_config_of b\<rparr>)\<rparr>"
  using assms by (simp add: shell_open_def Let_def)

lemma open_done_shell:
  assumes "tn_opening t n = None" and "\<not> tn_disposed t"
  shows "open_done n r (t\<lparr>tn_opening := (tn_opening t)(n \<mapsto> \<lparr>op_stream = sid, op_logs = False, op_starter = st, op_config = c\<rparr>)\<rparr>) =
    (case r of Inl e \<Rightarrow> send_error sid (err_text e) t | Inr s \<Rightarrow> t\<lparr>tn_shells := (tn_shells t)(sid \<mapsto> s)\<rparr>)"
proof -
  have "(tn_opening t)(n := None) = tn_opening t" using assms(1) by (simp add: fun_upd_idem)
  then show ?thesis using assms(2)
    by (cases r) (simp_all add: open_done_def shell_started_def send_error_def send_body_def Let_def)
qed

lemma start_on_docker:
  assumes "open_on_docker dk getenv v b w = (r, w')"
    and "q = \<lparr>op_stream = sid, op_logs = False, op_starter = starter_of b, op_config = shell_config_of b\<rparr>"
  shows "run_starter (install_backends (Some dk) getenv no_defaults) v q (w, x) =
    (case r of Inl e \<Rightarrow> (Inl e, w', x) | Inr i \<Rightarrow> (Inr (effective_config b), size_on_docker dk b i w', i))"
proof -
  have cfg: "cfg_cols (effective_config b) = uint16safe (so_cols b)" "cfg_rows (effective_config b) = uint16safe (so_rows b)"
    "cfg_container (effective_config b) = so_container_id b" "cfg_deployment (effective_config b) = so_deployment_id b"
    by (simp_all add: effective_config_def shell_config_of_def Let_def)
  have start: "start_shell_with (Some f) (shell_config_of b) y = (case f (effective_config b) of Inl e \<Rightarrow> (Inl e, y)
      | Inr k \<Rightarrow> (case sb_spawn k (effective_config b) y of (Inl e, y) \<Rightarrow> (Inl e, y)
          | (Inr _, y) \<Rightarrow> (Inr (effective_config b),
              if uint16safe (so_cols b) > 0 \<and> uint16safe (so_rows b) > 0
              then snd (sb_resize k (uint16safe (so_cols b)) (uint16safe (so_rows b)) y) else y)))" for f y
    unfolding start_shell_with_def option.case Let_def effective_config_def [symmetric, unfolded Let_def] cfg ..
  show ?thesis
  proof (cases "so_deployment_id b = [] \<and> so_container_id b = []")
    case True
    then show ?thesis using assms
      by (simp add: run_starter_def starter_of_def start_host_shell_def install_backends_def set_host_shell_backend_def start
          open_on_docker_def host_shell_backend_def size_on_docker_def Let_def split_def split: sum.splits)
  next
    case False
    then show ?thesis using assms
      by (auto simp: run_starter_def starter_of_def start_shell_def install_backends_def set_host_shell_backend_def
          set_docker_logs_backend_def set_docker_client_def default_spawn_def start cfg open_on_docker_def docker_shell_backend_def
          size_on_docker_def Let_def split_def split: sum.splits)
  qed
qed

lemma shell_stack_open:
  assumes "so_stream_id b \<noteq> []" and "\<not> tn_disposed t" and "tn_shells t (so_stream_id b) = None" and "tn_opening t n = None"
    and "open_on_docker dk getenv v b w = (r, w')"
  shows "handle_shell_open (install_backends (Some dk) getenv no_defaults) v n s b (t, w, x) =
    (case r of
       Inl e \<Rightarrow> (send_error (so_stream_id b) (err_text e) t, w', x)
     | Inr i \<Rightarrow> (t\<lparr>tn_shells := (tn_shells t)(so_stream_id b \<mapsto> s)\<rparr>, size_on_docker dk b i w', i))"
  using start_on_docker [OF assms(5) refl] open_done_shell [OF assms(4,2)]
  by (simp add: handle_shell_open_def shell_open_fresh [OF assms(1-3)] Let_def split: sum.split)

text \<open>What the two kinds of session are, as requests to the daemon and its answers.\<close>

definition exec_request :: "string \<Rightarrow> string \<Rightarrow> exec_options" where
  "exec_request shell user =
     \<lparr>xo_stdin = True, xo_stdout = True, xo_stderr = True, xo_tty = True, xo_cmd = [shell], xo_user = user\<rparr>"

definition exec_opened :: "'w exec_docker \<Rightarrow> string \<Rightarrow> string \<Rightarrow> string \<Rightarrow> 'w \<Rightarrow> string \<Rightarrow> 'w \<Rightarrow> bool" where
  "exec_opened xd cid shell user w i w' \<longleftrightarrow>
     (\<exists>w1. (xd_create xd cid (exec_request shell user) w = (Inr i, w1) \<or>
            shell \<noteq> ''/bin/sh'' \<and> (\<exists>e w0. xd_create xd cid (exec_request shell user) w = (Inl e, w0) \<and>
              xd_create xd cid (exec_request ''/bin/sh'' user) w0 = (Inr i, w1))) \<and>
           xd_attach xd i w1 = (None, w'))"

definition sidecar_request :: "string \<Rightarrow> string \<Rightarrow> string \<Rightarrow> host_container" where
  "sidecar_request img shell user =
     \<lparr>hc_image = img,
      hc_cmd = [''nsenter'', ''-t'', ''1'', ''-m'', ''-u'', ''-i'', ''-n'', ''-p'', ''--''] @
        (if user = [] \<or> user = ''root'' then [shell, ''-l''] else [''su'', ''-'', user, ''-s'', shell]),
      hc_open_stdin = True, hc_stdin = True, hc_stdout = True, hc_stderr = True, hc_env = [''TERM=xterm-256color''], hc_tty = True,
      hc_privileged = True, hc_namespaces = [(''pid'', ''host''), (''network'', ''host''), (''ipc'', ''host''), (''uts'', ''host'')],
      hc_auto_remove = True, hc_security_opt = [''apparmor=unconfined'', ''seccomp=unconfined'']\<rparr>"

definition sidecar_opened :: "'w host_docker \<Rightarrow> host_container \<Rightarrow> 'w \<Rightarrow> string \<Rightarrow> 'w \<Rightarrow> bool" where
  "sidecar_opened hk spec w i w' \<longleftrightarrow>
     (\<exists>w0 w1 w2. ensure_image hk (hc_image spec) w = (None, w0) \<and> hd_create hk spec w0 = (Inr i, w1) \<and>
        hd_attach hk i w1 = (None, w2) \<and> hd_start hk i w2 = (None, w'))"

text \<open>A sidecar that was created and could not be attached or started is removed last.\<close>

definition sidecar_discarded :: "'w host_docker \<Rightarrow> host_container \<Rightarrow> 'w \<Rightarrow> 'w \<Rightarrow> bool" where
  "sidecar_discarded hk spec w w' \<longleftrightarrow>
     (\<forall>w0 w1 i. ensure_image hk (hc_image spec) w = (None, w0) \<longrightarrow> hd_create hk spec w0 = (Inr i, w1) \<longrightarrow>
        (\<exists>w2. w' = snd (hd_remove hk i w2)))"

lemma exec_spawn_cases:
  assumes "docker_spawn xd cid cfg w = (r, w')" and "shell = (if cfg_shell cfg = [] then ''/bin/bash'' else cfg_shell cfg)"
  shows "case r of Inr i \<Rightarrow> exec_opened xd cid shell (cfg_user cfg) w i w'
    | Inl e \<Rightarrow> (\<forall>i w2. \<not> exec_opened xd cid shell (cfg_user cfg) w i w2)"
proof -
  define ask where "ask sh = xd_create xd cid (exec_request sh (cfg_user cfg))" for sh
  define created where "created = (case ask shell w of
      (Inl e, w0) \<Rightarrow> if shell \<noteq> ''/bin/sh'' then ask ''/bin/sh'' w0 else (Inl e, w0)
    | (Inr i, w0) \<Rightarrow> (Inr i, w0))"
  have spawn: "docker_spawn xd cid cfg w = (case created of
      (Inl e, w1) \<Rightarrow> (Inl (wrap_err ''exec create'' e), w1)
    | (Inr i, w1) \<Rightarrow> (case xd_attach xd i w1 of
        (Some e, w2) \<Rightarrow> (Inl (wrap_err ''exec attach'' e), w2) | (None, w2) \<Rightarrow> (Inr i, w2)))"
    by (simp add: docker_spawn_def created_def ask_def exec_request_def assms(2) [symmetric] Let_def split: sum.split prod.split)
  have opened: "exec_opened xd cid shell (cfg_user cfg) w i w2 \<longleftrightarrow>
      (\<exists>w1. created = (Inr i, w1) \<and> xd_attach xd i w1 = (None, w2))" for i w2
    by (auto simp: exec_opened_def created_def ask_def split: sum.split prod.split)
  show ?thesis using assms(1) unfolding spawn opened by (auto split: sum.splits prod.splits option.splits)
qed

lemma sidecar_spawn_cases:
  assumes "host_spawn hk img cfg w = (r, w')" and "shell = (if cfg_shell cfg = [] then ''/bin/bash'' else cfg_shell cfg)"
    and "spec = sidecar_request img shell (cfg_user cfg)"
  shows "case r of Inr i \<Rightarrow> sidecar_opened hk spec w i w'
    | Inl e \<Rightarrow> (\<forall>i w2. \<not> sidecar_opened hk spec w i w2) \<and> sidecar_discarded hk spec w w'"
proof -
  have "build_host_container cfg img = spec" "hc_image spec = img"
    using assms(2,3) by (auto simp: build_host_container_def build_nsenter_cmd_def sidecar_request_def Let_def)
  note spec = this
  obtain a w0 where img: "ensure_image hk img w = (a, w0)" by fastforce
  obtain c w1 where created: "hd_create hk spec w0 = (c, w1)" by fastforce
  show ?thesis
  proof (cases "\<exists>i. a = None \<and> c = Inr i")
    case False
    with assms(1) img created show ?thesis
      by (cases a; cases c) (auto simp: host_spawn_def spec sidecar_opened_def sidecar_discarded_def)
  next
    case True
    then obtain i where ok: "a = None" "c = Inr i" by blast
    obtain x w2 where att: "hd_attach hk i w1 = (x, w2)" by fastforce
    obtain y w3 where start: "hd_start hk i w2 = (y, w3)" by fastforce
    from assms(1) img created ok att start show ?thesis
      by (cases x; cases y) (auto simp: host_spawn_def spec sidecar_opened_def sidecar_discarded_def)
  qed
qed

lemma resolve_targeted:
  assumes "\<not> (dep = [] \<and> cid = [])"
  shows "resolve_container cli (Some v) cid dep =
    (let c = (if cid \<noteq> [] then cid else if rv_container v dep \<noteq> [] then rv_container v dep else lookup_by_deployment_id cli dep)
     in if c = [] then Inl (no_container dep) else Inr c)"
  using assms by (simp add: resolve_container_def Let_def)

lemma size_spelled:
  "size_on_docker dk b i w =
    (if i \<noteq> [] \<and> 0 < so_cols b \<and> so_cols b \<le> 0xffff \<and> 0 < so_rows b \<and> so_rows b \<le> 0xffff
     then snd (if so_deployment_id b = [] \<and> so_container_id b = []
               then hx_resize (sd_host_control dk) i (nat (so_rows b)) (nat (so_cols b)) w
               else xc_resize (sd_exec_control dk) i (nat (so_rows b)) (nat (so_cols b)) w)
     else w)"
proof -
  have u: "unat (uint16safe k) = (if 0 < k \<and> k \<le> 0xffff then nat k else 0)" for k
    unfolding unat_eq_nat_uint using uint16safe_cases [of k] by (cases "0 < k \<and> k \<le> 0xffff") simp_all
  have p: "0 < uint16safe k \<longleftrightarrow> 0 < k \<and> k \<le> 0xffff" for k
    unfolding word_less_nat_alt u by simp
  show ?thesis
  proof (cases "0 < so_cols b \<and> so_cols b \<le> 0xffff \<and> 0 < so_rows b \<and> so_rows b \<le> 0xffff")
    case True
    then show ?thesis unfolding size_on_docker_def docker_resize_def host_resize_def p u Let_def by simp
  next
    case False
    then show ?thesis unfolding size_on_docker_def p Let_def by auto
  qed
qed

text \<open>
  C39 (functional). What a shell open asks of Docker. A frame that names nothing starts the host's
  sidecar: the image is made present, then a container is created, attached and started that is
  privileged, in the host's namespaces, removed on exit and runs the shell under nsenter, as the user
  asked for. A frame that names a container, or a deployment whose container the runtime or else the
  daemon knows, gets an exec instance there with a terminal, the user and the shell asked for
  (/bin/bash by default, /bin/sh when that one cannot be created), attached. The stream is registered
  exactly when Docker did all of this, with the terminal size set when it fits 16 bits; otherwise the
  stream gets one error and keeps nothing, and a sidecar that was created is removed.
\<close>

theorem open_reaches_docker:
  assumes "so_stream_id b \<noteq> []" and "\<not> tn_disposed t" and "tn_shells t (so_stream_id b) = None" and "tn_opening t n = None"
    and "handle_shell_open (install_backends (Some dk) getenv no_defaults) v n s b (t, w, x) = (t', w', x')"
    and "shell = (if so_shell b = [] then ''/bin/bash'' else so_shell b)"
    and "untargeted \<longleftrightarrow> so_deployment_id b = [] \<and> so_container_id b = []"
    and "sidecar = sidecar_request (host_shell_image getenv) shell (so_user b)"
    and "cid = (if so_container_id b \<noteq> [] then so_container_id b
                else if rv_container v (so_deployment_id b) \<noteq> [] then rv_container v (so_deployment_id b)
                else lookup_by_deployment_id (sd_lister dk) (so_deployment_id b))"
    and opened: "\<And>i w2. opened i w2 \<longleftrightarrow>
      (if untargeted then sidecar_opened (sd_host dk) sidecar w i w2
       else cid \<noteq> [] \<and> exec_opened (sd_exec dk) cid shell (so_user b) w i w2)"
  shows "if \<exists>i w2. opened i w2
    then \<exists>i w2. opened i w2 \<and> t' = t\<lparr>tn_shells := (tn_shells t)(so_stream_id b \<mapsto> s)\<rparr> \<and> x' = i \<and>
      w' = (if i \<noteq> [] \<and> 0 < so_cols b \<and> so_cols b \<le> 0xffff \<and> 0 < so_rows b \<and> so_rows b \<le> 0xffff
            then snd (if untargeted then hx_resize (sd_host_control dk) i (nat (so_rows b)) (nat (so_cols b)) w2
                      else xc_resize (sd_exec_control dk) i (nat (so_rows b)) (nat (so_cols b)) w2)
            else w2)
    else x' = x \<and> (\<exists>e. t' = send_error (so_stream_id b) (err_text e) t \<and> (\<not> untargeted \<and> cid = [] \<longrightarrow> e = no_container (so_deployment_id b) \<and> w' = w)) \<and>
      (untargeted \<longrightarrow> sidecar_discarded (sd_host dk) sidecar w w')"
proof -
  obtain r w2 where r: "open_on_docker dk getenv v b w = (r, w2)" by fastforce
  have user: "cfg_user (effective_config b) = so_user b"
    and sh: "shell = (if cfg_shell (effective_config b) = [] then ''/bin/bash'' else cfg_shell (effective_config b))"
    using assms(6) by (simp_all add: effective_config_def shell_config_of_def Let_def)
  have spec: "case r of Inr i \<Rightarrow> opened i w2
    | Inl e \<Rightarrow> (\<forall>i w2. \<not> opened i w2) \<and> (\<not> untargeted \<and> cid = [] \<longrightarrow> e = no_container (so_deployment_id b) \<and> w2 = w) \<and>
        (untargeted \<longrightarrow> sidecar_discarded (sd_host dk) sidecar w w2)"
  proof (cases untargeted)
    case True
    with r assms(7) have "host_spawn (sd_host dk) (host_shell_image getenv) (effective_config b) w = (r, w2)"
      by (simp add: open_on_docker_def)
    from sidecar_spawn_cases [OF this sh] True show ?thesis
      by (simp add: opened assms(8) user split: sum.splits)
  next
    case False
    have "resolve_container (sd_lister dk) (Some v) (so_container_id b) (so_deployment_id b) =
        (if cid = [] then Inl (no_container (so_deployment_id b)) else Inr cid)"
      using False assms(7) unfolding assms(9) by (subst resolve_targeted) (auto simp: Let_def)
    with r False assms(7) have s: "(if cid = [] then (Inl (no_container (so_deployment_id b)), w)
        else docker_spawn (sd_exec dk) cid (effective_config b) w) = (r, w2)"
      by (auto simp: open_on_docker_def split: if_splits)
    show ?thesis
    proof (cases "cid = []")
      case True
      with s False show ?thesis by (auto simp: opened)
    next
      case c: False
      with s have "docker_spawn (sd_exec dk) cid (effective_config b) w = (r, w2)" by simp
      from exec_spawn_cases [OF this sh] c False show ?thesis by (simp add: opened user split: sum.splits)
    qed
  qed
  show ?thesis
  proof (cases r)
    case (Inr i)
    with spec have "opened i w2" by simp
    moreover have "t' = t\<lparr>tn_shells := (tn_shells t)(so_stream_id b \<mapsto> s)\<rparr> \<and> x' = i \<and> w' = size_on_docker dk b i w2"
      using shell_stack_open [OF assms(1-4) r, of s x] assms(5) Inr by auto
    ultimately have "opened i w2 \<and> t' = t\<lparr>tn_shells := (tn_shells t)(so_stream_id b \<mapsto> s)\<rparr> \<and> x' = i \<and>
        w' = (if i \<noteq> [] \<and> 0 < so_cols b \<and> so_cols b \<le> 0xffff \<and> 0 < so_rows b \<and> so_rows b \<le> 0xffff
          then snd (if untargeted then hx_resize (sd_host_control dk) i (nat (so_rows b)) (nat (so_cols b)) w2
                    else xc_resize (sd_exec_control dk) i (nat (so_rows b)) (nat (so_cols b)) w2)
          else w2)" unfolding size_spelled assms(7) by simp
    then show ?thesis by (subst if_P) blast+
  next
    case (Inl e)
    with spec shell_stack_open [OF assms(1-4) r] assms(5) show ?thesis by auto
  qed
qed

text \<open>
  (error). A worker whose Docker client has no raw client answers every open: a shell with an
  error, logs with their end, each naming the missing backend, and nothing else happens.
\<close>

theorem missing_backends_are_reported:
  assumes "so_stream_id b \<noteq> []" and "\<not> tn_disposed t" and "tn_shells t (so_stream_id b) = None" and "tn_opening t n = None"
    and "lo_stream_id l \<noteq> []" and "tn_logs t (lo_stream_id l) = None"
  shows "handle_shell_open (install_backends None getenv no_defaults) v n s b (t, w, x) =
      (send_error (so_stream_id b) ''shellbridge: no shell backend configured'' t, w, x) \<and>
    handle_logs_open (install_backends None getenv no_defaults) v known n s l t =
      (send_logs_end (lo_stream_id l) ''shellbridge: no logs backend configured'' t, None)"
proof (rule conjI)
  have e: "err_text err_no_backend = ''shellbridge: no shell backend configured''"
    "err_text err_no_logs_backend = ''shellbridge: no logs backend configured''"
    by (simp_all add: err_no_backend_def err_no_logs_backend_def)
  show "handle_shell_open (install_backends None getenv no_defaults) v n s b (t, w, x) =
      (send_error (so_stream_id b) ''shellbridge: no shell backend configured'' t, w, x)"
    using open_done_shell [OF assms(4,2)]
    by (simp add: handle_shell_open_def shell_open_fresh [OF assms(1-3)] run_starter_def start_shell_def start_host_shell_def
        install_backends_def no_defaults_def start_shell_with_def e Let_def)
  have "(tn_opening t)(n := None) = tn_opening t" using assms(4) by (simp add: fun_upd_idem)
  then show "handle_logs_open (install_backends None getenv no_defaults) v known n s l t =
      (send_logs_end (lo_stream_id l) ''shellbridge: no logs backend configured'' t, None)"
    using assms(2,5,6)
    by (simp add: handle_logs_open_def logs_open_def start_logs_def install_backends_def no_defaults_def start_logs_with_def
        open_done_def logs_started_def send_logs_end_def send_body_def e Let_def)
qed

section \<open>Witnesses\<close>

text \<open>A daemon whose world is the list of what it was asked: containers without bash, and no host image.\<close>

definition logging_docker :: "string list shell_docker" where
  "logging_docker =
     \<lparr>sd_lister = None,
      sd_exec = \<lparr>xd_create = (\<lambda>cid opts w. (if xo_cmd opts = [''/bin/bash''] then Inl (Errorf ''no bash'' []) else Inr ''exec1'',
                    w @ [concat (xo_cmd opts) @ '' in '' @ cid @ '' as '' @ xo_user opts])),
                 xd_attach = (\<lambda>x w. (None, w @ [''attach '' @ x]))\<rparr>,
      sd_exec_control = \<lparr>xc_resize = (\<lambda>x h c w. (None, w @ [''size '' @ x])), xc_exit_code = (\<lambda>x w. (Inr 0, w))\<rparr>,
      sd_host = \<lparr>hd_images = (\<lambda>w. (Inr [], w)), hd_pull = (\<lambda>i w. (Some (Errorf ''offline'' []), w)), hd_drain = (\<lambda>w. (None, w)),
                 hd_create = (\<lambda>c w. (Inr ''h'', w)), hd_attach = (\<lambda>c w. (None, w)), hd_start = (\<lambda>c w. (None, w)),
                 hd_remove = (\<lambda>c w. (None, w))\<rparr>,
      sd_host_control = \<lparr>hx_resize = (\<lambda>x h c w. (None, w)), hx_wait = (\<lambda>x w. (WaitStatus 0, w))\<rparr>\<rparr>"

definition open_for :: "string \<Rightarrow> shell_open_body" where
  "open_for dep = \<lparr>so_stream_id = ''s'', so_shell = [], so_user = ''alice'', so_deployment_id = dep, so_container_id = [],
     so_cols = 80, so_rows = 24\<rparr>"

theorem open_reaches_docker_witness:
  "\<exists>t. handle_shell_open (install_backends (Some logging_docker) (\<lambda>_. []) no_defaults)
      \<lparr>rv_container = (\<lambda>d. if d = ''d'' then ''c1'' else []), rv_loaded = []\<rparr> 0 7 (open_for ''d'') (new_tunnel, [], []) =
      (t, [''/bin/bash in c1 as alice'', ''/bin/sh in c1 as alice'', ''attach exec1'', ''size exec1''], ''exec1'') \<and> tn_shells t ''s'' = Some 7"
proof -
  let ?v = "\<lparr>rv_container = (\<lambda>d. if d = ''d'' then ''c1'' else []), rv_loaded = []\<rparr>"
  have f: "so_stream_id (open_for ''d'') = ''s''" "so_deployment_id (open_for ''d'') = ''d''" "so_container_id (open_for ''d'') = []"
    "so_shell (open_for ''d'') = []" "so_user (open_for ''d'') = ''alice''" "so_cols (open_for ''d'') = 80" "so_rows (open_for ''d'') = 24"
    by (simp_all add: open_for_def)
  obtain t' w' x' where run: "handle_shell_open (install_backends (Some logging_docker) (\<lambda>_. []) no_defaults) ?v 0 7
      (open_for ''d'') (new_tunnel, [], []) = (t', w', x')" by (metis prod_cases3)
  have o: "exec_opened (sd_exec logging_docker) ''c1'' ''/bin/bash'' ''alice'' [] i w2 \<longleftrightarrow>
      i = ''exec1'' \<and> w2 = [''/bin/bash in c1 as alice'', ''/bin/sh in c1 as alice'', ''attach exec1'']" for i w2
    by (auto simp: exec_opened_def exec_request_def logging_docker_def)
  show ?thesis
    using open_reaches_docker [OF _ _ _ _ run refl refl refl refl refl] run unfolding f
    by (simp add: o new_tunnel_def) (simp add: logging_docker_def)
qed

theorem missing_backends_are_reported_witness:
  "handle_shell_open (install_backends None (\<lambda>_. []) no_defaults) \<lparr>rv_container = (\<lambda>_. []), rv_loaded = []\<rparr> 0 7 (open_for [])
      (new_tunnel, (), []) = (send_error ''s'' ''shellbridge: no shell backend configured'' new_tunnel, (), [])"
proof -
  let ?l = "\<lparr>lo_stream_id = ''l'', lo_deployment_id = [], lo_container_id = []\<rparr>"
  have "so_stream_id (open_for []) = ''s''" by (simp add: open_for_def)
  with conjunct1 [OF missing_backends_are_reported [of "open_for []" new_tunnel 0 ?l]] show ?thesis
    by (simp add: new_tunnel_def)
qed

end
