(* ===== verification/Spec2Isabelle.thy ===== *)
theory Spec2Isabelle imports Ports Histogram Protocol Collector GPU_Allocator Dedup Group_Recipes Pull_Progress
  Ollama_Pull Group_Lifecycle Registry Dispatcher Auth Proxy Shellbridge Tunnel Channel Telemetry Config_Env
  Cloudenv Sessions Docker_Engine Admin Host_Telemetry Worker Readiness
  Isolation Service Orphans Port_Use Serving_Table Handlers Stale_Streams Writers Supervisor Wire_Text Collector_Heap
  Session_Close Shell_Stack begin

text \<open>
  The inferia worker runs model servers as Docker containers on a GPU host on behalf of a control plane.
  Its main program (cmd/worker/main.go) reads the configuration, registers the host, and then serves two
  sides. On the control channel, a WebSocket it dials and redials, it receives load and unload commands
  and frames for shell and log sessions, and reports heartbeats and results. On its HTTP port it
  authenticates inference requests and proxies them to the containers.

  \<^bold>\<open>How the parts interact.\<close> The channel (internal/control) passes a command through the deduplication
  window to the dispatcher (internal/dispatcher). The dispatcher assigns GPUs, lets a recipe
  (internal/runtime/recipes, with the engine defaults of internal/config) turn the request into container
  plans, and has the runtime (internal/runtime) pull, create, start and probe the containers through the
  Docker client (internal/runtime/dockerclient). A group of prefill and decode containers is entered in
  the registry (internal/inference) that the proxy reads; requests are counted by the collector
  (internal/metrics). Session frames go to the tunnel (internal/control/shell\_tunnel.go), which starts
  sessions of internal/shellbridge; internal/admin offers the same sessions on the HTTP port.

  \<^bold>\<open>The theories and the code they model.\<close>
  \<^item> Prelude, Go\_Lib: shared lemma collections, the contract of keyed tables, and what the worker uses of
    Go's standard library on byte strings, decimals, fmt verbs and errors.
  \<^item> Ports, Histogram, Collector, Collector\_Heap, Deploy\_Group, Progress: portalloc.go; histogram.go and
    collector.go; the round robin of deployment.go; progress.go. Each has its state as a record and one
    function per method; Collector\_Heap has the collector's buckets and maps as objects with addresses.
  \<^item> Plans, GPU\_Profiles, Recipes, Group\_Recipes, Container\_Spec: plan.go and recipes.go, the profiles
    of internal/config/vllm, vllm/omni and sglang, the engine recipes, the two prefill/decode recipes, and
    spec.go, from a plan to what Docker is asked to run.
  \<^item> Docker\_Client, Docker\_Engine, Pull\_Progress: the interface of client.go as a record of operations
    with the contract \<open>docker_client\<close>, the in-memory client of fake.go and the engine over the Docker SDK
    as its two providers, and pull\_progress.go.
  \<^item> Runtime, Ollama\_Pull, Lifecycle, Group\_Lifecycle, Readiness, Isolation, Orphans, Port\_Use,
    Serving\_Table: runtime.go, state.go and ollama\_pull.go. Deployments are objects in a store, so that a call can go on with an
    object the table has dropped. \<open>worker_host\<close> extends the Docker contract to everything the runtime
    does to the host; \<open>port_host\<close> says where its ports come from. Orphans and Port\_Use have the
    histories of a worker, against its containers and against its ports.
  \<^item> Registry, GPU\_Allocator, Dispatcher: registry.go, gpuallocator.go, dispatcher.go.
  \<^item> Protocol, Dedup, Tunnel, Wire\_Text, Channel, Channel\_Runs, Handlers,
    Stale\_Streams, Writers: protocol.go, dedup.go,
    shell\_tunnel.go, channel.go and bootstrap.go. Tunnel has an inductive relation for the interleavings
    of handlers, session callbacks and the teardown, Wire\_Text what the JSON encoding leaves of a
    shell's output; Channel\_Runs has the runs of the channel over many connections with one handler at a
    time, Handlers the goroutines of the handlers, interleaved in any way, Stale\_Streams sessions
    and frames that outlive their stream or connection, Writers the mutex of a connection.
  \<^item> Auth, Proxy: middleware.go and store.go, with the file operations of an atomic write one by one, and
    proxy.go.
  \<^item> Shellbridge, Sessions, Session\_Close, Shell\_Stack, Admin: resolve.go, shell.go, host\_backend.go,
    logs.go, progress\_logs.go, and admin.go. Session\_Close has \<open>Close\<close> and the read pump as two
    goroutines, Shell\_Stack follows an open from its frame to what Docker is asked.
  \<^item> Telemetry, Host\_Telemetry: the parsers of internal/telemetry and the sampler of main.go.
  \<^item> Config\_Env, Cloudenv, Worker, Supervisor: config.go, detect.go, main up to the running server with
    the routes of healthz.go, and main from there to its shutdown.
  \<^item> Composition, Service: what the parts give together, from a load command on the channel to the answer
    of a request that carries the token.

  \<^bold>\<open>What is shown.\<close>
  \<^item> Containers: a load that fails leaves no container and no entry, one that returns an endpoint is
    running, and one whose daemon and model do their part ends so; a group load that fails removes
    its replicas; the readiness loop ends; deployments are isolated from each other; over
    whole histories no container on the host is unknown to the runtime, and it implements a table from
    deployments to endpoints. They rest on \<open>worker_host\<close>, which the in-memory client keeps;
    \<open>engine_meets_contract\<close> shows the Docker part for the real engine, from what the daemon documents.
  \<^item> Commands: a retry within the window is answered with the first outcome and executes nothing; each
    command is answered once on its connection, also with the handlers as interleaved goroutines, and the
    reconnect loop tears every connection down; a load never panics and holds GPUs of the host.
  \<^item> Inference: a load that was acknowledged is served by its container, a loaded group by its replicas in two phases;
    the gauge of active requests is balanced on every path; the token is required under /v1/.
  \<^item> Recipes: exactly the documented artifact URIs are accepted, every registered recipe builds a plan
    with a Docker specification, the static split of a GPU respects its bounds.
  \<^item> Sessions: no session is lost in any interleaving with fresh stream ids, a session ends once, its
    log lines do not depend on how reads cut the stream; admin and channel open the same sessions; what an
    open asks of Docker, and what a close leaves to be reported, is stated in full.
  \<^item> Metrics: the collector's objects implement its values; a heartbeat shares the engine metrics with the
    scraper.
  \<^item> Process: the shutdown after a signal ends with the server and the channel down.
  \<^item> Host: the configuration is accepted exactly under its documented rules, a restart does not register
    again, the GPUs announced are those enforced, telemetry stays within its bounds.
  \<^item> Defects: some theorems state what the code does where a comment or the intention says otherwise,
    among them \<open>host_shell_without_token\<close>, \<open>deployment_serves_1000_requests\<close>, \<open>ports_run_out\<close>,
    \<open>single_port_blocks_group\<close>, \<open>keystrokes_may_be_reordered\<close> and \<open>failed_listener_leaves_zombie\<close>. They
    describe the source as it is.

  \<^bold>\<open>Modelling decisions.\<close> A method is a function from its state to a result and the next state; errors are
  values, \<open>Inl\<close> or an option, and a panic is \<open>None\<close>. What the program calls outside itself is an argument:
  the Docker SDK (\<open>docker_sdk\<close>), the HTTP clients, url.Parse, the JSON codec, ParseFloat, clocks, random
  numbers and UUIDs, the router's matching of paths, and the texts of files under /proc. The theorems
  quantify over them, and name what they need of them as hypotheses. 64-bit counters, the 32-bit
  round-robin counters and 16-bit terminal sizes are words and wrap; other Go ints are unbounded where
  the code cannot come near their limit. A float64 is an exact rational where it is computed with, and
  its decimal where it is only carried. Case mapping and white space are those of ASCII. The iteration
  order of a map is a list argument, sort.Slice is a stable sort, and statements hold for every list.
  The readiness loop has fuel: one more than the timeout in nanoseconds, which is enough because the
  clock advances by at least one between two probes (\<open>readiness_loop_ends\<close>). Mutexes make methods
  atomic. Where the code gives a lock up in between, the steps are separate: the tunnel's opens, the
  deduplication window, the handlers of the channel, and the runtime's lookup of a deployment before its
  lock. In Handlers the dispatcher's part of a command is one step; the histories of Orphans take the
  operations of the runtime one after the other, and \<open>second_load_runs_orphaned\<close> shows what two at a
  time can do.

  \<^bold>\<open>Not modelled.\<close> The deadlines of a WebSocket connection and which of its loops ends first; the copying loops of
  hijacked connections and of a streamed body, which is one string; log output; the commands that
  read /proc, /dev and nvidia-smi; the transport settings of the HTTP clients. These are I/O or
  scheduling without a decision of the worker's own.
\<close>

end
